(* ===== verification/Prelude.thy ===== *)
theory Prelude
  imports Main "HOL-Library.Word"
begin

text \<open>
  Shared material of the development: the error values of \<^verbatim>\<open>core/error.hpp\<close>, the
  result type every fallible operation returns, decimal printing as \<^verbatim>\<open>std::to_string\<close>
  does it, and the generic list lemmas the components share.

  A C++ function that may throw is a function into \<open>'a res\<close>: \<open>Inl\<close> is the thrown
  \<^verbatim>\<open>FabricError\<close> with its code and message, \<open>Inr\<close> the returned value.
\<close>

named_theorems codec_simps
  \<open>decoding one encoded field, for the round-trip proofs\<close>

named_theorems res_simps
  \<open>rewriting of sequenced fallible operations\<close>

section \<open>Errors as values\<close>

datatype ErrorCode =
    InvalidArgument
  | InvalidDemand
  | NegativeQuantity
  | NonFinite
  | Overflow
  | ImpossibleTopology
  | EmptyRequiredCandidateSet
  | InvalidCountRange
  | ImpossibleDuration
  | MalformedLocalityConstraint
  | InvalidPolicyGeneration
  | IllegalLifecycleTransition
  | StaleGeneration
  | StaleAuthority
  | UnknownState
  | IntegrityError
  | UnsupportedVersion
  | Corruption
  | ProtocolError
  | MalformedFrame
  | OversizedFrame
  | ChecksumMismatch
  | Truncation
  | ResourceCommitFailure
  | Cancelled
  | Superseded
  | Internal
  | NotImplemented
  | RevalidationRequired

fun ErrorCode_to_string :: "ErrorCode \<Rightarrow> string" where
  "ErrorCode_to_string InvalidArgument = ''INVALID_ARGUMENT''"
| "ErrorCode_to_string InvalidDemand = ''INVALID_DEMAND''"
| "ErrorCode_to_string NegativeQuantity = ''NEGATIVE_QUANTITY''"
| "ErrorCode_to_string NonFinite = ''NON_FINITE''"
| "ErrorCode_to_string Overflow = ''OVERFLOW''"
| "ErrorCode_to_string ImpossibleTopology = ''IMPOSSIBLE_TOPOLOGY''"
| "ErrorCode_to_string EmptyRequiredCandidateSet = ''EMPTY_REQUIRED_CANDIDATE_SET''"
| "ErrorCode_to_string InvalidCountRange = ''INVALID_COUNT_RANGE''"
| "ErrorCode_to_string ImpossibleDuration = ''IMPOSSIBLE_DURATION''"
| "ErrorCode_to_string MalformedLocalityConstraint = ''MALFORMED_LOCALITY''"
| "ErrorCode_to_string InvalidPolicyGeneration = ''INVALID_POLICY_GENERATION''"
| "ErrorCode_to_string IllegalLifecycleTransition = ''ILLEGAL_LIFECYCLE_TRANSITION''"
| "ErrorCode_to_string StaleGeneration = ''STALE_GENERATION''"
| "ErrorCode_to_string StaleAuthority = ''STALE_AUTHORITY''"
| "ErrorCode_to_string UnknownState = ''UNKNOWN_STATE''"
| "ErrorCode_to_string IntegrityError = ''INTEGRITY_ERROR''"
| "ErrorCode_to_string UnsupportedVersion = ''UNSUPPORTED_VERSION''"
| "ErrorCode_to_string Corruption = ''CORRUPTION''"
| "ErrorCode_to_string ProtocolError = ''PROTOCOL_ERROR''"
| "ErrorCode_to_string MalformedFrame = ''MALFORMED_FRAME''"
| "ErrorCode_to_string OversizedFrame = ''OVERSIZED_FRAME''"
| "ErrorCode_to_string ChecksumMismatch = ''CHECKSUM_MISMATCH''"
| "ErrorCode_to_string Truncation = ''TRUNCATION''"
| "ErrorCode_to_string ResourceCommitFailure = ''RESOURCE_COMMIT_FAILURE''"
| "ErrorCode_to_string Cancelled = ''CANCELLED''"
| "ErrorCode_to_string Superseded = ''SUPERSEDED''"
| "ErrorCode_to_string Internal = ''INTERNAL''"
| "ErrorCode_to_string NotImplemented = ''NOT_IMPLEMENTED''"
| "ErrorCode_to_string RevalidationRequired = ''REVALIDATION_REQUIRED''"

text \<open>\<^verbatim>\<open>class FabricError\<close>: a code and the message of the \<^verbatim>\<open>runtime_error\<close>.\<close>

datatype FabricError = FabricError (fe_code: ErrorCode) (fe_what: string)

type_synonym 'a res = "FabricError + 'a"

abbreviation throw :: "ErrorCode \<Rightarrow> string \<Rightarrow> 'a res" where
  "throw c m \<equiv> Inl (FabricError c m)"

definition res_bind :: "'a res \<Rightarrow> ('a \<Rightarrow> 'b res) \<Rightarrow> 'b res" where
  "res_bind m f = (case m of Inl e \<Rightarrow> Inl e | Inr x \<Rightarrow> f x)"

lemma res_bind_Inl [simp, res_simps]: "res_bind (Inl e) f = Inl e"
  by (simp add: res_bind_def)

lemma res_bind_Inr [simp, res_simps]: "res_bind (Inr x) f = f x"
  by (simp add: res_bind_def)

lemma res_bind_eq_Inr [res_simps]:
  "res_bind m f = Inr y \<longleftrightarrow> (\<exists>x. m = Inr x \<and> f x = Inr y)"
  by (cases m) simp_all

lemma res_bind_eq_Inl [res_simps]:
  "res_bind m f = Inl e \<longleftrightarrow> m = Inl e \<or> (\<exists>x. m = Inr x \<and> f x = Inl e)"
  by (cases m) simp_all

lemma res_bind_unit [res_simps]:
  "res_bind m (\<lambda>_. k) = Inr y \<longleftrightarrow> m = Inr () \<and> k = Inr y"
  by (cases m) simp_all

lemma if_throw_eq_Inr [res_simps]: "(if c then Inl e else m) = Inr y \<longleftrightarrow> \<not> c \<and> m = Inr y"
  by simp

section \<open>Decimal printing\<close>

text \<open>\<^verbatim>\<open>std::to_string\<close> and \<^verbatim>\<open>ostream << uint64_t\<close>: decimal digits, no padding.\<close>

fun digits_of :: "nat \<Rightarrow> nat list" where
  "digits_of n = (if n < 10 then [n] else digits_of (n div 10) @ [n mod 10])"

declare digits_of.simps [simp del]

definition digit_char :: "nat \<Rightarrow> char" where
  "digit_char d = char_of (48 + d)"

definition show_u64 :: "64 word \<Rightarrow> string" where
  "show_u64 w = map digit_char (digits_of (unat w))"

lemma digits_of_nonempty [simp]: "digits_of n \<noteq> []"
  by (subst digits_of.simps) simp

lemma digits_of_bound: "d \<in> set (digits_of n) \<Longrightarrow> d < 10"
proof (induction n rule: digits_of.induct)
  case (1 n)
  then show ?case
    by (cases "n < 10") (auto simp: digits_of.simps [of n])
qed

lemma digits_of_value: "foldl (\<lambda>a d. 10 * a + d) 0 (digits_of n) = n"
proof (induction n rule: digits_of.induct)
  case (1 n)
  then show ?case
    by (cases "n < 10") (auto simp: digits_of.simps [of n])
qed

lemma digits_of_inject: "digits_of m = digits_of n \<longleftrightarrow> m = n"
  by (metis digits_of_value)

end
