(* ===== verification/Binary64.thy ===== *)
theory Binary64
  imports Prelude
begin

text \<open>
  The C++ \<^verbatim>\<open>double\<close>: IEEE-754 binary64 values as their 64-bit patterns, with the operations
  the scheduler uses, rounded to nearest with ties to even. The persistence format stores the
  pattern itself (\<^verbatim>\<open>ByteWriter::put_double\<close> copies the bits), so the pattern is the value.

  A pattern is a sign bit and a \<^emph>\<open>magnitude\<close>, the low 63 bits read as a number. Magnitudes
  are ordered like the values they stand for; \<open>mag_inf\<close> is infinity and everything above it
  is a NaN. Every finite magnitude is a whole number of units of \<open>2 ^ -1074\<close>, and \<open>mag_val\<close>
  is that number, so all arithmetic is integer arithmetic followed by one rounding
  (\<open>round_mag\<close>).

  An operation whose result is a NaN returns one fixed quiet NaN: the payload an FPU would
  produce is not modelled (no operation of the scheduler reads it).
\<close>

section \<open>Magnitudes\<close>

definition hid :: nat where
  "hid = 2 ^ 52"

definition unit_one :: nat where
  "unit_one = 2 ^ 1074"

definition mag_inf :: nat where
  "mag_inf = 2047 * hid"

definition mag_val :: "nat \<Rightarrow> nat" where
  "mag_val u = (if u div hid = 0 then u mod hid
     else (hid + u mod hid) * 2 ^ (u div hid - 1))"

lemma hid_pos [simp]: "0 < hid"
  by (simp add: hid_def)

lemma unit_one_pos [simp]: "0 < unit_one"
  by (simp add: unit_one_def)

lemma mag_val_0 [simp]: "mag_val 0 = 0"
  by (simp add: mag_val_def)

lemma mag_val_Suc: "mag_val u < mag_val (Suc u)"
proof (cases "Suc (u mod hid) = hid")
  case True
  then have d: "Suc u div hid = Suc (u div hid)" and m: "Suc u mod hid = 0"
    by (simp_all add: div_Suc mod_Suc)
  have um: "u mod hid = hid - 1" using True by simp
  show ?thesis
  proof (cases "u div hid")
    case 0
    then show ?thesis using um d m by (simp add: mag_val_def)
  next
    case (Suc k)
    have "hid + (hid - 1) < 2 * hid" by (simp add: hid_def)
    then have "(hid + (hid - 1)) * 2 ^ k < 2 * hid * 2 ^ k" by simp
    then show ?thesis using um d m Suc by (simp add: mag_val_def mult.commute mult.left_commute)
  qed
next
  case False
  then have "Suc u div hid = u div hid" and "Suc u mod hid = Suc (u mod hid)"
    by (simp_all add: div_Suc mod_Suc)
  then show ?thesis by (simp add: mag_val_def)
qed

lemma mag_val_less: "u < v \<Longrightarrow> mag_val u < mag_val v"
  using lift_Suc_mono_less [of mag_val u v] mag_val_Suc by blast

lemma mag_val_less_iff [simp]: "mag_val u < mag_val v \<longleftrightarrow> u < v"
  by (metis linorder_less_linear mag_val_less order_less_asym)

lemma mag_val_le_iff [simp]: "mag_val u \<le> mag_val v \<longleftrightarrow> u \<le> v"
  by (simp add: linorder_not_less [symmetric])

lemma mag_val_eq_iff [simp]: "mag_val u = mag_val v \<longleftrightarrow> u = v"
  by (metis linorder_less_linear mag_val_less order_less_irrefl)

lemma mag_val_eq_0 [simp]: "mag_val u = 0 \<longleftrightarrow> u = 0"
  using mag_val_eq_iff [of u 0] by simp

section \<open>Rounding to nearest, ties to even\<close>

function shift_of :: "nat \<Rightarrow> nat" where
  "shift_of n = (if n < 2 * hid then 0 else Suc (shift_of (n div 2)))"
  by pat_completeness auto
termination
  by (relation "measure id") (auto simp: hid_def)

declare shift_of.simps [simp del]

lemma shift_of_upper: "n < 2 * hid * 2 ^ shift_of n"
proof (induction n rule: shift_of.induct)
  case (1 n)
  show ?case
  proof (cases "n < 2 * hid")
    case True
    then show ?thesis by (simp add: shift_of.simps [of n])
  next
    case False
    with "1" have "n div 2 < 2 * hid * 2 ^ shift_of (n div 2)" by simp
    then have "n < 2 * (2 * hid * 2 ^ shift_of (n div 2))" by linarith
    with False show ?thesis by (simp add: shift_of.simps [of n] mult.left_commute)
  qed
qed

lemma shift_of_lower: "0 < shift_of n \<Longrightarrow> hid * 2 ^ shift_of n \<le> n"
proof (induction n rule: shift_of.induct)
  case (1 n)
  then have big: "\<not> n < 2 * hid" by (auto simp: shift_of.simps [of n])
  have "hid * 2 ^ shift_of (n div 2) \<le> n div 2"
  proof (cases "0 < shift_of (n div 2)")
    case True
    with big show ?thesis by (rule "1.IH")
  next
    case False
    with big show ?thesis by simp
  qed
  then have "2 * (hid * 2 ^ shift_of (n div 2)) \<le> n" by linarith
  with big show ?case by (simp add: shift_of.simps [of n] mult.left_commute)
qed

lemma shift_of_0: "n < 2 * hid \<Longrightarrow> shift_of n = 0"
  by (simp add: shift_of.simps)

lemma pow_sandwich_le:
  assumes "hid * 2 ^ s \<le> (n::nat)" and "n < 2 * hid * 2 ^ t"
  shows "s \<le> t"
proof (rule ccontr)
  assume "\<not> s \<le> t"
  then have "(2::nat) ^ Suc t \<le> 2 ^ s" by (intro power_increasing) auto
  then have "hid * 2 ^ Suc t \<le> hid * 2 ^ s" by (rule mult_le_mono2)
  then have "hid * 2 ^ Suc t \<le> n" using assms(1) by linarith
  moreover have "hid * 2 ^ Suc t = 2 * hid * 2 ^ t" by simp
  ultimately show False using assms(2) by linarith
qed

lemma shift_of_unique:
  assumes "hid * 2 ^ s \<le> n" and "n < 2 * hid * 2 ^ s"
  shows "shift_of n = s"
proof (rule antisym)
  show "s \<le> shift_of n" using assms(1) shift_of_upper by (rule pow_sandwich_le)
  show "shift_of n \<le> s"
  proof (cases "0 < shift_of n")
    case True
    show ?thesis using shift_of_lower [OF True] assms(2) by (rule pow_sandwich_le)
  qed simp
qed

lemma shift_of_mono: "m \<le> n \<Longrightarrow> shift_of m \<le> shift_of n"
proof (cases "0 < shift_of m")
  case True
  assume "m \<le> n"
  then have "hid * 2 ^ shift_of m \<le> n" using shift_of_lower [OF True] by linarith
  then show ?thesis using shift_of_upper by (rule pow_sandwich_le)
qed simp

definition rne :: "nat \<Rightarrow> nat \<Rightarrow> nat" where
  "rne a b = (if 2 * (a mod b) < b \<or> (2 * (a mod b) = b \<and> even (a div b))
     then a div b else a div b + 1)"

lemma rne_bounds: "a div b \<le> rne a b" "rne a b \<le> a div b + 1"
  by (simp_all add: rne_def)

lemma rne_exact [simp]: "0 < b \<Longrightarrow> rne (k * b) b = k"
  by (simp add: rne_def)

lemma rne_ge: "0 < b \<Longrightarrow> k * b \<le> a \<Longrightarrow> k \<le> rne a b"
  using rne_bounds(1) [of a b] by (meson less_eq_div_iff_mult_less_eq order_trans)

lemma rne_le:
  assumes "0 < b" and "a \<le> k * b"
  shows "rne a b \<le> k"
proof (cases "a = k * b")
  case True
  with assms show ?thesis by simp
next
  case False
  with assms have "a div b < k" by (simp add: div_less_iff_less_mult)
  with rne_bounds(2) [of a b] show ?thesis by linarith
qed

lemma div_mono_ratio:
  assumes "0 < b" "0 < d" and "a * d \<le> c * (b::nat)"
  shows "a div b \<le> c div d"
proof -
  have "(a div b) * d * b = (a div b) * b * d" by (simp add: mult_ac)
  also have "\<dots> \<le> a * d" by (intro mult_le_mono1 div_times_less_eq_dividend)
  also have "\<dots> \<le> c * b" by (rule assms(3))
  finally have "(a div b) * d \<le> c" using assms(1) by simp
  with assms(2) show ?thesis by (simp add: less_eq_div_iff_mult_less_eq)
qed

lemma rne_mono:
  assumes b: "0 < b" and d: "0 < d" and le: "a * d \<le> c * b"
  shows "rne a b \<le> rne c d"
proof (cases "a div b = c div d")
  case False
  with div_mono_ratio [OF assms] have "a div b + 1 \<le> c div d" by linarith
  with rne_bounds(2) [of a b] rne_bounds(1) [of c d] show ?thesis by linarith
next
  case True
  let ?q = "c div d"
  have "a = ?q * b + a mod b" by (metis True div_mult_mod_eq)
  moreover have "c = ?q * d + c mod d" by (metis div_mult_mod_eq)
  ultimately have "(?q * b + a mod b) * d \<le> (?q * d + c mod d) * b" using le by metis
  then have "?q * b * d + (a mod b) * d \<le> ?q * d * b + (c mod d) * b"
    by (simp only: distrib_right)
  moreover have "?q * b * d = ?q * d * b" by (simp add: mult_ac)
  ultimately have r: "(a mod b) * d \<le> (c mod d) * b" by linarith
  have up: "2 * (c mod d) \<ge> d \<and> (2 * (c mod d) = d \<longrightarrow> 2 * (a mod b) \<le> b)" if "2 * (a mod b) \<ge> b"
  proof -
    have "b * d \<le> 2 * (a mod b) * d" using that by simp
    also have "\<dots> \<le> 2 * (c mod d) * b" using r by (simp add: mult.assoc)
    finally have "d * b \<le> 2 * (c mod d) * b" by (simp add: mult.commute)
    then have ge: "d \<le> 2 * (c mod d)" using b by simp
    have "2 * (a mod b) \<le> b" if "2 * (c mod d) = d"
    proof -
      have "2 * (a mod b) * d \<le> d * b" using r that by (metis mult.assoc mult.left_commute mult_le_mono2)
      then show ?thesis using d by (simp add: mult.commute)
    qed
    with ge show ?thesis by blast
  qed
  show ?thesis
    using True up unfolding rne_def by (auto simp: not_less)
qed

definition round_mag :: "nat \<Rightarrow> nat \<Rightarrow> nat" where
  "round_mag a b = (let s = shift_of (a div b) in min (s * hid + rne a (b * 2 ^ s)) mag_inf)"

lemma round_mag_le_inf: "round_mag a b \<le> mag_inf"
  by (simp add: round_mag_def Let_def)

text \<open>A representable value is rounded to itself.\<close>

lemma round_mag_exact:
  assumes "0 < b" and "u \<le> mag_inf"
  shows "round_mag (mag_val u * b) b = u"
proof -
  let ?n = "mag_val u"
  have n: "mag_val u * b div b = ?n" using assms by simp
  show ?thesis
  proof (cases "u div hid")
    case 0
    then have small: "u < hid" by (metis div_eq_0_iff hid_pos less_nat_zero_code)
    then have "?n = u" by (simp add: mag_val_def)
    moreover have "shift_of u = 0" using small by (simp add: shift_of_0)
    ultimately show ?thesis using assms n by (simp add: round_mag_def)
  next
    case (Suc s)
    then have nv: "?n = (hid + u mod hid) * 2 ^ s" by (simp add: mag_val_def)
    have "u mod hid < hid" by simp
    then have "hid + u mod hid < 2 * hid" by linarith
    then have "?n < 2 * hid * 2 ^ s" unfolding nv by simp
    moreover have "hid * 2 ^ s \<le> ?n" unfolding nv by simp
    ultimately have s: "shift_of ?n = s" by (rule shift_of_unique[rotated])
    have "rne (mag_val u * b) (b * 2 ^ s) = hid + u mod hid"
      using assms rne_exact [of "b * 2 ^ s" "hid + u mod hid"]
      by (simp add: nv mult.commute mult.left_commute)
    moreover have "s * hid + (hid + u mod hid) = u"
      using div_mult_mod_eq [of u hid] Suc by simp
    ultimately show ?thesis using assms n s by (simp add: round_mag_def)
  qed
qed

lemma round_mag_mono:
  assumes b: "0 < b" and d: "0 < d" and le: "a * d \<le> c * b"
  shows "round_mag a b \<le> round_mag c d"
proof -
  let ?s = "shift_of (a div b)" and ?t = "shift_of (c div d)"
  have st: "?s \<le> ?t" by (rule shift_of_mono [OF div_mono_ratio [OF assms]])
  have "?s * hid + rne a (b * 2 ^ ?s) \<le> ?t * hid + rne c (d * 2 ^ ?t)"
  proof (cases "?s = ?t")
    case True
    have "a * (d * 2 ^ ?s) \<le> c * (b * 2 ^ ?s)"
      using le by (simp add: mult.assoc [symmetric])
    then have "rne a (b * 2 ^ ?s) \<le> rne c (d * 2 ^ ?s)" using b d by (intro rne_mono) auto
    with True show ?thesis by simp
  next
    case False
    with st have lt: "Suc ?s \<le> ?t" by simp
    have "a div b < 2 * hid * 2 ^ ?s" by (rule shift_of_upper)
    then have "a < 2 * hid * 2 ^ ?s * b" using b by (simp add: div_less_iff_less_mult)
    then have "rne a (b * 2 ^ ?s) \<le> 2 * hid"
      using b by (intro rne_le) (auto simp: mult.commute mult.left_commute)
    moreover have "hid * 2 ^ ?t \<le> c div d" using lt by (intro shift_of_lower) simp
    then have "hid * 2 ^ ?t * d \<le> c" using d by (simp add: less_eq_div_iff_mult_less_eq)
    then have "hid \<le> rne c (d * 2 ^ ?t)"
      using d by (intro rne_ge) (auto simp: mult.commute mult.left_commute)
    moreover have "Suc ?s * hid \<le> ?t * hid" using lt by (rule mult_le_mono1)
    ultimately show ?thesis by simp
  qed
  then show ?thesis by (simp add: round_mag_def Let_def min_le_iff_disj)
qed

lemma round_mag_le:
  assumes "0 < b" "u \<le> mag_inf" "a \<le> mag_val u * b"
  shows "round_mag a b \<le> u"
  using round_mag_mono [of b b a "mag_val u * b"] round_mag_exact [of b u] assms by simp

lemma round_mag_ge:
  assumes "0 < b" "u \<le> mag_inf" "mag_val u * b \<le> a"
  shows "u \<le> round_mag a b"
  using round_mag_mono [of b b "mag_val u * b" a] round_mag_exact [of b u] assms by simp

lemma round_mag_0 [simp]: "0 < b \<Longrightarrow> round_mag 0 b = 0"
  using round_mag_exact [of b 0] by simp

section \<open>Doubles\<close>

type_synonym double = "64 word"

definition sgnbit :: nat where
  "sgnbit = 2 ^ 63"

definition dsign :: "double \<Rightarrow> bool" where
  "dsign x \<longleftrightarrow> sgnbit \<le> unat x"

definition dmag :: "double \<Rightarrow> nat" where
  "dmag x = unat x mod sgnbit"

definition mk_double :: "bool \<Rightarrow> nat \<Rightarrow> double" where
  "mk_double s u = word_of_nat ((if s then sgnbit else 0) + u)"

definition is_nan :: "double \<Rightarrow> bool" where
  "is_nan x \<longleftrightarrow> mag_inf < dmag x"

definition is_inf :: "double \<Rightarrow> bool" where
  "is_inf x \<longleftrightarrow> dmag x = mag_inf"

text \<open>\<^verbatim>\<open>std::isfinite\<close>.\<close>

definition is_finite :: "double \<Rightarrow> bool" where
  "is_finite x \<longleftrightarrow> dmag x < mag_inf"

text \<open>
  The value in units of \<open>2 ^ -1074\<close>. An infinity gets the number its pattern would stand for,
  which lies beyond every finite value, so comparing \<open>dval\<close> compares infinities as well.
\<close>

definition dval :: "double \<Rightarrow> int" where
  "dval x = (if dsign x then - int (mag_val (dmag x)) else int (mag_val (dmag x)))"

definition qnan :: double where "qnan = 0x7FF8000000000000"
definition d_zero :: double where "d_zero = 0"
definition d_one :: double where "d_one = 0x3FF0000000000000"

definition deq :: "double \<Rightarrow> double \<Rightarrow> bool" where
  "deq x y \<longleftrightarrow> \<not> is_nan x \<and> \<not> is_nan y \<and> dval x = dval y"

definition dlt :: "double \<Rightarrow> double \<Rightarrow> bool" where
  "dlt x y \<longleftrightarrow> \<not> is_nan x \<and> \<not> is_nan y \<and> dval x < dval y"

definition dneg :: "double \<Rightarrow> double" where
  "dneg x = mk_double (\<not> dsign x) (dmag x)"

definition dadd :: "double \<Rightarrow> double \<Rightarrow> double" where
  "dadd x y =
     (if is_nan x \<or> is_nan y then qnan
      else if is_inf x then (if is_inf y \<and> dsign x \<noteq> dsign y then qnan else x)
      else if is_inf y then y
      else let v = dval x + dval y in
        if v = 0 then mk_double (dsign x \<and> dsign y) 0
        else mk_double (v < 0) (round_mag (nat \<bar>v\<bar>) 1))"

definition dsub :: "double \<Rightarrow> double \<Rightarrow> double" where
  "dsub x y = dadd x (dneg y)"

definition dmul :: "double \<Rightarrow> double \<Rightarrow> double" where
  "dmul x y =
     (let s = (dsign x \<noteq> dsign y) in
      if is_nan x \<or> is_nan y then qnan
      else if is_inf x then (if dmag y = 0 then qnan else mk_double s mag_inf)
      else if is_inf y then (if dmag x = 0 then qnan else mk_double s mag_inf)
      else mk_double s (round_mag (mag_val (dmag x) * mag_val (dmag y)) (unit_one)))"

definition ddiv :: "double \<Rightarrow> double \<Rightarrow> double" where
  "ddiv x y =
     (let s = (dsign x \<noteq> dsign y) in
      if is_nan x \<or> is_nan y then qnan
      else if is_inf x then (if is_inf y then qnan else mk_double s mag_inf)
      else if is_inf y then mk_double s 0
      else if dmag y = 0 then (if dmag x = 0 then qnan else mk_double s mag_inf)
      else mk_double s (round_mag (mag_val (dmag x) * unit_one) (mag_val (dmag y))))"

text \<open>\<^verbatim>\<open>static_cast<double>\<close> of an unsigned integer: the nearest double.\<close>

definition double_of_nat :: "nat \<Rightarrow> double" where
  "double_of_nat n = mk_double False (round_mag (n * unit_one) 1)"

text \<open>
  \<^verbatim>\<open>static_cast<std::uint32_t>\<close> of a double truncates towards zero. The standard leaves a value
  that does not fit undefined; the x86-64 conversion goes through a 64-bit integer and keeps the
  low half, which is what the model does.
\<close>

definition u32_of_double :: "double \<Rightarrow> 32 word" where
  "u32_of_double x = word_of_int (sgn (dval x) * (\<bar>dval x\<bar> div int unit_one))"

section \<open>Laws\<close>

lemma sgnbit_pos [simp]: "0 < sgnbit"
  by (simp add: sgnbit_def)

lemma unat_64: "unat (x :: 64 word) < 2 * sgnbit"
  using unsigned_less [of x, where 'a = nat] by (simp add: sgnbit_def)

lemma mag_inf_bound [simp]: "mag_inf < sgnbit"
  by (simp add: mag_inf_def hid_def sgnbit_def)

lemma dmag_bound [simp]: "dmag x < sgnbit"
  by (simp add: dmag_def)

lemma unat_mk_double:
  assumes "u < sgnbit"
  shows "unat (mk_double s u) = (if s then sgnbit else 0) + u"
proof -
  have "(if s then sgnbit else 0) + u < 2 ^ LENGTH(64)"
    using assms by (auto simp: sgnbit_def)
  then show ?thesis unfolding mk_double_def by (simp only: unat_of_nat mod_less)
qed

lemma dmag_mk [simp]: "u < sgnbit \<Longrightarrow> dmag (mk_double s u) = u"
  by (simp add: dmag_def unat_mk_double)

lemma dsign_mk [simp]: "u < sgnbit \<Longrightarrow> dsign (mk_double s u) = s"
  by (simp add: dsign_def unat_mk_double)

lemma mk_double_collapse [simp]: "mk_double (dsign x) (dmag x) = x"
proof -
  have "(if dsign x then sgnbit else 0) + dmag x = unat x"
    using unat_64 [of x] by (auto simp: dsign_def dmag_def mod_if)
  then show ?thesis by (simp add: mk_double_def)
qed

lemma double_eqI:
  assumes "dsign x = dsign y" "dmag x = dmag y"
  shows "x = y"
proof -
  have "x = mk_double (dsign x) (dmag x)" by (rule mk_double_collapse [symmetric])
  also have "\<dots> = y" unfolding assms by (rule mk_double_collapse)
  finally show ?thesis .
qed

lemma round_mag_bound [simp]: "round_mag a b < sgnbit"
  using round_mag_le_inf [of a b] mag_inf_bound by linarith

lemma dval_mk [simp]: "u < sgnbit \<Longrightarrow> dval (mk_double s u) = (if s then - int (mag_val u) else int (mag_val u))"
  by (simp add: dval_def)

lemma nan_mk_round [simp]: "\<not> is_nan (mk_double s (round_mag a b))"
  using round_mag_le_inf [of a b] by (simp add: is_nan_def)

lemma nan_mk_small [simp]: "\<not> is_nan (mk_double s 0)" "\<not> is_nan (mk_double s mag_inf)"
  by (simp_all add: is_nan_def)

lemma is_nan_qnan [simp]: "is_nan qnan"
  by (simp add: is_nan_def qnan_def dmag_def mag_inf_def hid_def sgnbit_def)

lemma finite_not_nan: "is_finite x \<Longrightarrow> \<not> is_nan x"
  by (simp add: is_finite_def is_nan_def)

lemma finite_not_inf: "is_finite x \<Longrightarrow> \<not> is_inf x"
  by (simp add: is_finite_def is_inf_def)

lemma double_classes: "is_nan x \<or> is_inf x \<or> is_finite x"
  by (auto simp: is_nan_def is_inf_def is_finite_def)

lemma abs_dval: "\<bar>dval x\<bar> = int (mag_val (dmag x))"
  by (simp add: dval_def)

lemma nat_abs_dval: "nat \<bar>dval x\<bar> = mag_val (dmag x)"
  by (simp add: abs_dval)

lemma dval_d_zero [simp]: "dval d_zero = 0" "\<not> is_nan d_zero" "is_finite d_zero"
  by (simp_all add: dval_def dmag_def d_zero_def is_nan_def is_finite_def dsign_def mag_inf_def hid_def)

lemma dmag_d_one: "dmag d_one = 1023 * hid"
  by (simp add: dmag_def d_one_def hid_def sgnbit_def)

lemma hid_unit: "hid * 2 ^ 1022 = unit_one"
  unfolding hid_def unit_one_def by (simp only: power_add [symmetric] numeral_plus_numeral arith_simps)

lemma mag_val_one [simp]: "mag_val (1023 * hid) = unit_one"
proof -
  have "mag_val (1023 * hid) = hid * 2 ^ 1022" by (simp add: mag_val_def)
  then show ?thesis by (simp only: hid_unit)
qed

lemma dval_d_one: "dval d_one = int unit_one"
  by (simp add: dval_def dmag_d_one) (simp add: dsign_def d_one_def sgnbit_def)

lemma finite_d_one [simp]: "is_finite d_one" "\<not> is_nan d_one" "\<not> dsign d_one"
  by (simp_all add: is_finite_def is_nan_def dmag_d_one mag_inf_def) (simp add: dsign_def d_one_def sgnbit_def)

section \<open>Representable values\<close>

definition representable :: "nat \<Rightarrow> bool" where
  "representable n \<longleftrightarrow> (\<exists>u < mag_inf. mag_val u = n)"

lemma mag_val_small: "n < 2 * hid \<Longrightarrow> mag_val n = n"
proof (cases "n < hid")
  case True
  then show ?thesis by (simp add: mag_val_def)
next
  case False
  moreover assume "n < 2 * hid"
  ultimately have "n div hid = 1" and "hid + n mod hid = n"
    by (auto simp: div_nat_eqI le_mod_geq)
  then show ?thesis by (simp add: mag_val_def)
qed

lemma mag_val_normal:
  assumes "hid \<le> q" "q < 2 * hid"
  shows "mag_val (t * hid + q) = q * 2 ^ t"
proof -
  have e: "t * hid + q = Suc t * hid + (q - hid)" using assms by simp
  have m: "q - hid < hid" using assms by linarith
  have "(t * hid + q) div hid = Suc t" unfolding e using m by (subst div_mult_self3) auto
  moreover have "(t * hid + q) mod hid = q - hid" unfolding e using m by (subst mod_mult_self3) auto
  ultimately show ?thesis using assms by (simp add: mag_val_def)
qed

lemma representable_dyadic:
  assumes k: "k < 2 * hid" and s: "s \<le> 2000"
  shows "representable (k * 2 ^ s)"
proof -
  let ?n = "k * 2 ^ s"
  let ?t = "shift_of ?n" and ?q = "k * 2 ^ (s - shift_of ?n)"
  have n: "?n < 2 * hid * 2 ^ s" using k by simp
  have ts: "?t \<le> s"
  proof (cases "0 < ?t")
    case True
    show ?thesis using shift_of_lower [OF True] n by (rule pow_sandwich_le)
  qed simp
  then have split: "?n = ?q * 2 ^ ?t" by (simp add: power_add [symmetric])
  have "?q * 2 ^ ?t < 2 * hid * 2 ^ ?t" using shift_of_upper [of ?n] split by linarith
  then have q: "?q < 2 * hid" by simp
  have val: "mag_val (?t * hid + ?q) = ?n"
  proof (cases "?t = 0")
    case True
    then show ?thesis using q by (simp add: mag_val_small)
  next
    case False
    then have "hid * 2 ^ ?t \<le> ?q * 2 ^ ?t" using shift_of_lower [of ?n] split by linarith
    then have "hid \<le> ?q" by (simp only: mult_le_cancel2) simp
    then have "mag_val (?t * hid + ?q) = ?q * 2 ^ ?t" using q by (rule mag_val_normal)
    also have "\<dots> = ?n" by (rule split [symmetric])
    finally show ?thesis .
  qed
  have "?t * hid \<le> 2000 * hid" using ts s by (intro mult_le_mono1) simp
  moreover have "2000 * hid + 2 * hid < mag_inf" by (simp add: mag_inf_def)
  ultimately have "?t * hid + ?q < mag_inf" using q by linarith
  with val show ?thesis unfolding representable_def by blast
qed

lemma representable_units: "k < 2 * hid \<Longrightarrow> representable (k * unit_one)"
  unfolding unit_one_def by (rule representable_dyadic) simp_all

lemma round_representable:
  assumes "representable n"
  shows "mag_val (round_mag n (Suc 0)) = n" "round_mag n (Suc 0) < mag_inf"
  using assms round_mag_exact [of 1] by (auto simp: representable_def)

section \<open>Arithmetic on costs: finite, non-negative values\<close>

definition nonneg :: "double \<Rightarrow> bool" where
  "nonneg x \<longleftrightarrow> is_finite x \<and> 0 \<le> dval x"

definition in_unit :: "double \<Rightarrow> bool" where
  "in_unit x \<longleftrightarrow> \<not> is_nan x \<and> 0 \<le> dval x \<and> dval x \<le> dval d_one"

lemma in_unit_nonneg: "in_unit x \<Longrightarrow> nonneg x"
proof -
  assume a: "in_unit x"
  then have "int (mag_val (dmag x)) \<le> int (mag_val (1023 * hid))"
    using abs_dval [of x] by (simp add: in_unit_def dval_d_one)
  then have "dmag x \<le> 1023 * hid" by (simp del: mag_val_one)
  then have "dmag x < mag_inf" by (simp add: mag_inf_def less_le_trans [of _ "1024 * hid"] le_less_trans)
  with a show ?thesis by (simp add: nonneg_def in_unit_def is_finite_def)
qed

lemma nonneg_zero [simp]: "nonneg d_zero" and in_unit_zero [simp]: "in_unit d_zero"
  and in_unit_one [simp]: "in_unit d_one"
  by (simp_all add: nonneg_def in_unit_def dval_d_one)

lemma dadd_val:
  assumes "is_finite x" "is_finite y" "0 \<le> dval x + dval y"
  shows "dval (dadd x y) = int (mag_val (round_mag (nat (dval x + dval y)) 1))"
    and "is_finite (dadd x y) \<longleftrightarrow> round_mag (nat (dval x + dval y)) 1 < mag_inf"
  using assms
  by (auto simp: dadd_def finite_not_nan finite_not_inf Let_def is_finite_def)

lemma dadd_le:
  assumes "nonneg x" "nonneg y" and le: "dval x + dval y \<le> int n" and n: "representable n"
  shows "nonneg (dadd x y)" "dval (dadd x y) \<le> int n"
proof -
  from n obtain u where u: "u < mag_inf" "mag_val u = n" by (auto simp: representable_def)
  have "nat (dval x + dval y) \<le> mag_val u * 1" using le u by simp
  then have "round_mag (nat (dval x + dval y)) 1 \<le> u" using u by (intro round_mag_le) auto
  then show "nonneg (dadd x y)" "dval (dadd x y) \<le> int n"
    using assms(1,2) dadd_val [of x y] u by (auto simp: nonneg_def)
qed

lemma dadd_exact:
  assumes "nonneg x" "nonneg y" and "dval x + dval y = int n" and "representable n"
  shows "dval (dadd x y) = int n"
  using assms dadd_val(1) [of x y] round_representable(1) [of n] by (simp add: nonneg_def)

lemma dadd_not_nan: "\<not> is_nan x \<Longrightarrow> is_finite y \<Longrightarrow> \<not> is_nan (dadd x y)"
  by (auto simp: dadd_def finite_not_nan finite_not_inf Let_def)

lemma dneg_finite [simp]: "is_finite (dneg x) \<longleftrightarrow> is_finite x"
  by (simp add: dneg_def is_finite_def)

lemma dsub_not_nan: "\<not> is_nan x \<Longrightarrow> is_finite y \<Longrightarrow> \<not> is_nan (dsub x y)"
  by (simp add: dsub_def dadd_not_nan)

lemma dval_nonneg_mag: "nonneg x \<Longrightarrow> dval x = int (mag_val (dmag x))"
  using abs_dval [of x] by (simp add: nonneg_def)

lemma dmul_unit:
  assumes w: "nonneg w" and v: "in_unit v"
  shows "nonneg (dmul w v)" "dval (dmul w v) \<le> dval w"
proof -
  have fin: "is_finite w" "is_finite v" using w in_unit_nonneg [OF v] by (simp_all add: nonneg_def)
  have vw: "mag_val (dmag v) \<le> unit_one"
    using v dval_nonneg_mag [OF in_unit_nonneg [OF v]] by (simp add: in_unit_def dval_d_one)
  let ?r = "round_mag (mag_val (dmag w) * mag_val (dmag v)) (unit_one)"
  have r: "?r \<le> dmag w"
    using vw fin by (intro round_mag_le) (auto simp: is_finite_def)
  have neg: "mag_val (dmag x) = 0" if "dsign x" "nonneg x" for x
    using that by (simp add: nonneg_def dval_def)
  have "dmul w v = mk_double (dsign w \<noteq> dsign v) ?r"
    using fin by (simp add: dmul_def Let_def finite_not_nan finite_not_inf)
  moreover have "?r = 0" if "dsign w \<or> dsign v"
    using that w in_unit_nonneg [OF v] neg by (auto simp: round_mag_0)
  ultimately have "dval (dmul w v) = int (mag_val ?r)" "dmag (dmul w v) = ?r" by auto
  then show "nonneg (dmul w v)" "dval (dmul w v) \<le> dval w"
    using r fin dval_nonneg_mag [OF w] by (auto simp: nonneg_def is_finite_def)
qed

lemma double_of_nat_nonneg:
  assumes "n < 2 ^ 64"
  shows "nonneg (double_of_nat n)"
proof -
  have pw: "hid * 2 ^ 1086 = 2 ^ 64 * unit_one"
    unfolding hid_def unit_one_def by (simp only: power_add [symmetric] numeral_plus_numeral arith_simps)
  have mv: "mag_val (1087 * hid) = hid * 2 ^ 1086" by (simp add: mag_val_def)
  have "n * unit_one \<le> mag_val (1087 * hid) * 1" unfolding mv pw using assms by simp
  then have "round_mag (n * unit_one) 1 \<le> 1087 * hid"
    by (intro round_mag_le) (simp_all add: mag_inf_def)
  also have "\<dots> < mag_inf" by (simp add: mag_inf_def)
  finally show ?thesis by (simp add: nonneg_def double_of_nat_def is_finite_def)
qed

lemma double_of_nat_mono: "m \<le> n \<Longrightarrow> dval (double_of_nat m) \<le> dval (double_of_nat n)"
  by (simp add: double_of_nat_def round_mag_mono)

lemma double_of_nat_exact: "n < 2 * hid \<Longrightarrow> dval (double_of_nat n) = int (n * unit_one)"
  by (simp add: double_of_nat_def round_representable representable_units)

lemma double_of_nat_pos: "0 < n \<Longrightarrow> 0 < dval (double_of_nat n)"
  using double_of_nat_mono [of 1 n] double_of_nat_exact [of 1] unit_one_pos
  by (simp add: hid_def del: unit_one_pos)

lemma double_of_nat_0 [simp]: "double_of_nat 0 = d_zero"
  by (simp add: double_of_nat_def mk_double_def d_zero_def)

lemma ddiv_val:
  assumes "nonneg x" "nonneg y" "0 < dval y"
  shows "\<not> is_nan (ddiv x y)"
    and "dval (ddiv x y) = int (mag_val (round_mag (mag_val (dmag x) * unit_one) (mag_val (dmag y))))"
proof -
  have fin: "is_finite x" "is_finite y" using assms by (simp_all add: nonneg_def)
  have my: "mag_val (dmag y) > 0" using assms dval_nonneg_mag [of y] by simp
  then have my0: "dmag y \<noteq> 0" by (metis mag_val_0 less_irrefl)
  have sy: "\<not> dsign y" using assms by (auto simp: dval_def)
  let ?r = "round_mag (mag_val (dmag x) * unit_one) (mag_val (dmag y))"
  have e: "ddiv x y = mk_double (dsign x) ?r"
    using fin my0 sy by (simp add: ddiv_def Let_def finite_not_nan finite_not_inf)
  show "\<not> is_nan (ddiv x y)" unfolding e by (rule nan_mk_round)
  have "?r = 0" if "dsign x" using that assms(1) my by (simp add: nonneg_def dval_def round_mag_0)
  then show "dval (ddiv x y) = int (mag_val ?r)" unfolding e by simp
qed

lemma ddiv_mono:
  assumes "nonneg x" "nonneg x'" "nonneg y" "nonneg y'" "0 < dval y" "0 < dval y'"
    and "dval x \<le> dval x'" "dval y' \<le> dval y"
  shows "dval (ddiv x y) \<le> dval (ddiv x' y')"
proof -
  have "mag_val (dmag x) * unit_one * mag_val (dmag y') \<le> mag_val (dmag x') * unit_one * mag_val (dmag y)"
    using assms by (intro mult_le_mono) (simp_all add: dval_nonneg_mag)
  then show ?thesis
    using assms dval_nonneg_mag [of y] dval_nonneg_mag [of y']
    by (simp add: ddiv_val round_mag_mono)
qed

lemma u32_of_double_nat: "dval x = int (n * unit_one) \<Longrightarrow> u32_of_double x = word_of_nat n"
  by (cases "n = 0") (simp_all add: u32_of_double_def)

end
