(* ===== verification/Core_Types.thy ===== *)
theory Core_Types
  imports Prelude Binary64
begin

text \<open>
  The vocabulary of \<^verbatim>\<open>core/id.hpp\<close>, \<^verbatim>\<open>core/generations.hpp\<close>, \<^verbatim>\<open>core/units.hpp\<close> and
  \<^verbatim>\<open>core/types.hpp\<close>: strongly typed identities and generations, units, and the enums that
  every other component uses, with their printed names and their wire codes.

  Constructors carry a short prefix of their enum (\<open>Prov_\<close>, \<open>RK_\<close>, \<open>RF_\<close>) where the C++
  code writes the scoped name.
\<close>

section \<open>Strong identities\<close>

text \<open>
  \<^verbatim>\<open>StrongId<Tag>\<close>: a 64-bit value under a phantom tag, so two kinds of identity have
  different types. Zero is the sentinel for "none".
\<close>

datatype 'tag strong_id = StrongId (id_value: "64 word")

definition is_valid :: "'tag strong_id \<Rightarrow> bool" where
  "is_valid i \<longleftrightarrow> id_value i \<noteq> 0"

definition id_next :: "'tag strong_id \<Rightarrow> 'tag strong_id" where
  "id_next i = StrongId (id_value i + 1)"

instantiation strong_id :: (type) linorder
begin

definition less_eq_strong_id :: "'a strong_id \<Rightarrow> 'a strong_id \<Rightarrow> bool" where
  "less_eq_strong_id i j \<longleftrightarrow> id_value i \<le> id_value j"

definition less_strong_id :: "'a strong_id \<Rightarrow> 'a strong_id \<Rightarrow> bool" where
  "less_strong_id i j \<longleftrightarrow> id_value i < id_value j"

instance
  by standard (auto simp: less_eq_strong_id_def less_strong_id_def strong_id.expand)

end

lemma id_less_StrongId [simp]: "StrongId a < StrongId b \<longleftrightarrow> a < b"
  by (simp add: less_strong_id_def)

lemma id_le_StrongId [simp]: "StrongId a \<le> StrongId b \<longleftrightarrow> a \<le> b"
  by (simp add: less_eq_strong_id_def)

lemma id_value_eq_iff: "id_value i = id_value j \<longleftrightarrow> i = j"
  by (auto intro: strong_id.expand)

text \<open>The tags, and the identity types of \<^verbatim>\<open>core/generations.hpp\<close>.\<close>

typedecl SchedulingRequestIdTag
typedecl SchedulingRequestGenerationTag
typedecl SchedulingDecisionIdTag
typedecl SchedulingDecisionGenerationTag
typedecl PlacementPlanIdTag
typedecl PlacementPlanGenerationTag
typedecl CandidateIdTag
typedecl CandidateGenerationTag
typedecl PlacementIdTag
typedecl PlacementGenerationTag
typedecl WorkloadIdTag
typedecl WorkloadGenerationTag
typedecl WorkloadDemandIdTag
typedecl WorkloadDemandGenerationTag
typedecl ExecutionIdTag
typedecl ExecutionGenerationTag
typedecl AttemptIdTag
typedecl AttemptGenerationTag
typedecl ResourceIdTag
typedecl ResourceGenerationTag
typedecl ResourcePoolIdTag
typedecl ResourcePoolGenerationTag
typedecl DeviceIdTag
typedecl DeviceGenerationTag
typedecl NodeIdTag
typedecl NodeGenerationTag
typedecl CpuDomainIdTag
typedecl CpuDomainGenerationTag
typedecl MemoryDomainIdTag
typedecl MemoryDomainGenerationTag
typedecl NicIdTag
typedecl NicGenerationTag
typedecl StorageEndpointIdTag
typedecl StorageEndpointGenerationTag
typedecl LinkIdTag
typedecl LinkGenerationTag
typedecl PathIdTag
typedecl PathGenerationTag
typedecl TopologyGenerationTag
typedecl CapabilityGenerationTag
typedecl HealthGenerationTag
typedecl CapacityGenerationTag
typedecl ReservationGenerationTag
typedecl CongestionGenerationTag
typedecl CommunicationPlanGenerationTag
typedecl CollectiveGenerationTag
typedecl ResidencyGenerationTag
typedecl DependencyGenerationTag
typedecl PolicyGenerationTag
typedecl PriorityGenerationTag
typedecl SloGenerationTag
typedecl CoordinatorEpochTag
typedecl WorkerIdTag
typedecl WorkerBootIdTag
typedecl SourceIdTag
typedecl SourceBootIdTag
typedecl AuthorityGenerationTag
typedecl RevalidationGenerationTag

type_synonym SchedulingRequestId = "SchedulingRequestIdTag strong_id"
type_synonym SchedulingRequestGeneration = "SchedulingRequestGenerationTag strong_id"
type_synonym SchedulingDecisionId = "SchedulingDecisionIdTag strong_id"
type_synonym SchedulingDecisionGeneration = "SchedulingDecisionGenerationTag strong_id"
type_synonym PlacementPlanId = "PlacementPlanIdTag strong_id"
type_synonym PlacementPlanGeneration = "PlacementPlanGenerationTag strong_id"
type_synonym CandidateId = "CandidateIdTag strong_id"
type_synonym CandidateGeneration = "CandidateGenerationTag strong_id"
type_synonym PlacementId = "PlacementIdTag strong_id"
type_synonym PlacementGeneration = "PlacementGenerationTag strong_id"
type_synonym WorkloadId = "WorkloadIdTag strong_id"
type_synonym WorkloadGeneration = "WorkloadGenerationTag strong_id"
type_synonym WorkloadDemandId = "WorkloadDemandIdTag strong_id"
type_synonym WorkloadDemandGeneration = "WorkloadDemandGenerationTag strong_id"
type_synonym ExecutionId = "ExecutionIdTag strong_id"
type_synonym ExecutionGeneration = "ExecutionGenerationTag strong_id"
type_synonym AttemptId = "AttemptIdTag strong_id"
type_synonym AttemptGeneration = "AttemptGenerationTag strong_id"
type_synonym ResourceId = "ResourceIdTag strong_id"
type_synonym ResourceGeneration = "ResourceGenerationTag strong_id"
type_synonym ResourcePoolId = "ResourcePoolIdTag strong_id"
type_synonym ResourcePoolGeneration = "ResourcePoolGenerationTag strong_id"
type_synonym DeviceId = "DeviceIdTag strong_id"
type_synonym DeviceGeneration = "DeviceGenerationTag strong_id"
type_synonym NodeId = "NodeIdTag strong_id"
type_synonym NodeGeneration = "NodeGenerationTag strong_id"
type_synonym CpuDomainId = "CpuDomainIdTag strong_id"
type_synonym CpuDomainGeneration = "CpuDomainGenerationTag strong_id"
type_synonym MemoryDomainId = "MemoryDomainIdTag strong_id"
type_synonym MemoryDomainGeneration = "MemoryDomainGenerationTag strong_id"
type_synonym NicId = "NicIdTag strong_id"
type_synonym NicGeneration = "NicGenerationTag strong_id"
type_synonym StorageEndpointId = "StorageEndpointIdTag strong_id"
type_synonym StorageEndpointGeneration = "StorageEndpointGenerationTag strong_id"
type_synonym LinkId = "LinkIdTag strong_id"
type_synonym LinkGeneration = "LinkGenerationTag strong_id"
type_synonym PathId = "PathIdTag strong_id"
type_synonym PathGeneration = "PathGenerationTag strong_id"
type_synonym TopologyGeneration = "TopologyGenerationTag strong_id"
type_synonym CapabilityGeneration = "CapabilityGenerationTag strong_id"
type_synonym HealthGeneration = "HealthGenerationTag strong_id"
type_synonym CapacityGeneration = "CapacityGenerationTag strong_id"
type_synonym ReservationGeneration = "ReservationGenerationTag strong_id"
type_synonym CongestionGeneration = "CongestionGenerationTag strong_id"
type_synonym CommunicationPlanGeneration = "CommunicationPlanGenerationTag strong_id"
type_synonym CollectiveGeneration = "CollectiveGenerationTag strong_id"
type_synonym ResidencyGeneration = "ResidencyGenerationTag strong_id"
type_synonym DependencyGeneration = "DependencyGenerationTag strong_id"
type_synonym PolicyGeneration = "PolicyGenerationTag strong_id"
type_synonym PriorityGeneration = "PriorityGenerationTag strong_id"
type_synonym SloGeneration = "SloGenerationTag strong_id"
type_synonym CoordinatorEpoch = "CoordinatorEpochTag strong_id"
type_synonym WorkerId = "WorkerIdTag strong_id"
type_synonym WorkerBootId = "WorkerBootIdTag strong_id"
type_synonym SourceId = "SourceIdTag strong_id"
type_synonym SourceBootId = "SourceBootIdTag strong_id"
type_synonym AuthorityGeneration = "AuthorityGenerationTag strong_id"
type_synonym RevalidationGeneration = "RevalidationGenerationTag strong_id"

section \<open>Units\<close>

text \<open>
  \<^verbatim>\<open>CoreCount\<close>, \<^verbatim>\<open>ByteCount\<close>, \<^verbatim>\<open>Duration\<close> and \<^verbatim>\<open>Cost\<close> wrap one number each; the code
  reads it with \<^verbatim>\<open>value()\<close> everywhere, and addition and subtraction of bytes wrap.
\<close>

type_synonym CoreCount = "32 word"
type_synonym ByteCount = "64 word"
type_synonym Duration = "64 word"
type_synonym Cost = double

definition fits_in :: "ByteCount \<Rightarrow> ByteCount \<Rightarrow> bool" where
  "fits_in b capacity \<longleftrightarrow> b \<le> capacity"

definition KiB :: "64 word \<Rightarrow> ByteCount" where "KiB v = v * 1024"
definition MiB :: "64 word \<Rightarrow> ByteCount" where "MiB v = v * 1024 * 1024"
definition GiB :: "64 word \<Rightarrow> ByteCount" where "GiB v = v * (1024 * 1024 * 1024)"

section \<open>Enums as numbers\<close>

text \<open>
  \<^verbatim>\<open>static_cast<std::uint8_t>(e)\<close> is the position of \<open>e\<close> among the enumerators;
  a decoder refuses a number beyond the last enumerator and casts the others back.
\<close>

definition enum_code :: "'a list \<Rightarrow> 'a \<Rightarrow> 'w::len word" where
  "enum_code xs x = word_of_nat (length (takeWhile (\<lambda>y. y \<noteq> x) xs))"

definition enum_of_code :: "'a list \<Rightarrow> 'w::len word \<Rightarrow> 'a option" where
  "enum_of_code xs w = (if unat w < length xs then Some (xs ! unat w) else None)"

locale byte_enum =
  fixes elems :: "'a list"
  assumes elems_distinct: "distinct elems"
    and elems_complete: "x \<in> set elems"
    and elems_small: "length elems \<le> 255"
begin

lemma index_less: "length (takeWhile (\<lambda>y. y \<noteq> x) elems) < length elems"
proof -
  have "dropWhile (\<lambda>y. y \<noteq> x) elems \<noteq> []"
    using elems_complete [of x] by (auto simp: dropWhile_eq_Nil_conv)
  moreover have "length elems =
      length (takeWhile (\<lambda>y. y \<noteq> x) elems) + length (dropWhile (\<lambda>y. y \<noteq> x) elems)"
    by (metis length_append takeWhile_dropWhile_id)
  ultimately show ?thesis by (cases "dropWhile (\<lambda>y. y \<noteq> x) elems") simp_all
qed

lemma nth_index: "elems ! length (takeWhile (\<lambda>y. y \<noteq> x) elems) = x"
  using nth_length_takeWhile [OF index_less [of x]] by simp

lemma unat_code:
  assumes "8 \<le> LENGTH('w::len)"
  shows "unat (enum_code elems x :: 'w word) = length (takeWhile (\<lambda>y. y \<noteq> x) elems)"
proof -
  have "(2::nat) ^ 8 \<le> 2 ^ LENGTH('w)" using assms by (intro power_increasing) auto
  then have "length (takeWhile (\<lambda>y. y \<noteq> x) elems) < 2 ^ LENGTH('w)"
    using index_less [of x] elems_small by simp
  then show ?thesis by (simp add: enum_code_def unat_of_nat)
qed

lemma code_round:
  "8 \<le> LENGTH('w::len) \<Longrightarrow> enum_of_code elems (enum_code elems x :: 'w word) = Some x"
  by (simp add: enum_of_code_def unat_code index_less nth_index)

lemma code_unique:
  assumes "8 \<le> LENGTH('w::len)" and "enum_of_code elems (w :: 'w word) = Some x"
  shows "enum_code elems x = w"
proof -
  from assms(2) have w: "unat w < length elems" "elems ! unat w = x"
    by (auto simp: enum_of_code_def split: if_splits)
  have "length (takeWhile (\<lambda>y. y \<noteq> x) elems) = unat w"
    using nth_eq_iff_index_eq [OF elems_distinct index_less [of x] w(1)] w(2) nth_index [of x]
    by simp
  then show ?thesis by (simp add: enum_code_def)
qed

end

section \<open>The shared enums\<close>

datatype Provenance =
    Prov_Measured
  | Prov_Reported
  | Prov_Derived
  | Prov_Estimated
  | Prov_Forecast
  | Prov_Synthetic
  | Prov_Unknown

definition all_Provenance :: "Provenance list" where
  "all_Provenance = [Prov_Measured,
     Prov_Reported,
     Prov_Derived,
     Prov_Estimated,
     Prov_Forecast,
     Prov_Synthetic,
     Prov_Unknown]"

fun Provenance_to_string :: "Provenance \<Rightarrow> string" where
  "Provenance_to_string Prov_Measured = ''MEASURED''"
| "Provenance_to_string Prov_Reported = ''REPORTED''"
| "Provenance_to_string Prov_Derived = ''DERIVED''"
| "Provenance_to_string Prov_Estimated = ''ESTIMATED''"
| "Provenance_to_string Prov_Forecast = ''FORECAST''"
| "Provenance_to_string Prov_Synthetic = ''SYNTHETIC''"
| "Provenance_to_string Prov_Unknown = ''UNKNOWN''"

interpretation Provenance_enum: byte_enum all_Provenance
  by unfold_locales (auto simp: all_Provenance_def intro: Provenance.exhaust)

datatype ResourceKind =
    RK_Accelerator
  | RK_CpuCore
  | RK_HostMemory
  | RK_PinnedMemory
  | RK_Nic
  | RK_Storage
  | RK_LinkBandwidth
  | RK_ModelResidency

definition all_ResourceKind :: "ResourceKind list" where
  "all_ResourceKind = [RK_Accelerator,
     RK_CpuCore,
     RK_HostMemory,
     RK_PinnedMemory,
     RK_Nic,
     RK_Storage,
     RK_LinkBandwidth,
     RK_ModelResidency]"

fun ResourceKind_to_string :: "ResourceKind \<Rightarrow> string" where
  "ResourceKind_to_string RK_Accelerator = ''ACCELERATOR''"
| "ResourceKind_to_string RK_CpuCore = ''CPU_CORE''"
| "ResourceKind_to_string RK_HostMemory = ''HOST_MEMORY''"
| "ResourceKind_to_string RK_PinnedMemory = ''PINNED_MEMORY''"
| "ResourceKind_to_string RK_Nic = ''NIC''"
| "ResourceKind_to_string RK_Storage = ''STORAGE''"
| "ResourceKind_to_string RK_LinkBandwidth = ''LINK_BANDWIDTH''"
| "ResourceKind_to_string RK_ModelResidency = ''MODEL_RESIDENCY''"

interpretation ResourceKind_enum: byte_enum all_ResourceKind
  by unfold_locales (auto simp: all_ResourceKind_def intro: ResourceKind.exhaust)

datatype RankFactorKind =
    RF_AcceleratorFit
  | RF_ResourceHeadroom
  | RF_VramHeadroom
  | RF_CpuHeadroom
  | RF_PinnedMemoryHeadroom
  | RF_TopologyLocality
  | RF_NumaLocality
  | RF_PcieLocality
  | RF_NicLocality
  | RF_StorageLocality
  | RF_CommunicationCost
  | RF_CongestionPenalty
  | RF_ResidualBandwidth
  | RF_ModelResidency
  | RF_AdapterResidency
  | RF_ReusableStateLocality
  | RF_CheckpointMovementCost
  | RF_StartupCost
  | RF_ReservationFit
  | RF_FailureDomainDiversification
  | RF_HealthMargin
  | RF_EnergyPower
  | RF_FragmentationImpact
  | RF_ExternalPriority
  | RF_MigrationRecomputeCost
  | RF_EstimatedQueueing
  | RF_PolicyPreference

definition all_RankFactorKind :: "RankFactorKind list" where
  "all_RankFactorKind = [RF_AcceleratorFit,
     RF_ResourceHeadroom,
     RF_VramHeadroom,
     RF_CpuHeadroom,
     RF_PinnedMemoryHeadroom,
     RF_TopologyLocality,
     RF_NumaLocality,
     RF_PcieLocality,
     RF_NicLocality,
     RF_StorageLocality,
     RF_CommunicationCost,
     RF_CongestionPenalty,
     RF_ResidualBandwidth,
     RF_ModelResidency,
     RF_AdapterResidency,
     RF_ReusableStateLocality,
     RF_CheckpointMovementCost,
     RF_StartupCost,
     RF_ReservationFit,
     RF_FailureDomainDiversification,
     RF_HealthMargin,
     RF_EnergyPower,
     RF_FragmentationImpact,
     RF_ExternalPriority,
     RF_MigrationRecomputeCost,
     RF_EstimatedQueueing,
     RF_PolicyPreference]"

fun RankFactorKind_to_string :: "RankFactorKind \<Rightarrow> string" where
  "RankFactorKind_to_string RF_AcceleratorFit = ''ACCELERATOR_FIT''"
| "RankFactorKind_to_string RF_ResourceHeadroom = ''RESOURCE_HEADROOM''"
| "RankFactorKind_to_string RF_VramHeadroom = ''VRAM_HEADROOM''"
| "RankFactorKind_to_string RF_CpuHeadroom = ''CPU_HEADROOM''"
| "RankFactorKind_to_string RF_PinnedMemoryHeadroom = ''PINNED_MEMORY_HEADROOM''"
| "RankFactorKind_to_string RF_TopologyLocality = ''TOPOLOGY_LOCALITY''"
| "RankFactorKind_to_string RF_NumaLocality = ''NUMA_LOCALITY''"
| "RankFactorKind_to_string RF_PcieLocality = ''PCIE_LOCALITY''"
| "RankFactorKind_to_string RF_NicLocality = ''NIC_LOCALITY''"
| "RankFactorKind_to_string RF_StorageLocality = ''STORAGE_LOCALITY''"
| "RankFactorKind_to_string RF_CommunicationCost = ''COMMUNICATION_COST''"
| "RankFactorKind_to_string RF_CongestionPenalty = ''CONGESTION_PENALTY''"
| "RankFactorKind_to_string RF_ResidualBandwidth = ''RESIDUAL_BANDWIDTH''"
| "RankFactorKind_to_string RF_ModelResidency = ''MODEL_RESIDENCY''"
| "RankFactorKind_to_string RF_AdapterResidency = ''ADAPTER_RESIDENCY''"
| "RankFactorKind_to_string RF_ReusableStateLocality = ''REUSABLE_STATE_LOCALITY''"
| "RankFactorKind_to_string RF_CheckpointMovementCost = ''CHECKPOINT_MOVEMENT_COST''"
| "RankFactorKind_to_string RF_StartupCost = ''STARTUP_COST''"
| "RankFactorKind_to_string RF_ReservationFit = ''RESERVATION_FIT''"
| "RankFactorKind_to_string RF_FailureDomainDiversification = ''FAILURE_DOMAIN_DIVERSIFICATION''"
| "RankFactorKind_to_string RF_HealthMargin = ''HEALTH_MARGIN''"
| "RankFactorKind_to_string RF_EnergyPower = ''ENERGY_POWER''"
| "RankFactorKind_to_string RF_FragmentationImpact = ''FRAGMENTATION_IMPACT''"
| "RankFactorKind_to_string RF_ExternalPriority = ''EXTERNAL_PRIORITY''"
| "RankFactorKind_to_string RF_MigrationRecomputeCost = ''MIGRATION_RECOMPUTE_COST''"
| "RankFactorKind_to_string RF_EstimatedQueueing = ''ESTIMATED_QUEUEING''"
| "RankFactorKind_to_string RF_PolicyPreference = ''POLICY_PREFERENCE''"

interpretation RankFactorKind_enum: byte_enum all_RankFactorKind
  by unfold_locales (auto simp: all_RankFactorKind_def intro: RankFactorKind.exhaust)

end
