(* ===== verification/Coding.thy ===== *)
theory Coding
  imports Core_Types
begin

text \<open>
  The bounded binary coding of \<^verbatim>\<open>coding.hpp\<close>, on which the persistence file and the
  protocol frames are built, and the list coding of \<^verbatim>\<open>persistence.cpp\<close>.

  A \<^verbatim>\<open>ByteWriter\<close> only appends, so a write is the list of bytes it appends. A
  \<^verbatim>\<open>ByteReader\<close> reads forward only, so its state is the unread suffix of its buffer; a read
  returns the value and the new suffix, or throws, and a reader that has thrown is not used
  again. The locale \<open>codec\<close> is the contract of a writer and reader pair: what is written is
  read back whatever follows it, and whatever a reader accepts satisfies the side condition
  under which it could have been written. Every pair of the library is an interpretation.
\<close>

type_synonym byte = "8 word"
type_synonym 'a reader = "byte list \<Rightarrow> ('a \<times> byte list) res"

section \<open>Writing\<close>

definition put_u8 :: "8 word \<Rightarrow> byte list" where
  "put_u8 v = [v]"

definition put_u16 :: "16 word \<Rightarrow> byte list" where
  "put_u16 v = put_u8 (ucast (and v 0xFF)) @ put_u8 (ucast (and (drop_bit 8 v) 0xFF))"

definition put_u32 :: "32 word \<Rightarrow> byte list" where
  "put_u32 v =
     put_u8 (ucast (and v 0xFF)) @
     put_u8 (ucast (and (drop_bit 8 v) 0xFF)) @
     put_u8 (ucast (and (drop_bit 16 v) 0xFF)) @
     put_u8 (ucast (and (drop_bit 24 v) 0xFF))"

definition put_u64 :: "64 word \<Rightarrow> byte list" where
  "put_u64 v = concat (map (\<lambda>i. put_u8 (ucast (and (drop_bit (8 * i) v) 0xFF))) [0..<8])"

text \<open>A signed 32-bit number is carried as its pattern, and so is a double.\<close>

definition put_i32 :: "32 word \<Rightarrow> byte list" where
  "put_i32 v = put_u32 v"

definition put_double :: "double \<Rightarrow> byte list" where
  "put_double d = put_u64 d"

definition put_bool :: "bool \<Rightarrow> byte list" where
  "put_bool b = put_u8 (if b then 1 else 0)"

definition byte_of_char :: "char \<Rightarrow> byte" where
  "byte_of_char c = word_of_nat (of_char c)"

definition char_of_byte :: "byte \<Rightarrow> char" where
  "char_of_byte b = char_of (unat b)"

definition put_string :: "string \<Rightarrow> byte list" where
  "put_string s = put_u32 (word_of_nat (length s)) @ map byte_of_char s"

definition put_id :: "'t strong_id \<Rightarrow> byte list" where
  "put_id i = put_u64 (id_value i)"

text \<open>A list: its length as a \<^verbatim>\<open>uint32_t\<close> (the cast keeps 32 bits), then its elements.\<close>

definition put_list :: "('a \<Rightarrow> byte list) \<Rightarrow> 'a list \<Rightarrow> byte list" where
  "put_list enc xs = put_u32 (word_of_nat (length xs)) @ concat (map enc xs)"

definition put_enum :: "'a list \<Rightarrow> 'a \<Rightarrow> byte list" where
  "put_enum elems x = put_u8 (enum_code elems x)"

section \<open>Reading\<close>

definition rd_return :: "'a \<Rightarrow> 'a reader" where
  "rd_return x bs = Inr (x, bs)"

definition rd_throw :: "ErrorCode \<Rightarrow> string \<Rightarrow> 'a reader" where
  "rd_throw c m bs = throw c m"

definition rd_bind :: "'a reader \<Rightarrow> ('a \<Rightarrow> 'b reader) \<Rightarrow> 'b reader" where
  "rd_bind m f bs = (case m bs of Inl e \<Rightarrow> Inl e | Inr (x, bs') \<Rightarrow> f x bs')"

definition rd_check :: "bool \<Rightarrow> ErrorCode \<Rightarrow> string \<Rightarrow> unit reader" where
  "rd_check bad c m bs = (if bad then throw c m else Inr ((), bs))"

text \<open>A call inside a decoder that may throw without reading.\<close>

definition rd_lift :: "'a res \<Rightarrow> 'a reader" where
  "rd_lift r bs = (case r of Inl e \<Rightarrow> Inl e | Inr x \<Rightarrow> Inr (x, bs))"

text \<open>The two constructors; the second argument of the first bounds what may be read.\<close>

definition new_ByteReader :: "byte list \<Rightarrow> nat \<Rightarrow> byte list res" where
  "new_ByteReader buf maxLen =
     (let mx = (if maxLen = 0 then length buf else maxLen) in
      if mx > length buf then throw Truncation ''declared length exceeds buffer''
      else Inr (take mx buf))"

definition require :: "nat \<Rightarrow> unit reader" where
  "require n bs = (if n > length bs then throw Truncation ''truncated record'' else Inr ((), bs))"

definition le_bytes :: "nat \<Rightarrow> byte list \<Rightarrow> 'w::len word" where
  "le_bytes k bs = fold (\<lambda>i v. or v (push_bit (8 * i) (ucast (bs ! i)))) [0..<k] 0"

definition get_le :: "nat \<Rightarrow> 'w::len word reader" where
  "get_le k = rd_bind (require k) (\<lambda>_ bs. Inr (le_bytes k bs, drop k bs))"

definition get_u8 :: "8 word reader" where "get_u8 = get_le 1"
definition get_u16 :: "16 word reader" where "get_u16 = get_le 2"
definition get_u32 :: "32 word reader" where "get_u32 = get_le 4"
definition get_u64 :: "64 word reader" where "get_u64 = get_le 8"
definition get_i32 :: "32 word reader" where "get_i32 = get_u32"
definition get_double :: "double reader" where "get_double = get_u64"

definition get_bool :: "bool reader" where
  "get_bool = rd_bind get_u8 (\<lambda>v. rd_return (v \<noteq> 0))"

definition kMaxString :: nat where
  "kMaxString = 2 ^ 20"

definition get_bytes :: "nat \<Rightarrow> byte list reader" where
  "get_bytes n = rd_bind (require n) (\<lambda>_ bs. Inr (take n bs, drop n bs))"

definition get_string :: "string reader" where
  "get_string = rd_bind get_u32 (\<lambda>len.
     rd_bind (rd_check (unat len > kMaxString) OversizedFrame ''string length exceeds bound'') (\<lambda>_.
     rd_bind (get_bytes (unat len)) (\<lambda>s. rd_return (map char_of_byte s))))"

definition get_id :: "'t strong_id reader" where
  "get_id = rd_bind get_u64 (\<lambda>v. rd_return (StrongId v))"

text \<open>
  The decoders of enums refuse a byte beyond the last enumerator, the decoders of lists a
  count beyond \<open>kMaxRecords\<close>; the elements are then read one after the other.
\<close>

definition get_enum :: "'a list \<Rightarrow> string \<Rightarrow> 'a reader" where
  "get_enum elems msg = rd_bind get_u8 (\<lambda>v.
     case enum_of_code elems v of None \<Rightarrow> rd_throw Corruption msg | Some x \<Rightarrow> rd_return x)"

definition kMaxRecords :: nat where
  "kMaxRecords = 2 ^ 20"

definition read_checked_len :: "nat reader" where
  "read_checked_len = rd_bind get_u32 (\<lambda>n.
     rd_bind (rd_check (unat n > kMaxRecords) OversizedFrame ''record count exceeds bound'') (\<lambda>_.
     rd_return (unat n)))"

fun rd_times :: "nat \<Rightarrow> 'a reader \<Rightarrow> 'a list reader" where
  "rd_times 0 dec = rd_return []"
| "rd_times (Suc n) dec = rd_bind dec (\<lambda>x. rd_bind (rd_times n dec) (\<lambda>xs. rd_return (x # xs)))"

definition get_list :: "'a reader \<Rightarrow> 'a list reader" where
  "get_list dec = rd_bind read_checked_len (\<lambda>n. rd_times n dec)"

definition check_bytes :: "unit reader" where
  "check_bytes bs = (if bs \<noteq> [] then throw Corruption ''trailing garbage in record'' else Inr ((), bs))"

section \<open>Sequencing\<close>

lemma rd_return_apply [simp]: "rd_return x bs = Inr (x, bs)"
  by (simp add: rd_return_def)

lemma rd_throw_apply [simp]: "rd_throw c m bs = throw c m"
  by (simp add: rd_throw_def)

lemma rd_check_apply [simp]:
  "rd_bind (rd_check bad c m) f bs = (if bad then throw c m else f () bs)"
  by (simp add: rd_bind_def rd_check_def)

lemma rd_lift_apply [simp]:
  "rd_bind (rd_lift r) f bs = (case r of Inl e \<Rightarrow> Inl e | Inr x \<Rightarrow> f x bs)"
  by (simp add: rd_bind_def rd_lift_def split: sum.splits)

lemma rd_bind_Inl: "m bs = Inl e \<Longrightarrow> rd_bind m f bs = Inl e"
  by (simp add: rd_bind_def)

lemma rd_bind_Inr: "m bs = Inr (x, bs') \<Longrightarrow> rd_bind m f bs = f x bs'"
  by (simp add: rd_bind_def)

lemma rd_bind_return [simp]: "rd_bind (rd_return x) f = f x"
  by (rule ext) (simp add: rd_bind_def)

lemma rd_bind_assoc: "rd_bind (rd_bind m f) g = rd_bind m (\<lambda>x. rd_bind (f x) g)"
  by (rule ext) (auto simp: rd_bind_def split: sum.splits prod.splits)

lemma rd_bind_eq_Inr:
  "rd_bind m f bs = Inr r \<longleftrightarrow> (\<exists>x bs'. m bs = Inr (x, bs') \<and> f x bs' = Inr r)"
  by (auto simp: rd_bind_def split: sum.splits)

text \<open>What a value a reader returns satisfies, together with the number of bytes read for it.\<close>

definition yields :: "'a reader \<Rightarrow> ('a \<Rightarrow> nat \<Rightarrow> bool) \<Rightarrow> bool" where
  "yields m P \<longleftrightarrow>
     (\<forall>bs x rest. m bs = Inr (x, rest) \<longrightarrow> (\<exists>n. length bs = n + length rest \<and> P x n))"

named_theorems yields_intros \<open>rules for what the values a reader returns satisfy\<close>

lemma yieldsD: "yields m P \<Longrightarrow> m bs = Inr (x, rest) \<Longrightarrow> \<exists>n. length bs = n + length rest \<and> P x n"
  by (auto simp: yields_def)

lemma yields_mono: "yields m Q \<Longrightarrow> (\<And>x n. Q x n \<Longrightarrow> P x n) \<Longrightarrow> yields m P"
  unfolding yields_def by blast

lemma yields_return: "P x 0 \<Longrightarrow> yields (rd_return x) P"
  by (simp add: yields_def)

lemma yields_throw: "yields (rd_throw c m) P"
  by (simp add: yields_def)

lemma yields_bind:
  assumes "yields m Q" and "\<And>x k. Q x k \<Longrightarrow> yields (f x) (\<lambda>y n. P y (k + n))"
  shows "yields (rd_bind m f) P"
  unfolding yields_def rd_bind_eq_Inr
proof (intro allI impI, elim exE conjE)
  fix bs y rest x bs' assume m: "m bs = Inr (x, bs')" and f: "f x bs' = Inr (y, rest)"
  from yieldsD [OF assms(1) m] obtain k where k: "length bs = k + length bs'" "Q x k" by blast
  from yieldsD [OF assms(2) [OF k(2)] f] obtain n where "length bs' = n + length rest" "P y (k + n)"
    by blast
  with k show "\<exists>n. length bs = n + length rest \<and> P y n"
    by (intro exI [of _ "k + n"]) simp
qed

lemma yields_check:
  "(\<not> bad \<Longrightarrow> yields (f ()) P) \<Longrightarrow> yields (rd_bind (rd_check bad c m) f) P"
  by (auto simp: yields_def split: if_splits)

lemma yields_lift:
  "(\<And>x. r = Inr x \<Longrightarrow> yields (f x) P) \<Longrightarrow> yields (rd_bind (rd_lift r) f) P"
  by (cases r) (auto simp: yields_def)

section \<open>The contract of a writer and its reader\<close>

locale codec =
  fixes enc :: "'a \<Rightarrow> byte list"
    and dec :: "'a reader"
    and ok :: "'a \<Rightarrow> bool"
  assumes dec_enc: "ok x \<Longrightarrow> dec (enc x @ rest) = Inr (x, rest)"
    and dec_ok: "yields dec (\<lambda>x n. ok x \<and> n = length (enc x))"
begin

lemma bind_enc: "ok x \<Longrightarrow> rd_bind dec f (enc x @ rest) = f x rest"
  by (simp add: rd_bind_Inr dec_enc)

lemma dec_enc_only: "ok x \<Longrightarrow> dec (enc x) = Inr (x, [])"
  using dec_enc [of x "[]"] by simp

lemma accepted_ok: "dec bs = Inr (x, rest) \<Longrightarrow> ok x"
  using yieldsD [OF dec_ok] by blast

lemma accepted_length: "dec bs = Inr (x, rest) \<Longrightarrow> length bs = length (enc x) + length rest"
  using yieldsD [OF dec_ok] by blast

text \<open>No encoding is a prefix of another one.\<close>

lemma prefix_free: "ok x \<Longrightarrow> ok y \<Longrightarrow> enc x @ r = enc y @ s \<longleftrightarrow> x = y \<and> r = s"
  by (metis Inr_inject Pair_inject dec_enc)

lemma enc_inject: "ok x \<Longrightarrow> ok y \<Longrightarrow> enc x = enc y \<longleftrightarrow> x = y"
  using prefix_free [of x y "[]" "[]"] by simp

lemma reencode: "dec bs = Inr (x, rest) \<Longrightarrow> dec (enc x @ more) = Inr (x, more)"
  by (rule dec_enc) (rule accepted_ok)

lemma times_enc:
  "list_all ok xs \<Longrightarrow> rd_times (length xs) dec (concat (map enc xs) @ rest) = Inr (xs, rest)"
proof (induction xs)
  case (Cons x xs)
  then have "rd_bind (rd_times (length xs) dec) (\<lambda>ys. rd_return (x # ys))
      (concat (map enc xs) @ rest) = Inr (x # xs, rest)"
    by (subst rd_bind_Inr [where x = xs and bs' = rest]) simp_all
  with Cons.prems show ?case by (simp add: bind_enc)
qed simp

lemma times_ok: "yields (rd_times n dec)
    (\<lambda>xs k. length xs = n \<and> list_all ok xs \<and> k = length (concat (map enc xs)))"
proof (induction n)
  case 0
  show ?case by (simp add: yields_def)
next
  case (Suc n)
  show ?case
    unfolding rd_times.simps
    by (intro yields_bind [OF dec_ok] yields_bind [OF Suc.IH] yields_return) simp
qed

end

section \<open>Numbers\<close>

lemma bit_le_bytes:
  assumes "8 * k \<le> LENGTH('w::len)"
  shows "bit (le_bytes k bs :: 'w word) n \<longleftrightarrow> n < 8 * k \<and> bit (bs ! (n div 8)) (n mod 8)"
  using assms
proof (induction k)
  case (Suc k)
  have "le_bytes (Suc k) bs = or (le_bytes k bs) (push_bit (8 * k) (ucast (bs ! k)) :: 'w word)"
    by (simp add: le_bytes_def)
  moreover have "bit (le_bytes k bs :: 'w word) n \<longleftrightarrow> n < 8 * k \<and> bit (bs ! (n div 8)) (n mod 8)"
    using Suc by simp
  moreover have "bit (push_bit (8 * k) (ucast (bs ! k)) :: 'w word) n \<longleftrightarrow>
      8 * k \<le> n \<and> n < 8 * Suc k \<and> bit (bs ! (n div 8)) (n mod 8)"
  proof (cases "8 * k \<le> n \<and> n < 8 * Suc k")
    case True
    then have "n div 8 = k" "n mod 8 = n - 8 * k" by (auto simp: div_nat_eqI modulo_nat_def)
    moreover from True Suc.prems have "n - 8 * k < LENGTH('w)" by linarith
    ultimately show ?thesis using True Suc.prems by (simp add: bit_simps)
  next
    case False
    then show ?thesis using bit_imp_le_length [of "bs ! k" "n - 8 * k"] by (auto simp: bit_simps)
  qed
  ultimately show ?case by (auto simp: bit_simps)
qed (simp add: le_bytes_def)

lemma le_bytes_round:
  fixes w :: "'w::len word"
  assumes "8 * k = LENGTH('w)" and "\<And>i. i < k \<Longrightarrow> bs ! i = ucast (and (drop_bit (8 * i) w) 0xFF)"
  shows "le_bytes k bs = w"
proof (rule bit_word_eqI)
  fix n assume n: "n < LENGTH('w)"
  have mask: "(0xFF :: 'w word) = mask 8" by (simp add: mask_eq_exp_minus_1)
  have "n div 8 < k" "n mod 8 < LENGTH('w)" using n assms(1) by (auto intro: le_less_trans)
  then show "bit (le_bytes k bs :: 'w word) n \<longleftrightarrow> bit w n"
    using n assms by (simp add: bit_le_bytes bit_simps mask)
qed

text \<open>A number determines its bytes.\<close>

lemma le_bytes_inject:
  assumes "8 * k = LENGTH('w::len)" "length bs = k" "length cs = k"
    and "(le_bytes k bs :: 'w word) = le_bytes k cs"
  shows "bs = cs"
proof (rule nth_equalityI)
  fix i assume i: "i < length bs"
  show "bs ! i = cs ! i"
  proof (rule bit_word_eqI)
    fix m assume "m < LENGTH(8)"
    then have "(8 * i + m) div 8 = i" "(8 * i + m) mod 8 = m" "8 * i + m < 8 * k"
      using i assms(2) by simp_all
    then show "bit (bs ! i) m \<longleftrightarrow> bit (cs ! i) m"
      using arg_cong [where f = "\<lambda>w. bit w (8 * i + m)", OF assms(4)] assms(1)
      by (simp add: bit_le_bytes)
  qed
qed (use assms in simp)

lemma get_le_eq_Inr:
  "get_le k bs = Inr (x, rest) \<longleftrightarrow> k \<le> length bs \<and> x = le_bytes k bs \<and> rest = drop k bs"
  by (auto simp: get_le_def rd_bind_eq_Inr require_def)

lemma le_bytes_take: "8 * k \<le> LENGTH('w::len) \<Longrightarrow> (le_bytes k (take k bs) :: 'w word) = le_bytes k bs"
  by (rule bit_word_eqI) (auto simp: bit_le_bytes)

text \<open>So a reader of numbers accepts only what its writer writes.\<close>

lemma get_le_canonical:
  fixes x :: "'w::len word"
  assumes "8 * k = LENGTH('w)" "\<And>rest. get_le k (enc x @ rest) = Inr (x, rest)" "length (enc x) = k"
    and "get_le k bs = Inr (x, rest)"
  shows "bs = enc x @ rest"
proof -
  from assms(4) have bs: "k \<le> length bs" "x = le_bytes k (take k bs)" "rest = drop k bs"
    using assms(1) by (simp_all add: get_le_eq_Inr le_bytes_take)
  moreover have "x = le_bytes k (enc x)"
    using assms(2) [of "[]"] by (simp add: get_le_eq_Inr)
  ultimately have "take k bs = enc x"
    using assms(1,3) by (intro le_bytes_inject [where 'w = 'w]) simp_all
  with bs(3) show ?thesis by (metis append_take_drop_id)
qed

lemma get_le_round:
  fixes w :: "'w::len word"
  assumes "8 * k = LENGTH('w)" and "length bs = k"
    and "\<And>i. i < k \<Longrightarrow> bs ! i = ucast (and (drop_bit (8 * i) w) 0xFF)"
  shows "get_le k (bs @ rest) = Inr (w, rest)"
  using assms le_bytes_round [of k "bs @ rest" w]
  by (simp add: get_le_def rd_bind_def require_def nth_append)

lemma get_le_yields: "yields (get_le k) (\<lambda>_ n. n = k)"
  by (auto simp: yields_def get_le_def rd_bind_eq_Inr require_def split: if_splits)

lemma length_put [simp]:
  "length (put_u8 a) = 1" "length (put_u16 b) = 2" "length (put_u32 c) = 4" "length (put_u64 d) = 8"
  "length (put_i32 c) = 4" "length (put_double d) = 8" "length (put_bool p) = 1"
  "length (put_id i) = 8" "length (put_enum es e) = 1" "length (put_string s) = 4 + length s"
  by (simp_all add: put_u8_def put_u16_def put_u32_def put_u64_def put_i32_def put_double_def
      put_bool_def put_id_def put_enum_def put_string_def upt_rec)

lemma length_put_list: "length (put_list enc xs) = 4 + sum_list (map (length o enc) xs)"
  by (simp add: put_list_def length_concat o_def)

interpretation u8: codec put_u8 get_u8 "\<lambda>_. True"
proof
  fix x :: "8 word" and rest
  have "and x 0xFF = x" by (rule bit_word_eqI) (auto simp: bit_simps less_Suc_eq eval_nat_numeral)
  then show "get_u8 (put_u8 x @ rest) = Inr (x, rest)"
    unfolding get_u8_def by (intro get_le_round) (simp_all add: put_u8_def)
next
  show "yields get_u8 (\<lambda>x n. True \<and> n = length (put_u8 x))"
    using get_le_yields by (simp add: get_u8_def)
qed

interpretation u16: codec put_u16 get_u16 "\<lambda>_. True"
proof
  fix x :: "16 word" and rest
  show "get_u16 (put_u16 x @ rest) = Inr (x, rest)"
    unfolding get_u16_def
    by (rule get_le_round) (auto simp: put_u16_def put_u8_def less_Suc_eq numeral_eq_Suc)
next
  show "yields get_u16 (\<lambda>x n. True \<and> n = length (put_u16 x))"
    using get_le_yields by (simp add: get_u16_def)
qed

interpretation u32: codec put_u32 get_u32 "\<lambda>_. True"
proof
  fix x :: "32 word" and rest
  show "get_u32 (put_u32 x @ rest) = Inr (x, rest)"
    unfolding get_u32_def
    by (rule get_le_round) (auto simp: put_u32_def put_u8_def less_Suc_eq eval_nat_numeral)
next
  show "yields get_u32 (\<lambda>x n. True \<and> n = length (put_u32 x))"
    using get_le_yields by (simp add: get_u32_def)
qed

interpretation u64: codec put_u64 get_u64 "\<lambda>_. True"
proof
  fix x :: "64 word" and rest
  show "get_u64 (put_u64 x @ rest) = Inr (x, rest)"
    unfolding get_u64_def
  proof (rule get_le_round)
    fix i :: nat assume "i < 8"
    then show "put_u64 x ! i = ucast (and (drop_bit (8 * i) x) 0xFF)"
      by (simp add: put_u64_def put_u8_def)
  qed simp_all
next
  show "yields get_u64 (\<lambda>x n. True \<and> n = length (put_u64 x))"
    using get_le_yields by (simp add: get_u64_def)
qed

lemma number_canonical:
  "get_u8 bs = Inr (a, rest) \<Longrightarrow> bs = put_u8 a @ rest"
  "get_u32 bs = Inr (b, rest) \<Longrightarrow> bs = put_u32 b @ rest"
  "get_u64 bs = Inr (c, rest) \<Longrightarrow> bs = put_u64 c @ rest"
  using get_le_canonical [where k = 1 and enc = put_u8] u8.dec_enc
    get_le_canonical [where k = 4 and enc = put_u32] u32.dec_enc
    get_le_canonical [where k = 8 and enc = put_u64] u64.dec_enc
  by (simp_all add: get_u8_def get_u32_def get_u64_def)

lemmas number_bind = u8.bind_enc [OF TrueI] u16.bind_enc [OF TrueI] u32.bind_enc [OF TrueI]
  u64.bind_enc [OF TrueI]

interpretation i32: codec put_i32 get_i32 "\<lambda>_. True"
  unfolding put_i32_def get_i32_def by (rule u32.codec_axioms)

interpretation double: codec put_double get_double "\<lambda>_. True"
  unfolding put_double_def get_double_def by (rule u64.codec_axioms)

lemmas number_yields = u8.dec_ok [THEN yields_bind] u16.dec_ok [THEN yields_bind]
  u32.dec_ok [THEN yields_bind] u64.dec_ok [THEN yields_bind]

interpretation bool: codec put_bool get_bool "\<lambda>_. True"
proof
  show "yields get_bool (\<lambda>x n. True \<and> n = length (put_bool x))"
    unfolding get_bool_def by (intro number_yields yields_return) simp
qed (auto simp: get_bool_def put_bool_def number_bind)

interpretation id: codec put_id get_id "\<lambda>_. True"
proof
  show "yields get_id (\<lambda>x n. True \<and> n = length (put_id x))"
    unfolding get_id_def by (intro number_yields yields_return) simp
qed (auto simp: get_id_def put_id_def number_bind)

section \<open>Strings, enums, lists\<close>

lemma char_of_byte_of_char [simp]: "char_of_byte (byte_of_char c) = c"
  by (simp add: char_of_byte_def byte_of_char_def unat_of_nat)

lemma unat_of_length: "n \<le> 2 ^ 20 \<Longrightarrow> unat (word_of_nat n :: 32 word) = n"
  by (simp add: unat_of_nat)

definition string_ok :: "string \<Rightarrow> bool" where
  "string_ok s \<longleftrightarrow> length s \<le> kMaxString"

lemma get_bytes_append [simp]: "length xs = n \<Longrightarrow> get_bytes n (xs @ rest) = Inr (xs, rest)"
  by (simp add: get_bytes_def rd_bind_def require_def)

lemma get_bytes_length: "yields (get_bytes n) (\<lambda>s k. length s = n \<and> k = n)"
  by (auto simp: yields_def get_bytes_def rd_bind_eq_Inr require_def split: if_splits)

interpretation str: codec put_string get_string string_ok
proof
  fix s rest assume s: "string_ok s"
  then have "unat (word_of_nat (length s) :: 32 word) = length s"
    by (simp add: string_ok_def kMaxString_def unat_of_length)
  moreover have "rd_bind (get_bytes (length s)) f (map byte_of_char s @ rest)
      = f (map byte_of_char s) rest" for f :: "byte list \<Rightarrow> string reader"
    by (rule rd_bind_Inr) simp
  ultimately show "get_string (put_string s @ rest) = Inr (s, rest)"
    using s by (simp add: get_string_def put_string_def number_bind string_ok_def o_def)
next
  show "yields get_string (\<lambda>s n. string_ok s \<and> n = length (put_string s))"
    unfolding get_string_def
    by (intro number_yields yields_check yields_bind [OF get_bytes_length] yields_return)
      (simp add: string_ok_def)
qed

lemma enum_codec: "byte_enum elems \<Longrightarrow> codec (put_enum elems) (get_enum elems msg) (\<lambda>_. True)"
proof
  show "yields (get_enum elems msg) (\<lambda>x n. True \<and> n = length (put_enum elems x))"
    unfolding get_enum_def
  proof (rule number_yields)
    fix v :: "8 word" and k assume k: "True \<and> k = length (put_u8 v)"
    show "yields (case enum_of_code elems v of None \<Rightarrow> rd_throw Corruption msg | Some x \<Rightarrow> rd_return x)
        (\<lambda>y n. True \<and> k + n = length (put_enum elems y))"
      using k by (cases "enum_of_code elems v") (simp_all add: yields_throw yields_return)
  qed
qed (simp add: get_enum_def put_enum_def number_bind byte_enum.code_round)

definition list_ok :: "('a \<Rightarrow> bool) \<Rightarrow> 'a list \<Rightarrow> bool" where
  "list_ok ok xs \<longleftrightarrow> length xs \<le> kMaxRecords \<and> list_all ok xs"

lemma read_len_bind:
  "length xs \<le> kMaxRecords \<Longrightarrow>
     rd_bind read_checked_len f (put_u32 (word_of_nat (length xs)) @ rest) = f (length xs) rest"
  by (simp add: read_checked_len_def rd_bind_assoc number_bind unat_of_length kMaxRecords_def)

lemma read_len_bound: "yields read_checked_len (\<lambda>n k. n \<le> kMaxRecords \<and> k = 4)"
  unfolding read_checked_len_def
  by (intro number_yields yields_check yields_return) simp

lemma list_codec:
  assumes "codec enc dec ok"
  shows "codec (put_list enc) (get_list dec) (list_ok ok)"
proof
  fix xs rest assume "list_ok ok xs"
  then show "get_list dec (put_list enc xs @ rest) = Inr (xs, rest)"
    by (simp add: get_list_def put_list_def list_ok_def read_len_bind codec.times_enc [OF assms])
next
  show "yields (get_list dec) (\<lambda>xs n. list_ok ok xs \<and> n = length (put_list enc xs))"
    unfolding get_list_def
    by (rule yields_bind [OF read_len_bound], rule yields_mono [OF codec.times_ok [OF assms]])
      (simp add: list_ok_def put_list_def)
qed

lemma list_ok_Nil [simp]: "list_ok ok []"
  by (simp add: list_ok_def)

lemma list_ok_True [simp]: "list_ok (\<lambda>_. True) xs \<longleftrightarrow> length xs \<le> kMaxRecords"
  by (simp add: list_ok_def list_all_iff)

interpretation id_list: codec "put_list put_id" "get_list get_id" "list_ok (\<lambda>_. True)"
  by (rule list_codec) (rule id.codec_axioms)

interpretation str_list: codec "put_list put_string" "get_list get_string" "list_ok string_ok"
  by (rule list_codec) (rule str.codec_axioms)

interpretation Provenance_codec: codec "put_enum all_Provenance"
    "get_enum all_Provenance ''invalid provenance''" "\<lambda>_. True"
  by (rule enum_codec) (rule Provenance_enum.byte_enum_axioms)

interpretation ResourceKind_codec: codec "put_enum all_ResourceKind"
    "get_enum all_ResourceKind ''invalid resource kind''" "\<lambda>_. True"
  by (rule enum_codec) (rule ResourceKind_enum.byte_enum_axioms)

text \<open>The rewriting of a reader applied to what its writer wrote, and what readers return.\<close>

lemmas codec_bind [codec_simps] = number_bind i32.bind_enc [OF TrueI] double.bind_enc [OF TrueI]
  bool.bind_enc [OF TrueI] id.bind_enc [OF TrueI] str.bind_enc id_list.bind_enc str_list.bind_enc
  Provenance_codec.bind_enc [OF TrueI] ResourceKind_codec.bind_enc [OF TrueI]

lemmas codec_yields [THEN yields_bind, yields_intros] = u8.dec_ok u16.dec_ok u32.dec_ok u64.dec_ok i32.dec_ok
  double.dec_ok bool.dec_ok id.dec_ok str.dec_ok id_list.dec_ok str_list.dec_ok
  Provenance_codec.dec_ok ResourceKind_codec.dec_ok

end
