(* ===== verification/Request.thy ===== *)
theory Request
  imports Core_Types
begin

text \<open>
  The demand and request model (\<^verbatim>\<open>request.hpp\<close>, \<^verbatim>\<open>request.cpp\<close>): what a workload asks
  for, and \<open>validate\<close>, the checks every demand passes before it is scheduled or decoded.

  The lemmas say what an accepted demand guarantees: the accelerator counts are ordered and
  bounded, no byte quantity exceeds the ceiling, and the aggregate VRAM covers the per-device
  VRAM times the minimum count. The last one is computed in 64 bits, and the two ceilings
  together reach exactly \<open>2 ^ 64\<close>: at that single point the product wraps to zero.
\<close>

section \<open>Enums\<close>

datatype AcceleratorClass =
    Acc_None
  | Acc_Cuda
  | Acc_Rocm
  | Acc_Metal
  | Acc_Vulkan
  | Acc_NoneRequired

definition all_AcceleratorClass :: "AcceleratorClass list" where
  "all_AcceleratorClass = [Acc_None,
     Acc_Cuda,
     Acc_Rocm,
     Acc_Metal,
     Acc_Vulkan,
     Acc_NoneRequired]"

fun AcceleratorClass_to_string :: "AcceleratorClass \<Rightarrow> string" where
  "AcceleratorClass_to_string Acc_None = ''NONE''"
| "AcceleratorClass_to_string Acc_Cuda = ''CUDA''"
| "AcceleratorClass_to_string Acc_Rocm = ''ROCM''"
| "AcceleratorClass_to_string Acc_Metal = ''METAL''"
| "AcceleratorClass_to_string Acc_Vulkan = ''VULKAN''"
| "AcceleratorClass_to_string Acc_NoneRequired = ''NONE_REQUIRED''"

interpretation AcceleratorClass_enum: byte_enum all_AcceleratorClass
  by unfold_locales (auto simp: all_AcceleratorClass_def intro: AcceleratorClass.exhaust)

datatype CommunicationPattern =
    CP_None
  | CP_PointToPoint
  | CP_AllReduce
  | CP_AllGather
  | CP_ReduceScatter
  | CP_AllToAll
  | CP_Broadcast
  | CP_Gather
  | CP_Scatter

definition all_CommunicationPattern :: "CommunicationPattern list" where
  "all_CommunicationPattern = [CP_None,
     CP_PointToPoint,
     CP_AllReduce,
     CP_AllGather,
     CP_ReduceScatter,
     CP_AllToAll,
     CP_Broadcast,
     CP_Gather,
     CP_Scatter]"

fun CommunicationPattern_to_string :: "CommunicationPattern \<Rightarrow> string" where
  "CommunicationPattern_to_string CP_None = ''NONE''"
| "CommunicationPattern_to_string CP_PointToPoint = ''POINT_TO_POINT''"
| "CommunicationPattern_to_string CP_AllReduce = ''ALL_REDUCE''"
| "CommunicationPattern_to_string CP_AllGather = ''ALL_GATHER''"
| "CommunicationPattern_to_string CP_ReduceScatter = ''REDUCE_SCATTER''"
| "CommunicationPattern_to_string CP_AllToAll = ''ALL_TO_ALL''"
| "CommunicationPattern_to_string CP_Broadcast = ''BROADCAST''"
| "CommunicationPattern_to_string CP_Gather = ''GATHER''"
| "CommunicationPattern_to_string CP_Scatter = ''SCATTER''"

interpretation CommunicationPattern_enum: byte_enum all_CommunicationPattern
  by unfold_locales (auto simp: all_CommunicationPattern_def intro: CommunicationPattern.exhaust)

datatype LatencySensitivity =
    LS_Low
  | LS_Medium
  | LS_High
  | LS_Critical

definition all_LatencySensitivity :: "LatencySensitivity list" where
  "all_LatencySensitivity = [LS_Low,
     LS_Medium,
     LS_High,
     LS_Critical]"

fun LatencySensitivity_to_string :: "LatencySensitivity \<Rightarrow> string" where
  "LatencySensitivity_to_string LS_Low = ''LOW''"
| "LatencySensitivity_to_string LS_Medium = ''MEDIUM''"
| "LatencySensitivity_to_string LS_High = ''HIGH''"
| "LatencySensitivity_to_string LS_Critical = ''CRITICAL''"

interpretation LatencySensitivity_enum: byte_enum all_LatencySensitivity
  by unfold_locales (auto simp: all_LatencySensitivity_def intro: LatencySensitivity.exhaust)

datatype LocalityKind =
    LK_Numa
  | LK_Pcie
  | LK_Nic
  | LK_Storage
  | LK_Topology

definition all_LocalityKind :: "LocalityKind list" where
  "all_LocalityKind = [LK_Numa,
     LK_Pcie,
     LK_Nic,
     LK_Storage,
     LK_Topology]"

fun LocalityKind_to_string :: "LocalityKind \<Rightarrow> string" where
  "LocalityKind_to_string LK_Numa = ''NUMA''"
| "LocalityKind_to_string LK_Pcie = ''PCIE''"
| "LocalityKind_to_string LK_Nic = ''NIC''"
| "LocalityKind_to_string LK_Storage = ''STORAGE''"
| "LocalityKind_to_string LK_Topology = ''TOPOLOGY''"

interpretation LocalityKind_enum: byte_enum all_LocalityKind
  by unfold_locales (auto simp: all_LocalityKind_def intro: LocalityKind.exhaust)

section \<open>Demand and request\<close>

record FailureDomainConstraint =
  minimumDistinctDomains :: CoreCount
  avoidColocation :: bool
  avoidSingleRoot :: bool

record AcceleratorRequirement =
  acc_capability :: AcceleratorClass
  minimumCount :: CoreCount
  targetCount :: CoreCount
  maximumCount :: CoreCount
  vramPerDevice :: ByteCount
  aggregateVram :: ByteCount
  requiresContiguousMemory :: bool
  acc_capabilityGeneration :: CapabilityGeneration

record MemoryRequirement =
  hostMemory :: ByteCount
  pinnedMemory :: ByteCount

record StorageRequirement =
  sto_capacity :: ByteCount
  requireLocal :: bool

record NetworkRequirement =
  net_bandwidth :: ByteCount
  requireNic :: bool

record ResidencyRequirement =
  requireModelResident :: bool
  requireAdapterResident :: bool
  requireStateLocal :: bool
  modelPath :: string
  adapterPath :: string
  statePath :: string

record DemandProfile =
  demandId :: WorkloadDemandId
  demandGeneration :: WorkloadDemandGeneration
  workloadId :: WorkloadId
  workloadGeneration :: WorkloadGeneration
  accelerator :: AcceleratorRequirement
  cpuRequired :: CoreCount
  dem_memory :: MemoryRequirement
  dem_storage :: StorageRequirement
  dem_network :: NetworkRequirement
  requiredTopologyGeneration :: TopologyGeneration
  dem_communication :: CommunicationPattern
  communicationBytes :: ByteCount
  dem_residency :: ResidencyRequirement
  failureDomains :: FailureDomainConstraint
  expectedExecutionDuration :: Duration
  latencySensitivity :: LatencySensitivity
  throughputObjective :: double
  externalPriority :: "32 word"
  externalPriorityOrdinal :: "64 word"
  sloGeneration :: SloGeneration
  dem_policyGeneration :: PolicyGeneration
  priorityGeneration :: PriorityGeneration
  maximumMovementCost :: ByteCount
  fallbackLocalities :: "LocalityKind list"
  dem_provenance :: Provenance

record SchedulingRequest =
  req_requestId :: SchedulingRequestId
  req_generation :: SchedulingRequestGeneration
  demand :: DemandProfile
  req_coordinatorEpoch :: CoordinatorEpoch
  req_sourceId :: SourceId
  req_sourceBootId :: SourceBootId
  submitOrdinal :: "64 word"

text \<open>A value-initialised demand and request: every member has its default initialiser.\<close>

definition default_AcceleratorRequirement :: AcceleratorRequirement where
  "default_AcceleratorRequirement =
     \<lparr>acc_capability = Acc_None, minimumCount = 0, targetCount = 0, maximumCount = 0,
      vramPerDevice = 0, aggregateVram = 0, requiresContiguousMemory = False,
      acc_capabilityGeneration = StrongId 0\<rparr>"

definition default_DemandProfile :: DemandProfile where
  "default_DemandProfile =
     \<lparr>demandId = StrongId 0, demandGeneration = StrongId 0, workloadId = StrongId 0,
      workloadGeneration = StrongId 0, accelerator = default_AcceleratorRequirement,
      cpuRequired = 0, dem_memory = \<lparr>hostMemory = 0, pinnedMemory = 0\<rparr>,
      dem_storage = \<lparr>sto_capacity = 0, requireLocal = False\<rparr>,
      dem_network = \<lparr>net_bandwidth = 0, requireNic = False\<rparr>,
      requiredTopologyGeneration = StrongId 0, dem_communication = CP_None, communicationBytes = 0,
      dem_residency = \<lparr>requireModelResident = False, requireAdapterResident = False,
        requireStateLocal = False, modelPath = [], adapterPath = [], statePath = []\<rparr>,
      failureDomains = \<lparr>minimumDistinctDomains = 0, avoidColocation = False, avoidSingleRoot = False\<rparr>,
      expectedExecutionDuration = 0, latencySensitivity = LS_Low, throughputObjective = d_zero,
      externalPriority = 0, externalPriorityOrdinal = 0, sloGeneration = StrongId 0,
      dem_policyGeneration = StrongId 0, priorityGeneration = StrongId 0, maximumMovementCost = 0,
      fallbackLocalities = [], dem_provenance = Prov_Reported\<rparr>"

definition default_SchedulingRequest :: SchedulingRequest where
  "default_SchedulingRequest =
     \<lparr>req_requestId = StrongId 0, req_generation = StrongId 0, demand = default_DemandProfile,
      req_coordinatorEpoch = StrongId 0, req_sourceId = StrongId 0, req_sourceBootId = StrongId 0,
      submitOrdinal = 0\<rparr>"

section \<open>Validation\<close>

definition kMaxBytes :: "64 word" where
  "kMaxBytes = push_bit 40 16"

definition kMaxCpuCount :: "64 word" where
  "kMaxCpuCount = push_bit 20 1"

definition kMaxHorizon :: Duration where
  "kMaxHorizon = 30 * 24 * 60 * 60 * 1000000000"

definition exceeds_byte_ceiling :: "DemandProfile \<Rightarrow> bool" where
  "exceeds_byte_ceiling d \<longleftrightarrow>
     vramPerDevice (accelerator d) > kMaxBytes \<or>
     aggregateVram (accelerator d) > kMaxBytes \<or>
     hostMemory (dem_memory d) > kMaxBytes \<or>
     pinnedMemory (dem_memory d) > kMaxBytes \<or>
     sto_capacity (dem_storage d) > kMaxBytes \<or>
     net_bandwidth (dem_network d) > kMaxBytes \<or>
     communicationBytes d > kMaxBytes \<or>
     maximumMovementCost d > kMaxBytes"

text \<open>
  The loop over the fallback list with its \<open>seen\<close> counters. Its test for a locality kind
  outside the enum has no value of \<open>LocalityKind\<close> to fire on.
\<close>

fun check_fallback :: "LocalityKind list \<Rightarrow> LocalityKind list \<Rightarrow> unit res" where
  "check_fallback seen [] = Inr ()"
| "check_fallback seen (lk # ls) =
     (if lk \<in> set seen
      then throw MalformedLocalityConstraint ''duplicate locality kind in fallback list''
      else check_fallback (lk # seen) ls)"

definition validate :: "DemandProfile \<Rightarrow> unit res" where
  "validate d =
     (let acc = accelerator d;
          mn = minimumCount acc; mx = maximumCount acc; target = targetCount acc in
      if mx > 0 \<and> mn > mx then
        throw InvalidCountRange ''accelerator minimumCount exceeds maximumCount''
      else if target > 0 \<and> (mn > target \<or> (mx > 0 \<and> target > mx)) then
        throw InvalidCountRange ''accelerator targetCount outside [minimumCount, maximumCount]''
      else if ucast mn > kMaxCpuCount \<or> ucast mx > kMaxCpuCount \<or> ucast target > kMaxCpuCount then
        throw InvalidCountRange ''accelerator count out of supported range''
      else if mn > 0 \<and> acc_capability acc = Acc_None then
        throw InvalidDemand ''accelerator count requested with no accelerator capability class''
      else if exceeds_byte_ceiling d then
        throw Overflow ''a byte quantity exceeds the supported ceiling''
      else if mn > 0 \<and> aggregateVram acc > 0 \<and> aggregateVram acc < vramPerDevice acc * ucast mn then
        throw InvalidDemand ''aggregate VRAM is below per-device VRAM times minimum count''
      else if expectedExecutionDuration d > kMaxHorizon then
        throw ImpossibleDuration ''expected execution duration exceeds supported horizon''
      else if \<not> deq (throughputObjective d) d_zero \<and>
              (\<not> is_finite (throughputObjective d) \<or> dlt (throughputObjective d) d_zero) then
        throw NonFinite ''throughput objective must be finite and non-negative''
      else res_bind (check_fallback [] (fallbackLocalities d)) (\<lambda>_.
        if \<not> is_valid (workloadId d) \<or> \<not> is_valid (demandId d) then
          throw InvalidDemand ''workload/demand identity missing''
        else if \<not> is_valid (workloadGeneration d) \<or> \<not> is_valid (demandGeneration d) then
          throw InvalidDemand ''workload/demand generation missing''
        else Inr ()))"

section \<open>What an accepted demand guarantees\<close>

lemma check_fallback_ok [simp]:
  "check_fallback seen ls = Inr () \<longleftrightarrow> distinct ls \<and> set seen \<inter> set ls = {}"
  by (induction seen ls rule: check_fallback.induct) auto

lemma unat_kMaxCpuCount [simp]: "unat kMaxCpuCount = 2 ^ 20"
  by (simp add: kMaxCpuCount_def)

lemma unat_kMaxBytes [simp]: "unat kMaxBytes = 2 ^ 44"
  by (simp add: kMaxBytes_def)

lemma unat_kMaxHorizon [simp]: "unat kMaxHorizon = 2592000000000000"
  by (simp add: kMaxHorizon_def)

lemma unat_ucast_32_64 [simp]: "unat (ucast (x :: 32 word) :: 64 word) = unat x"
proof -
  have "unat x < 2 ^ 64" using unsigned_less [of x, where 'a = nat] by simp
  then show ?thesis by (simp add: unsigned_ucast_eq take_bit_nat_eq_self)
qed

lemma throughput_check:
  "(\<not> deq t d_zero \<and> (\<not> is_finite t \<or> dlt t d_zero)) \<longleftrightarrow> \<not> nonneg t"
proof -
  have nan: "\<not> is_nan t" if "is_finite t" using that by (rule finite_not_nan)
  show ?thesis
  proof (cases "is_finite t")
    case True
    then show ?thesis using nan by (auto simp: deq_def dlt_def nonneg_def)
  next
    case False
    moreover have "\<not> deq t d_zero"
    proof
      assume "deq t d_zero"
      then have "mag_val (dmag t) = 0" using abs_dval [of t] by (simp add: deq_def)
      with False show False by (simp add: is_finite_def mag_inf_def)
    qed
    ultimately show ?thesis by (simp add: nonneg_def)
  qed
qed

text \<open>The contract of a demand, over natural numbers.\<close>

definition demand_counts_ok :: "nat \<Rightarrow> nat \<Rightarrow> nat \<Rightarrow> bool" where
  "demand_counts_ok mn target mx \<longleftrightarrow>
     (mx = 0 \<or> mn \<le> mx) \<and> (target = 0 \<or> mn \<le> target \<and> (mx = 0 \<or> target \<le> mx)) \<and>
     mn \<le> 2 ^ 20 \<and> mx \<le> 2 ^ 20 \<and> target \<le> 2 ^ 20"

definition demand_bytes_ok :: "DemandProfile \<Rightarrow> bool" where
  "demand_bytes_ok d \<longleftrightarrow>
     (\<forall>b \<in> {vramPerDevice (accelerator d), aggregateVram (accelerator d), hostMemory (dem_memory d),
            pinnedMemory (dem_memory d), sto_capacity (dem_storage d), net_bandwidth (dem_network d),
            communicationBytes d, maximumMovementCost d}. unat b \<le> 2 ^ 44)"

definition valid_demand :: "DemandProfile \<Rightarrow> bool" where
  "valid_demand d \<longleftrightarrow>
     (let acc = accelerator d; mn = unat (minimumCount acc) in
      demand_counts_ok mn (unat (targetCount acc)) (unat (maximumCount acc)) \<and>
      (mn = 0 \<or> acc_capability acc \<noteq> Acc_None) \<and>
      demand_bytes_ok d \<and>
      (mn = 0 \<or> aggregateVram acc = 0 \<or>
         unat (vramPerDevice acc) * mn mod 2 ^ 64 \<le> unat (aggregateVram acc)) \<and>
      unat (expectedExecutionDuration d) \<le> 2592000000000000 \<and>
      nonneg (throughputObjective d) \<and>
      distinct (fallbackLocalities d) \<and>
      is_valid (workloadId d) \<and> is_valid (demandId d) \<and>
      is_valid (workloadGeneration d) \<and> is_valid (demandGeneration d))"

lemma exceeds_byte_ceiling_iff: "exceeds_byte_ceiling d \<longleftrightarrow> \<not> demand_bytes_ok d"
  by (auto simp: exceeds_byte_ceiling_def demand_bytes_ok_def word_less_nat_alt)

lemma counts_check:
  fixes mn mx target :: "32 word"
  shows "\<not> (mx > 0 \<and> mn > mx) \<and> \<not> (target > 0 \<and> (mn > target \<or> (mx > 0 \<and> target > mx))) \<and>
     \<not> (ucast mn > kMaxCpuCount \<or> ucast mx > kMaxCpuCount \<or> ucast target > kMaxCpuCount) \<longleftrightarrow>
     demand_counts_ok (unat mn) (unat target) (unat mx)"
  by (auto simp: demand_counts_ok_def word_less_nat_alt not_less)

lemma aggregate_check:
  fixes v agg :: "64 word" and mn :: "32 word"
  shows "\<not> (mn > 0 \<and> agg > 0 \<and> agg < v * ucast mn) \<longleftrightarrow>
     unat mn = 0 \<or> agg = 0 \<or> unat v * unat mn mod 2 ^ 64 \<le> unat agg"
  by (auto simp: word_less_nat_alt not_less unat_word_ariths unat_eq_0)

lemma validate_Inr: "validate d = Inr () \<longleftrightarrow> valid_demand d"
proof -
  let ?acc = "accelerator d"
  have "validate d = Inr () \<longleftrightarrow>
     (\<not> (maximumCount ?acc > 0 \<and> minimumCount ?acc > maximumCount ?acc) \<and>
      \<not> (targetCount ?acc > 0 \<and> (minimumCount ?acc > targetCount ?acc \<or>
         (maximumCount ?acc > 0 \<and> targetCount ?acc > maximumCount ?acc))) \<and>
      \<not> (ucast (minimumCount ?acc) > kMaxCpuCount \<or> ucast (maximumCount ?acc) > kMaxCpuCount \<or>
         ucast (targetCount ?acc) > kMaxCpuCount)) \<and>
      \<not> (minimumCount ?acc > 0 \<and> acc_capability ?acc = Acc_None) \<and>
      \<not> exceeds_byte_ceiling d \<and>
      \<not> (minimumCount ?acc > 0 \<and> aggregateVram ?acc > 0 \<and>
         aggregateVram ?acc < vramPerDevice ?acc * ucast (minimumCount ?acc)) \<and>
      \<not> expectedExecutionDuration d > kMaxHorizon \<and>
      \<not> (\<not> deq (throughputObjective d) d_zero \<and>
         (\<not> is_finite (throughputObjective d) \<or> dlt (throughputObjective d) d_zero)) \<and>
      distinct (fallbackLocalities d) \<and>
      \<not> (\<not> is_valid (workloadId d) \<or> \<not> is_valid (demandId d)) \<and>
      \<not> (\<not> is_valid (workloadGeneration d) \<or> \<not> is_valid (demandGeneration d))"
    by (simp only: validate_def Let_def if_throw_eq_Inr res_bind_unit check_fallback_ok conj_assoc list.set
        Int_empty_left simp_thms)
  also have "\<dots> \<longleftrightarrow> valid_demand d"
    unfolding counts_check throughput_check aggregate_check exceeds_byte_ceiling_iff
    by (simp only: valid_demand_def Let_def not_less word_le_nat_alt unat_kMaxHorizon
        unat_eq_0 word_greater_zero_iff not_le de_Morgan_conj de_Morgan_disj not_not) auto
  finally show ?thesis .
qed

lemma validate_cases: "validate d = Inr () \<or> (\<exists>c m. validate d = throw c m)"
  by (metis FabricError.exhaust old.unit.exhaust sumE)

text \<open>The product of the two ceilings is the only one that wraps.\<close>

lemma vram_product_bound:
  assumes "v \<le> 2 ^ 44" "n \<le> 2 ^ 20" "(v, n) \<noteq> (2 ^ 44, 2 ^ (20::nat))"
  shows "v * n < (2::nat) ^ 64"
proof -
  consider "v < 2 ^ 44" | "n < 2 ^ 20" using assms by fastforce
  then show ?thesis
  proof cases
    case 1
    then have "v * n \<le> (2 ^ 44 - 1) * 2 ^ 20" using assms(2) by (intro mult_le_mono) auto
    then show ?thesis by simp
  next
    case 2
    then have "v * n \<le> 2 ^ 44 * (2 ^ 20 - 1)" using assms(1) by (intro mult_le_mono) auto
    then show ?thesis by simp
  qed
qed

lemma valid_demand_covers:
  assumes "valid_demand d" and "0 < unat (minimumCount (accelerator d))"
    and "0 < unat (aggregateVram (accelerator d))"
    and "(unat (vramPerDevice (accelerator d)), unat (minimumCount (accelerator d))) \<noteq> (2 ^ 44, 2 ^ 20)"
  shows "unat (vramPerDevice (accelerator d)) * unat (minimumCount (accelerator d))
     \<le> unat (aggregateVram (accelerator d))"
proof -
  have "unat (vramPerDevice (accelerator d)) \<le> 2 ^ 44" "unat (minimumCount (accelerator d)) \<le> 2 ^ 20"
    using assms(1) by (simp_all add: valid_demand_def demand_bytes_ok_def demand_counts_ok_def Let_def)
  from vram_product_bound [OF this assms(4)] show ?thesis
    using assms(1-3) by (auto simp: valid_demand_def Let_def)
qed

section \<open>Properties\<close>

text \<open>C40: a demand passes \<^verbatim>\<open>validate\<close> exactly when its counts are ordered and bounded, a positive
  count names a capability, every byte quantity is at most 16 TiB, the aggregate VRAM covers the
  per-device demand (modulo the 64-bit product), the duration is at most 30 days, the throughput is
  finite and non-negative, the fallback list has no duplicate and the identities are present.\<close>

theorem validate_exact: "validate d = Inr () \<longleftrightarrow> valid_demand d"
  by (rule validate_Inr)

text \<open>An accepted demand never understates its VRAM: a positive aggregate is at least the
  per-device VRAM times the minimum count, over the naturals, away from the one pair of ceilings
  whose 64-bit product wraps.\<close>

theorem accepted_aggregate_covers:
  assumes "validate d = Inr ()"
    and "0 < unat (minimumCount (accelerator d))" "0 < unat (aggregateVram (accelerator d))"
    and "(unat (vramPerDevice (accelerator d)), unat (minimumCount (accelerator d))) \<noteq> (2 ^ 44, 2 ^ 20)"
  shows "unat (vramPerDevice (accelerator d)) * unat (minimumCount (accelerator d))
     \<le> unat (aggregateVram (accelerator d))"
  using assms valid_demand_covers unfolding validate_Inr by blast

definition small_demand :: DemandProfile where
  "small_demand = default_DemandProfile
     \<lparr>demandId := StrongId 1, demandGeneration := StrongId 1, workloadId := StrongId 1,
      workloadGeneration := StrongId 1,
      accelerator := default_AcceleratorRequirement
        \<lparr>acc_capability := Acc_Cuda, minimumCount := 2, vramPerDevice := 4, aggregateVram := 9\<rparr>\<rparr>"

lemmas demand_eval =
  validate_Inr valid_demand_def demand_counts_ok_def demand_bytes_ok_def nonneg_def is_valid_def
  default_DemandProfile_def default_AcceleratorRequirement_def Let_def

theorem accepted_aggregate_covers_witness:
  "unat (vramPerDevice (accelerator small_demand)) * unat (minimumCount (accelerator small_demand)) \<le> 9"
  using accepted_aggregate_covers [of small_demand] by (simp add: small_demand_def demand_eval)

definition wrapping_demand :: DemandProfile where
  "wrapping_demand = small_demand
     \<lparr>accelerator := default_AcceleratorRequirement
        \<lparr>acc_capability := Acc_Cuda, minimumCount := 2 ^ 20, vramPerDevice := 2 ^ 44,
         aggregateVram := 1\<rparr>\<rparr>"

text \<open>The exception is real: a demand for 2^20 devices of 2^44 bytes each with an aggregate of
  one byte passes validation, because the product of the two ceilings wraps to zero.\<close>

theorem validate_product_wraps:
  "validate wrapping_demand = Inr () \<and>
     unat (aggregateVram (accelerator wrapping_demand)) <
       unat (vramPerDevice (accelerator wrapping_demand)) * unat (minimumCount (accelerator wrapping_demand))"
  by (simp add: wrapping_demand_def small_demand_def demand_eval)

end
