(* ===== verification/Candidate.thy ===== *)
theory Candidate
  imports Request
begin

text \<open>
  The candidate model (\<^verbatim>\<open>candidate.hpp\<close>): device bindings and the evidence snapshots a
  candidate carries. A candidate is a plain value: it holds no reference to the evidence it was
  built from.
\<close>

record DeviceBinding =
  deviceId :: DeviceId
  deviceGeneration :: DeviceGeneration
  bnd_resourceId :: ResourceId
  bnd_resourceGeneration :: ResourceGeneration
  nodeId :: NodeId
  nodeGeneration :: NodeGeneration
  memoryDomainId :: MemoryDomainId
  memoryDomainGeneration :: MemoryDomainGeneration
  nicId :: NicId
  nicGeneration :: NicGeneration
  storageId :: StorageEndpointId
  storageGeneration :: StorageEndpointGeneration
  cpuDomainId :: CpuDomainId
  cpuDomainGeneration :: CpuDomainGeneration
  pcieRoot :: string
  bnd_sharesPcieRoot :: bool
  bnd_capability :: AcceleratorClass
  cudaCompatibility :: "32 word"
  capabilityCurrent :: bool
  bnd_capabilityGeneration :: CapabilityGeneration

record CapacityEvidence =
  cap_generation :: CapacityGeneration
  vramTotal :: ByteCount
  vramUsed :: ByteCount
  vramAvailable :: ByteCount
  hostMemoryAvailable :: ByteCount
  pinnedMemoryAvailable :: ByteCount
  cpuAvailable :: CoreCount
  storageAvailable :: ByteCount
  nicBandwidthAvailable :: ByteCount
  contiguousMemory :: bool
  cap_provenance :: Provenance

record HealthEvidence =
  hea_generation :: HealthGeneration
  hea_ready :: bool
  healthScore :: double
  degradationReason :: string
  hea_provenance :: Provenance

record ReservationEvidence =
  rsv_generation :: ReservationGeneration
  protectedResource :: bool
  reservedBytes :: ByteCount
  reservationId :: string
  rsv_provenance :: Provenance

record CongestionEvidence =
  cgs_generation :: CongestionGeneration
  cgs_congestion :: double
  residualBandwidth :: double
  bandwidthNominal :: ByteCount
  bottleneck :: string
  cgs_provenance :: Provenance

record LocalityEvidence =
  topologyGeneration :: TopologyGeneration
  numaDistance :: "32 word"
  pcieHops :: "32 word"
  loc_sharesPcieRoot :: bool
  nicDistance :: "32 word"
  storageDistance :: "32 word"
  topologyGroup :: string
  loc_provenance :: Provenance

record CommunicationEvidence =
  com_planGeneration :: CommunicationPlanGeneration
  estimatedCost :: Cost
  derivedPathCost :: Cost
  collectiveCost :: Cost
  pathFeasible :: bool
  com_planId :: string
  com_provenance :: Provenance

record ResidencyEvidence =
  residencyGeneration :: ResidencyGeneration
  modelResident :: bool
  adapterResident :: bool
  stateLocal :: bool
  moveBytes :: ByteCount
  moveSource :: string
  rsd_provenance :: Provenance

record Candidate =
  candidateId :: CandidateId
  candidateGeneration :: CandidateGeneration
  sourceId :: SourceId
  sourceBootId :: SourceBootId
  workerId :: WorkerId
  workerBootId :: WorkerBootId
  cand_provenance :: Provenance
  bindings :: "DeviceBinding list"
  capacity :: CapacityEvidence
  health :: HealthEvidence
  reservation :: ReservationEvidence
  congestion :: CongestionEvidence
  locality :: LocalityEvidence
  communication :: CommunicationEvidence
  residency :: ResidencyEvidence
  cand_policyGeneration :: PolicyGeneration
  memoryMovementCost :: Cost

definition stableKey :: "Candidate \<Rightarrow> CandidateId" where
  "stableKey c = candidateId c"

section \<open>Value initialisation\<close>

text \<open>A value-initialised binding and candidate: every member has its default initialiser.\<close>

definition default_DeviceBinding :: DeviceBinding where
  "default_DeviceBinding =
     \<lparr>deviceId = StrongId 0, deviceGeneration = StrongId 0, bnd_resourceId = StrongId 0,
      bnd_resourceGeneration = StrongId 0, nodeId = StrongId 0, nodeGeneration = StrongId 0,
      memoryDomainId = StrongId 0, memoryDomainGeneration = StrongId 0, nicId = StrongId 0,
      nicGeneration = StrongId 0, storageId = StrongId 0, storageGeneration = StrongId 0,
      cpuDomainId = StrongId 0, cpuDomainGeneration = StrongId 0, pcieRoot = [],
      bnd_sharesPcieRoot = False, bnd_capability = Acc_None, cudaCompatibility = 0,
      capabilityCurrent = False, bnd_capabilityGeneration = StrongId 0\<rparr>"

definition default_CapacityEvidence :: CapacityEvidence where
  "default_CapacityEvidence =
     \<lparr>cap_generation = StrongId 0, vramTotal = 0, vramUsed = 0, vramAvailable = 0,
      hostMemoryAvailable = 0, pinnedMemoryAvailable = 0, cpuAvailable = 0, storageAvailable = 0,
      nicBandwidthAvailable = 0, contiguousMemory = False, cap_provenance = Prov_Unknown\<rparr>"

definition default_HealthEvidence :: HealthEvidence where
  "default_HealthEvidence =
     \<lparr>hea_generation = StrongId 0, hea_ready = False, healthScore = d_one, degradationReason = [],
      hea_provenance = Prov_Unknown\<rparr>"

definition default_ReservationEvidence :: ReservationEvidence where
  "default_ReservationEvidence =
     \<lparr>rsv_generation = StrongId 0, protectedResource = False, reservedBytes = 0, reservationId = [],
      rsv_provenance = Prov_Unknown\<rparr>"

definition default_CongestionEvidence :: CongestionEvidence where
  "default_CongestionEvidence =
     \<lparr>cgs_generation = StrongId 0, cgs_congestion = d_zero, residualBandwidth = d_one,
      bandwidthNominal = 0, bottleneck = [], cgs_provenance = Prov_Unknown\<rparr>"

definition default_LocalityEvidence :: LocalityEvidence where
  "default_LocalityEvidence =
     \<lparr>topologyGeneration = StrongId 0, numaDistance = 0, pcieHops = 0, loc_sharesPcieRoot = False,
      nicDistance = 0, storageDistance = 0, topologyGroup = [], loc_provenance = Prov_Unknown\<rparr>"

definition default_CommunicationEvidence :: CommunicationEvidence where
  "default_CommunicationEvidence =
     \<lparr>com_planGeneration = StrongId 0, estimatedCost = d_zero, derivedPathCost = d_zero,
      collectiveCost = d_zero, pathFeasible = True, com_planId = [], com_provenance = Prov_Unknown\<rparr>"

definition default_ResidencyEvidence :: ResidencyEvidence where
  "default_ResidencyEvidence =
     \<lparr>residencyGeneration = StrongId 0, modelResident = False, adapterResident = False,
      stateLocal = False, moveBytes = 0, moveSource = [], rsd_provenance = Prov_Unknown\<rparr>"

definition default_Candidate :: Candidate where
  "default_Candidate =
     \<lparr>candidateId = StrongId 0, candidateGeneration = StrongId 0, sourceId = StrongId 0,
      sourceBootId = StrongId 0, workerId = StrongId 0, workerBootId = StrongId 0,
      cand_provenance = Prov_Synthetic, bindings = [], capacity = default_CapacityEvidence,
      health = default_HealthEvidence, reservation = default_ReservationEvidence,
      congestion = default_CongestionEvidence, locality = default_LocalityEvidence,
      communication = default_CommunicationEvidence, residency = default_ResidencyEvidence,
      cand_policyGeneration = StrongId 0, memoryMovementCost = d_zero\<rparr>"

end
