(* ===== verification/Scenario.thy ===== *)
theory Scenario
  imports Candidate
begin

text \<open>
  The candidate and request factories of the tools: \<open>mk\<close> and \<open>req\<close> of
  \<^verbatim>\<open>tools/fabric_inspect.cpp\<close> and \<open>make_scenario_candidate\<close> of \<^verbatim>\<open>tools/worker_main.cpp\<close>.
  They are the concrete inputs of the development's examples.
\<close>

definition d_point_1 :: double where "d_point_1 = 0x3FB999999999999A"
definition d_point_2 :: double where "d_point_2 = 0x3FC999999999999A"
definition d_point_3 :: double where "d_point_3 = 0x3FD3333333333333"
definition d_point_4 :: double where "d_point_4 = 0x3FD999999999999A"
definition d_point_8 :: double where "d_point_8 = 0x3FE999999999999A"
definition d_point_9 :: double where "d_point_9 = 0x3FECCCCCCCCCCCCD"
definition d_point_95 :: double where "d_point_95 = 0x3FEE666666666666"

definition mk ::
  "CandidateId \<Rightarrow> 32 word \<Rightarrow> ByteCount \<Rightarrow> ByteCount \<Rightarrow> bool \<Rightarrow> bool \<Rightarrow> double \<Rightarrow> Candidate"
where
  "mk i numa vram host unready protect cong =
     default_Candidate
       \<lparr>candidateId := i, candidateGeneration := StrongId 1,
        workerId := StrongId (id_value i), workerBootId := StrongId (id_value i + 100),
        sourceId := StrongId (id_value i + 200), sourceBootId := StrongId (id_value i + 300),
        cand_provenance := Prov_Reported,
        bindings := [default_DeviceBinding
          \<lparr>deviceId := StrongId (id_value i), bnd_resourceGeneration := StrongId 1,
           memoryDomainId := StrongId (id_value i), bnd_capability := Acc_Cuda,
           cudaCompatibility := 120, capabilityCurrent := True,
           bnd_capabilityGeneration := StrongId 1\<rparr>],
        capacity := default_CapacityEvidence
          \<lparr>cap_generation := StrongId 1, vramAvailable := vram, hostMemoryAvailable := host,
           pinnedMemoryAvailable := GiB 1, cpuAvailable := 16, storageAvailable := GiB 64,
           contiguousMemory := True, cap_provenance := Prov_Measured\<rparr>,
        health := default_HealthEvidence
          \<lparr>hea_generation := StrongId 1, hea_ready := \<not> unready,
           healthScore := (if unready then d_zero else d_one),
           degradationReason := (if unready then ''ECC uncorrectable'' else []),
           hea_provenance := Prov_Reported\<rparr>,
        reservation := default_ReservationEvidence
          \<lparr>rsv_generation := StrongId 1, protectedResource := protect,
           rsv_provenance := Prov_Reported\<rparr>,
        congestion := default_CongestionEvidence
          \<lparr>cgs_generation := StrongId 1, cgs_congestion := cong,
           residualBandwidth := (if dlt d_point_9 cong then d_point_1 else dsub d_one cong),
           cgs_provenance := Prov_Measured\<rparr>,
        locality := default_LocalityEvidence
          \<lparr>topologyGeneration := StrongId 1, numaDistance := numa,
           pcieHops := (if numa = 0 then 1 else numa + 1), loc_provenance := Prov_Reported\<rparr>,
        communication := default_CommunicationEvidence
          \<lparr>com_planGeneration := StrongId 1,
           estimatedCost := (if dlt d_point_9 cong then d_point_8 else d_zero),
           com_provenance := Prov_Derived\<rparr>,
        residency := default_ResidencyEvidence
          \<lparr>residencyGeneration := StrongId 1, stateLocal := (numa = 0), modelResident := True,
           moveBytes := (if numa = 0 then 0 else MiB 512), rsd_provenance := Prov_Reported\<rparr>,
        cand_policyGeneration := StrongId 1\<rparr>"

definition req :: SchedulingRequest where
  "req = default_SchedulingRequest
     \<lparr>req_requestId := StrongId 1, req_generation := StrongId 1,
      demand := default_DemandProfile
        \<lparr>demandId := StrongId 1, demandGeneration := StrongId 1, workloadId := StrongId 4,
         workloadGeneration := StrongId 1,
         accelerator := default_AcceleratorRequirement
           \<lparr>acc_capability := Acc_Cuda, minimumCount := 1, targetCount := 1, maximumCount := 1,
            vramPerDevice := GiB 4, acc_capabilityGeneration := StrongId 1\<rparr>,
         dem_memory := \<lparr>hostMemory = GiB 2, pinnedMemory = MiB 64\<rparr>,
         cpuRequired := 2, dem_storage := \<lparr>sto_capacity = GiB 1, requireLocal = False\<rparr>,
         dem_policyGeneration := StrongId 1, requiredTopologyGeneration := StrongId 1\<rparr>\<rparr>"

definition make_scenario_candidate :: "64 word \<Rightarrow> string \<Rightarrow> Candidate" where
  "make_scenario_candidate boot scenario =
     (let isB = (scenario = ''B''); isA2 = (scenario = ''A2'') in
      default_Candidate
       \<lparr>candidateId := StrongId boot, candidateGeneration := StrongId 1,
        workerId := StrongId boot, workerBootId := StrongId boot,
        sourceId := StrongId (boot + 5000), sourceBootId := StrongId (100000 + boot),
        cand_provenance := Prov_Reported,
        bindings := [\<lparr>deviceId = StrongId boot, deviceGeneration = StrongId 1,
           bnd_resourceId = StrongId boot, bnd_resourceGeneration = StrongId 1,
           nodeId = StrongId 1, nodeGeneration = StrongId 1,
           memoryDomainId = StrongId 1, memoryDomainGeneration = StrongId 1,
           nicId = StrongId (boot + 100), nicGeneration = StrongId 1,
           storageId = StrongId 1, storageGeneration = StrongId 1,
           cpuDomainId = StrongId 1, cpuDomainGeneration = StrongId 1,
           pcieRoot = ''root-'' @ show_u64 boot, bnd_sharesPcieRoot = False,
           bnd_capability = Acc_Cuda, cudaCompatibility = 120, capabilityCurrent = True,
           bnd_capabilityGeneration = StrongId 1\<rparr>],
        capacity := \<lparr>cap_generation = StrongId 1, vramTotal = GiB 16, vramUsed = 0,
           vramAvailable = (if isB then GiB 8 else GiB 16), hostMemoryAvailable = GiB 16,
           pinnedMemoryAvailable = GiB 4, cpuAvailable = 8, storageAvailable = GiB 128,
           nicBandwidthAvailable = GiB 400, contiguousMemory = True,
           cap_provenance = Prov_Measured\<rparr>,
        health := default_HealthEvidence
          \<lparr>hea_generation := StrongId 1, hea_ready := True, healthScore := d_one,
           hea_provenance := Prov_Reported\<rparr>,
        reservation := default_ReservationEvidence
          \<lparr>rsv_generation := StrongId 1, rsv_provenance := Prov_Reported\<rparr>,
        congestion := \<lparr>cgs_generation = (if isA2 then StrongId 2 else StrongId 1),
           cgs_congestion = (if isA2 then d_point_95 else d_zero),
           residualBandwidth = (if isA2 then d_point_1 else d_one),
           bandwidthNominal = 0, bottleneck = [], cgs_provenance = Prov_Measured\<rparr>,
        locality := \<lparr>topologyGeneration = StrongId 1, numaDistance = (if isB then 2 else 0),
           pcieHops = (if isB then 3 else 1), loc_sharesPcieRoot = False,
           nicDistance = (if isB then 2 else 0), storageDistance = (if isB then 2 else 0),
           topologyGroup = ''group-1'', loc_provenance = Prov_Reported\<rparr>,
        communication := \<lparr>com_planGeneration = StrongId 1,
           estimatedCost = (if isB then d_point_3 else d_zero),
           derivedPathCost = (if isB then d_point_2 else d_zero), collectiveCost = d_zero,
           pathFeasible = True, com_planId = ''ref'', com_provenance = Prov_Derived\<rparr>,
        residency := \<lparr>residencyGeneration = StrongId 1, modelResident = True,
           adapterResident = False, stateLocal = (\<not> isB),
           moveBytes = (if isB then MiB 512 else 0), moveSource = (if isB then ''src'' else []),
           rsd_provenance = Prov_Reported\<rparr>,
        cand_policyGeneration := StrongId 1,
        memoryMovementCost := (if isB then d_point_4 else d_zero)\<rparr>)"

abbreviation sampleA :: Candidate where
  "sampleA \<equiv> make_scenario_candidate 1 ''A''"

abbreviation sampleB :: Candidate where
  "sampleB \<equiv> make_scenario_candidate 2 ''B''"

lemmas scenario_defs =
  make_scenario_candidate_def req_def Let_def GiB_def MiB_def
  default_Candidate_def default_DeviceBinding_def default_CapacityEvidence_def
  default_HealthEvidence_def default_ReservationEvidence_def default_CongestionEvidence_def
  default_LocalityEvidence_def default_CommunicationEvidence_def default_ResidencyEvidence_def
  default_SchedulingRequest_def default_DemandProfile_def default_AcceleratorRequirement_def

end
