(* ===== verification/Ordered_Map.thy ===== *)
theory Ordered_Map
  imports Prelude
begin

text \<open>
  \<^verbatim>\<open>std::map\<close> as the scheduler uses it: an association list kept strictly ascending in its
  keys, so that iterating over it visits the entries in key order, as the C++ range-for does.
  \<open>omap_assign\<close> is \<^verbatim>\<open>m[k] = v\<close>, \<open>omap_emplace\<close> is \<^verbatim>\<open>m.emplace(k, v)\<close> (which keeps an
  existing entry), \<open>omap_foreach\<close> is a loop that rewrites the mapped values in key order while
  it threads a counter. \<^verbatim>\<open>std::unordered_set\<close> is a list without duplicates: membership is all
  the scheduler asks of it, and the list order stands for the iteration order the container
  happens to have.

  The locale \<open>key_store\<close> is the part of that interface the callers rely on.
\<close>

type_synonym ('k, 'v) omap = "('k \<times> 'v) list"

definition omap_ok :: "('k::linorder, 'v) omap \<Rightarrow> bool" where
  "omap_ok m \<longleftrightarrow> sorted_wrt (<) (map fst m)"

definition omap_find :: "('k, 'v) omap \<Rightarrow> 'k \<Rightarrow> 'v option" where
  "omap_find m k = map_of m k"

fun omap_assign :: "'k::linorder \<Rightarrow> 'v \<Rightarrow> ('k, 'v) omap \<Rightarrow> ('k, 'v) omap" where
  "omap_assign k v [] = [(k, v)]"
| "omap_assign k v ((k', v') # m) =
     (if k < k' then (k, v) # (k', v') # m
      else if k = k' then (k, v) # m
      else (k', v') # omap_assign k v m)"

definition omap_emplace :: "'k::linorder \<Rightarrow> 'v \<Rightarrow> ('k, 'v) omap \<Rightarrow> ('k, 'v) omap" where
  "omap_emplace k v m = (case omap_find m k of None \<Rightarrow> omap_assign k v m | Some _ \<Rightarrow> m)"

fun omap_foreach :: "('v \<Rightarrow> 'c \<Rightarrow> 'v \<times> 'c) \<Rightarrow> ('k, 'v) omap \<Rightarrow> 'c \<Rightarrow> ('k, 'v) omap \<times> 'c" where
  "omap_foreach f [] c = ([], c)"
| "omap_foreach f ((k, v) # m) c =
     (let (v', c') = f v c; (m', c'') = omap_foreach f m c' in ((k, v') # m', c''))"

definition uset_insert :: "'a \<Rightarrow> 'a list \<Rightarrow> 'a list" where
  "uset_insert x xs = (if x \<in> set xs then xs else xs @ [x])"

lemma set_uset_insert [simp]: "set (uset_insert x xs) = insert x (set xs)"
  by (auto simp: uset_insert_def)

lemma distinct_uset_insert [simp]: "distinct xs \<Longrightarrow> distinct (uset_insert x xs)"
  by (auto simp: uset_insert_def)

lemma omap_ok_Nil [simp]: "omap_ok []"
  by (simp add: omap_ok_def)

lemma omap_find_Nil [simp]: "omap_find [] k = None"
  by (simp add: omap_find_def)

lemma keys_omap_assign: "fst ` set (omap_assign k v m) = insert k (fst ` set m)"
  by (induction k v m rule: omap_assign.induct) auto

lemma omap_ok_assign [simp]: "omap_ok m \<Longrightarrow> omap_ok (omap_assign k v m)"
proof (induction m)
  case (Cons a m)
  obtain k' v' where a: "a = (k', v')" by (cases a)
  have "\<forall>x \<in> set (map fst (omap_assign k v m)). k' < x" if "k' < k"
    using Cons.prems that keys_omap_assign [of k v m] by (auto simp: omap_ok_def a)
  with Cons show ?case by (fastforce simp: omap_ok_def a)
qed (simp add: omap_ok_def)

lemma omap_ok_emplace [simp]: "omap_ok m \<Longrightarrow> omap_ok (omap_emplace k v m)"
  by (simp add: omap_emplace_def split: option.splits)

lemma omap_ok_Cons: "omap_ok ((k, v) # m) \<longleftrightarrow> omap_ok m \<and> (\<forall>k' \<in> fst ` set m. k < k')"
  by (auto simp: omap_ok_def)

lemma omap_find_below: "omap_ok ((k', v') # m) \<Longrightarrow> k \<le> k' \<Longrightarrow> map_of m k = None"
  by (fastforce simp: omap_ok_Cons map_of_eq_None_iff)

lemma omap_find_assign [simp]:
  "omap_ok m \<Longrightarrow> omap_find (omap_assign k v m) k' = (if k' = k then Some v else omap_find m k')"
proof (induction m)
  case (Cons a m)
  obtain ka va where a: "a = (ka, va)" by (cases a)
  from Cons.prems have "omap_ok m" by (auto simp: omap_ok_def)
  with Cons show ?case
    using omap_find_below [of ka va m k] by (auto simp: omap_find_def a)
qed (simp add: omap_find_def)

lemma omap_find_emplace:
  "omap_ok m \<Longrightarrow> omap_find (omap_emplace k v m) k' =
     (if k' = k then (case omap_find m k of None \<Rightarrow> Some v | Some w \<Rightarrow> Some w) else omap_find m k')"
  by (auto simp: omap_emplace_def split: option.splits)

lemma omap_find_Some_iff: "omap_ok m \<Longrightarrow> omap_find m k = Some v \<longleftrightarrow> (k, v) \<in> set m"
  unfolding omap_find_def omap_ok_def by (simp add: strict_sorted_iff)

lemma omap_find_None_iff: "omap_find m k = None \<longleftrightarrow> k \<notin> fst ` set m"
  by (simp add: omap_find_def map_of_eq_None_iff)

section \<open>Rewriting every value\<close>

lemma omap_foreach_Cons:
  "omap_foreach f (a # m) c =
     ((fst a, fst (f (snd a) c)) # fst (omap_foreach f m (snd (f (snd a) c))),
      snd (omap_foreach f m (snd (f (snd a) c))))"
  by (cases a) (simp add: split_beta Let_def)

lemma keys_omap_foreach [simp]: "map fst (fst (omap_foreach f m c)) = map fst m"
  by (induction m arbitrary: c) (simp_all add: omap_foreach_Cons)

lemma omap_ok_foreach [simp]: "omap_ok (fst (omap_foreach f m c)) \<longleftrightarrow> omap_ok m"
  by (simp add: omap_ok_def)

lemma omap_find_foreach_Some:
  assumes "\<And>v c. R v (fst (f v c))" and "omap_find m k = Some v"
  shows "\<exists>v'. omap_find (fst (omap_foreach f m c)) k = Some v' \<and> R v v'"
  using assms(2)
proof (induction m arbitrary: c)
  case (Cons a m)
  then show ?case
    using assms(1) by (cases a) (auto simp: omap_find_def omap_foreach_Cons split: if_splits)
qed simp

lemma omap_find_foreach_None [simp]:
  "omap_find (fst (omap_foreach f m c)) k = None \<longleftrightarrow> omap_find m k = None"
  by (simp only: omap_find_None_iff set_map [symmetric] keys_omap_foreach)

lemma omap_find_foreach_SomeD:
  assumes "\<And>v c. R v (fst (f v c))" and "omap_find (fst (omap_foreach f m c)) k = Some v'"
  shows "\<exists>v. omap_find m k = Some v \<and> R v v'"
proof (cases "omap_find m k")
  case None
  then have "omap_find (fst (omap_foreach f m c)) k = None" by simp
  with assms(2) show ?thesis by simp
next
  case (Some v)
  from omap_find_foreach_Some [where R = R and f = f, OF assms(1) this, of c] assms(2) Some
  show ?thesis by auto
qed

section \<open>The interface the components rely on\<close>

locale key_store =
  fixes find :: "'m \<Rightarrow> 'k \<Rightarrow> 'v option"
    and add :: "'k \<Rightarrow> 'v \<Rightarrow> 'm \<Rightarrow> 'm"
    and ok :: "'m \<Rightarrow> bool"
  assumes find_add: "ok m \<Longrightarrow> find (add k v m) k' =
      (if k' = k then (case find m k of None \<Rightarrow> Some v | Some w \<Rightarrow> Some w) else find m k')"
    and ok_add: "ok m \<Longrightarrow> ok (add k v m)"
begin

lemma ok_add_all: "ok m \<Longrightarrow> ok (fold (\<lambda>(k, v). add k v) kvs m)"
  by (induction kvs arbitrary: m) (auto simp: ok_add)

text \<open>Adding a list of entries looks up the store first, then the first entry of the list.\<close>

lemma find_add_all:
  "ok m \<Longrightarrow> find (fold (\<lambda>(k, v). add k v) kvs m) k =
     (case find m k of None \<Rightarrow> map_of kvs k | Some w \<Rightarrow> Some w)"
proof (induction kvs arbitrary: m)
  case (Cons a kvs)
  then show ?case
    by (cases a) (auto simp: find_add ok_add split: option.splits)
qed (simp split: option.splits)

end

interpretation omap_store: key_store omap_find omap_emplace omap_ok
  by unfold_locales (simp_all add: omap_find_emplace)

end
