(* ===== verification/Policy.thy ===== *)
theory Policy
  imports Scenario Ordered_Map
begin

text \<open>
  Ranking weights and policy (\<^verbatim>\<open>policy.hpp\<close>) and the two narrow views the hard filter
  consults: the policy veto and dependency readiness (\<^verbatim>\<open>adapters/dependency.hpp\<close>). The two
  abstract classes are records of functions, the reference implementations are values of them.

  A scheduling pass asks a veto about each candidate once, so a function of the candidate covers
  a veto whose answers change while the pass runs; a dependency view is taken to answer alike
  throughout one pass.
\<close>

section \<open>Rank factors and their weights\<close>

definition kRankFactorCount :: nat where
  "kRankFactorCount = 27"

definition kRankFactorOrder :: "RankFactorKind list" where
  "kRankFactorOrder =
    [RF_AcceleratorFit,
     RF_ResourceHeadroom,
     RF_VramHeadroom,
     RF_CpuHeadroom,
     RF_PinnedMemoryHeadroom,
     RF_TopologyLocality,
     RF_NumaLocality,
     RF_PcieLocality,
     RF_NicLocality,
     RF_StorageLocality,
     RF_CommunicationCost,
     RF_CongestionPenalty,
     RF_ResidualBandwidth,
     RF_ModelResidency,
     RF_AdapterResidency,
     RF_ReusableStateLocality,
     RF_CheckpointMovementCost,
     RF_StartupCost,
     RF_ReservationFit,
     RF_FailureDomainDiversification,
     RF_HealthMargin,
     RF_EnergyPower,
     RF_FragmentationImpact,
     RF_ExternalPriority,
     RF_MigrationRecomputeCost,
     RF_EstimatedQueueing,
     RF_PolicyPreference]"

fun factor_index_from :: "nat \<Rightarrow> RankFactorKind list \<Rightarrow> RankFactorKind \<Rightarrow> nat" where
  "factor_index_from i [] k = kRankFactorCount"
| "factor_index_from i (x # xs) k = (if x = k then i else factor_index_from (Suc i) xs k)"

definition rank_factor_index :: "RankFactorKind \<Rightarrow> nat" where
  "rank_factor_index k = factor_index_from 0 kRankFactorOrder k"

definition is_valid_factor :: "RankFactorKind \<Rightarrow> bool" where
  "is_valid_factor k \<longleftrightarrow> rank_factor_index k < kRankFactorCount"

text \<open>The literals of the weight table and of the factor formulas, as bit patterns.\<close>

definition d_half :: double where "d_half = 0x3FE0000000000000"
definition d_1_5 :: double where "d_1_5 = 0x3FF8000000000000"
definition d_two :: double where "d_two = 0x4000000000000000"
definition d_2_5 :: double where "d_2_5 = 0x4004000000000000"
definition d_three :: double where "d_three = 0x4008000000000000"

type_synonym RankingWeights = "double list"

definition default_RankingWeights :: RankingWeights where
  "default_RankingWeights =
     fold (\<lambda>(k, v) w. w[rank_factor_index k := v])
      [(RF_AcceleratorFit, d_zero),
       (RF_ResourceHeadroom, d_one),
       (RF_VramHeadroom, d_one),
       (RF_CpuHeadroom, d_one),
       (RF_PinnedMemoryHeadroom, d_one),
       (RF_TopologyLocality, d_two),
       (RF_NumaLocality, d_two),
       (RF_PcieLocality, d_two),
       (RF_NicLocality, d_1_5),
       (RF_StorageLocality, d_1_5),
       (RF_CommunicationCost, d_three),
       (RF_CongestionPenalty, d_2_5),
       (RF_ResidualBandwidth, d_one),
       (RF_ModelResidency, d_three),
       (RF_AdapterResidency, d_two),
       (RF_ReusableStateLocality, d_two),
       (RF_CheckpointMovementCost, d_two),
       (RF_StartupCost, d_one),
       (RF_ReservationFit, d_two),
       (RF_FailureDomainDiversification, d_1_5),
       (RF_HealthMargin, d_two),
       (RF_EnergyPower, d_half),
       (RF_FragmentationImpact, d_one),
       (RF_ExternalPriority, d_one),
       (RF_MigrationRecomputeCost, d_one),
       (RF_EstimatedQueueing, d_one),
       (RF_PolicyPreference, d_one)]
      (replicate kRankFactorCount d_zero)"

definition weights_get :: "RankingWeights \<Rightarrow> RankFactorKind \<Rightarrow> double" where
  "weights_get w k =
     (let i = rank_factor_index k in if i < kRankFactorCount then w ! i else d_zero)"

section \<open>Policy configuration, veto and dependency views\<close>

record PolicyConfig =
  pol_generation :: PolicyGeneration
  maxFallbackCandidates :: CoreCount
  maxCandidateCount :: CoreCount
  maxHistoryEntries :: "64 word"
  allowEnergyRanking :: bool
  requireFaultDiversity :: bool

record PolicyVeto =
  pv_allows :: "Candidate \<Rightarrow> bool"
  pv_reason :: "Candidate \<Rightarrow> string"

definition AllowAllPolicy :: PolicyVeto where
  "AllowAllPolicy = \<lparr>pv_allows = (\<lambda>_. True), pv_reason = (\<lambda>_. [])\<rparr>"

record DependencyView =
  dv_ready :: "WorkloadDemandId \<Rightarrow> bool"
  dv_generation :: DependencyGeneration
  dv_unsatisfied :: "WorkloadDemandId \<Rightarrow> string"

definition AlwaysReadyDependency :: DependencyView where
  "AlwaysReadyDependency =
     \<lparr>dv_ready = (\<lambda>_. True), dv_generation = StrongId 1, dv_unsatisfied = (\<lambda>_. [])\<rparr>"

section \<open>Lemmas\<close>

lemma kRankFactorOrder_all: "kRankFactorOrder = all_RankFactorKind"
  by (simp add: kRankFactorOrder_def all_RankFactorKind_def)

text \<open>Every enumerator has its own position, so no factor falls back to weight zero.\<close>

lemma rank_factor_index_less: "rank_factor_index k < kRankFactorCount"
  by (cases k) (simp_all add: rank_factor_index_def kRankFactorOrder_def kRankFactorCount_def)

lemma rank_factor_index_nth: "kRankFactorOrder ! rank_factor_index k = k"
  by (cases k) (simp_all add: rank_factor_index_def kRankFactorOrder_def)

lemma rank_factor_index_code: "rank_factor_index k = length (takeWhile (\<lambda>y. y \<noteq> k) kRankFactorOrder)"
  by (cases k) (simp_all add: rank_factor_index_def kRankFactorOrder_def)

text \<open>The default weight of every factor, in halves.\<close>

fun weight_halves :: "RankFactorKind \<Rightarrow> nat" where
  "weight_halves RF_AcceleratorFit = 0"
| "weight_halves RF_ResourceHeadroom = 2"
| "weight_halves RF_VramHeadroom = 2"
| "weight_halves RF_CpuHeadroom = 2"
| "weight_halves RF_PinnedMemoryHeadroom = 2"
| "weight_halves RF_TopologyLocality = 4"
| "weight_halves RF_NumaLocality = 4"
| "weight_halves RF_PcieLocality = 4"
| "weight_halves RF_NicLocality = 3"
| "weight_halves RF_StorageLocality = 3"
| "weight_halves RF_CommunicationCost = 6"
| "weight_halves RF_CongestionPenalty = 5"
| "weight_halves RF_ResidualBandwidth = 2"
| "weight_halves RF_ModelResidency = 6"
| "weight_halves RF_AdapterResidency = 4"
| "weight_halves RF_ReusableStateLocality = 4"
| "weight_halves RF_CheckpointMovementCost = 4"
| "weight_halves RF_StartupCost = 2"
| "weight_halves RF_ReservationFit = 4"
| "weight_halves RF_FailureDomainDiversification = 3"
| "weight_halves RF_HealthMargin = 4"
| "weight_halves RF_EnergyPower = 1"
| "weight_halves RF_FragmentationImpact = 2"
| "weight_halves RF_ExternalPriority = 2"
| "weight_halves RF_MigrationRecomputeCost = 2"
| "weight_halves RF_EstimatedQueueing = 2"
| "weight_halves RF_PolicyPreference = 2"

definition half_unit :: nat where
  "half_unit = 2 ^ 1073"

lemma two_half_unit: "2 * half_unit = unit_one"
proof -
  have "(2::nat) ^ Suc 1073 = 2 * 2 ^ 1073" by (rule power_Suc)
  moreover have "Suc 1073 = 1074" by simp
  ultimately show ?thesis by (simp only: half_unit_def unit_one_def)
qed

lemma half_literal:
  assumes x: "unat x = t * hid + q" and q: "hid \<le> q" "q < 2 * hid" and t: "t \<le> 2000"
    and h: "q = h * 2 ^ j" and j: "j + t = 1073"
  shows "nonneg x" "dval x = int (h * half_unit)"
proof -
  have "t * hid \<le> 2000 * hid" using t by (rule mult_le_mono1)
  moreover have "2000 * hid + 2 * hid < mag_inf" by (simp add: mag_inf_def)
  ultimately have small: "t * hid + q < mag_inf" using q by linarith
  then have lt: "t * hid + q < sgnbit" using mag_inf_bound by linarith
  have m: "dmag x = t * hid + q" using x lt by (simp add: dmag_def)
  have s: "\<not> dsign x" using x lt by (simp add: dsign_def)
  have "mag_val (dmag x) = q * 2 ^ t" unfolding m using q by (rule mag_val_normal)
  also have "\<dots> = h * 2 ^ (j + t)" unfolding h by (simp add: power_add)
  also have "\<dots> = h * half_unit" unfolding j half_unit_def by (rule refl)
  finally have v: "dval x = int (h * half_unit)" using s by (simp add: dval_def)
  then show "dval x = int (h * half_unit)" .
  show "nonneg x" using v small by (simp add: nonneg_def is_finite_def m)
qed

lemma d_half_halves: "nonneg d_half" "dval d_half = int (1 * half_unit)"
  by (rule half_literal [where t = 1021 and q = hid and j = 52]; simp add: d_half_def hid_def)+

lemma d_one_halves: "nonneg d_one" "dval d_one = int (2 * half_unit)"
  by (rule half_literal [where t = 1022 and q = hid and j = 51]; simp add: d_one_def hid_def)+

lemma d_1_5_halves: "nonneg d_1_5" "dval d_1_5 = int (3 * half_unit)"
  by (rule half_literal [where t = 1022 and q = "3 * 2 ^ 51" and j = 51]; simp add: d_1_5_def hid_def)+

lemma d_two_halves: "nonneg d_two" "dval d_two = int (4 * half_unit)"
  by (rule half_literal [where t = 1023 and q = hid and j = 50]; simp add: d_two_def hid_def)+

lemma d_2_5_halves: "nonneg d_2_5" "dval d_2_5 = int (5 * half_unit)"
  by (rule half_literal [where t = 1023 and q = "5 * 2 ^ 50" and j = 50]; simp add: d_2_5_def hid_def)+

lemma d_three_halves: "nonneg d_three" "dval d_three = int (6 * half_unit)"
  by (rule half_literal [where t = 1023 and q = "3 * 2 ^ 51" and j = 50]; simp add: d_three_def hid_def)+

lemmas literal_halves = d_half_halves d_one_halves d_1_5_halves d_two_halves d_2_5_halves d_three_halves

lemma rank_factor_index_simps:
  "rank_factor_index RF_AcceleratorFit = 0"
  "rank_factor_index RF_ResourceHeadroom = 1"
  "rank_factor_index RF_VramHeadroom = 2"
  "rank_factor_index RF_CpuHeadroom = 3"
  "rank_factor_index RF_PinnedMemoryHeadroom = 4"
  "rank_factor_index RF_TopologyLocality = 5"
  "rank_factor_index RF_NumaLocality = 6"
  "rank_factor_index RF_PcieLocality = 7"
  "rank_factor_index RF_NicLocality = 8"
  "rank_factor_index RF_StorageLocality = 9"
  "rank_factor_index RF_CommunicationCost = 10"
  "rank_factor_index RF_CongestionPenalty = 11"
  "rank_factor_index RF_ResidualBandwidth = 12"
  "rank_factor_index RF_ModelResidency = 13"
  "rank_factor_index RF_AdapterResidency = 14"
  "rank_factor_index RF_ReusableStateLocality = 15"
  "rank_factor_index RF_CheckpointMovementCost = 16"
  "rank_factor_index RF_StartupCost = 17"
  "rank_factor_index RF_ReservationFit = 18"
  "rank_factor_index RF_FailureDomainDiversification = 19"
  "rank_factor_index RF_HealthMargin = 20"
  "rank_factor_index RF_EnergyPower = 21"
  "rank_factor_index RF_FragmentationImpact = 22"
  "rank_factor_index RF_ExternalPriority = 23"
  "rank_factor_index RF_MigrationRecomputeCost = 24"
  "rank_factor_index RF_EstimatedQueueing = 25"
  "rank_factor_index RF_PolicyPreference = 26"
  by (simp_all add: rank_factor_index_def kRankFactorOrder_def)

lemma default_RankingWeights_list:
  "default_RankingWeights =
     [d_zero, d_one, d_one, d_one, d_one, d_two, d_two, d_two, d_1_5, d_1_5, d_three, d_2_5, d_one,
      d_three, d_two, d_two, d_two, d_one, d_two, d_1_5, d_two, d_half, d_one, d_one, d_one, d_one, d_one]"
  by (simp add: default_RankingWeights_def rank_factor_index_simps kRankFactorCount_def
      numeral_eq_Suc)

lemma default_weight_halves:
  "nonneg (weights_get default_RankingWeights k)"
  "dval (weights_get default_RankingWeights k) = int (weight_halves k * half_unit)"
  by (cases k; simp add: weights_get_def rank_factor_index_simps default_RankingWeights_list
      kRankFactorCount_def literal_halves numeral_eq_Suc)+

end
