(* ===== verification/Std_Sort.thy ===== *)
theory Std_Sort
  imports Prelude "HOL-Library.Multiset" "HOL-Library.Product_Lexorder"
begin

text \<open>
  \<^verbatim>\<open>std::sort\<close> with a user comparator. The C++ standard fixes the result only up to the
  order of equivalent elements and only for a strict weak order; \<open>std_sort\<close> is one
  implementation (insertion), and \<open>sorted_permutation_unique\<close> shows that, where the comparator
  is a linear order on the keys present, every conforming implementation returns the same list.
\<close>

fun insert_by :: "('a \<Rightarrow> 'a \<Rightarrow> bool) \<Rightarrow> 'a \<Rightarrow> 'a list \<Rightarrow> 'a list" where
  "insert_by lt x [] = [x]"
| "insert_by lt x (y # ys) = (if lt y x then y # insert_by lt x ys else x # y # ys)"

definition std_sort :: "('a \<Rightarrow> 'a \<Rightarrow> bool) \<Rightarrow> 'a list \<Rightarrow> 'a list" where
  "std_sort lt xs = foldr (insert_by lt) xs []"

lemma mset_insert_by [simp]: "mset (insert_by lt x ys) = add_mset x (mset ys)"
  by (induction ys) auto

lemma mset_std_sort [simp]: "mset (std_sort lt xs) = mset xs"
  by (induction xs) (simp_all add: std_sort_def)

lemma set_std_sort [simp]: "set (std_sort lt xs) = set xs"
  using mset_std_sort by (rule mset_eq_setD)

lemma length_std_sort [simp]: "length (std_sort lt xs) = length xs"
  using mset_std_sort by (rule mset_eq_length)

lemma std_sort_Nil_iff [simp]: "std_sort lt xs = [] \<longleftrightarrow> xs = []"
  by (metis length_0_conv length_std_sort)

lemma set_insert_by [simp]: "set (insert_by lt x ys) = insert x (set ys)"
  by (induction ys) auto

text \<open>A comparator that is a strict order on the keys of the elements it is meant for.\<close>

locale keyed_order =
  fixes lt :: "'a \<Rightarrow> 'a \<Rightarrow> bool"
    and key :: "'a \<Rightarrow> 'k::linorder"
    and ok :: "'a \<Rightarrow> bool"
  assumes less_iff_key: "ok a \<Longrightarrow> ok b \<Longrightarrow> lt a b \<longleftrightarrow> key a < key b"
begin

lemma irreflexive: "ok a \<Longrightarrow> \<not> lt a a"
  by (simp add: less_iff_key)

lemma transitive: "ok a \<Longrightarrow> ok b \<Longrightarrow> ok c \<Longrightarrow> lt a b \<Longrightarrow> lt b c \<Longrightarrow> lt a c"
  by (simp add: less_iff_key)

lemma total: "ok a \<Longrightarrow> ok b \<Longrightarrow> key a \<noteq> key b \<Longrightarrow> lt a b \<or> lt b a"
  by (auto simp: less_iff_key)

lemma insert_by_key: "ok x \<Longrightarrow> \<forall>y \<in> set ys. ok y \<Longrightarrow> insert_by lt x ys = insort_key key x ys"
  by (induction ys) (auto simp: less_iff_key)

lemma std_sort_key: "\<forall>x \<in> set xs. ok x \<Longrightarrow> std_sort lt xs = sort_key key xs"
proof (induction xs)
  case Nil
  then show ?case by (simp add: std_sort_def)
next
  case (Cons x xs)
  then have "std_sort lt (x # xs) = insert_by lt x (sort_key key xs)"
    by (simp add: std_sort_def)
  then show ?case using Cons.prems by (simp add: insert_by_key)
qed

lemma sorted_no_inversion:
  assumes "\<forall>x \<in> set xs. ok x"
  shows "sorted_wrt (\<lambda>a b. \<not> lt b a) xs \<longleftrightarrow> sorted (map key xs)"
  using assms by (induction xs) (auto simp: less_iff_key)

lemma std_sort_sorted: "\<forall>x \<in> set xs. ok x \<Longrightarrow> sorted_wrt (\<lambda>a b. \<not> lt b a) (std_sort lt xs)"
  by (subst sorted_no_inversion) (simp_all add: std_sort_key)

lemma sorted_permutation_unique:
  assumes ok: "\<forall>x \<in> set xs. ok x" and inj: "inj_on key (set xs)"
    and perm: "mset ys = mset xs" and sorted: "sorted_wrt (\<lambda>a b. \<not> lt b a) ys"
  shows "ys = std_sort lt xs"
proof -
  have set: "set ys = set xs" using perm by (rule mset_eq_setD)
  then have "sorted (map key ys)" using sorted ok by (simp add: sorted_no_inversion)
  then have "sort_key key xs = ys" using perm inj by (metis sort_key_inj_key_eq)
  then show ?thesis using ok by (simp add: std_sort_key)
qed

text \<open>The order the elements arrive in does not matter.\<close>

lemma std_sort_permutation:
  assumes "\<forall>x \<in> set xs. ok x" "inj_on key (set xs)" "mset ys = mset xs"
  shows "std_sort lt ys = std_sort lt xs"
proof (rule sorted_permutation_unique [OF assms(1,2)])
  have "set ys = set xs" using assms(3) by (rule mset_eq_setD)
  then show "sorted_wrt (\<lambda>a b. \<not> lt b a) (std_sort lt ys)"
    using assms(1) by (simp add: std_sort_sorted)
qed (simp add: assms(3))

lemma hd_std_sort_least:
  assumes "\<forall>x \<in> set xs. ok x" "x \<in> set xs"
  shows "\<not> lt x (hd (std_sort lt xs))"
proof -
  have "sorted_wrt (\<lambda>a b. \<not> lt b a) (std_sort lt xs)" using assms(1) by (rule std_sort_sorted)
  moreover have "x \<in> set (std_sort lt xs)" using assms(2) by simp
  ultimately show ?thesis
    using assms irreflexive by (cases "std_sort lt xs") auto
qed

end

end
