(* ===== verification/Ranking.thy ===== *)
theory Ranking
  imports Policy Std_Sort
begin

text \<open>
  The ranker (\<^verbatim>\<open>ranking.hpp\<close>, \<^verbatim>\<open>ranking.cpp\<close>): 27 inspectable factors per eligible candidate,
  their weighted total in double arithmetic, and the comparator that breaks ties down to the
  candidate identity.

  Shown here: every factor lies in the unit interval when the evidence doubles are finite; under
  the default weights the total is finite and at most 40.5; and on ranked candidates without NaN
  keys the comparator is a linear order, so \<^verbatim>\<open>std::sort\<close> has one possible result.
\<close>

definition d_quarter :: double where "d_quarter = 0x3FD0000000000000"
definition d_tenth :: double where "d_tenth = 0x3FB999999999999A"

definition kMaxDistanceDivisor :: double where "kMaxDistanceDivisor = 0x4020000000000000"
definition kMaxNuma :: double where "kMaxNuma = 0x4010000000000000"
definition kMaxHops :: double where "kMaxHops = 0x4020000000000000"
definition kMoveNormalizer :: "64 word" where "kMoveNormalizer = push_bit 30 8"

definition clamp01 :: "double \<Rightarrow> double" where
  "clamp01 v = (if dlt v d_zero then d_zero else if dlt d_one v then d_one else v)"

text \<open>\<^verbatim>\<open>static_cast<double>\<close> of an unsigned integer.\<close>

definition double_of_u64 :: "64 word \<Rightarrow> double" where
  "double_of_u64 w = double_of_nat (unat w)"

definition double_of_u32 :: "32 word \<Rightarrow> double" where
  "double_of_u32 w = double_of_nat (unat w)"

definition ratio_or_one :: "64 word \<Rightarrow> 64 word \<Rightarrow> double" where
  "ratio_or_one need avail =
     (if avail = 0 then d_one else clamp01 (ddiv (double_of_u64 need) (double_of_u64 avail)))"

definition distance_norm :: "32 word \<Rightarrow> double \<Rightarrow> double" where
  "distance_norm d divisor = clamp01 (ddiv (double_of_u32 d) divisor)"

text \<open>\<^verbatim>\<open>std::max\<close> on doubles returns its first argument unless that is less.\<close>

definition dmax :: "double \<Rightarrow> double \<Rightarrow> double" where
  "dmax x y = (if dlt x y then y else x)"

record RankFactor =
  rf_kind :: RankFactorKind
  rf_value :: Cost
  rf_weight :: double
  rf_provenance :: Provenance
  rf_description :: string

record RankOptions =
  opt_weights :: RankingWeights
  opt_policyGeneration :: PolicyGeneration
  preferFaultDiversity :: bool
  opt_note :: string

definition default_RankOptions :: RankOptions where
  "default_RankOptions =
     \<lparr>opt_weights = default_RankingWeights, opt_policyGeneration = StrongId 0,
      preferFaultDiversity = False, opt_note = []\<rparr>"

record RankedCandidate =
  rc_candidateId :: CandidateId
  rc_candidateGeneration :: CandidateGeneration
  score :: Cost
  factors :: "RankFactor list"
  unknownCount :: "32 word"
  evidenceStrength :: "8 word"
  movementCost :: Cost
  headroomCost :: Cost
  congestionCost :: Cost
  localResources :: "32 word"
  deterministic :: bool

fun provenance_strength :: "Provenance \<Rightarrow> 8 word" where
  "provenance_strength Prov_Measured = 6"
| "provenance_strength Prov_Reported = 5"
| "provenance_strength Prov_Derived = 4"
| "provenance_strength Prov_Estimated = 3"
| "provenance_strength Prov_Forecast = 2"
| "provenance_strength Prov_Synthetic = 1"
| "provenance_strength Prov_Unknown = 0"

text \<open>\<^verbatim>\<open>RankComparator::operator()\<close>; \<open>\<not> deq\<close> is C++ \<^verbatim>\<open>!=\<close> on doubles.\<close>

definition RankComparator :: "RankedCandidate \<Rightarrow> RankedCandidate \<Rightarrow> bool" where
  "RankComparator a b =
     (if \<not> deq (score a) (score b) then dlt (score a) (score b)
      else if unknownCount a \<noteq> unknownCount b then unknownCount a < unknownCount b
      else if evidenceStrength a \<noteq> evidenceStrength b then evidenceStrength a > evidenceStrength b
      else if \<not> deq (movementCost a) (movementCost b) then dlt (movementCost a) (movementCost b)
      else if \<not> deq (headroomCost a) (headroomCost b) then dlt (headroomCost a) (headroomCost b)
      else if \<not> deq (congestionCost a) (congestionCost b) then dlt (congestionCost a) (congestionCost b)
      else if localResources a \<noteq> localResources b then localResources a > localResources b
      else rc_candidateId a < rc_candidateId b)"

section \<open>The factors\<close>

text \<open>The need of the two VRAM factors: here, unlike in the hard filter, the product wraps.\<close>

definition vram_need :: "AcceleratorRequirement \<Rightarrow> 64 word" where
  "vram_need acc = (if aggregateVram acc > 0 then aggregateVram acc
     else vramPerDevice acc * ucast (minimumCount acc))"

text \<open>The value, provenance and description \<^verbatim>\<open>compute_factor\<close> returns for a factor.\<close>

definition compute_factor ::
  "RankFactorKind \<Rightarrow> SchedulingRequest \<Rightarrow> Candidate \<Rightarrow> Cost \<times> Provenance \<times> string"
where
  "compute_factor kind request c =
     (let d = demand request; acc = accelerator d; cap = capacity c; loc = locality c;
          comm = communication c; res = residency c in
      case kind of
        RF_AcceleratorFit \<Rightarrow>
          (ratio_or_one (vram_need acc) (vramAvailable cap), cap_provenance cap,
           ''VRAM fit ratio (need/available)'')
      | RF_ResourceHeadroom \<Rightarrow>
          (dmax (ratio_or_one (ucast (cpuRequired d)) (ucast (cpuAvailable cap)))
                (ratio_or_one (hostMemory (dem_memory d)) (hostMemoryAvailable cap)),
           cap_provenance cap, ''aggregate CPU/host-memory demand ratio'')
      | RF_VramHeadroom \<Rightarrow>
          (ratio_or_one (vram_need acc) (vramAvailable cap), cap_provenance cap,
           ''VRAM headroom ratio (need/available)'')
      | RF_CpuHeadroom \<Rightarrow>
          (ratio_or_one (ucast (cpuRequired d)) (ucast (cpuAvailable cap)), cap_provenance cap,
           ''CPU headroom ratio'')
      | RF_PinnedMemoryHeadroom \<Rightarrow>
          (ratio_or_one (pinnedMemory (dem_memory d)) (pinnedMemoryAvailable cap),
           cap_provenance cap, ''pinned-memory headroom ratio'')
      | RF_TopologyLocality \<Rightarrow>
          (let dist = dadd (double_of_u32 (numaDistance loc)) (double_of_u32 (pcieHops loc));
               v = distance_norm (u32_of_double dist) kMaxDistanceDivisor in
           (clamp01 (dadd v (if loc_sharesPcieRoot loc then d_quarter else d_zero)),
            loc_provenance loc, ''topology distance (NUMA+PCIe hops)''))
      | RF_NumaLocality \<Rightarrow>
          (distance_norm (numaDistance loc) kMaxNuma, loc_provenance loc, ''NUMA distance'')
      | RF_PcieLocality \<Rightarrow>
          (clamp01 (dadd (distance_norm (pcieHops loc) kMaxHops)
                         (if loc_sharesPcieRoot loc then d_half else d_zero)),
           loc_provenance loc, ''PCIe hops / shared-root penalty'')
      | RF_NicLocality \<Rightarrow>
          (distance_norm (nicDistance loc) kMaxNuma, loc_provenance loc, ''NIC distance'')
      | RF_StorageLocality \<Rightarrow>
          (distance_norm (storageDistance loc) kMaxNuma, loc_provenance loc, ''storage distance'')
      | RF_CommunicationCost \<Rightarrow>
          (clamp01 (dadd (dadd (estimatedCost comm) (derivedPathCost comm)) (collectiveCost comm)),
           com_provenance comm, ''communication cost (estimated+derived+collective)'')
      | RF_CongestionPenalty \<Rightarrow>
          (clamp01 (cgs_congestion (congestion c)), cgs_provenance (congestion c),
           ''congestion penalty'')
      | RF_ResidualBandwidth \<Rightarrow>
          (clamp01 (dsub d_one (residualBandwidth (congestion c))), cgs_provenance (congestion c),
           ''inverse residual bandwidth'')
      | RF_ModelResidency \<Rightarrow>
          (if modelResident res then d_zero else if moveBytes res > 0 then d_one else d_half,
           rsd_provenance res, ''model residency / movement'')
      | RF_AdapterResidency \<Rightarrow>
          (if adapterResident res then d_zero else if moveBytes res > 0 then d_one else d_half,
           rsd_provenance res, ''adapter residency / movement'')
      | RF_ReusableStateLocality \<Rightarrow>
          (if stateLocal res then d_zero else d_one, rsd_provenance res, ''reusable state locality'')
      | RF_CheckpointMovementCost \<Rightarrow>
          (let normalizer = (if maximumMovementCost d > 0 then maximumMovementCost d
                             else kMoveNormalizer) in
           (clamp01 (ddiv (double_of_u64 (moveBytes res)) (double_of_u64 normalizer)),
            rsd_provenance res, ''checkpoint/state movement cost''))
      | RF_StartupCost \<Rightarrow>
          (if moveBytes res > 0 then d_tenth else d_zero, rsd_provenance res, ''startup/reload cost'')
      | RF_ReservationFit \<Rightarrow>
          (clamp01 (ddiv (double_of_u64 (reservedBytes (reservation c)))
                         (double_of_u64 (max 1 (vramTotal cap)))),
           rsv_provenance (reservation c), ''reservation pressure'')
      | RF_FailureDomainDiversification \<Rightarrow>
          (d_zero, Prov_Synthetic, ''per-candidate failure-domain cost (plan-level)'')
      | RF_HealthMargin \<Rightarrow>
          (clamp01 (dsub d_one (healthScore (health c))), hea_provenance (health c),
           ''health margin (1 - health score)'')
      | RF_EnergyPower \<Rightarrow>
          (d_zero, Prov_Unknown, ''energy/power (not modeled; external evidence only)'')
      | RF_FragmentationImpact \<Rightarrow>
          (d_zero, Prov_Synthetic, ''expected fragmentation impact (plan-level)'')
      | RF_ExternalPriority \<Rightarrow>
          (d_zero, Prov_Reported, ''external priority (uniform across candidates)'')
      | RF_MigrationRecomputeCost \<Rightarrow>
          (if moveBytes res > 0
           then clamp01 (ddiv (double_of_u64 (moveBytes res)) (double_of_u64 kMoveNormalizer))
           else d_zero, rsd_provenance res, ''migration/recompute cost'')
      | RF_EstimatedQueueing \<Rightarrow>
          (clamp01 (dmul (cgs_congestion (congestion c)) d_half), cgs_provenance (congestion c),
           ''estimated queueing pressure'')
      | RF_PolicyPreference \<Rightarrow>
          (d_zero, Prov_Reported, ''policy preference (uniform per policy gate)''))"

section \<open>Ranking one candidate\<close>

text \<open>The local variables of the loop over \<^verbatim>\<open>kRankFactorOrder\<close>.\<close>

record RankLoop =
  lp_factors :: "RankFactor list"
  total :: double
  minStrength :: "8 word"
  unknown :: "32 word"
  moveCost :: double
  headroom :: double

definition rank_init :: RankLoop where
  "rank_init = \<lparr>lp_factors = [], total = d_zero, minStrength = 255, unknown = 0,
     moveCost = d_zero, headroom = d_zero\<rparr>"

definition headroom_factor :: "RankFactorKind \<Rightarrow> bool" where
  "headroom_factor k \<longleftrightarrow> k = RF_ResourceHeadroom \<or> k = RF_VramHeadroom \<or> k = RF_CpuHeadroom
     \<or> k = RF_PinnedMemoryHeadroom"

definition rank_step ::
  "RankingWeights \<Rightarrow> SchedulingRequest \<Rightarrow> Candidate \<Rightarrow> RankFactorKind \<Rightarrow> RankLoop \<Rightarrow> RankLoop"
where
  "rank_step weights request c kind l =
     (let weight = weights_get weights kind;
          (v, prov, desc) = compute_factor kind request c;
          strength = provenance_strength prov in
      \<lparr>lp_factors = lp_factors l @
         [\<lparr>rf_kind = kind, rf_value = v, rf_weight = weight, rf_provenance = prov,
           rf_description = desc\<rparr>],
       total = dadd (total l) (dmul weight v),
       minStrength = (if strength < minStrength l then strength else minStrength l),
       unknown = (if prov = Prov_Unknown then unknown l + 1 else unknown l),
       moveCost = (if kind = RF_CheckpointMovementCost then dadd (moveCost l) v else moveCost l),
       headroom = (if headroom_factor kind then dadd (headroom l) v else headroom l)\<rparr>)"

definition rank_loop :: "RankingWeights \<Rightarrow> SchedulingRequest \<Rightarrow> Candidate \<Rightarrow> RankLoop" where
  "rank_loop weights request c = fold (rank_step weights request c) kRankFactorOrder rank_init"

definition count_local :: "Candidate \<Rightarrow> 32 word" where
  "count_local c = foldl (\<lambda>n b. if is_valid (memoryDomainId b) \<and> numaDistance (locality c) = 0
     then n + 1 else n) 0 (bindings c)"

definition Ranker_evaluate :: "SchedulingRequest \<Rightarrow> Candidate \<Rightarrow> RankOptions \<Rightarrow> RankedCandidate" where
  "Ranker_evaluate request c options =
     (let l = rank_loop (opt_weights options) request c in
      \<lparr>rc_candidateId = candidateId c, rc_candidateGeneration = candidateGeneration c,
       score = total l, factors = lp_factors l, unknownCount = unknown l,
       evidenceStrength = (if minStrength l = 255 then 0 else minStrength l),
       movementCost = moveCost l, headroomCost = headroom l,
       congestionCost = clamp01 (cgs_congestion (congestion c)),
       localResources = count_local c, deterministic = (unknown l = 0)\<rparr>)"

section \<open>Factors lie in the unit interval\<close>

lemma in_unit_mag: "\<not> dsign x \<Longrightarrow> dmag x \<le> 1023 * hid \<Longrightarrow> in_unit x"
  unfolding in_unit_def is_nan_def dval_d_one
  using mag_val_le_iff [of "dmag x" "1023 * hid"]
  by (simp add: dval_def mag_inf_def del: mag_val_le_iff)

lemma in_unit_literals [simp]: "in_unit d_half" "in_unit d_quarter" "in_unit d_tenth"
  by (rule in_unit_mag;
      simp add: dsign_def dmag_def d_half_def d_quarter_def d_tenth_def sgnbit_def hid_def)+

lemma clamp01_in_unit: "\<not> is_nan v \<Longrightarrow> in_unit (clamp01 v)"
  by (auto simp: clamp01_def dlt_def in_unit_def dval_d_one)

lemma in_unit_not_nan: "in_unit x \<Longrightarrow> \<not> is_nan x"
  by (simp add: in_unit_def)

lemma in_unit_finite: "in_unit x \<Longrightarrow> is_finite x"
  using in_unit_nonneg nonneg_def by blast

lemma dmax_in_unit: "in_unit x \<Longrightarrow> in_unit y \<Longrightarrow> in_unit (dmax x y)"
  by (simp add: dmax_def)

lemma double_of_u64_nonneg: "nonneg (double_of_u64 w)"
  unfolding double_of_u64_def using unsigned_less [of w, where 'a = nat]
  by (intro double_of_nat_nonneg) simp

lemma double_of_u32_nonneg: "nonneg (double_of_u32 w)"
proof -
  have "unat w < 2 ^ 32" using unsigned_less [of w, where 'a = nat] by simp
  then show ?thesis unfolding double_of_u32_def by (intro double_of_nat_nonneg) simp
qed

lemma double_of_u64_pos: "w \<noteq> 0 \<Longrightarrow> 0 < dval (double_of_u64 w)"
  unfolding double_of_u64_def by (rule double_of_nat_pos) (simp add: unat_gt_0)

lemma quotient_in_unit:
  "nonneg y \<Longrightarrow> 0 < dval y \<Longrightarrow> nonneg x \<Longrightarrow> in_unit (clamp01 (ddiv x y))"
  by (intro clamp01_in_unit ddiv_val(1))

lemma ratio_or_one_in_unit: "in_unit (ratio_or_one need avail)"
  by (simp add: ratio_or_one_def quotient_in_unit double_of_u64_nonneg double_of_u64_pos)

lemma divisors:
  "nonneg kMaxNuma" "dval kMaxNuma = int (8 * half_unit)"
  "nonneg kMaxHops" "dval kMaxHops = int (16 * half_unit)"
  "nonneg kMaxDistanceDivisor" "dval kMaxDistanceDivisor = int (16 * half_unit)"
  subgoal by (rule half_literal [where t = 1024 and q = hid and j = 49]; simp add: kMaxNuma_def hid_def)
  subgoal by (rule half_literal [where t = 1024 and q = hid and j = 49]; simp add: kMaxNuma_def hid_def)
  subgoal by (rule half_literal [where t = 1025 and q = hid and j = 48]; simp add: kMaxHops_def hid_def)
  subgoal by (rule half_literal [where t = 1025 and q = hid and j = 48]; simp add: kMaxHops_def hid_def)
  subgoal by (rule half_literal [where t = 1025 and q = hid and j = 48]; simp add: kMaxDistanceDivisor_def hid_def)
  subgoal by (rule half_literal [where t = 1025 and q = hid and j = 48]; simp add: kMaxDistanceDivisor_def hid_def)
  done

lemma half_unit_pos: "0 < half_unit"
  by (simp add: half_unit_def)

lemma distance_norm_in_unit:
  "in_unit (distance_norm d kMaxNuma)" "in_unit (distance_norm d kMaxHops)"
  "in_unit (distance_norm d kMaxDistanceDivisor)"
  using half_unit_pos
  by (simp_all add: distance_norm_def quotient_in_unit double_of_u32_nonneg divisors)

text \<open>The doubles of a candidate's evidence: the only fields ranking reads that may be NaN.\<close>

definition finite_evidence :: "Candidate \<Rightarrow> bool" where
  "finite_evidence c \<longleftrightarrow>
     is_finite (healthScore (health c)) \<and> is_finite (cgs_congestion (congestion c)) \<and>
     is_finite (residualBandwidth (congestion c)) \<and> is_finite (estimatedCost (communication c)) \<and>
     is_finite (derivedPathCost (communication c)) \<and> is_finite (collectiveCost (communication c))"

lemma dmul_half_not_nan: "is_finite x \<Longrightarrow> \<not> is_nan (dmul x d_half)"
  using in_unit_finite [OF in_unit_literals(1)]
  by (simp add: dmul_def Let_def finite_not_nan finite_not_inf)

lemma compute_factor_in_unit:
  assumes "finite_evidence c"
  shows "in_unit (fst (compute_factor k request c))"
proof -
  have fin: "is_finite d_half" "is_finite d_quarter" "is_finite (d_zero)"
    by (simp_all add: in_unit_finite)
  have move: "0 < w \<Longrightarrow> in_unit (clamp01 (ddiv (double_of_u64 n) (double_of_u64 w)))" for n w
    by (intro quotient_in_unit double_of_u64_nonneg double_of_u64_pos) auto
  have one: "(0 :: 64 word) < max 1 w" for w :: "64 word"
    by (simp add: less_max_iff_disj)
  have norm: "(0 :: 64 word) < kMoveNormalizer"
    by (simp add: kMoveNormalizer_def push_bit_eq_mult)
  show ?thesis
    using assms
    by (cases k)
      (auto simp: compute_factor_def Let_def finite_evidence_def ratio_or_one_in_unit dmax_in_unit
        distance_norm_in_unit finite_not_nan dmul_half_not_nan move one norm fin in_unit_not_nan
        clamp01_in_unit dadd_not_nan dsub_not_nan)
qed

text \<open>Whatever the evidence, a factor lies in the unit interval or is NaN.\<close>

lemma clamp01_unit_or_nan: "in_unit (clamp01 v) \<or> is_nan (clamp01 v)"
  using clamp01_in_unit [of v] by (cases "is_nan v") (auto simp: clamp01_def dlt_def)

lemma compute_factor_unit_or_nan:
  "in_unit (fst (compute_factor k request c)) \<or> is_nan (fst (compute_factor k request c))"
  using clamp01_unit_or_nan
  by (cases k) (auto simp: compute_factor_def Let_def ratio_or_one_in_unit dmax_in_unit distance_norm_in_unit)

section \<open>The loop\<close>

lemma rank_step_simps [simp]:
  "lp_factors (rank_step w r c k l) = lp_factors l @
     [\<lparr>rf_kind = k, rf_value = fst (compute_factor k r c), rf_weight = weights_get w k,
       rf_provenance = fst (snd (compute_factor k r c)),
       rf_description = snd (snd (compute_factor k r c))\<rparr>]"
  "total (rank_step w r c k l) = dadd (total l) (dmul (weights_get w k) (fst (compute_factor k r c)))"
  "unknown (rank_step w r c k l) =
     (if fst (snd (compute_factor k r c)) = Prov_Unknown then unknown l + 1 else unknown l)"
  "moveCost (rank_step w r c k l) =
     (if k = RF_CheckpointMovementCost then dadd (moveCost l) (fst (compute_factor k r c)) else moveCost l)"
  "headroom (rank_step w r c k l) =
     (if headroom_factor k then dadd (headroom l) (fst (compute_factor k r c)) else headroom l)"
  "minStrength (rank_step w r c k l) =
     min (provenance_strength (fst (snd (compute_factor k r c)))) (minStrength l)"
  by (auto simp: rank_step_def Let_def split_beta min_def)

text \<open>The factor list has one entry per kind, in canonical order.\<close>

definition factor_entry :: "RankingWeights \<Rightarrow> SchedulingRequest \<Rightarrow> Candidate \<Rightarrow> RankFactorKind \<Rightarrow> RankFactor" where
  "factor_entry w r c k =
     (case compute_factor k r c of (v, prov, desc) \<Rightarrow>
       \<lparr>rf_kind = k, rf_value = v, rf_weight = weights_get w k, rf_provenance = prov,
        rf_description = desc\<rparr>)"

lemma factors_fold:
  "lp_factors (fold (rank_step w r c) ks l) = lp_factors l @ map (factor_entry w r c) ks"
  by (induction ks arbitrary: l) (simp_all add: factor_entry_def split_beta)

lemma Ranker_factors:
  "factors (Ranker_evaluate r c opts) = map (factor_entry (opt_weights opts) r c) kRankFactorOrder"
  by (simp add: Ranker_evaluate_def Let_def rank_loop_def factors_fold rank_init_def)

definition unknown_factors :: "SchedulingRequest \<Rightarrow> Candidate \<Rightarrow> RankFactorKind list" where
  "unknown_factors r c =
     filter (\<lambda>k. fst (snd (compute_factor k r c)) = Prov_Unknown) kRankFactorOrder"

lemma unknown_fold:
  "unknown (fold (rank_step w r c) ks l) = unknown l +
     of_nat (length (filter (\<lambda>k. fst (snd (compute_factor k r c)) = Prov_Unknown) ks))"
  by (induction ks arbitrary: l) (simp_all add: algebra_simps)

lemma Ranker_unknownCount:
  "unat (unknownCount (Ranker_evaluate r c opts)) = length (unknown_factors r c)"
proof -
  have "length (unknown_factors r c) \<le> length kRankFactorOrder"
    unfolding unknown_factors_def by (rule length_filter_le)
  then have "length (unknown_factors r c) < 2 ^ LENGTH(32)"
    by (simp add: kRankFactorOrder_def)
  then show ?thesis
    by (simp add: Ranker_evaluate_def Let_def rank_loop_def unknown_fold rank_init_def
        unknown_factors_def unat_of_nat take_bit_nat_eq_self)
qed

lemma energy_unknown: "RF_EnergyPower \<in> set (unknown_factors r c)"
  by (simp add: unknown_factors_def compute_factor_def Let_def kRankFactorOrder_def)

lemma strength_fold_zero:
  "minStrength l = 0 \<Longrightarrow> minStrength (fold (rank_step w r c) ks l) = 0"
  by (induction ks arbitrary: l) (simp_all add: min_def)

lemma strength_fold_unknown:
  "k \<in> set ks \<Longrightarrow> fst (snd (compute_factor k r c)) = Prov_Unknown
     \<Longrightarrow> minStrength (fold (rank_step w r c) ks l) = 0"
proof (induction ks arbitrary: l)
  case Nil
  then show ?case by simp
next
  case (Cons a ks)
  show ?case
  proof (cases "a = k")
    case True
    then have "minStrength (rank_step w r c a l) = 0" using Cons.prems(2) by (simp add: min_def)
    then show ?thesis by (simp add: strength_fold_zero)
  next
    case False
    then show ?thesis using Cons by simp
  qed
qed

section \<open>Bounds of the total\<close>

lemma representable_halves: "k < 2 * hid \<Longrightarrow> representable (k * half_unit)"
  unfolding half_unit_def by (rule representable_dyadic) simp_all

lemma dadd_le_halves:
  assumes "nonneg x" "dval x \<le> int (m * half_unit)" "nonneg y" "dval y \<le> int (n * half_unit)"
    and "m + n < 2 * hid"
  shows "nonneg (dadd x y)" "dval (dadd x y) \<le> int ((m + n) * half_unit)"
proof -
  have "dval x + dval y \<le> int ((m + n) * half_unit)"
    using assms(2,4) by (simp add: algebra_simps)
  from dadd_le [OF assms(1,3) this representable_halves [OF assms(5)]]
  show "nonneg (dadd x y)" "dval (dadd x y) \<le> int ((m + n) * half_unit)" by blast+
qed

lemma in_unit_halves: "in_unit x \<Longrightarrow> dval x \<le> int (2 * half_unit)"
  unfolding two_half_unit by (simp add: in_unit_def dval_d_one)

lemma default_product:
  assumes "in_unit v"
  shows "nonneg (dmul (weights_get default_RankingWeights k) v)"
    and "dval (dmul (weights_get default_RankingWeights k) v) \<le> int (weight_halves k * half_unit)"
  using dmul_unit [OF default_weight_halves(1) assms] default_weight_halves(2) by metis+

lemma nan_sticks: "is_nan y \<Longrightarrow> is_nan (dadd x y)" "is_nan x \<Longrightarrow> is_nan (dadd x y)" "is_nan y \<Longrightarrow> is_nan (dmul x y)"
  by (simp_all add: dadd_def dmul_def)

lemma nan_fold: "is_nan (total l) \<Longrightarrow> is_nan (total (fold (rank_step w r c) ks l))"
  by (induction ks arbitrary: l) (simp_all add: nan_sticks)

lemma total_fold_bound:
  assumes "nonneg (total l)" "dval (total l) \<le> int (n * half_unit)"
    and "n + sum_list (map weight_halves ks) < 2 * hid"
  shows "if \<exists>k \<in> set ks. is_nan (fst (compute_factor k r c))
     then is_nan (total (fold (rank_step default_RankingWeights r c) ks l))
     else nonneg (total (fold (rank_step default_RankingWeights r c) ks l)) \<and>
       dval (total (fold (rank_step default_RankingWeights r c) ks l))
         \<le> int ((n + sum_list (map weight_halves ks)) * half_unit)"
  using assms
proof (induction ks arbitrary: l n)
  case Nil
  then show ?case by simp
next
  case (Cons k ks)
  let ?v = "fst (compute_factor k r c)"
  let ?p = "dmul (weights_get default_RankingWeights k) ?v"
  show ?case
  proof (cases "is_nan ?v")
    case True
    then have "is_nan (total (rank_step default_RankingWeights r c k l))" by (simp add: nan_sticks)
    then have "is_nan (total (fold (rank_step default_RankingWeights r c) (k # ks) l))"
      using nan_fold by simp
    with True show ?thesis by simp
  next
    case False
    then have u: "in_unit ?v" using compute_factor_unit_or_nan by blast
    have "n + weight_halves k < 2 * hid" using Cons.prems(3) by simp
    then have s: "nonneg (dadd (total l) ?p)" "dval (dadd (total l) ?p) \<le> int ((n + weight_halves k) * half_unit)"
      using dadd_le_halves [OF Cons.prems(1,2) default_product [OF u]] by blast+
    have sum: "n + weight_halves k + sum_list (map weight_halves ks) < 2 * hid" using Cons.prems(3) by simp
    have "nonneg (total (rank_step default_RankingWeights r c k l))"
      "dval (total (rank_step default_RankingWeights r c k l)) \<le> int ((n + weight_halves k) * half_unit)"
      using s by (simp_all only: rank_step_simps(2))
    from Cons.IH [OF this sum] False show ?thesis
      by (simp only: list.set bex_simps simp_thms sum_list.Cons list.map add.assoc fold.simps o_apply)
  qed
qed

lemma weight_halves_sum: "sum_list (map weight_halves kRankFactorOrder) = 81"
  by (simp add: kRankFactorOrder_def)

text \<open>Non-negative finite weights keep the total away from NaN (it may overflow to infinity).\<close>

definition nonneg_weights :: "RankingWeights \<Rightarrow> bool" where
  "nonneg_weights w \<longleftrightarrow> list_all (\<lambda>k. nonneg (weights_get w k)) kRankFactorOrder"

lemma total_fold_not_nan:
  assumes "finite_evidence c" "\<forall>k \<in> set ks. nonneg (weights_get w k)" "\<not> is_nan (total l)"
  shows "\<not> is_nan (total (fold (rank_step w r c) ks l))"
  using assms(2,3)
proof (induction ks arbitrary: l)
  case Nil
  then show ?case by simp
next
  case (Cons k ks)
  have "nonneg (dmul (weights_get w k) (fst (compute_factor k r c)))"
    using Cons.prems(1) compute_factor_in_unit [OF assms(1)] by (intro dmul_unit) auto
  then have "\<not> is_nan (total (rank_step w r c k l))"
    using Cons.prems(2) by (simp add: dadd_not_nan nonneg_def)
  with Cons.IH Cons.prems(1) show ?case by simp
qed

lemma cost_fold_bound:
  assumes ev: "finite_evidence c"
    and sel: "\<And>k l. f (rank_step w r c k l) = (if P k then dadd (f l) (fst (compute_factor k r c)) else f l)"
    and n: "n + 2 * length ks < 2 * hid" and l: "nonneg (f l)" "dval (f l) \<le> int (n * half_unit)"
  shows "nonneg (f (fold (rank_step w r c) ks l))"
  using n l
proof (induction ks arbitrary: l n)
  case Nil
  then show ?case by simp
next
  case (Cons k ks)
  have u: "in_unit (fst (compute_factor k r c))" using ev by (rule compute_factor_in_unit)
  have "n + 2 < 2 * hid" using Cons.prems(1) by simp
  note add = dadd_le_halves [OF Cons.prems(2,3) in_unit_nonneg [OF u] in_unit_halves [OF u] this]
  have "int (n * half_unit) \<le> int ((n + 2) * half_unit)" by simp
  then have "nonneg (f (rank_step w r c k l))" "dval (f (rank_step w r c k l)) \<le> int ((n + 2) * half_unit)"
    using add Cons.prems(2,3) by (auto simp: sel)
  then show ?case using Cons.IH [of "n + 2" "rank_step w r c k l"] Cons.prems(1) by simp
qed

section \<open>The comparator is a linear order\<close>

text \<open>A ranked candidate whose four double keys are not NaN.\<close>

definition comparable :: "RankedCandidate \<Rightarrow> bool" where
  "comparable a \<longleftrightarrow> \<not> is_nan (score a) \<and> \<not> is_nan (movementCost a) \<and>
     \<not> is_nan (headroomCost a) \<and> \<not> is_nan (congestionCost a)"

text \<open>One link of the chain: compare on one key, go on when it is equal.\<close>

lemma chain_double:
  "\<not> is_nan x \<Longrightarrow> \<not> is_nan y \<Longrightarrow>
     (if \<not> deq x y then dlt x y else k) \<longleftrightarrow> dval x < dval y \<or> dval x = dval y \<and> k"
  by (auto simp: deq_def dlt_def)

lemma chain_word:
  "(if a \<noteq> b then a < b else k) \<longleftrightarrow> a < b \<or> a = b \<and> k" for a b :: "'a::len word"
  by auto

lemma chain_word_desc:
  "(if a \<noteq> b then a > b else k) \<longleftrightarrow> - uint a < - uint b \<or> - uint a = - uint b \<and> k"
    for a b :: "'a::len word"
  by (auto simp: word_less_def word_uint_eq_iff)

lemma chain_prod: "(x, k) < (y, l) \<longleftrightarrow> x < y \<or> x = y \<and> k < l"
  for x y :: "'a::linorder" and k l :: "'b::linorder"
  by (auto simp: less_prod_simp)

type_synonym rank_key = "int \<times> 32 word \<times> int \<times> int \<times> int \<times> int \<times> int \<times> CandidateId"

text \<open>
  The documented tie-break chain as one lexicographic key: lower cost, fewer unknowns, stronger
  evidence, lower movement, headroom and congestion cost, more local resources, smaller identity.
\<close>

definition rank_key :: "RankedCandidate \<Rightarrow> rank_key" where
  "rank_key a = (dval (score a), unknownCount a, - uint (evidenceStrength a), dval (movementCost a),
     dval (headroomCost a), dval (congestionCost a), - uint (localResources a), rc_candidateId a)"

lemma RankComparator_key:
  assumes "comparable a" "comparable b"
  shows "RankComparator a b \<longleftrightarrow> rank_key a < rank_key b"
  using assms
  using assms unfolding RankComparator_def rank_key_def chain_prod comparable_def
  by (elim conjE) (simp only: chain_double chain_word chain_word_desc simp_thms)

interpretation rank_order: keyed_order RankComparator rank_key comparable
  by unfold_locales (rule RankComparator_key)

lemma rank_key_id: "rank_key a = rank_key b \<Longrightarrow> rc_candidateId a = rc_candidateId b"
  by (simp add: rank_key_def)

lemma Ranker_id [simp]: "rc_candidateId (Ranker_evaluate r c opts) = candidateId c"
  "rc_candidateGeneration (Ranker_evaluate r c opts) = candidateGeneration c"
  by (simp_all add: Ranker_evaluate_def Let_def)

lemma Ranker_comparable:
  assumes ev: "finite_evidence c" and w: "nonneg_weights (opt_weights opts)"
  shows "comparable (Ranker_evaluate r c opts)"
proof -
  let ?l = "rank_loop (opt_weights opts) r c"
  have "\<not> is_nan (total ?l)"
    unfolding rank_loop_def using w
    by (intro total_fold_not_nan ev) (auto simp: rank_init_def nonneg_weights_def list_all_iff)
  moreover have len: "0 + 2 * length kRankFactorOrder < 2 * hid"
    by (simp add: kRankFactorOrder_def hid_def)
  have "nonneg (moveCost ?l)" unfolding rank_loop_def
    by (rule cost_fold_bound [OF ev rank_step_simps(4) len]) (simp_all add: rank_init_def)
  moreover have "nonneg (headroom ?l)" unfolding rank_loop_def
    by (rule cost_fold_bound [OF ev rank_step_simps(5) len]) (simp_all add: rank_init_def)
  moreover have "\<not> is_nan (clamp01 (cgs_congestion (congestion c)))"
    using ev by (intro in_unit_not_nan clamp01_in_unit finite_not_nan) (simp add: finite_evidence_def)
  ultimately show ?thesis
    by (simp add: comparable_def Ranker_evaluate_def Let_def nonneg_def finite_not_nan)
qed

lemma default_weights_nonneg: "nonneg_weights default_RankingWeights"
  by (simp add: nonneg_weights_def list_all_iff default_weight_halves)

section \<open>Properties\<close>

text \<open>Every factor of a ranked candidate lies in the unit interval when the evidence doubles
  are finite.\<close>

theorem ranked_factors_in_unit:
  assumes "finite_evidence c"
  shows "\<forall>f \<in> set (factors (Ranker_evaluate r c opts)). in_unit (rf_value f)"
  using compute_factor_in_unit [OF assms]
  by (auto simp: Ranker_factors factor_entry_def split_beta)

lemma rank_init_total: "nonneg (total rank_init)" "dval (total rank_init) \<le> int (0 * half_unit)"
  by (simp_all add: rank_init_def nonneg_def)

text \<open>C35: under the default weights the score of any candidate is finite and between 0 and 40.5, that
  is 81 halves, or it is NaN; it is NaN exactly when one of the 27 factors is, and none is when the
  numbers of the candidate's health, congestion and communication evidence are finite.\<close>

theorem default_score_bounds:
  assumes "opt_weights opts = default_RankingWeights"
  shows "(is_nan (score (Ranker_evaluate r c opts)) \<longleftrightarrow>
       (\<exists>f \<in> set (factors (Ranker_evaluate r c opts)). is_nan (rf_value f))) \<and>
     (\<not> is_nan (score (Ranker_evaluate r c opts)) \<longrightarrow>
       0 \<le> dval (score (Ranker_evaluate r c opts)) \<and>
       dval (score (Ranker_evaluate r c opts)) \<le> int (81 * half_unit) \<and>
       is_finite (score (Ranker_evaluate r c opts))) \<and>
     (finite_evidence c \<longrightarrow> \<not> is_nan (score (Ranker_evaluate r c opts)))"
proof -
  let ?s = "total (rank_loop default_RankingWeights r c)"
  have "0 + sum_list (map weight_halves kRankFactorOrder) < 2 * hid"
    by (simp add: weight_halves_sum hid_def)
  from total_fold_bound [OF _ _ this, of rank_init r c]
  have s0: "if \<exists>k \<in> set kRankFactorOrder. is_nan (fst (compute_factor k r c)) then is_nan ?s
      else nonneg ?s \<and> dval ?s \<le> int ((0 + 81) * half_unit)"
    using rank_init_total unfolding weight_halves_sum rank_loop_def by blast
  then have s: "if \<exists>k \<in> set kRankFactorOrder. is_nan (fst (compute_factor k r c)) then is_nan ?s
      else nonneg ?s \<and> dval ?s \<le> int (81 * half_unit)"
    by (simp only: add_0)
  have "score (Ranker_evaluate r c opts) = ?s"
    using assms by (simp add: Ranker_evaluate_def Let_def)
  moreover have "(\<exists>f \<in> set (factors (Ranker_evaluate r c opts)). is_nan (rf_value f)) \<longleftrightarrow>
      (\<exists>k \<in> set kRankFactorOrder. is_nan (fst (compute_factor k r c)))"
    by (auto simp: Ranker_factors factor_entry_def split_beta)
  moreover have "\<not> is_nan (fst (compute_factor k r c))" if "finite_evidence c" for k
    using compute_factor_in_unit [OF that] by (rule in_unit_not_nan)
  ultimately show ?thesis using s
    by (auto simp: nonneg_def finite_not_nan split: if_splits)
qed

text \<open>No candidate is ranked without unknown evidence: the energy factor is always UNKNOWN,
  so the unknown count is at least one, the evidence strength is zero, and the run is never
  reported deterministic.\<close>

theorem ranking_never_deterministic:
  "unknownCount (Ranker_evaluate r c opts) \<noteq> 0 \<and> evidenceStrength (Ranker_evaluate r c opts) = 0
     \<and> deterministic (Ranker_evaluate r c opts) = False"
proof -
  have "unknown_factors r c \<noteq> []" using energy_unknown [of r c] by auto
  then have "unknownCount (Ranker_evaluate r c opts) \<noteq> 0"
    using Ranker_unknownCount [of r c opts] by auto
  moreover have "minStrength (rank_loop (opt_weights opts) r c) = 0"
    unfolding rank_loop_def
    by (rule strength_fold_unknown [of RF_EnergyPower])
      (simp_all add: kRankFactorOrder_def compute_factor_def Let_def)
  ultimately show ?thesis by (simp add: Ranker_evaluate_def Let_def)
qed

theorem ranked_factors_in_unit_witness:
  "in_unit (rf_value (hd (factors (Ranker_evaluate req sampleA default_RankOptions))))"
proof -
  have "finite_evidence sampleA" by (simp add: finite_evidence_def scenario_defs)
  moreover have "factors (Ranker_evaluate req sampleA default_RankOptions) \<noteq> []"
    by (simp add: Ranker_factors kRankFactorOrder_def)
  ultimately show ?thesis using ranked_factors_in_unit hd_in_set by blast
qed

theorem default_score_bounds_witness:
  "dval (score (Ranker_evaluate req sampleA default_RankOptions)) \<le> int (81 * half_unit)"
proof -
  have "finite_evidence sampleA" by (simp add: finite_evidence_def scenario_defs)
  moreover have "opt_weights default_RankOptions = default_RankingWeights" by (simp add: default_RankOptions_def)
  ultimately show ?thesis using default_score_bounds by blast
qed

text \<open>C33: the comparator never calls a candidate better than itself, is transitive, and of two
  candidates with different identities always prefers one, when no key is NaN.\<close>

theorem comparator_linear:
  assumes "comparable a" "comparable b" "comparable c"
  shows "\<not> RankComparator a a \<and>
     (RankComparator a b \<and> RankComparator b c \<longrightarrow> RankComparator a c) \<and>
     (rc_candidateId a \<noteq> rc_candidateId b \<longrightarrow> RankComparator a b \<noteq> RankComparator b a)"
  using assms rank_order.irreflexive rank_order.transitive rank_order.total rank_key_id by metis

theorem comparator_linear_witness:
  "RankComparator (Ranker_evaluate req sampleA default_RankOptions) (Ranker_evaluate req sampleB default_RankOptions)
   \<noteq> RankComparator (Ranker_evaluate req sampleB default_RankOptions) (Ranker_evaluate req sampleA default_RankOptions)"
proof -
  let ?a = "Ranker_evaluate req sampleA default_RankOptions"
  let ?b = "Ranker_evaluate req sampleB default_RankOptions"
  have w: "nonneg_weights (opt_weights default_RankOptions)"
    by (simp add: default_RankOptions_def default_weights_nonneg)
  have "finite_evidence sampleA" by (simp add: finite_evidence_def scenario_defs)
  moreover have "finite_evidence sampleB"
    by (simp add: finite_evidence_def scenario_defs)
      (simp add: is_finite_def dmag_def d_point_3_def d_point_2_def mag_inf_def hid_def sgnbit_def)
  ultimately have "comparable ?a" "comparable ?b" using w by (simp_all add: Ranker_comparable)
  moreover have "rc_candidateId ?a \<noteq> rc_candidateId ?b" by (simp add: make_scenario_candidate_def Let_def)
  ultimately show ?thesis using comparator_linear [of ?a ?b ?a] by blast
qed

text \<open>A NaN breaks the order: when two scores are NaN, neither candidate precedes the other,
  whatever the remaining keys and identities are, so \<^verbatim>\<open>std::sort\<close> has no defined choice.\<close>

theorem nan_score_unordered:
  assumes "is_nan (score a)"
  shows "\<not> RankComparator a b \<and> \<not> RankComparator b a"
  using assms by (simp add: RankComparator_def deq_def dlt_def)

theorem nan_score_unordered_witness:
  "\<not> RankComparator (Ranker_evaluate req sampleA default_RankOptions\<lparr>score := qnan\<rparr>)
      (Ranker_evaluate req sampleB default_RankOptions)"
  using nan_score_unordered [of "Ranker_evaluate req sampleA default_RankOptions\<lparr>score := qnan\<rparr>"
    "Ranker_evaluate req sampleB default_RankOptions"] by simp

end
