(* ===== verification/Eligibility.thy ===== *)
theory Eligibility
  imports Policy
begin

text \<open>
  The hard filter (\<^verbatim>\<open>eligibility.hpp\<close>, \<^verbatim>\<open>eligibility.cpp\<close>): \<open>evaluate\<close> runs the
  constraints in their fixed order and returns the first violation, or \<open>ES_ELIGIBLE\<close>.

  \<open>meets_hard_constraints\<close> is the contract, one conjunct per constraint and over natural
  numbers; \<open>evaluate_eligible\<close> proves the filter accepts exactly the candidates that meet it,
  and \<open>evaluate_violation\<close> that each verdict names a constraint the candidate violates.
\<close>

datatype EligibilityStatus =
    ES_ELIGIBLE
  | ES_REJECT_CAPACITY
  | ES_REJECT_MEMORY
  | ES_REJECT_CONTIGUITY
  | ES_REJECT_CAPABILITY
  | ES_REJECT_HEALTH
  | ES_REJECT_TOPOLOGY
  | ES_REJECT_NUMA
  | ES_REJECT_PCIE
  | ES_REJECT_NETWORK
  | ES_REJECT_STORAGE
  | ES_REJECT_RESERVATION
  | ES_REJECT_DEPENDENCY
  | ES_REJECT_COMPATIBILITY
  | ES_REJECT_FAILURE_DOMAIN
  | ES_REJECT_POLICY
  | ES_REVALIDATION_REQUIRED
  | ES_INSUFFICIENT_EVIDENCE
  | ES_UNKNOWN

definition all_EligibilityStatus :: "EligibilityStatus list" where
  "all_EligibilityStatus = [ES_ELIGIBLE,
     ES_REJECT_CAPACITY,
     ES_REJECT_MEMORY,
     ES_REJECT_CONTIGUITY,
     ES_REJECT_CAPABILITY,
     ES_REJECT_HEALTH,
     ES_REJECT_TOPOLOGY,
     ES_REJECT_NUMA,
     ES_REJECT_PCIE,
     ES_REJECT_NETWORK,
     ES_REJECT_STORAGE,
     ES_REJECT_RESERVATION,
     ES_REJECT_DEPENDENCY,
     ES_REJECT_COMPATIBILITY,
     ES_REJECT_FAILURE_DOMAIN,
     ES_REJECT_POLICY,
     ES_REVALIDATION_REQUIRED,
     ES_INSUFFICIENT_EVIDENCE,
     ES_UNKNOWN]"

fun EligibilityStatus_to_string :: "EligibilityStatus \<Rightarrow> string" where
  "EligibilityStatus_to_string ES_ELIGIBLE = ''ELIGIBLE''"
| "EligibilityStatus_to_string ES_REJECT_CAPACITY = ''REJECT_CAPACITY''"
| "EligibilityStatus_to_string ES_REJECT_MEMORY = ''REJECT_MEMORY''"
| "EligibilityStatus_to_string ES_REJECT_CONTIGUITY = ''REJECT_CONTIGUITY''"
| "EligibilityStatus_to_string ES_REJECT_CAPABILITY = ''REJECT_CAPABILITY''"
| "EligibilityStatus_to_string ES_REJECT_HEALTH = ''REJECT_HEALTH''"
| "EligibilityStatus_to_string ES_REJECT_TOPOLOGY = ''REJECT_TOPOLOGY''"
| "EligibilityStatus_to_string ES_REJECT_NUMA = ''REJECT_NUMA''"
| "EligibilityStatus_to_string ES_REJECT_PCIE = ''REJECT_PCIE''"
| "EligibilityStatus_to_string ES_REJECT_NETWORK = ''REJECT_NETWORK''"
| "EligibilityStatus_to_string ES_REJECT_STORAGE = ''REJECT_STORAGE''"
| "EligibilityStatus_to_string ES_REJECT_RESERVATION = ''REJECT_RESERVATION''"
| "EligibilityStatus_to_string ES_REJECT_DEPENDENCY = ''REJECT_DEPENDENCY''"
| "EligibilityStatus_to_string ES_REJECT_COMPATIBILITY = ''REJECT_COMPATIBILITY''"
| "EligibilityStatus_to_string ES_REJECT_FAILURE_DOMAIN = ''REJECT_FAILURE_DOMAIN''"
| "EligibilityStatus_to_string ES_REJECT_POLICY = ''REJECT_POLICY''"
| "EligibilityStatus_to_string ES_REVALIDATION_REQUIRED = ''REVALIDATION_REQUIRED''"
| "EligibilityStatus_to_string ES_INSUFFICIENT_EVIDENCE = ''INSUFFICIENT_EVIDENCE''"
| "EligibilityStatus_to_string ES_UNKNOWN = ''UNKNOWN''"

interpretation EligibilityStatus_enum: byte_enum all_EligibilityStatus
  by unfold_locales (auto simp: all_EligibilityStatus_def intro: EligibilityStatus.exhaust)

definition is_rejected :: "EligibilityStatus \<Rightarrow> bool" where
  "is_rejected s \<longleftrightarrow> s \<noteq> ES_ELIGIBLE \<and> s \<noteq> ES_REVALIDATION_REQUIRED"

record EligibilityResult =
  el_status :: EligibilityStatus
  el_reason :: string
  rejectedFactor :: RankFactorKind
  bottleneckResource :: ResourceKind
  el_dependencyGeneration :: DependencyGeneration

definition default_EligibilityResult :: EligibilityResult where
  "default_EligibilityResult =
     \<lparr>el_status = ES_UNKNOWN, el_reason = [], rejectedFactor = RF_PolicyPreference,
      bottleneckResource = RK_CpuCore, el_dependencyGeneration = StrongId 0\<rparr>"

definition eligible :: "EligibilityResult \<Rightarrow> bool" where
  "eligible r \<longleftrightarrow> el_status r = ES_ELIGIBLE"

section \<open>The filter\<close>

definition saturating_mul :: "ByteCount \<Rightarrow> CoreCount \<Rightarrow> ByteCount" where
  "saturating_mul a b =
     (if a = 0 \<or> b = 0 then 0
      else let lim = 0xFFFFFFFFFFFFFFFF in
        if a > lim div ucast b then lim else a * ucast b)"

definition reject :: "EligibilityStatus \<Rightarrow> string \<Rightarrow> RankFactorKind \<Rightarrow> ResourceKind \<Rightarrow> EligibilityResult" where
  "reject s r f b = default_EligibilityResult
     \<lparr>el_status := s, el_reason := r, rejectedFactor := f, bottleneckResource := b\<rparr>"

definition has_capability :: "AcceleratorRequirement \<Rightarrow> DeviceBinding list \<Rightarrow> bool" where
  "has_capability acc bs \<longleftrightarrow>
     list_ex (\<lambda>b. bnd_capability b = acc_capability acc \<and> capabilityCurrent b) bs"

definition has_nic :: "DeviceBinding list \<Rightarrow> bool" where
  "has_nic bs \<longleftrightarrow> list_ex (\<lambda>b. is_valid (nicId b) \<and> is_valid (nicGeneration b)) bs"

definition requiredVram :: "AcceleratorRequirement \<Rightarrow> ByteCount" where
  "requiredVram acc =
     (if aggregateVram acc > 0 then aggregateVram acc
      else saturating_mul (vramPerDevice acc) (minimumCount acc))"

definition evaluate ::
  "SchedulingRequest \<Rightarrow> Candidate \<Rightarrow> DependencyView option \<Rightarrow> PolicyVeto option \<Rightarrow> EligibilityResult"
where
  "evaluate request c dependency policy =
     (let d = demand request; acc = accelerator d; cap = capacity c in
      if minimumCount acc > 0 \<and> bindings c = [] then
        reject ES_INSUFFICIENT_EVIDENCE
          ''candidate exposes no accelerator binding for a demanded compute workload''
          RF_AcceleratorFit RK_Accelerator
      else if minimumCount acc > 0 \<and> cap_provenance cap = Prov_Unknown then
        reject ES_INSUFFICIENT_EVIDENCE ''candidate capacity evidence provenance is UNKNOWN''
          RF_ResourceHeadroom RK_Accelerator
      else if hea_provenance (health c) = Prov_Unknown then
        reject ES_INSUFFICIENT_EVIDENCE ''candidate health evidence provenance is UNKNOWN''
          RF_HealthMargin RK_CpuCore
      else if minimumCount acc > 0 \<and> \<not> has_capability acc (bindings c) then
        reject ES_REJECT_CAPABILITY
          ''candidate does not expose a current required accelerator capability''
          RF_AcceleratorFit RK_Accelerator
      else if minimumCount acc > 0 \<and> vramAvailable cap < requiredVram acc then
        reject ES_REJECT_CAPACITY ''candidate VRAM available is below required VRAM''
          RF_VramHeadroom RK_Accelerator
      else if cpuAvailable cap < cpuRequired d then
        reject ES_REJECT_CAPACITY ''candidate CPU capacity is below required CPU count''
          RF_CpuHeadroom RK_CpuCore
      else if hostMemoryAvailable cap < hostMemory (dem_memory d) then
        reject ES_REJECT_CAPACITY ''candidate host memory available is below required host memory''
          RF_ResourceHeadroom RK_HostMemory
      else if pinnedMemoryAvailable cap < pinnedMemory (dem_memory d) then
        reject ES_REJECT_MEMORY ''candidate pinned memory available is below required pinned memory''
          RF_PinnedMemoryHeadroom RK_PinnedMemory
      else if requiresContiguousMemory acc \<and> \<not> contiguousMemory cap then
        reject ES_REJECT_CONTIGUITY ''candidate cannot provide contiguous memory''
          RF_ResourceHeadroom RK_HostMemory
      else if \<not> hea_ready (health c) then
        reject ES_REJECT_HEALTH
          (''candidate resource is not health-ready'' @
             (if degradationReason (health c) = [] then [] else '': '' @ degradationReason (health c)))
          RF_HealthMargin RK_CpuCore
      else if requireNic (dem_network d) \<and> \<not> has_nic (bindings c) then
        reject ES_REJECT_NETWORK ''candidate exposes no NIC binding while network is required''
          RF_NicLocality RK_Nic
      else if requireNic (dem_network d) \<and> nicBandwidthAvailable cap < net_bandwidth (dem_network d) then
        reject ES_REJECT_NETWORK ''candidate NIC bandwidth is below required bandwidth''
          RF_ResidualBandwidth RK_Nic
      else if storageAvailable cap < sto_capacity (dem_storage d) then
        reject ES_REJECT_STORAGE ''candidate storage available is below required storage''
          RF_StorageLocality RK_Storage
      else if requireLocal (dem_storage d) \<and> \<not> stateLocal (residency c) then
        reject ES_REJECT_STORAGE ''candidate does not provide local storage for required state''
          RF_StorageLocality RK_Storage
      else if protectedResource (reservation c) then
        reject ES_REJECT_RESERVATION ''candidate resource is protected by a live reservation''
          RF_ReservationFit RK_Accelerator
      else if is_valid (requiredTopologyGeneration d) \<and>
              topologyGeneration (locality c) \<noteq> requiredTopologyGeneration d then
        reject ES_REJECT_TOPOLOGY ''candidate topology generation does not match required topology''
          RF_TopologyLocality RK_LinkBandwidth
      else case (case dependency of None \<Rightarrow> None
                 | Some v \<Rightarrow> if dv_ready v (demandId d) then None else Some v) of
        Some v \<Rightarrow>
          (reject ES_REJECT_DEPENDENCY (''dependencies not ready: '' @ dv_unsatisfied v (demandId d))
             RF_PolicyPreference RK_CpuCore)\<lparr>el_dependencyGeneration := dv_generation v\<rparr>
      | None \<Rightarrow>
          (case (case policy of None \<Rightarrow> None | Some p \<Rightarrow> if pv_allows p c then None else Some p) of
            Some p \<Rightarrow>
              reject ES_REJECT_POLICY (''policy veto: '' @ pv_reason p c) RF_PolicyPreference RK_CpuCore
          | None \<Rightarrow> default_EligibilityResult
              \<lparr>el_status := ES_ELIGIBLE, el_reason := ''candidate meets all hard constraints''\<rparr>))"

section \<open>The contract\<close>

definition needs_accelerator :: "DemandProfile \<Rightarrow> bool" where
  "needs_accelerator d \<longleftrightarrow> 0 < unat (minimumCount (accelerator d))"

definition vram_demand :: "AcceleratorRequirement \<Rightarrow> nat" where
  "vram_demand acc =
     (if aggregateVram acc \<noteq> 0 then unat (aggregateVram acc)
      else min (unat (vramPerDevice acc) * unat (minimumCount acc)) (2 ^ 64 - 1))"

definition evidence_sufficient :: "DemandProfile \<Rightarrow> Candidate \<Rightarrow> bool" where
  "evidence_sufficient d c \<longleftrightarrow>
     (needs_accelerator d \<longrightarrow> bindings c \<noteq> [] \<and> cap_provenance (capacity c) \<noteq> Prov_Unknown) \<and>
     hea_provenance (health c) \<noteq> Prov_Unknown"

definition capability_met :: "DemandProfile \<Rightarrow> Candidate \<Rightarrow> bool" where
  "capability_met d c \<longleftrightarrow> (needs_accelerator d \<longrightarrow>
     (\<exists>b \<in> set (bindings c). bnd_capability b = acc_capability (accelerator d) \<and> capabilityCurrent b))"

definition capacity_met :: "DemandProfile \<Rightarrow> Candidate \<Rightarrow> bool" where
  "capacity_met d c \<longleftrightarrow>
     (needs_accelerator d \<longrightarrow> vram_demand (accelerator d) \<le> unat (vramAvailable (capacity c))) \<and>
     unat (cpuRequired d) \<le> unat (cpuAvailable (capacity c)) \<and>
     unat (hostMemory (dem_memory d)) \<le> unat (hostMemoryAvailable (capacity c))"

definition pinned_met :: "DemandProfile \<Rightarrow> Candidate \<Rightarrow> bool" where
  "pinned_met d c \<longleftrightarrow> unat (pinnedMemory (dem_memory d)) \<le> unat (pinnedMemoryAvailable (capacity c))"

definition contiguity_met :: "DemandProfile \<Rightarrow> Candidate \<Rightarrow> bool" where
  "contiguity_met d c \<longleftrightarrow>
     (requiresContiguousMemory (accelerator d) \<longrightarrow> contiguousMemory (capacity c))"

definition network_met :: "DemandProfile \<Rightarrow> Candidate \<Rightarrow> bool" where
  "network_met d c \<longleftrightarrow> (requireNic (dem_network d) \<longrightarrow>
     (\<exists>b \<in> set (bindings c). is_valid (nicId b) \<and> is_valid (nicGeneration b)) \<and>
     unat (net_bandwidth (dem_network d)) \<le> unat (nicBandwidthAvailable (capacity c)))"

definition storage_met :: "DemandProfile \<Rightarrow> Candidate \<Rightarrow> bool" where
  "storage_met d c \<longleftrightarrow>
     unat (sto_capacity (dem_storage d)) \<le> unat (storageAvailable (capacity c)) \<and>
     (requireLocal (dem_storage d) \<longrightarrow> stateLocal (residency c))"

definition topology_met :: "DemandProfile \<Rightarrow> Candidate \<Rightarrow> bool" where
  "topology_met d c \<longleftrightarrow> (is_valid (requiredTopologyGeneration d) \<longrightarrow>
     topologyGeneration (locality c) = requiredTopologyGeneration d)"

definition dependency_met :: "DemandProfile \<Rightarrow> DependencyView option \<Rightarrow> bool" where
  "dependency_met d dep \<longleftrightarrow> (\<forall>v. dep = Some v \<longrightarrow> dv_ready v (demandId d))"

definition policy_met :: "Candidate \<Rightarrow> PolicyVeto option \<Rightarrow> bool" where
  "policy_met c pol \<longleftrightarrow> (\<forall>p. pol = Some p \<longrightarrow> pv_allows p c)"

definition meets_hard_constraints ::
  "SchedulingRequest \<Rightarrow> Candidate \<Rightarrow> DependencyView option \<Rightarrow> PolicyVeto option \<Rightarrow> bool" where
  "meets_hard_constraints r c dep pol \<longleftrightarrow>
     (let d = demand r in
      evidence_sufficient d c \<and> capability_met d c \<and> capacity_met d c \<and> pinned_met d c \<and>
      contiguity_met d c \<and> hea_ready (health c) \<and> network_met d c \<and> storage_met d c \<and>
      \<not> protectedResource (reservation c) \<and> topology_met d c \<and>
      dependency_met d dep \<and> policy_met c pol)"

text \<open>The constraint a verdict says is violated.\<close>

fun violates ::
  "EligibilityStatus \<Rightarrow> SchedulingRequest \<Rightarrow> Candidate \<Rightarrow> DependencyView option \<Rightarrow> PolicyVeto option \<Rightarrow> bool"
where
  "violates ES_ELIGIBLE r c dep pol \<longleftrightarrow> \<not> meets_hard_constraints r c dep pol"
| "violates ES_INSUFFICIENT_EVIDENCE r c dep pol \<longleftrightarrow> \<not> evidence_sufficient (demand r) c"
| "violates ES_REJECT_CAPABILITY r c dep pol \<longleftrightarrow> \<not> capability_met (demand r) c"
| "violates ES_REJECT_CAPACITY r c dep pol \<longleftrightarrow> \<not> capacity_met (demand r) c"
| "violates ES_REJECT_MEMORY r c dep pol \<longleftrightarrow> \<not> pinned_met (demand r) c"
| "violates ES_REJECT_CONTIGUITY r c dep pol \<longleftrightarrow> \<not> contiguity_met (demand r) c"
| "violates ES_REJECT_HEALTH r c dep pol \<longleftrightarrow> \<not> hea_ready (health c)"
| "violates ES_REJECT_NETWORK r c dep pol \<longleftrightarrow> \<not> network_met (demand r) c"
| "violates ES_REJECT_STORAGE r c dep pol \<longleftrightarrow> \<not> storage_met (demand r) c"
| "violates ES_REJECT_RESERVATION r c dep pol \<longleftrightarrow> protectedResource (reservation c)"
| "violates ES_REJECT_TOPOLOGY r c dep pol \<longleftrightarrow> \<not> topology_met (demand r) c"
| "violates ES_REJECT_DEPENDENCY r c dep pol \<longleftrightarrow> \<not> dependency_met (demand r) dep"
| "violates ES_REJECT_POLICY r c dep pol \<longleftrightarrow> \<not> policy_met c pol"
| "violates _ r c dep pol \<longleftrightarrow> False"

section \<open>Lemmas\<close>

lemma unat_lim64: "unat (0xFFFFFFFFFFFFFFFF :: 64 word) = 2 ^ 64 - 1"
  by simp

text \<open>The saturating product is the exact product, cut at the largest 64-bit value.\<close>

lemma unat_saturating_mul:
  "unat (saturating_mul a b) = min (unat a * unat b) (2 ^ 64 - 1)"
proof (cases "a = 0 \<or> b = 0")
  case True
  then show ?thesis by (auto simp: saturating_mul_def)
next
  case False
  then have b: "0 < unat b" and a: "a \<noteq> 0" "b \<noteq> 0" by (simp_all add: unat_gt_0)
  have div: "unat (0xFFFFFFFFFFFFFFFF div ucast b :: 64 word) = (2 ^ 64 - 1) div unat b"
    by (simp add: unat_div_distrib)
  show ?thesis
  proof (cases "0xFFFFFFFFFFFFFFFF div ucast b < a")
    case True
    then have "(2 ^ 64 - 1) div unat b < unat a" unfolding word_less_nat_alt div .
    then have "2 ^ 64 - 1 < unat a * unat b" using b by (simp only: div_less_iff_less_mult)
    with True a show ?thesis by (simp add: saturating_mul_def Let_def)
  next
    case False
    then have "unat a \<le> (2 ^ 64 - 1) div unat b" unfolding word_less_nat_alt div by simp
    then have le: "unat a * unat b \<le> 2 ^ 64 - 1" using b by (simp only: less_eq_div_iff_mult_less_eq)
    then have "unat (a * ucast b) = unat a * unat b"
      by (simp add: unat_word_ariths)
    with False a le show ?thesis by (simp add: saturating_mul_def Let_def)
  qed
qed

lemma requiredVram_demand: "unat (requiredVram acc) = vram_demand acc"
  by (simp add: requiredVram_def vram_demand_def unat_saturating_mul word_greater_zero_iff)

lemma status_reject [simp]: "el_status (reject s r f b) = s"
  by (simp add: reject_def default_EligibilityResult_def)

lemmas constraint_defs =
  evidence_sufficient_def capability_met_def capacity_met_def pinned_met_def contiguity_met_def
  network_met_def storage_met_def topology_met_def dependency_met_def policy_met_def
  needs_accelerator_def

text \<open>The verdict as one decision per constraint, in the order the filter tests them.\<close>

definition verdict ::
  "SchedulingRequest \<Rightarrow> Candidate \<Rightarrow> DependencyView option \<Rightarrow> PolicyVeto option \<Rightarrow> EligibilityStatus"
where
  "verdict r c dep pol =
     (let d = demand r in
      if \<not> evidence_sufficient d c then ES_INSUFFICIENT_EVIDENCE
      else if \<not> capability_met d c then ES_REJECT_CAPABILITY
      else if \<not> capacity_met d c then ES_REJECT_CAPACITY
      else if \<not> pinned_met d c then ES_REJECT_MEMORY
      else if \<not> contiguity_met d c then ES_REJECT_CONTIGUITY
      else if \<not> hea_ready (health c) then ES_REJECT_HEALTH
      else if \<not> network_met d c then ES_REJECT_NETWORK
      else if \<not> storage_met d c then ES_REJECT_STORAGE
      else if protectedResource (reservation c) then ES_REJECT_RESERVATION
      else if \<not> topology_met d c then ES_REJECT_TOPOLOGY
      else if \<not> dependency_met d dep then ES_REJECT_DEPENDENCY
      else if \<not> policy_met c pol then ES_REJECT_POLICY
      else ES_ELIGIBLE)"

lemma status_if:
  "el_status (if b then x else y) = (if b then el_status x else el_status y)"
  by simp

lemma if_merge: "(if a then x else if b then x else y) = (if a \<or> b then x else y)"
  by simp

lemma status_tail:
  "el_status (case (case dep of None \<Rightarrow> None | Some v \<Rightarrow> if dv_ready v i then None else Some v) of
        Some v \<Rightarrow> (reject ES_REJECT_DEPENDENCY (m v) f b)\<lparr>el_dependencyGeneration := g v\<rparr>
      | None \<Rightarrow>
          (case (case pol of None \<Rightarrow> None | Some p \<Rightarrow> if pv_allows p c then None else Some p) of
            Some p \<Rightarrow> reject ES_REJECT_POLICY (n p) f' b'
          | None \<Rightarrow> default_EligibilityResult\<lparr>el_status := ES_ELIGIBLE, el_reason := o'\<rparr>)) =
   (if \<not> (\<forall>v. dep = Some v \<longrightarrow> dv_ready v i) then ES_REJECT_DEPENDENCY
    else if \<not> policy_met c pol then ES_REJECT_POLICY else ES_ELIGIBLE)"
  by (auto simp: policy_met_def reject_def default_EligibilityResult_def split: option.splits)

text \<open>The code's guards of one constraint, merged, are the negated conjunct of the contract.\<close>

lemma needs_accelerator_iff: "0 < minimumCount (accelerator d) \<longleftrightarrow> needs_accelerator d"
  by (simp add: needs_accelerator_def word_less_nat_alt)

lemma guard_evidence:
  "needs_accelerator d \<and> bindings c = [] \<or> needs_accelerator d \<and> cap_provenance (capacity c) = Prov_Unknown
     \<or> hea_provenance (health c) = Prov_Unknown \<longleftrightarrow> \<not> evidence_sufficient d c"
  by (auto simp: evidence_sufficient_def)

lemma guard_capability:
  "needs_accelerator d \<and> \<not> has_capability (accelerator d) (bindings c) \<longleftrightarrow> \<not> capability_met d c"
  by (auto simp: capability_met_def has_capability_def list_ex_iff)

lemma guard_capacity:
  "needs_accelerator d \<and> vramAvailable (capacity c) < requiredVram (accelerator d)
     \<or> cpuAvailable (capacity c) < cpuRequired d
     \<or> hostMemoryAvailable (capacity c) < hostMemory (dem_memory d) \<longleftrightarrow> \<not> capacity_met d c"
  by (simp only: capacity_met_def word_less_nat_alt requiredVram_demand) (simp only: not_le [symmetric], blast)

lemma guard_pinned:
  "pinnedMemoryAvailable (capacity c) < pinnedMemory (dem_memory d) \<longleftrightarrow> \<not> pinned_met d c"
  by (simp only: pinned_met_def word_less_nat_alt not_le)

lemma guard_contiguity:
  "requiresContiguousMemory (accelerator d) \<and> \<not> contiguousMemory (capacity c) \<longleftrightarrow> \<not> contiguity_met d c"
  by (simp add: contiguity_met_def)

lemma guard_network:
  "requireNic (dem_network d) \<and> \<not> has_nic (bindings c)
     \<or> requireNic (dem_network d) \<and> nicBandwidthAvailable (capacity c) < net_bandwidth (dem_network d)
     \<longleftrightarrow> \<not> network_met d c"
  by (simp only: network_met_def has_nic_def word_less_nat_alt list_ex_iff)
     (simp only: not_le [symmetric], blast)

lemma guard_storage:
  "storageAvailable (capacity c) < sto_capacity (dem_storage d)
     \<or> requireLocal (dem_storage d) \<and> \<not> stateLocal (residency c) \<longleftrightarrow> \<not> storage_met d c"
  by (simp only: storage_met_def word_less_nat_alt) (simp only: not_le [symmetric], blast)

lemma guard_topology:
  "is_valid (requiredTopologyGeneration d) \<and>
     topologyGeneration (locality c) \<noteq> requiredTopologyGeneration d \<longleftrightarrow> \<not> topology_met d c"
  by (simp add: topology_met_def)

lemmas guards =
  guard_evidence guard_capability guard_capacity guard_pinned guard_contiguity guard_network
  guard_storage guard_topology

lemma evaluate_verdict: "el_status (evaluate r c dep pol) = verdict r c dep pol"
  unfolding evaluate_def verdict_def Let_def status_if status_reject status_tail if_merge
    needs_accelerator_iff disj_assoc guards dependency_met_def
  by (rule refl)

lemma verdict_eligible: "verdict r c dep pol = ES_ELIGIBLE \<longleftrightarrow> meets_hard_constraints r c dep pol"
  by (simp add: verdict_def meets_hard_constraints_def Let_def)

lemma evaluate_eligible:
  "el_status (evaluate r c dep pol) = ES_ELIGIBLE \<longleftrightarrow> meets_hard_constraints r c dep pol"
  by (simp add: evaluate_verdict verdict_eligible)

lemma evaluate_violation:
  "el_status (evaluate r c dep pol) \<noteq> ES_ELIGIBLE \<Longrightarrow> violates (el_status (evaluate r c dep pol)) r c dep pol"
  unfolding evaluate_verdict verdict_eligible by (auto simp: verdict_def Let_def meets_hard_constraints_def)

section \<open>Properties\<close>

text \<open>C12: the hard filter is exact: its verdict is the first violated constraint in the fixed order
  evidence, capability, capacity, pinned memory, contiguity, health, network, storage, reservation,
  topology, dependency, policy, and it accepts exactly the candidates that meet all of them.\<close>

theorem hard_filter_exact:
  "el_status (evaluate r c dep pol) = verdict r c dep pol \<and>
     (eligible (evaluate r c dep pol) \<longleftrightarrow> meets_hard_constraints r c dep pol)"
  by (simp add: evaluate_verdict verdict_eligible eligible_def)

text \<open>The saturating product of the filter is the exact product cut at the largest 64-bit
  value, so a hostile demand cannot wrap into a pass.\<close>

theorem saturating_mul_exact: "unat (saturating_mul a b) = min (unat a * unat b) (2 ^ 64 - 1)"
  by (rule unat_saturating_mul)

text \<open>Six of the declared verdicts are never produced: NUMA, PCIe, compatibility and
  failure-domain rejections, REVALIDATION_REQUIRED and UNKNOWN.\<close>

theorem filter_unused_verdicts:
  "el_status (evaluate r c dep pol) \<notin>
     {ES_REJECT_NUMA, ES_REJECT_PCIE, ES_REJECT_COMPATIBILITY, ES_REJECT_FAILURE_DOMAIN,
      ES_REVALIDATION_REQUIRED, ES_UNKNOWN}"
  unfolding evaluate_verdict by (simp add: verdict_def Let_def)

definition capacity_le :: "CapacityEvidence \<Rightarrow> CapacityEvidence \<Rightarrow> bool" where
  "capacity_le a b \<longleftrightarrow>
     vramAvailable a \<le> vramAvailable b \<and> hostMemoryAvailable a \<le> hostMemoryAvailable b \<and>
     pinnedMemoryAvailable a \<le> pinnedMemoryAvailable b \<and> cpuAvailable a \<le> cpuAvailable b \<and>
     storageAvailable a \<le> storageAvailable b \<and> nicBandwidthAvailable a \<le> nicBandwidthAvailable b \<and>
     (contiguousMemory a \<longrightarrow> contiguousMemory b) \<and>
     (cap_provenance b = Prov_Unknown \<longrightarrow> cap_provenance a = Prov_Unknown)"

lemma capacity_mono:
  assumes "capacity_le (capacity c) cap"
  shows "evidence_sufficient d c \<Longrightarrow> evidence_sufficient d (c\<lparr>capacity := cap\<rparr>)"
    and "capacity_met d c \<Longrightarrow> capacity_met d (c\<lparr>capacity := cap\<rparr>)"
    and "pinned_met d c \<Longrightarrow> pinned_met d (c\<lparr>capacity := cap\<rparr>)"
    and "contiguity_met d c \<Longrightarrow> contiguity_met d (c\<lparr>capacity := cap\<rparr>)"
    and "network_met d c \<Longrightarrow> network_met d (c\<lparr>capacity := cap\<rparr>)"
    and "storage_met d c \<Longrightarrow> storage_met d (c\<lparr>capacity := cap\<rparr>)"
  subgoal using assms by (auto simp: evidence_sufficient_def capacity_le_def)
  subgoal using assms by (auto simp: capacity_met_def capacity_le_def word_le_nat_alt)
  subgoal using assms by (auto simp: pinned_met_def capacity_le_def word_le_nat_alt)
  subgoal using assms by (auto simp: contiguity_met_def capacity_le_def)
  subgoal using assms by (auto simp: network_met_def capacity_le_def word_le_nat_alt)
  subgoal using assms by (auto simp: storage_met_def capacity_le_def word_le_nat_alt)
  done

lemma keeps_unchanged:
  "capability_met d (c\<lparr>capacity := cap\<rparr>) = capability_met d c"
  "topology_met d (c\<lparr>capacity := cap\<rparr>) = topology_met d c"
  "policy_met (c\<lparr>capacity := cap\<rparr>) None"
  by (simp_all add: capability_met_def topology_met_def policy_met_def)

text \<open>Eligibility is monotone in the evidence of capacity: a candidate that stays the same but
  reports at least as much of every available resource stays eligible.\<close>

theorem filter_monotone:
  assumes "eligible (evaluate r c None None)" and "capacity_le (capacity c) cap"
  shows "eligible (evaluate r (c\<lparr>capacity := cap\<rparr>) None None)"
  using assms(1)
  unfolding eligible_def evaluate_eligible meets_hard_constraints_def Let_def
  by (elim conjE) (intro conjI;
      (erule capacity_mono [OF assms(2)] | simp add: keeps_unchanged))

theorem filter_monotone_witness:
  "eligible (evaluate req (sampleB\<lparr>capacity := capacity sampleA\<rparr>) None None)"
  by (rule filter_monotone)
     (simp_all add: eligible_def evaluate_eligible meets_hard_constraints_def scenario_defs
       constraint_defs vram_demand_def is_valid_def capacity_le_def)

end
