(* ===== verification/Placement.thy ===== *)
theory Placement
  imports Ranking Eligibility
begin

text \<open>
  Placement plans and their guarded lifecycle (\<^verbatim>\<open>placement.hpp\<close>, \<^verbatim>\<open>placement.cpp\<close>): the
  fourteen states, the transition table \<open>lifecycle_step\<close> (\<^verbatim>\<open>step\<close> in the source), the two ways
  a transition is recorded (\<open>placement_advance\<close> here, \<open>advance_local\<close> and \<open>force_state\<close> of
  \<^verbatim>\<open>scheduler.cpp\<close>), and the records a plan is made of.

  Shown here: terminal states absorb all but retirement, a plan becomes ACTIVE only after
  COMMITTED, and a rejected transition leaves the plan alone.
\<close>

datatype PlacementLifecycleState =
    REQUESTED | DISCOVERING | FILTERING | RANKING | PLAN_READY | AWAITING_RESOURCE_COMMIT
  | COMMITTED | AWAITING_EXECUTION | ACTIVE | REVALIDATION_REQUIRED | SUPERSEDED | CANCELLED
  | FAILED | RETIRED

definition all_PlacementLifecycleState :: "PlacementLifecycleState list" where
  "all_PlacementLifecycleState =
     [REQUESTED, DISCOVERING, FILTERING, RANKING, PLAN_READY, AWAITING_RESOURCE_COMMIT,
      COMMITTED, AWAITING_EXECUTION, ACTIVE, REVALIDATION_REQUIRED, SUPERSEDED, CANCELLED,
      FAILED, RETIRED]"

interpretation PlacementLifecycleState_enum: byte_enum all_PlacementLifecycleState
  by unfold_locales (auto simp: all_PlacementLifecycleState_def intro: PlacementLifecycleState.exhaust)

fun PlacementLifecycleState_to_string :: "PlacementLifecycleState \<Rightarrow> string" where
  "PlacementLifecycleState_to_string REQUESTED = ''REQUESTED''"
| "PlacementLifecycleState_to_string DISCOVERING = ''DISCOVERING''"
| "PlacementLifecycleState_to_string FILTERING = ''FILTERING''"
| "PlacementLifecycleState_to_string RANKING = ''RANKING''"
| "PlacementLifecycleState_to_string PLAN_READY = ''PLAN_READY''"
| "PlacementLifecycleState_to_string AWAITING_RESOURCE_COMMIT = ''AWAITING_RESOURCE_COMMIT''"
| "PlacementLifecycleState_to_string COMMITTED = ''COMMITTED''"
| "PlacementLifecycleState_to_string AWAITING_EXECUTION = ''AWAITING_EXECUTION''"
| "PlacementLifecycleState_to_string ACTIVE = ''ACTIVE''"
| "PlacementLifecycleState_to_string REVALIDATION_REQUIRED = ''REVALIDATION_REQUIRED''"
| "PlacementLifecycleState_to_string SUPERSEDED = ''SUPERSEDED''"
| "PlacementLifecycleState_to_string CANCELLED = ''CANCELLED''"
| "PlacementLifecycleState_to_string FAILED = ''FAILED''"
| "PlacementLifecycleState_to_string RETIRED = ''RETIRED''"

definition is_terminal :: "PlacementLifecycleState \<Rightarrow> bool" where
  "is_terminal s \<longleftrightarrow> s = SUPERSEDED \<or> s = CANCELLED \<or> s = FAILED \<or> s = RETIRED"

text \<open>The explicit transition table.\<close>

definition lifecycle_step :: "PlacementLifecycleState \<Rightarrow> PlacementLifecycleState \<Rightarrow> bool" where
  "lifecycle_step from to =
     (if from = to then True
      else case from of
        REQUESTED \<Rightarrow> to = DISCOVERING \<or> to = CANCELLED \<or> to = SUPERSEDED \<or> to = FAILED
      | DISCOVERING \<Rightarrow> to = FILTERING \<or> to = REVALIDATION_REQUIRED \<or> to = CANCELLED \<or>
          to = SUPERSEDED \<or> to = FAILED
      | FILTERING \<Rightarrow> to = RANKING \<or> to = REVALIDATION_REQUIRED \<or> to = CANCELLED \<or>
          to = SUPERSEDED \<or> to = FAILED
      | RANKING \<Rightarrow> to = PLAN_READY \<or> to = REVALIDATION_REQUIRED \<or> to = CANCELLED \<or>
          to = SUPERSEDED \<or> to = FAILED
      | PLAN_READY \<Rightarrow> to = AWAITING_RESOURCE_COMMIT \<or> to = REVALIDATION_REQUIRED \<or>
          to = CANCELLED \<or> to = SUPERSEDED \<or> to = FAILED
      | AWAITING_RESOURCE_COMMIT \<Rightarrow> to = COMMITTED \<or> to = REVALIDATION_REQUIRED \<or>
          to = CANCELLED \<or> to = SUPERSEDED \<or> to = FAILED
      | COMMITTED \<Rightarrow> to = AWAITING_EXECUTION \<or> to = REVALIDATION_REQUIRED \<or> to = SUPERSEDED \<or>
          to = FAILED \<or> to = CANCELLED
      | AWAITING_EXECUTION \<Rightarrow> to = ACTIVE \<or> to = REVALIDATION_REQUIRED \<or> to = SUPERSEDED \<or>
          to = CANCELLED \<or> to = FAILED
      | ACTIVE \<Rightarrow> to = ACTIVE \<or> to = REVALIDATION_REQUIRED \<or> to = SUPERSEDED \<or>
          to = CANCELLED \<or> to = FAILED \<or> to = RETIRED
      | REVALIDATION_REQUIRED \<Rightarrow> to = PLAN_READY \<or> to = FILTERING \<or> to = RANKING \<or>
          to = AWAITING_RESOURCE_COMMIT \<or> to = SUPERSEDED \<or> to = CANCELLED \<or> to = FAILED \<or>
          to = RETIRED
      | SUPERSEDED \<Rightarrow> to = RETIRED
      | CANCELLED \<Rightarrow> to = RETIRED
      | FAILED \<Rightarrow> to = RETIRED
      | RETIRED \<Rightarrow> False)"

definition placement_can_transition :: "PlacementLifecycleState \<Rightarrow> PlacementLifecycleState \<Rightarrow> bool" where
  "placement_can_transition from to = lifecycle_step from to"

section \<open>Plans\<close>

record ResourceClaim =
  clm_resourceId :: ResourceId
  clm_resourceGeneration :: ResourceGeneration
  clm_kind :: ResourceKind
  amount :: ByteCount
  provisional :: bool

record RejectedAlternative =
  rej_candidateId :: CandidateId
  rej_candidateGeneration :: CandidateGeneration
  rej_status :: EligibilityStatus
  rej_reason :: string

record GenerationFingerprint =
  fp_topology :: TopologyGeneration
  fp_capacity :: CapacityGeneration
  fp_reservation :: ReservationGeneration
  fp_congestion :: CongestionGeneration
  fp_capability :: CapabilityGeneration
  fp_health :: HealthGeneration
  fp_residency :: ResidencyGeneration
  fp_communicationPlan :: CommunicationPlanGeneration
  fp_policy :: PolicyGeneration
  fp_resource :: ResourceGeneration
  fp_dependency :: DependencyGeneration
  fp_coordinatorEpoch :: CoordinatorEpoch

definition fingerprint_equal :: "GenerationFingerprint \<Rightarrow> GenerationFingerprint \<Rightarrow> bool" where
  "fingerprint_equal a b \<longleftrightarrow>
     fp_topology a = fp_topology b \<and> fp_capacity a = fp_capacity b \<and>
     fp_reservation a = fp_reservation b \<and> fp_congestion a = fp_congestion b \<and>
     fp_capability a = fp_capability b \<and> fp_health a = fp_health b \<and>
     fp_residency a = fp_residency b \<and> fp_communicationPlan a = fp_communicationPlan b \<and>
     fp_policy a = fp_policy b \<and> fp_resource a = fp_resource b \<and>
     fp_dependency a = fp_dependency b \<and> fp_coordinatorEpoch a = fp_coordinatorEpoch b"

record ExecutionHandoff =
  executionId :: ExecutionId
  executionGeneration :: ExecutionGeneration
  attemptId :: AttemptId
  attemptGeneration :: AttemptGeneration
  hnd_authorityGeneration :: AuthorityGeneration
  authorized :: bool

record PlacementPlan =
  planId :: PlacementPlanId
  planGeneration :: PlacementPlanGeneration
  pl_requestId :: SchedulingRequestId
  requestGeneration :: SchedulingRequestGeneration
  selectedCandidate :: CandidateId
  selectedCandidateGeneration :: CandidateGeneration
  fallbackCandidates :: "CandidateId list"
  pl_bindings :: "DeviceBinding list"
  claims :: "ResourceClaim list"
  communicationPlan :: CommunicationPlanGeneration
  communicationPlanId :: string
  movementBytes :: ByteCount
  movementSource :: string
  residencyPrerequisite :: bool
  selectedFactors :: "RankFactor list"
  rejectedAlternatives :: "RejectedAlternative list"
  generations :: GenerationFingerprint
  pl_policyGeneration :: PolicyGeneration
  pl_authorityGeneration :: AuthorityGeneration
  pl_state :: PlacementLifecycleState
  stateHistory :: "(PlacementLifecycleState \<times> 64 word) list"
  pl_coordinatorEpoch :: CoordinatorEpoch
  supersededBy :: PlacementPlanId
  supersessionReason :: string
  hasCommitmentEvidence :: bool

definition default_GenerationFingerprint :: GenerationFingerprint where
  "default_GenerationFingerprint =
     \<lparr>fp_topology = StrongId 0, fp_capacity = StrongId 0, fp_reservation = StrongId 0,
      fp_congestion = StrongId 0, fp_capability = StrongId 0, fp_health = StrongId 0,
      fp_residency = StrongId 0, fp_communicationPlan = StrongId 0, fp_policy = StrongId 0,
      fp_resource = StrongId 0, fp_dependency = StrongId 0, fp_coordinatorEpoch = StrongId 0\<rparr>"

definition default_PlacementPlan :: PlacementPlan where
  "default_PlacementPlan =
     \<lparr>planId = StrongId 0, planGeneration = StrongId 0, pl_requestId = StrongId 0,
      requestGeneration = StrongId 0, selectedCandidate = StrongId 0,
      selectedCandidateGeneration = StrongId 0, fallbackCandidates = [], pl_bindings = [],
      claims = [], communicationPlan = StrongId 0, communicationPlanId = [], movementBytes = 0,
      movementSource = [], residencyPrerequisite = False, selectedFactors = [],
      rejectedAlternatives = [], generations = default_GenerationFingerprint,
      pl_policyGeneration = StrongId 0, pl_authorityGeneration = StrongId 0, pl_state = REQUESTED,
      stateHistory = [], pl_coordinatorEpoch = StrongId 0, supersededBy = StrongId 0,
      supersessionReason = [], hasCommitmentEvidence = False\<rparr>"

record RevalidationResult =
  current :: bool
  changes :: "string list"
  resultingState :: PlacementLifecycleState

section \<open>Moving a plan\<close>

definition illegal_transition :: "PlacementLifecycleState \<Rightarrow> PlacementLifecycleState \<Rightarrow> 'a res" where
  "illegal_transition from to =
     throw IllegalLifecycleTransition
       (''illegal placement lifecycle transition '' @ PlacementLifecycleState_to_string from @
        '' -> '' @ PlacementLifecycleState_to_string to)"

text \<open>\<^verbatim>\<open>placement_advance\<close> returns the plan and the caller's ordinal counter.\<close>

definition placement_advance ::
  "PlacementPlan \<Rightarrow> PlacementLifecycleState \<Rightarrow> 64 word \<Rightarrow> 64 word \<Rightarrow> (PlacementPlan \<times> 64 word) res"
where
  "placement_advance plan to eventOrdinal nextOrdinal =
     (if pl_state plan = to then Inr (plan, nextOrdinal)
      else if \<not> lifecycle_step (pl_state plan) to then illegal_transition (pl_state plan) to
      else let ordinal = (if eventOrdinal \<noteq> 0 then eventOrdinal else nextOrdinal);
               next' = (if eventOrdinal \<noteq> 0 then nextOrdinal else nextOrdinal + 1) in
        Inr (plan\<lparr>pl_state := to, stateHistory := stateHistory plan @ [(to, ordinal)]\<rparr>, next'))"

definition kMaxPlanHistory :: nat where
  "kMaxPlanHistory = 64"

definition record_state :: "PlacementPlan \<Rightarrow> PlacementLifecycleState \<Rightarrow> 64 word \<Rightarrow> PlacementPlan" where
  "record_state plan to ordinal =
     plan\<lparr>pl_state := to,
       stateHistory := (if length (stateHistory plan) < kMaxPlanHistory
         then stateHistory plan @ [(to, ordinal)] else stateHistory plan)\<rparr>"

definition advance_local :: "PlacementPlan \<Rightarrow> PlacementLifecycleState \<Rightarrow> 64 word \<Rightarrow> PlacementPlan res" where
  "advance_local plan to ordinal =
     (if pl_state plan = to then Inr plan
      else if \<not> placement_can_transition (pl_state plan) to then illegal_transition (pl_state plan) to
      else Inr (record_state plan to ordinal))"

definition force_state :: "PlacementPlan \<Rightarrow> PlacementLifecycleState \<Rightarrow> 64 word \<Rightarrow> PlacementPlan" where
  "force_state plan to ordinal =
     (if pl_state plan = to then plan else record_state plan to ordinal)"

definition build_claims :: "DeviceBinding list \<Rightarrow> ResourceClaim list" where
  "build_claims bs =
     map (\<lambda>b. \<lparr>clm_resourceId = bnd_resourceId b, clm_resourceGeneration = bnd_resourceGeneration b,
       clm_kind = RK_Accelerator, amount = 1, provisional = True\<rparr>) bs"

section \<open>Lemmas on the lifecycle\<close>

lemmas lifecycle_simps = lifecycle_step_def placement_can_transition_def is_terminal_def

lemma lifecycle_step_refl [simp]: "lifecycle_step s s"
  by (simp add: lifecycle_step_def)

lemma terminal_step: "is_terminal s \<Longrightarrow> lifecycle_step s t \<Longrightarrow> t = s \<or> t = RETIRED"
  by (auto simp: lifecycle_simps split: if_splits)

lemma step_to_COMMITTED: "lifecycle_step s COMMITTED \<longleftrightarrow> s = COMMITTED \<or> s = AWAITING_RESOURCE_COMMIT"
  by (cases s) (simp_all add: lifecycle_step_def)

lemma step_to_AWAITING_EXECUTION:
  "lifecycle_step s AWAITING_EXECUTION \<longleftrightarrow> s = AWAITING_EXECUTION \<or> s = COMMITTED"
  by (cases s) (simp_all add: lifecycle_step_def)

lemma step_to_ACTIVE: "lifecycle_step s ACTIVE \<longleftrightarrow> s = ACTIVE \<or> s = AWAITING_EXECUTION"
  by (cases s) (simp_all add: lifecycle_step_def)

lemma step_from_REVALIDATION:
  "lifecycle_step REVALIDATION_REQUIRED t \<Longrightarrow> t \<noteq> COMMITTED \<and> t \<noteq> AWAITING_EXECUTION \<and> t \<noteq> ACTIVE"
  by (auto simp: lifecycle_step_def)

text \<open>Sequences of states, each one a table entry from the one before.\<close>

inductive lifecycle_path :: "PlacementLifecycleState \<Rightarrow> PlacementLifecycleState list \<Rightarrow> PlacementLifecycleState \<Rightarrow> bool" where
  path_end: "lifecycle_path s [] s"
| path_step: "lifecycle_step s t \<Longrightarrow> lifecycle_path t ss u \<Longrightarrow> lifecycle_path s (t # ss) u"

code_pred lifecycle_path .

inductive_cases path_NilE: "lifecycle_path s [] u"
inductive_cases path_ConsE: "lifecycle_path s (t # ss) u"
inductive_simps path_simps: "lifecycle_path s [] u" "lifecycle_path s (t # ss) u"

lemma path_from_terminal:
  "lifecycle_path s ss u \<Longrightarrow> is_terminal s \<Longrightarrow> u = s \<or> u = RETIRED"
proof (induction rule: lifecycle_path.induct)
  case (path_end s)
  then show ?case by simp
next
  case (path_step s t ss u)
  then have "t = s \<or> t = RETIRED" by (blast dest: terminal_step)
  then show ?case using path_step by (auto simp: is_terminal_def)
qed

lemma path_to_ACTIVE:
  "lifecycle_path s ss u \<Longrightarrow> u = ACTIVE \<Longrightarrow> s \<notin> {COMMITTED, AWAITING_EXECUTION, ACTIVE} \<Longrightarrow>
     COMMITTED \<in> set ss"
proof (induction rule: lifecycle_path.induct)
  case (path_end s)
  then show ?case by simp
next
  case (path_step s t ss u)
  have "t \<notin> {AWAITING_EXECUTION, ACTIVE}"
    using path_step by (auto simp: step_to_ACTIVE step_to_AWAITING_EXECUTION)
  then show ?case using path_step by auto
qed

lemma path_to_COMMITTED:
  "lifecycle_path s ss u \<Longrightarrow> u = COMMITTED \<Longrightarrow> s \<notin> {COMMITTED, AWAITING_RESOURCE_COMMIT} \<Longrightarrow>
     AWAITING_RESOURCE_COMMIT \<in> set ss"
proof (induction rule: lifecycle_path.induct)
  case (path_end s)
  then show ?case by simp
next
  case (path_step s t ss u)
  have "t \<noteq> COMMITTED" using path_step by (auto simp: step_to_COMMITTED)
  then show ?case using path_step by auto
qed

lemma record_state_simps [simp]:
  "pl_state (record_state p t i) = t"
  "planId (record_state p t i) = planId p"
  "pl_requestId (record_state p t i) = pl_requestId p"
  "pl_authorityGeneration (record_state p t i) = pl_authorityGeneration p"
  "hasCommitmentEvidence (record_state p t i) = hasCommitmentEvidence p"
  "claims (record_state p t i) = claims p"
  "selectedCandidate (record_state p t i) = selectedCandidate p"
  "generations (record_state p t i) = generations p"
  "supersededBy (record_state p t i) = supersededBy p"
  "pl_coordinatorEpoch (record_state p t i) = pl_coordinatorEpoch p"
  by (simp_all add: record_state_def)

lemma record_state_history:
  "length (stateHistory p) \<le> kMaxPlanHistory \<Longrightarrow> length (stateHistory (record_state p t i)) \<le> kMaxPlanHistory"
  by (simp add: record_state_def)

lemma force_state_simps [simp]:
  "pl_state (force_state p t i) = t"
  "planId (force_state p t i) = planId p"
  "pl_requestId (force_state p t i) = pl_requestId p"
  "pl_authorityGeneration (force_state p t i) = pl_authorityGeneration p"
  "hasCommitmentEvidence (force_state p t i) = hasCommitmentEvidence p"
  "claims (force_state p t i) = claims p"
  "selectedCandidate (force_state p t i) = selectedCandidate p"
  "generations (force_state p t i) = generations p"
  "supersededBy (force_state p t i) = supersededBy p"
  "pl_coordinatorEpoch (force_state p t i) = pl_coordinatorEpoch p"
  by (simp_all add: force_state_def)

lemma force_state_history:
  "length (stateHistory p) \<le> kMaxPlanHistory \<Longrightarrow> length (stateHistory (force_state p t i)) \<le> kMaxPlanHistory"
  by (simp add: force_state_def record_state_history)

lemma advance_local_Inr:
  "advance_local p t i = Inr q \<longleftrightarrow>
     lifecycle_step (pl_state p) t \<and> q = (if pl_state p = t then p else record_state p t i)"
  by (auto simp: advance_local_def illegal_transition_def placement_can_transition_def)

lemma advance_local_legal:
  "lifecycle_step (pl_state p) t \<Longrightarrow> pl_state p \<noteq> t \<Longrightarrow> advance_local p t i = Inr (record_state p t i)"
  by (simp add: advance_local_Inr)

lemma fingerprint_equal_iff: "fingerprint_equal a b \<longleftrightarrow> a = b"
  by (auto simp: fingerprint_equal_def)

section \<open>Properties\<close>

text \<open>Terminal states absorb: whatever legal transitions follow SUPERSEDED, CANCELLED, FAILED or
  RETIRED, the plan is still in that state or RETIRED.\<close>

theorem terminal_absorbs:
  assumes "is_terminal s" "lifecycle_path s ss u"
  shows "u = s \<or> u = RETIRED"
  using assms by (blast dest: path_from_terminal)

theorem terminal_absorbs_witness: "RETIRED = CANCELLED \<or> RETIRED = RETIRED"
  by (rule terminal_absorbs [of CANCELLED "[RETIRED]"])
     (simp_all add: is_terminal_def path_simps lifecycle_step_def)

text \<open>C37: no legal history reaches ACTIVE from an earlier state without having been COMMITTED, and
  none reaches COMMITTED without having awaited the resource commitment.\<close>

theorem active_only_after_commit:
  assumes "lifecycle_path REQUESTED ss u"
  shows "(u = ACTIVE \<longrightarrow> COMMITTED \<in> set ss) \<and>
     (u = COMMITTED \<longrightarrow> AWAITING_RESOURCE_COMMIT \<in> set ss)"
  using path_to_ACTIVE [OF assms] path_to_COMMITTED [OF assms] by simp

theorem active_only_after_commit_witness:
  "COMMITTED \<in> set [DISCOVERING, FILTERING, RANKING, PLAN_READY, AWAITING_RESOURCE_COMMIT,
     COMMITTED, AWAITING_EXECUTION, ACTIVE]"
  using active_only_after_commit [of "[DISCOVERING, FILTERING, RANKING, PLAN_READY,
     AWAITING_RESOURCE_COMMIT, COMMITTED, AWAITING_EXECUTION, ACTIVE]" ACTIVE]
  by (simp add: path_simps lifecycle_step_def)

text \<open>\<^verbatim>\<open>placement_advance\<close> on every branch: a self-transition changes nothing and draws no ordinal;
  a transition outside the table is the IllegalLifecycleTransition error; any other sets the state
  and appends one history entry with the given ordinal, or the next one when that is zero.\<close>

theorem placement_advance_spec:
  "placement_advance p t e n =
     (if pl_state p = t then Inr (p, n)
      else if \<not> placement_can_transition (pl_state p) t then
        Inl (FabricError IllegalLifecycleTransition (''illegal placement lifecycle transition '' @
          PlacementLifecycleState_to_string (pl_state p) @ '' -> '' @ PlacementLifecycleState_to_string t))
      else if e = 0 then Inr (p\<lparr>pl_state := t, stateHistory := stateHistory p @ [(t, n)]\<rparr>, n + 1)
      else Inr (p\<lparr>pl_state := t, stateHistory := stateHistory p @ [(t, e)]\<rparr>, n))"
  by (simp add: placement_advance_def illegal_transition_def placement_can_transition_def Let_def)

text \<open>The table lets every non-terminal state but REQUESTED go to REVALIDATION_REQUIRED.\<close>

theorem revalidation_reachable:
  "placement_can_transition s REVALIDATION_REQUIRED \<longleftrightarrow> \<not> is_terminal s \<and> s \<noteq> REQUESTED"
  by (cases s) (simp_all add: lifecycle_simps)

end
