(* ===== verification/Revalidation.thy ===== *)
theory Revalidation
  imports Placement
begin

text \<open>
  Revalidation of a plan against a current generation fingerprint (\<^verbatim>\<open>revalidation.cpp\<close>): the
  names of the generations that moved, in a fixed order, and the state the plan should take.
\<close>

definition changed :: "bool \<Rightarrow> string \<Rightarrow> string list" where
  "changed b what = (if b then [what] else [])"

definition revalidate_plan :: "PlacementPlan \<Rightarrow> GenerationFingerprint \<Rightarrow> RevalidationResult" where
  "revalidate_plan plan cur =
     (let g = generations plan; same = fingerprint_equal g cur in
      \<lparr>current = same,
       changes =
         changed (fp_topology g \<noteq> fp_topology cur) ''topology generation advanced'' @
         changed (fp_capacity g \<noteq> fp_capacity cur) ''capacity generation advanced'' @
         changed (fp_reservation g \<noteq> fp_reservation cur) ''reservation generation advanced'' @
         changed (fp_congestion g \<noteq> fp_congestion cur) ''congestion generation advanced'' @
         changed (fp_capability g \<noteq> fp_capability cur) ''capability generation advanced'' @
         changed (fp_health g \<noteq> fp_health cur) ''health generation advanced'' @
         changed (fp_residency g \<noteq> fp_residency cur) ''residency generation advanced'' @
         changed (fp_communicationPlan g \<noteq> fp_communicationPlan cur)
           ''communication-plan generation advanced'' @
         changed (fp_policy g \<noteq> fp_policy cur) ''policy generation advanced'' @
         changed (fp_resource g \<noteq> fp_resource cur) ''resource generation advanced'' @
         changed (fp_dependency g \<noteq> fp_dependency cur) ''dependency generation advanced'' @
         changed (fp_coordinatorEpoch g \<noteq> fp_coordinatorEpoch cur) ''coordinator epoch advanced'',
       resultingState = (if same then pl_state plan else REVALIDATION_REQUIRED)\<rparr>)"

lemma changed_Nil [simp]: "changed b w = [] \<longleftrightarrow> \<not> b"
  by (simp add: changed_def)

text \<open>A plan is current exactly when no generation is reported as moved.\<close>

lemma current_iff_no_changes:
  "current (revalidate_plan plan cur) \<longleftrightarrow> changes (revalidate_plan plan cur) = []"
  by (simp add: revalidate_plan_def Let_def fingerprint_equal_def)

lemma current_iff_same: "current (revalidate_plan plan cur) \<longleftrightarrow> generations plan = cur"
  by (simp add: revalidate_plan_def Let_def fingerprint_equal_iff)

text \<open>Revalidation reports a plan current exactly when its fingerprint equals the current one,
  exactly when it lists no change, and sends a stale plan to REVALIDATION_REQUIRED.\<close>

theorem revalidation_exact:
  "(current (revalidate_plan plan cur) \<longleftrightarrow> generations plan = cur) \<and>
   (current (revalidate_plan plan cur) \<longleftrightarrow> changes (revalidate_plan plan cur) = []) \<and>
   resultingState (revalidate_plan plan cur) =
     (if generations plan = cur then pl_state plan else REVALIDATION_REQUIRED)"
  by (simp add: current_iff_same current_iff_no_changes [symmetric])
    (simp add: revalidate_plan_def Let_def fingerprint_equal_iff)

end
