(* ===== verification/Adapters.thy ===== *)
theory Adapters
  imports Revalidation
begin

text \<open>
  The narrow interfaces to the external owners (\<^verbatim>\<open>adapters/*.hpp\<close>) and their reference
  implementations. An abstract class is a record of functions over the owner's own state
  \<open>'s\<close>; the reference adapters are values of these records.

  \<open>authority_gate\<close> is what the scheduler wants from an execution fabric: it authorises a plan
  only under the authority it accepts.
\<close>

section \<open>Resource broker\<close>

record ResourceCommitResult =
  succeeded :: bool
  commitmentToken :: string
  rcr_resourceGeneration :: ResourceGeneration
  failureReason :: string
  rcr_provisional :: bool

definition default_ResourceCommitResult :: ResourceCommitResult where
  "default_ResourceCommitResult =
     \<lparr>succeeded = False, commitmentToken = [], rcr_resourceGeneration = StrongId 0,
      failureReason = [], rcr_provisional = False\<rparr>"

record 's ResourceBroker =
  broker_commit :: "ResourceClaim list \<Rightarrow> 's \<Rightarrow> ResourceCommitResult \<times> 's"
  broker_release :: "string \<Rightarrow> 's \<Rightarrow> 's"

text \<open>The coordinator's thread-safe in-memory broker.\<close>

record InMemoryBroker =
  failNext :: bool
  nextToken :: "64 word"

definition InMemoryBroker_commit ::
  "ResourceClaim list \<Rightarrow> InMemoryBroker \<Rightarrow> ResourceCommitResult \<times> InMemoryBroker"
where
  "InMemoryBroker_commit cs b =
     (let r = default_ResourceCommitResult
            \<lparr>rcr_resourceGeneration :=
               (case cs of [] \<Rightarrow> StrongId 1 | c # _ \<Rightarrow> clm_resourceGeneration c)\<rparr> in
      if failNext b then
        (r\<lparr>succeeded := False, failureReason := ''capacity changed at commit time''\<rparr>,
         b\<lparr>failNext := False\<rparr>)
      else
        (r\<lparr>succeeded := True, commitmentToken := ''tok-'' @ show_u64 (nextToken b + 1)\<rparr>,
         b\<lparr>nextToken := nextToken b + 1\<rparr>))"

definition InMemoryBroker_release :: "string \<Rightarrow> InMemoryBroker \<Rightarrow> InMemoryBroker" where
  "InMemoryBroker_release token b = b"

definition in_memory_broker :: "InMemoryBroker ResourceBroker" where
  "in_memory_broker = \<lparr>broker_commit = InMemoryBroker_commit, broker_release = InMemoryBroker_release\<rparr>"

section \<open>Execution fabric\<close>

definition default_ExecutionHandoff :: ExecutionHandoff where
  "default_ExecutionHandoff =
     \<lparr>executionId = StrongId 0, executionGeneration = StrongId 0, attemptId = StrongId 0,
      attemptGeneration = StrongId 0, hnd_authorityGeneration = StrongId 0, authorized = False\<rparr>"

record 's ExecutionFabric =
  authorize :: "PlacementPlan \<Rightarrow> 's \<Rightarrow> ExecutionHandoff \<times> 's"

text \<open>\<^verbatim>\<open>ReferenceExecutionAdapter\<close>: its state is the authority it accepts.\<close>

definition ReferenceExecutionAdapter_authorize ::
  "PlacementPlan \<Rightarrow> AuthorityGeneration \<Rightarrow> ExecutionHandoff \<times> AuthorityGeneration"
where
  "ReferenceExecutionAdapter_authorize plan accepted =
     (default_ExecutionHandoff
        \<lparr>hnd_authorityGeneration := pl_authorityGeneration plan,
         authorized := (pl_authorityGeneration plan = accepted)\<rparr>, accepted)"

definition reference_execution :: "AuthorityGeneration ExecutionFabric" where
  "reference_execution = \<lparr>authorize = ReferenceExecutionAdapter_authorize\<rparr>"

locale authority_gate =
  fixes fabric :: "'s ExecutionFabric"
    and accepts :: "'s \<Rightarrow> AuthorityGeneration \<Rightarrow> bool"
  assumes authorized_only: "authorized (fst (authorize fabric plan s)) \<Longrightarrow> accepts s (pl_authorityGeneration plan)"
    and reports_authority: "hnd_authorityGeneration (fst (authorize fabric plan s)) = pl_authorityGeneration plan"
begin

lemma stale_refused: "\<not> accepts s (pl_authorityGeneration plan) \<Longrightarrow> \<not> authorized (fst (authorize fabric plan s))"
  using authorized_only by blast

end

interpretation reference_gate: authority_gate reference_execution "(=)"
  by unfold_locales
     (auto simp: reference_execution_def ReferenceExecutionAdapter_authorize_def)

section \<open>Communication planner and residency source\<close>

text \<open>\<^verbatim>\<open>ReferenceCommunicationPlanner(cost)\<close> and \<^verbatim>\<open>ReferenceResidencySource(evidence)\<close>.\<close>

definition ReferenceCommunicationPlanner_plan ::
  "Cost \<Rightarrow> Candidate \<Rightarrow> DemandProfile \<Rightarrow> CommunicationEvidence"
where
  "ReferenceCommunicationPlanner_plan cost c d =
     default_CommunicationEvidence
       \<lparr>com_planGeneration := StrongId 1, estimatedCost := cost, derivedPathCost := cost,
        pathFeasible := True, com_planId := ''reference-derived'', com_provenance := Prov_Derived\<rparr>"

definition ReferenceResidencySource_get ::
  "ResidencyEvidence \<Rightarrow> Candidate \<Rightarrow> DemandProfile \<Rightarrow> ResidencyEvidence"
where
  "ReferenceResidencySource_get evidence c d = evidence"

end
