(* ===== verification/Scheduler.thy ===== *)
theory Scheduler
  imports Adapters
begin

text \<open>
  The scheduler facade (\<^verbatim>\<open>scheduler.hpp\<close>, \<^verbatim>\<open>scheduler.cpp\<close>). \<open>SchedulerState\<close> is the state the
  mutex protects; a method that holds the mutex throughout is one function on it, and a method
  that drops the mutex (\<open>schedule\<close>, \<open>commit\<close>, \<open>handoff\<close>) is split into its critical sections,
  \<open>_begin\<close> and \<open>_finish\<close>, with the composition the code runs when nobody interferes.

  A method that can throw returns a result and the state it leaves behind; the state after an
  exception keeps whatever the method had already changed, such as a drawn event ordinal.
\<close>

record SchedulerConfig =
  cfg_policy :: PolicyConfig
  cfg_rankOptions :: RankOptions
  cfg_maxCandidatesPerRequest :: CoreCount
  initialAuthority :: AuthorityGeneration

definition default_PolicyConfig :: PolicyConfig where
  "default_PolicyConfig =
     \<lparr>pol_generation = StrongId 0, maxFallbackCandidates = 0, maxCandidateCount = 0,
      maxHistoryEntries = 0, allowEnergyRanking = False, requireFaultDiversity = False\<rparr>"

definition default_SchedulerConfig :: SchedulerConfig where
  "default_SchedulerConfig =
     \<lparr>cfg_policy = default_PolicyConfig, cfg_rankOptions = default_RankOptions,
      cfg_maxCandidatesPerRequest = 256, initialAuthority = StrongId 1\<rparr>"

record PlacementDecision =
  dec_request :: SchedulingRequest
  dec_plan :: PlacementPlan
  dec_eligible :: "CandidateId list"
  disqualified :: "CandidateId list"
  rejections :: "RejectedAlternative list"
  producedPlan :: bool
  summary :: string

record SchedulerState =
  st_epoch :: CoordinatorEpoch
  st_authority :: AuthorityGeneration
  st_policy :: PolicyConfig
  rankOptions :: RankOptions
  maxCandidatesPerRequest :: CoreCount
  nextPlanId :: "64 word"
  nextSubmitOrdinal :: "64 word"
  nextEventOrdinal :: "64 word"
  ingestWatermark :: "64 word"
  candidates :: "(CandidateId, Candidate) omap"
  requests :: "(SchedulingRequestId, SchedulingRequest) omap"
  plans :: "(PlacementPlanId, PlacementPlan) omap"
  latestPlanByRequest :: "(SchedulingRequestId, PlacementPlanId) omap"
  supersessionHistory :: "string list"
  cancelledRequests :: "SchedulingRequestId list"
  fencedWorkers :: "WorkerBootId list"
  fencedSources :: "SourceBootId list"

definition new_Scheduler :: "SchedulerConfig \<Rightarrow> SchedulerState" where
  "new_Scheduler config =
     \<lparr>st_epoch = StrongId 1, st_authority = initialAuthority config, st_policy = cfg_policy config,
      rankOptions = cfg_rankOptions config,
      maxCandidatesPerRequest = cfg_maxCandidatesPerRequest config, nextPlanId = 1,
      nextSubmitOrdinal = 1, nextEventOrdinal = 1, ingestWatermark = 0, candidates = [],
      requests = [], plans = [], latestPlanByRequest = [], supersessionHistory = [],
      cancelledRequests = [], fencedWorkers = [], fencedSources = []\<rparr>"

section \<open>Epoch and fencing\<close>

definition epoch :: "SchedulerState \<Rightarrow> CoordinatorEpoch" where
  "epoch st = st_epoch st"

definition current_authority :: "SchedulerState \<Rightarrow> AuthorityGeneration" where
  "current_authority st = st_authority st"

text \<open>The loop body of \<^verbatim>\<open>set_epoch\<close> and \<^verbatim>\<open>restore\<close>.\<close>

definition revalidate_live :: "PlacementPlan \<Rightarrow> 64 word \<Rightarrow> PlacementPlan \<times> 64 word" where
  "revalidate_live plan ord =
     (if \<not> is_terminal (pl_state plan)
      then (force_state plan REVALIDATION_REQUIRED ord, ord + 1) else (plan, ord))"

definition fence_plans :: "SchedulerState \<Rightarrow> SchedulerState" where
  "fence_plans st =
     (let (ps, ord) = omap_foreach revalidate_live (plans st) (nextEventOrdinal st) in
      st\<lparr>plans := ps, nextEventOrdinal := ord\<rparr>)"

definition set_epoch :: "CoordinatorEpoch \<Rightarrow> SchedulerState \<Rightarrow> unit res \<times> SchedulerState" where
  "set_epoch newEpoch st =
     (if st_epoch st = newEpoch then (Inr (), st)
      else if id_value newEpoch \<le> id_value (st_epoch st) then
        (throw StaleAuthority ''coordinator epoch must not move backward'', st)
      else (Inr (), fence_plans
              (st\<lparr>st_epoch := newEpoch, st_authority := id_next (st_authority st)\<rparr>)))"

definition fence_worker :: "WorkerBootId \<Rightarrow> SchedulerState \<Rightarrow> SchedulerState" where
  "fence_worker boot st = st\<lparr>fencedWorkers := uset_insert boot (fencedWorkers st)\<rparr>"

definition fence_source :: "SourceBootId \<Rightarrow> SchedulerState \<Rightarrow> SchedulerState" where
  "fence_source boot st = st\<lparr>fencedSources := uset_insert boot (fencedSources st)\<rparr>"

section \<open>Candidate evidence\<close>

definition check_candidate :: "Candidate \<Rightarrow> unit res" where
  "check_candidate c =
     (if \<not> is_valid (candidateId c) then throw InvalidArgument ''candidate id missing''
      else if \<not> is_valid (candidateGeneration c) then
        throw InvalidArgument ''candidate generation missing''
      else if \<not> is_valid (sourceBootId c) then
        throw InvalidArgument ''candidate source boot id missing''
      else if \<not> is_valid (workerBootId c) then
        throw InvalidArgument ''candidate worker boot id missing''
      else if bindings c = [] \<and> vramTotal (capacity c) = 0 then
        throw InvalidArgument ''candidate carries no binding or capacity evidence''
      else Inr ())"

definition ingest_candidate :: "Candidate \<Rightarrow> SchedulerState \<Rightarrow> unit res \<times> SchedulerState" where
  "ingest_candidate c st =
     (case check_candidate c of
        Inl e \<Rightarrow> (Inl e, st)
      | Inr _ \<Rightarrow>
          if workerBootId c \<in> set (fencedWorkers st) then
            (throw StaleAuthority ''candidate published by a fenced worker boot'', st)
          else if sourceBootId c \<in> set (fencedSources st) then
            (throw StaleAuthority ''candidate published by a fenced source boot'', st)
          else (case omap_find (candidates st) (candidateId c) of
              Some old \<Rightarrow>
                if id_value (candidateGeneration c) \<le> id_value (candidateGeneration old) then
                  (throw InvalidArgument
                     ''duplicate or stale candidate id (must refresh at higher generation)'', st)
                else (Inr (), st\<lparr>candidates := omap_assign (candidateId c) c (candidates st),
                                ingestWatermark := ingestWatermark st + 1\<rparr>)
            | None \<Rightarrow>
                (Inr (), st\<lparr>candidates := omap_emplace (candidateId c) c (candidates st),
                           ingestWatermark := ingestWatermark st + 1\<rparr>)))"

definition candidate_count :: "SchedulerState \<Rightarrow> nat" where
  "candidate_count st = length (candidates st)"

definition ingest_watermark :: "SchedulerState \<Rightarrow> 64 word" where
  "ingest_watermark st = ingestWatermark st"

definition plan_state :: "PlacementPlanId \<Rightarrow> SchedulerState \<Rightarrow> PlacementLifecycleState" where
  "plan_state pid st = (case omap_find (plans st) pid of None \<Rightarrow> RETIRED | Some p \<Rightarrow> pl_state p)"

definition plan_of :: "PlacementPlanId \<Rightarrow> SchedulerState \<Rightarrow> PlacementPlan option" where
  "plan_of pid st = omap_find (plans st) pid"

definition candidate_of :: "CandidateId \<Rightarrow> SchedulerState \<Rightarrow> Candidate option" where
  "candidate_of cid st = omap_find (candidates st) cid"

section \<open>Scheduling\<close>

definition make_fingerprint ::
  "Candidate \<Rightarrow> SchedulingRequest \<Rightarrow> DependencyView option \<Rightarrow> CoordinatorEpoch \<Rightarrow> GenerationFingerprint"
where
  "make_fingerprint c request dep ep =
     \<lparr>fp_topology = topologyGeneration (locality c),
      fp_capacity = cap_generation (capacity c),
      fp_reservation = rsv_generation (reservation c),
      fp_congestion = cgs_generation (congestion c),
      fp_capability = (case bindings c of [] \<Rightarrow> StrongId 1 | b # _ \<Rightarrow> bnd_capabilityGeneration b),
      fp_health = hea_generation (health c),
      fp_residency = residencyGeneration (residency c),
      fp_communicationPlan = com_planGeneration (communication c),
      fp_policy = (if is_valid (dem_policyGeneration (demand request))
        then dem_policyGeneration (demand request) else StrongId 1),
      fp_resource = (case bindings c of [] \<Rightarrow> StrongId 1 | b # _ \<Rightarrow> bnd_resourceGeneration b),
      fp_dependency = (case dep of None \<Rightarrow> StrongId 1 | Some v \<Rightarrow> dv_generation v),
      fp_coordinatorEpoch = ep\<rparr>"

type_synonym entry = "RankedCandidate \<times> Candidate"

definition entry_less :: "entry \<Rightarrow> entry \<Rightarrow> bool" where
  "entry_less a b = RankComparator (fst a) (fst b)"

text \<open>The candidates in key order, split into ranked eligible entries and rejections.\<close>

definition eligible_entries ::
  "SchedulingRequest \<Rightarrow> DependencyView option \<Rightarrow> PolicyVeto option \<Rightarrow> RankOptions \<Rightarrow> Candidate list \<Rightarrow> entry list"
where
  "eligible_entries request dep pol opts cs =
     map (\<lambda>c. (Ranker_evaluate request c opts, c))
       (filter (\<lambda>c. eligible (evaluate request c dep pol)) cs)"

definition rejected_entries ::
  "SchedulingRequest \<Rightarrow> DependencyView option \<Rightarrow> PolicyVeto option \<Rightarrow> Candidate list \<Rightarrow> RejectedAlternative list"
where
  "rejected_entries request dep pol cs =
     map (\<lambda>c. let er = evaluate request c dep pol in
        \<lparr>rej_candidateId = candidateId c, rej_candidateGeneration = candidateGeneration c,
         rej_status = el_status er, rej_reason = el_reason er\<rparr>)
       (filter (\<lambda>c. \<not> eligible (evaluate request c dep pol)) cs)"

text \<open>The four transitions of a fresh plan.\<close>

definition ready_plan :: "PlacementPlan \<Rightarrow> 64 word \<Rightarrow> PlacementPlan res" where
  "ready_plan p ord =
     res_bind (advance_local p DISCOVERING ord) (\<lambda>p.
     res_bind (advance_local p FILTERING (ord + 1)) (\<lambda>p.
     res_bind (advance_local p RANKING (ord + 2)) (\<lambda>p.
     advance_local p PLAN_READY (ord + 3))))"

definition build_plan ::
  "SchedulingRequest \<Rightarrow> DependencyView option \<Rightarrow> RejectedAlternative list \<Rightarrow> entry \<Rightarrow> entry list
     \<Rightarrow> SchedulerState \<Rightarrow> PlacementPlan"
where
  "build_plan request dep rejected winner rest st =
     (let c = snd winner; rank = fst winner;
          maxFallback = (if maxFallbackCandidates (st_policy st) > 0
            then unat (maxFallbackCandidates (st_policy st)) else length rest) in
      default_PlacementPlan
       \<lparr>planId := StrongId (nextPlanId st), planGeneration := StrongId 1,
        pl_requestId := req_requestId request, requestGeneration := req_generation request,
        selectedCandidate := rc_candidateId rank,
        selectedCandidateGeneration := rc_candidateGeneration rank,
        fallbackCandidates := map (\<lambda>e. rc_candidateId (fst e)) (take maxFallback rest),
        pl_bindings := bindings c, claims := build_claims (bindings c),
        communicationPlan := com_planGeneration (communication c),
        selectedFactors := factors rank, rejectedAlternatives := rejected,
        generations := make_fingerprint c request dep (st_epoch st),
        pl_policyGeneration := (if is_valid (dem_policyGeneration (demand request))
          then dem_policyGeneration (demand request) else pol_generation (st_policy st)),
        pl_authorityGeneration := st_authority st, pl_coordinatorEpoch := st_epoch st,
        movementBytes := moveBytes (residency c), movementSource := moveSource (residency c),
        pl_state := REQUESTED\<rparr>)"

text \<open>The last critical section of \<^verbatim>\<open>schedule\<close>, after filtering and sorting.\<close>

definition schedule_finish ::
  "SchedulingRequest \<Rightarrow> DependencyView option \<Rightarrow> entry list \<Rightarrow> RejectedAlternative list
     \<Rightarrow> SchedulerState \<Rightarrow> PlacementDecision res \<times> SchedulerState"
where
  "schedule_finish request dep es rejected st =
     (let decision =
        \<lparr>dec_request = request, dec_plan = default_PlacementPlan,
         dec_eligible = map (\<lambda>e. rc_candidateId (fst e)) es,
         disqualified = map rej_candidateId rejected, rejections = rejected,
         producedPlan = False, summary = []\<rparr> in
      case es of
        [] \<Rightarrow>
          (Inr (decision\<lparr>summary :=
             (if rejected = [] then ''no candidates'' else ''all candidates hard-rejected'')\<rparr>),
           st\<lparr>requests := omap_assign (req_requestId request) request (requests st)\<rparr>)
      | winner # rest \<Rightarrow>
          (let st1 = st\<lparr>nextPlanId := nextPlanId st + 1\<rparr>;
               p0 = build_plan request dep rejected winner rest st;
               ord = nextEventOrdinal st in
           case ready_plan p0 ord of
             Inl e \<Rightarrow> (Inl e, st1)
           | Inr p \<Rightarrow>
               (Inr (decision\<lparr>dec_plan := p, producedPlan := True,
                  summary := ''selected candidate '' @ show_u64 (id_value (rc_candidateId (fst winner)))\<rparr>),
                st1\<lparr>nextEventOrdinal := ord + 4,
                    plans := omap_emplace (planId p) p (plans st),
                    latestPlanByRequest :=
                      omap_assign (req_requestId request) (planId p) (latestPlanByRequest st)\<rparr>)))"

definition schedule_begin :: "SchedulerState \<Rightarrow> Candidate list" where
  "schedule_begin st = map snd (candidates st)"

definition schedule ::
  "SchedulingRequest \<Rightarrow> DependencyView option \<Rightarrow> PolicyVeto option \<Rightarrow> SchedulerState
     \<Rightarrow> PlacementDecision res \<times> SchedulerState"
where
  "schedule request dep pol st =
     (case validate (demand request) of
        Inl e \<Rightarrow> (Inl e, st)
      | Inr _ \<Rightarrow>
          (let cs = schedule_begin st;
               entries = std_sort entry_less (eligible_entries request dep pol (rankOptions st) cs) in
           schedule_finish request dep entries (rejected_entries request dep pol cs) st))"

section \<open>Commit\<close>

definition failed_commit :: "ResourceGeneration \<Rightarrow> string \<Rightarrow> ResourceCommitResult" where
  "failed_commit g why =
     \<lparr>succeeded = False, commitmentToken = [], rcr_resourceGeneration = g, failureReason = why,
      rcr_provisional = False\<rparr>"

text \<open>The first section returns at once or hands the claims to the broker call.\<close>

datatype ('r, 'a) section_result = Return 'r | Proceed 'a

definition commit_begin ::
  "PlacementPlanId \<Rightarrow> SchedulerState
     \<Rightarrow> (ResourceCommitResult, ResourceClaim list) section_result res \<times> SchedulerState"
where
  "commit_begin pid st =
     (case omap_find (plans st) pid of
        None \<Rightarrow> (Inr (Return (failed_commit (StrongId 1) ''unknown placement plan'')), st)
      | Some p \<Rightarrow>
          if pl_state p \<noteq> PLAN_READY then
            (Inr (Return (failed_commit (StrongId 1) ''placement plan is not PLAN_READY'')), st)
          else if pl_requestId p \<in> set (cancelledRequests st) then
            (Inr (Return (failed_commit (StrongId 1) ''request cancelled'')), st)
          else if pl_authorityGeneration p \<noteq> st_authority st then
            (Inr (Return (failed_commit (StrongId 1) ''stale authority'')), st)
          else
            (let ord = nextEventOrdinal st; st1 = st\<lparr>nextEventOrdinal := ord + 1\<rparr> in
             case advance_local p AWAITING_RESOURCE_COMMIT ord of
               Inl e \<Rightarrow> (Inl e, st1)
             | Inr p' \<Rightarrow> (Inr (Proceed (claims p)), st1\<lparr>plans := omap_assign pid p' (plans st)\<rparr>)))"

definition commit_stale :: "PlacementPlan \<Rightarrow> SchedulerState \<Rightarrow> bool" where
  "commit_stale p st \<longleftrightarrow>
     pl_requestId p \<in> set (cancelledRequests st) \<or> pl_authorityGeneration p \<noteq> st_authority st \<or>
     pl_state p \<noteq> AWAITING_RESOURCE_COMMIT"

text \<open>
  The second section, on the broker's answer \<open>br\<close>: the result, and the token the caller has to
  release once the mutex is dropped (\<^verbatim>\<open>releaseOutside && !releaseToken.empty()\<close>).
\<close>

definition release_of :: "ResourceCommitResult \<Rightarrow> string option" where
  "release_of br =
     (if succeeded br \<and> commitmentToken br \<noteq> [] then Some (commitmentToken br) else None)"

definition commit_finish ::
  "PlacementPlanId \<Rightarrow> ResourceClaim list \<Rightarrow> ResourceCommitResult \<Rightarrow> SchedulerState
     \<Rightarrow> (ResourceCommitResult \<times> string option) res \<times> SchedulerState"
where
  "commit_finish pid cs br st =
     (case omap_find (plans st) pid of
        None \<Rightarrow>
          (Inr (failed_commit (rcr_resourceGeneration br) ''plan vanished during commit'',
                release_of br), st)
      | Some p \<Rightarrow>
          if commit_stale p st then
            (Inr (failed_commit (rcr_resourceGeneration br)
                   (if succeeded br then ''stale/cancelled after provisional commit''
                    else ''no commitment''), release_of br), st)
          else if \<not> succeeded br then
            (let ord = nextEventOrdinal st; st1 = st\<lparr>nextEventOrdinal := ord + 1\<rparr> in
             case advance_local p REVALIDATION_REQUIRED ord of
               Inl e \<Rightarrow> (Inl e, st1)
             | Inr p' \<Rightarrow> (Inr (failed_commit (rcr_resourceGeneration br) (failureReason br), None),
                          st1\<lparr>plans := omap_assign pid p' (plans st)\<rparr>))
          else
            (let ord = nextEventOrdinal st; p1 = p\<lparr>hasCommitmentEvidence := True\<rparr>;
                 st1 = st\<lparr>nextEventOrdinal := ord + 1\<rparr> in
             case advance_local p1 COMMITTED ord of
               Inl e \<Rightarrow> (Inl e, st1\<lparr>plans := omap_assign pid p1 (plans st)\<rparr>)
             | Inr p' \<Rightarrow>
                 (Inr (\<lparr>succeeded = True, commitmentToken = commitmentToken br,
                    rcr_resourceGeneration = rcr_resourceGeneration br, failureReason = [],
                    rcr_provisional = False\<rparr>, None),
                  st1\<lparr>plans := omap_assign pid (p'\<lparr>claims := cs\<rparr>) (plans st)\<rparr>)))"

definition commit ::
  "PlacementPlanId \<Rightarrow> 's ResourceBroker \<Rightarrow> 's \<Rightarrow> SchedulerState
     \<Rightarrow> ResourceCommitResult res \<times> 's \<times> SchedulerState"
where
  "commit pid broker b st =
     (case commit_begin pid st of
        (Inl e, st1) \<Rightarrow> (Inl e, b, st1)
      | (Inr (Return r), st1) \<Rightarrow> (Inr r, b, st1)
      | (Inr (Proceed cs), st1) \<Rightarrow>
          (let (br, b1) = broker_commit broker cs b in
           case commit_finish pid cs br st1 of
             (Inl e, st2) \<Rightarrow> (Inl e, b1, st2)
           | (Inr (out, rel), st2) \<Rightarrow>
               (Inr out, (case rel of None \<Rightarrow> b1 | Some token \<Rightarrow> broker_release broker token b1), st2)))"

section \<open>Handoff\<close>

definition make_unauthorized :: "string \<Rightarrow> ExecutionHandoff" where
  "make_unauthorized why = default_ExecutionHandoff"

definition handoff_begin ::
  "PlacementPlanId \<Rightarrow> SchedulerState
     \<Rightarrow> (ExecutionHandoff, PlacementPlan) section_result res \<times> SchedulerState"
where
  "handoff_begin pid st =
     (case omap_find (plans st) pid of
        None \<Rightarrow> (Inr (Return (make_unauthorized ''unknown placement plan'')), st)
      | Some p \<Rightarrow>
          if pl_state p \<noteq> COMMITTED then
            (Inr (Return (make_unauthorized ''plan is not COMMITTED'')), st)
          else if pl_requestId p \<in> set (cancelledRequests st) then
            (Inr (Return (make_unauthorized ''request cancelled'')), st)
          else if pl_authorityGeneration p \<noteq> st_authority st then
            (Inr (Return (make_unauthorized ''stale authority'')), st)
          else
            (let ord = nextEventOrdinal st; st1 = st\<lparr>nextEventOrdinal := ord + 1\<rparr> in
             case advance_local p AWAITING_EXECUTION ord of
               Inl e \<Rightarrow> (Inl e, st1)
             | Inr p' \<Rightarrow> (Inr (Proceed p), st1\<lparr>plans := omap_assign pid p' (plans st)\<rparr>)))"

definition handoff_finish ::
  "PlacementPlanId \<Rightarrow> ExecutionHandoff \<Rightarrow> SchedulerState \<Rightarrow> ExecutionHandoff res \<times> SchedulerState"
where
  "handoff_finish pid h st =
     (case omap_find (plans st) pid of
        None \<Rightarrow> (Inr h, st)
      | Some p \<Rightarrow>
          if pl_requestId p \<in> set (cancelledRequests st) \<or> pl_authorityGeneration p \<noteq> st_authority st then
            (Inr (h\<lparr>authorized := False\<rparr>), st)
          else
            (let ord = nextEventOrdinal st; st1 = st\<lparr>nextEventOrdinal := ord + 1\<rparr> in
             if authorized h then
               (case advance_local p ACTIVE ord of
                  Inl e \<Rightarrow> (Inl e, st1)
                | Inr p' \<Rightarrow> (Inr h, st1\<lparr>plans := omap_assign pid p' (plans st)\<rparr>))
             else (Inr h, st1\<lparr>plans :=
                 omap_assign pid (force_state p REVALIDATION_REQUIRED ord) (plans st)\<rparr>)))"

definition handoff ::
  "PlacementPlanId \<Rightarrow> 'e ExecutionFabric \<Rightarrow> 'e \<Rightarrow> SchedulerState
     \<Rightarrow> ExecutionHandoff res \<times> 'e \<times> SchedulerState"
where
  "handoff pid exec e st =
     (case handoff_begin pid st of
        (Inl err, st1) \<Rightarrow> (Inl err, e, st1)
      | (Inr (Return h), st1) \<Rightarrow> (Inr h, e, st1)
      | (Inr (Proceed p), st1) \<Rightarrow>
          (let (h, e1) = authorize exec p e; (r, st2) = handoff_finish pid h st1 in (r, e1, st2)))"

section \<open>Revalidation, cancellation, supersession\<close>

definition revalidate ::
  "PlacementPlanId \<Rightarrow> GenerationFingerprint \<Rightarrow> SchedulerState \<Rightarrow> RevalidationResult res \<times> SchedulerState"
where
  "revalidate pid cur st =
     (case omap_find (plans st) pid of
        None \<Rightarrow> (throw UnknownState ''unknown placement plan'', st)
      | Some p \<Rightarrow>
          (let r = revalidate_plan p cur in
           if current r then (Inr r, st)
           else (Inr r, st\<lparr>plans := omap_assign pid
                    (force_state p REVALIDATION_REQUIRED (nextEventOrdinal st)) (plans st),
                  nextEventOrdinal := nextEventOrdinal st + 1\<rparr>)))"

definition cancel_plan :: "SchedulingRequestId \<Rightarrow> PlacementPlan \<Rightarrow> 64 word \<Rightarrow> PlacementPlan \<times> 64 word" where
  "cancel_plan rid p ord =
     (if pl_requestId p = rid \<and> \<not> is_terminal (pl_state p)
      then (force_state p CANCELLED ord, ord + 1) else (p, ord))"

definition cancel :: "SchedulingRequestId \<Rightarrow> SchedulerState \<Rightarrow> SchedulerState" where
  "cancel rid st =
     (let (ps, ord) = omap_foreach (cancel_plan rid) (plans st) (nextEventOrdinal st) in
      st\<lparr>cancelledRequests := uset_insert rid (cancelledRequests st), plans := ps,
         nextEventOrdinal := ord\<rparr>)"

definition supersede_plan ::
  "SchedulingRequestId \<Rightarrow> PlacementPlanId \<Rightarrow> string \<Rightarrow> PlacementPlan \<Rightarrow> 64 word \<Rightarrow> PlacementPlan \<times> 64 word"
where
  "supersede_plan oldRequest newPlanId why p ord =
     (if pl_requestId p = oldRequest \<and> \<not> is_terminal (pl_state p)
      then (force_state (p\<lparr>supersededBy := newPlanId, supersessionReason := why\<rparr>) SUPERSEDED ord, ord + 1)
      else (p, ord))"

definition supersede ::
  "SchedulingRequestId \<Rightarrow> SchedulingRequestId \<Rightarrow> string \<Rightarrow> SchedulerState \<Rightarrow> SchedulerState"
where
  "supersede oldRequest newRequest why st =
     (let newPlanId = (case omap_find (latestPlanByRequest st) newRequest of
            None \<Rightarrow> StrongId 0 | Some i \<Rightarrow> i);
          (ps, ord) = omap_foreach (supersede_plan oldRequest newPlanId why) (plans st)
            (nextEventOrdinal st) in
      st\<lparr>plans := ps, nextEventOrdinal := ord,
         supersessionHistory := supersessionHistory st @
           [''request superseded: '' @ show_u64 (id_value oldRequest) @ '' by '' @
            show_u64 (id_value newRequest) @ ''; '' @ why]\<rparr>)"

section \<open>Snapshot and restore\<close>

record CandidateIdentity =
  ci_candidateId :: CandidateId
  ci_candidateGeneration :: CandidateGeneration
  ci_sourceId :: SourceId
  ci_sourceBootId :: SourceBootId
  ci_workerId :: WorkerId
  ci_workerBootId :: WorkerBootId

record Persisted =
  formatVersion :: "32 word"
  per_epoch :: CoordinatorEpoch
  per_authority :: AuthorityGeneration
  per_nextPlanId :: "64 word"
  per_nextSubmitOrdinal :: "64 word"
  per_nextEventOrdinal :: "64 word"
  per_ingestWatermark :: "64 word"
  per_requests :: "SchedulingRequest list"
  per_plans :: "PlacementPlan list"
  candidateIdentities :: "CandidateIdentity list"
  per_supersessionHistory :: "string list"
  per_cancelledRequests :: "SchedulingRequestId list"

definition kPersistenceFormatVersion :: "32 word" where
  "kPersistenceFormatVersion = 1"

definition identity_of :: "Candidate \<Rightarrow> CandidateIdentity" where
  "identity_of c =
     \<lparr>ci_candidateId = candidateId c, ci_candidateGeneration = candidateGeneration c,
      ci_sourceId = sourceId c, ci_sourceBootId = sourceBootId c, ci_workerId = workerId c,
      ci_workerBootId = workerBootId c\<rparr>"

definition snapshot :: "SchedulerState \<Rightarrow> Persisted" where
  "snapshot st =
     \<lparr>formatVersion = kPersistenceFormatVersion, per_epoch = st_epoch st,
      per_authority = st_authority st, per_nextPlanId = nextPlanId st,
      per_nextSubmitOrdinal = nextSubmitOrdinal st, per_nextEventOrdinal = nextEventOrdinal st,
      per_ingestWatermark = ingestWatermark st, per_requests = map snd (requests st),
      per_plans = map snd (plans st), candidateIdentities = map (identity_of o snd) (candidates st),
      per_supersessionHistory = supersessionHistory st,
      per_cancelledRequests = cancelledRequests st\<rparr>"

definition note_latest ::
  "PlacementPlan \<Rightarrow> (SchedulingRequestId, PlacementPlanId) omap \<Rightarrow> (SchedulingRequestId, PlacementPlanId) omap"
where
  "note_latest p lp =
     (case omap_find lp (pl_requestId p) of
        None \<Rightarrow> omap_assign (pl_requestId p) (planId p) lp
      | Some i \<Rightarrow> if id_value i < id_value (planId p)
          then omap_assign (pl_requestId p) (planId p) lp else lp)"

definition restore :: "Persisted \<Rightarrow> SchedulerState \<Rightarrow> SchedulerState" where
  "restore p st =
     fence_plans (st
       \<lparr>requests := fold (\<lambda>r. omap_emplace (req_requestId r) r) (per_requests p) [],
        plans := fold (\<lambda>q. omap_emplace (planId q) q) (per_plans p) [],
        latestPlanByRequest := fold note_latest (per_plans p) [],
        st_epoch := per_epoch p, st_authority := per_authority p, nextPlanId := per_nextPlanId p,
        nextSubmitOrdinal := per_nextSubmitOrdinal p, nextEventOrdinal := per_nextEventOrdinal p,
        ingestWatermark := per_ingestWatermark p,
        supersessionHistory := per_supersessionHistory p,
        cancelledRequests := per_cancelledRequests p,
        candidates := [], fencedWorkers := [], fencedSources := []\<rparr>)"

end
