(* ===== verification/Record_Codecs.thy ===== *)
theory Record_Codecs
  imports Coding Scheduler
begin

text \<open>
  The record codecs of \<^verbatim>\<open>persistence.cpp\<close>: one writer \<open>enc_\<close> and one reader \<open>dec_\<close> per record,
  field by field in the order of the file format, with the checks the readers make. The
  predicates \<open>_fits\<close> say which values can be written so that they are read back: they bound
  strings and lists, which the writers do not check. \<open>demand_fits\<close> also asks for the default
  \<open>requiredTopologyGeneration\<close>, because no writer emits that field.

  Every pair is an interpretation of the contract \<open>codec\<close>; the readers and writers of the
  parts are used through its facts, so each proof is one rewriting of the round trip and one
  application of the rules for what a reader returns.
\<close>

section \<open>Enums\<close>

interpretation AcceleratorClass_codec: codec "put_enum all_AcceleratorClass"
    "get_enum all_AcceleratorClass ''invalid accelerator class''" "\<lambda>_. True"
  by (rule enum_codec) (rule AcceleratorClass_enum.byte_enum_axioms)

interpretation CommunicationPattern_codec: codec "put_enum all_CommunicationPattern"
    "get_enum all_CommunicationPattern ''invalid communication pattern''" "\<lambda>_. True"
  by (rule enum_codec) (rule CommunicationPattern_enum.byte_enum_axioms)

interpretation LatencySensitivity_codec: codec "put_enum all_LatencySensitivity"
    "get_enum all_LatencySensitivity ''invalid latency sensitivity''" "\<lambda>_. True"
  by (rule enum_codec) (rule LatencySensitivity_enum.byte_enum_axioms)

interpretation LocalityKind_codec: codec "put_enum all_LocalityKind"
    "get_enum all_LocalityKind ''invalid locality kind''" "\<lambda>_. True"
  by (rule enum_codec) (rule LocalityKind_enum.byte_enum_axioms)

interpretation EligibilityStatus_codec: codec "put_enum all_EligibilityStatus"
    "get_enum all_EligibilityStatus ''invalid eligibility status''" "\<lambda>_. True"
  by (rule enum_codec) (rule EligibilityStatus_enum.byte_enum_axioms)

interpretation PlacementLifecycleState_codec: codec "put_enum all_PlacementLifecycleState"
    "get_enum all_PlacementLifecycleState ''invalid lifecycle state''" "\<lambda>_. True"
  by (rule enum_codec) (rule PlacementLifecycleState_enum.byte_enum_axioms)

interpretation LocalityKind_list: codec "put_list (put_enum all_LocalityKind)"
    "get_list (get_enum all_LocalityKind ''invalid locality kind'')" "list_ok (\<lambda>_. True)"
  by (rule list_codec) (rule LocalityKind_codec.codec_axioms)

lemmas enum_bind [codec_simps] = AcceleratorClass_codec.bind_enc [OF TrueI]
  CommunicationPattern_codec.bind_enc [OF TrueI]
  LatencySensitivity_codec.bind_enc [OF TrueI]
  LocalityKind_codec.bind_enc [OF TrueI]
  EligibilityStatus_codec.bind_enc [OF TrueI]
  PlacementLifecycleState_codec.bind_enc [OF TrueI]
  LocalityKind_list.bind_enc

lemmas enum_yields [THEN yields_bind, yields_intros] =
  AcceleratorClass_codec.dec_ok
  CommunicationPattern_codec.dec_ok
  LatencySensitivity_codec.dec_ok
  LocalityKind_codec.dec_ok
  EligibilityStatus_codec.dec_ok
  PlacementLifecycleState_codec.dec_ok
  LocalityKind_list.dec_ok

text \<open>The rank factor kind is the one enum carried in 16 bits; its check is \<open>is_valid_factor\<close>.\<close>

definition put_factor_kind :: "RankFactorKind \<Rightarrow> byte list" where
  "put_factor_kind k = put_u16 (enum_code all_RankFactorKind k)"

definition get_factor_kind :: "RankFactorKind reader" where
  "get_factor_kind = rd_bind get_u16 (\<lambda>v.
     case enum_of_code all_RankFactorKind v of
       None \<Rightarrow> rd_throw Corruption ''invalid rank factor kind''
     | Some k \<Rightarrow> if \<not> is_valid_factor k then rd_throw Corruption ''invalid rank factor kind''
         else rd_return k)"

lemma every_factor_valid: "is_valid_factor k"
  by (cases k) (simp_all add: is_valid_factor_def rank_factor_index_def kRankFactorOrder_def
      kRankFactorCount_def)

interpretation factor_kind_codec: codec put_factor_kind get_factor_kind "\<lambda>_. True"
proof
  show "yields get_factor_kind (\<lambda>k n. True \<and> n = length (put_factor_kind k))"
    unfolding get_factor_kind_def
  proof (rule number_yields)
    fix v :: "16 word" and k assume "True \<and> k = length (put_u16 v)"
    then show "yields (case enum_of_code all_RankFactorKind v of
        None \<Rightarrow> rd_throw Corruption ''invalid rank factor kind''
      | Some f \<Rightarrow> if \<not> is_valid_factor f then rd_throw Corruption ''invalid rank factor kind''
          else rd_return f) (\<lambda>f n. True \<and> k + n = length (put_factor_kind f))"
      by (cases "enum_of_code all_RankFactorKind v")
        (simp_all add: yields_throw yields_return every_factor_valid put_factor_kind_def)
  qed
qed (simp add: get_factor_kind_def put_factor_kind_def number_bind every_factor_valid
    RankFactorKind_enum.code_round)

declare factor_kind_codec.bind_enc [OF TrueI, codec_simps]
declare factor_kind_codec.dec_ok [THEN yields_bind, yields_intros]

section \<open>Demand and request\<close>

definition enc_demand :: "DemandProfile \<Rightarrow> byte list" where
  "enc_demand d =
     put_id (demandId d) @ put_id (demandGeneration d) @ put_id (workloadId d) @
     put_id (workloadGeneration d) @ put_id (acc_capabilityGeneration (accelerator d)) @
     put_u32 (minimumCount (accelerator d)) @ put_u32 (targetCount (accelerator d)) @
     put_u32 (maximumCount (accelerator d)) @ put_u64 (vramPerDevice (accelerator d)) @
     put_u64 (aggregateVram (accelerator d)) @
     put_bool (requiresContiguousMemory (accelerator d)) @
     put_enum all_AcceleratorClass (acc_capability (accelerator d)) @ put_u32 (cpuRequired d) @
     put_u64 (hostMemory (dem_memory d)) @ put_u64 (pinnedMemory (dem_memory d)) @
     put_u64 (sto_capacity (dem_storage d)) @ put_bool (requireLocal (dem_storage d)) @
     put_u64 (net_bandwidth (dem_network d)) @ put_bool (requireNic (dem_network d)) @
     put_enum all_CommunicationPattern (dem_communication d) @ put_u64 (communicationBytes d) @
     put_bool (requireModelResident (dem_residency d)) @
     put_bool (requireAdapterResident (dem_residency d)) @
     put_bool (requireStateLocal (dem_residency d)) @ put_string (modelPath (dem_residency d)) @
     put_string (adapterPath (dem_residency d)) @ put_string (statePath (dem_residency d)) @
     put_u32 (minimumDistinctDomains (failureDomains d)) @
     put_bool (avoidColocation (failureDomains d)) @
     put_bool (avoidSingleRoot (failureDomains d)) @ put_u64 (expectedExecutionDuration d) @
     put_enum all_LatencySensitivity (latencySensitivity d) @ put_double (throughputObjective d) @
     put_i32 (externalPriority d) @ put_u64 (externalPriorityOrdinal d) @
     put_id (sloGeneration d) @ put_id (dem_policyGeneration d) @ put_id (priorityGeneration d) @
     put_u64 (maximumMovementCost d) @
     put_list (put_enum all_LocalityKind) (fallbackLocalities d) @
     put_enum all_Provenance (dem_provenance d)"

definition dec_demand :: "DemandProfile reader" where
  "dec_demand =
     rd_bind get_id (\<lambda>demandId.
     rd_bind get_id (\<lambda>demandGeneration.
     rd_bind get_id (\<lambda>workloadId.
     rd_bind get_id (\<lambda>workloadGeneration.
     rd_bind get_id (\<lambda>acc_capabilityGeneration.
     rd_bind get_u32 (\<lambda>minimumCount.
     rd_bind get_u32 (\<lambda>targetCount.
     rd_bind get_u32 (\<lambda>maximumCount.
     rd_bind get_u64 (\<lambda>vramPerDevice.
     rd_bind get_u64 (\<lambda>aggregateVram.
     rd_bind get_bool (\<lambda>requiresContiguousMemory.
     rd_bind (get_enum all_AcceleratorClass ''invalid accelerator class'')
       (\<lambda>acc_capability.
     rd_bind get_u32 (\<lambda>cpuRequired.
     rd_bind get_u64 (\<lambda>hostMemory.
     rd_bind get_u64 (\<lambda>pinnedMemory.
     rd_bind get_u64 (\<lambda>sto_capacity.
     rd_bind get_bool (\<lambda>requireLocal.
     rd_bind get_u64 (\<lambda>net_bandwidth.
     rd_bind get_bool (\<lambda>requireNic.
     rd_bind (get_enum all_CommunicationPattern ''invalid communication pattern'')
       (\<lambda>dem_communication.
     rd_bind get_u64 (\<lambda>communicationBytes.
     rd_bind get_bool (\<lambda>requireModelResident.
     rd_bind get_bool (\<lambda>requireAdapterResident.
     rd_bind get_bool (\<lambda>requireStateLocal.
     rd_bind get_string (\<lambda>modelPath.
     rd_bind get_string (\<lambda>adapterPath.
     rd_bind get_string (\<lambda>statePath.
     rd_bind get_u32 (\<lambda>minimumDistinctDomains.
     rd_bind get_bool (\<lambda>avoidColocation.
     rd_bind get_bool (\<lambda>avoidSingleRoot.
     rd_bind get_u64 (\<lambda>expectedExecutionDuration.
     rd_bind (get_enum all_LatencySensitivity ''invalid latency sensitivity'')
       (\<lambda>latencySensitivity.
     rd_bind get_double (\<lambda>throughputObjective.
     rd_bind get_i32 (\<lambda>externalPriority.
     rd_bind get_u64 (\<lambda>externalPriorityOrdinal.
     rd_bind get_id (\<lambda>sloGeneration.
     rd_bind get_id (\<lambda>dem_policyGeneration.
     rd_bind get_id (\<lambda>priorityGeneration.
     rd_bind get_u64 (\<lambda>maximumMovementCost.
     rd_bind (get_list (get_enum all_LocalityKind ''invalid locality kind''))
       (\<lambda>fallbackLocalities.
     rd_bind (get_enum all_Provenance ''invalid provenance'') (\<lambda>dem_provenance.
     let d = \<lparr>demandId = demandId, demandGeneration = demandGeneration,
      workloadId = workloadId, workloadGeneration = workloadGeneration, accelerator =
      \<lparr>acc_capability = acc_capability, minimumCount = minimumCount,
      targetCount = targetCount, maximumCount = maximumCount, vramPerDevice = vramPerDevice,
      aggregateVram = aggregateVram, requiresContiguousMemory = requiresContiguousMemory,
      acc_capabilityGeneration = acc_capabilityGeneration\<rparr>, cpuRequired = cpuRequired,
      dem_memory = \<lparr>hostMemory = hostMemory, pinnedMemory = pinnedMemory\<rparr>,
      dem_storage = \<lparr>sto_capacity = sto_capacity, requireLocal = requireLocal\<rparr>,
      dem_network = \<lparr>net_bandwidth = net_bandwidth, requireNic = requireNic\<rparr>,
      requiredTopologyGeneration = StrongId 0, dem_communication = dem_communication,
      communicationBytes = communicationBytes, dem_residency =
      \<lparr>requireModelResident = requireModelResident,
      requireAdapterResident = requireAdapterResident, requireStateLocal = requireStateLocal,
      modelPath = modelPath, adapterPath = adapterPath, statePath = statePath\<rparr>,
      failureDomains = \<lparr>minimumDistinctDomains = minimumDistinctDomains,
      avoidColocation = avoidColocation, avoidSingleRoot = avoidSingleRoot\<rparr>,
      expectedExecutionDuration = expectedExecutionDuration,
      latencySensitivity = latencySensitivity, throughputObjective = throughputObjective,
      externalPriority = externalPriority, externalPriorityOrdinal = externalPriorityOrdinal,
      sloGeneration = sloGeneration, dem_policyGeneration = dem_policyGeneration,
      priorityGeneration = priorityGeneration, maximumMovementCost = maximumMovementCost,
      fallbackLocalities = fallbackLocalities, dem_provenance = dem_provenance\<rparr> in
     rd_bind (rd_lift (validate d)) (\<lambda>_. rd_return d))))))))))))))))))))))))))))))))))))))))))"

lemma validated_fallbacks: "validate d = Inr () \<Longrightarrow> length (fallbackLocalities d) \<le> kMaxRecords"
proof -
  assume "validate d = Inr ()"
  then have "distinct (fallbackLocalities d)"
    by (simp add: validate_def Let_def if_throw_eq_Inr res_bind_unit)
  moreover have "set (fallbackLocalities d) \<subseteq> set all_LocalityKind"
    using LocalityKind_enum.elems_complete by auto
  ultimately have "length (fallbackLocalities d) \<le> card (set all_LocalityKind)"
    by (metis card_mono distinct_card finite_set)
  also have "\<dots> \<le> length all_LocalityKind" by (rule card_length)
  finally show ?thesis by (simp add: all_LocalityKind_def kMaxRecords_def)
qed

lemma demand_parts [codec_simps]:
  "\<lparr>acc_capability = acc_capability a, minimumCount = minimumCount a,
    targetCount = targetCount a, maximumCount = maximumCount a, vramPerDevice = vramPerDevice a,
    aggregateVram = aggregateVram a, requiresContiguousMemory = requiresContiguousMemory a,
    acc_capabilityGeneration = acc_capabilityGeneration a\<rparr> = a"
  "\<lparr>hostMemory = hostMemory b, pinnedMemory = pinnedMemory b\<rparr> = b"
  "\<lparr>sto_capacity = sto_capacity c, requireLocal = requireLocal c\<rparr> = c"
  "\<lparr>net_bandwidth = net_bandwidth d, requireNic = requireNic d\<rparr> = d"
  "\<lparr>requireModelResident = requireModelResident e,
    requireAdapterResident = requireAdapterResident e, requireStateLocal = requireStateLocal e,
    modelPath = modelPath e, adapterPath = adapterPath e, statePath = statePath e\<rparr> = e"
  "\<lparr>minimumDistinctDomains = minimumDistinctDomains f,
    avoidColocation = avoidColocation f, avoidSingleRoot = avoidSingleRoot f\<rparr> = f"
  by simp_all

definition demand_fits :: "DemandProfile \<Rightarrow> bool" where
  "demand_fits v \<longleftrightarrow>
     validate v = Inr () \<and> requiredTopologyGeneration v = StrongId 0 \<and>
     string_ok (modelPath (dem_residency v)) \<and> string_ok (adapterPath (dem_residency v)) \<and>
     string_ok (statePath (dem_residency v))"

interpretation demand: codec enc_demand dec_demand demand_fits
proof
  fix v rest assume "demand_fits v"
  then show "dec_demand (enc_demand v @ rest) = Inr (v, rest)"
    using validated_fallbacks [of v]
    by (cases v) (simp add: enc_demand_def dec_demand_def demand_fits_def codec_simps Let_def)
next
  show "yields dec_demand (\<lambda>v n. demand_fits v \<and> n = length (enc_demand v))"
    unfolding dec_demand_def Let_def
    by (intro yields_lift yields_check yields_intros yields_return)
      (simp_all add: demand_fits_def enc_demand_def)
qed

declare demand.bind_enc [codec_simps]
declare demand.dec_ok [THEN yields_bind, yields_intros]

definition enc_request :: "SchedulingRequest \<Rightarrow> byte list" where
  "enc_request r =
     put_id (req_requestId r) @ put_id (req_generation r) @ put_id (req_coordinatorEpoch r) @
     put_id (req_sourceId r) @ put_id (req_sourceBootId r) @ put_u64 (submitOrdinal r) @
     enc_demand (demand r)"

definition dec_request_r :: "SchedulingRequest reader" where
  "dec_request_r =
     rd_bind get_id (\<lambda>req_requestId.
     rd_bind get_id (\<lambda>req_generation.
     rd_bind get_id (\<lambda>req_coordinatorEpoch.
     rd_bind get_id (\<lambda>req_sourceId.
     rd_bind get_id (\<lambda>req_sourceBootId.
     rd_bind get_u64 (\<lambda>submitOrdinal.
     rd_bind dec_demand (\<lambda>demand.
     rd_return \<lparr>req_requestId = req_requestId, req_generation = req_generation,
      demand = demand, req_coordinatorEpoch = req_coordinatorEpoch, req_sourceId = req_sourceId,
      req_sourceBootId = req_sourceBootId, submitOrdinal = submitOrdinal\<rparr>)))))))"

definition request_fits :: "SchedulingRequest \<Rightarrow> bool" where
  "request_fits v \<longleftrightarrow>
     demand_fits (demand v)"

interpretation request: codec enc_request dec_request_r request_fits
proof
  fix v rest assume "request_fits v"
  then show "dec_request_r (enc_request v @ rest) = Inr (v, rest)"
    by (cases v) (simp add: enc_request_def dec_request_r_def request_fits_def codec_simps)
next
  show "yields dec_request_r (\<lambda>v n. request_fits v \<and> n = length (enc_request v))"
    unfolding dec_request_r_def
    by (intro yields_lift yields_check yields_intros yields_return)
      (simp_all add: request_fits_def enc_request_def)
qed

declare request.bind_enc [codec_simps]
declare request.dec_ok [THEN yields_bind, yields_intros]

section \<open>The parts of a plan\<close>

definition enc_binding :: "DeviceBinding \<Rightarrow> byte list" where
  "enc_binding b =
     put_id (deviceId b) @ put_id (deviceGeneration b) @ put_id (bnd_resourceId b) @
     put_id (bnd_resourceGeneration b) @ put_id (nodeId b) @ put_id (nodeGeneration b) @
     put_id (memoryDomainId b) @ put_id (memoryDomainGeneration b) @ put_id (nicId b) @
     put_id (nicGeneration b) @ put_id (storageId b) @ put_id (storageGeneration b) @
     put_id (cpuDomainId b) @ put_id (cpuDomainGeneration b) @ put_string (pcieRoot b) @
     put_bool (bnd_sharesPcieRoot b) @ put_enum all_AcceleratorClass (bnd_capability b) @
     put_i32 (cudaCompatibility b) @ put_bool (capabilityCurrent b) @
     put_id (bnd_capabilityGeneration b)"

definition dec_binding :: "DeviceBinding reader" where
  "dec_binding =
     rd_bind get_id (\<lambda>deviceId.
     rd_bind get_id (\<lambda>deviceGeneration.
     rd_bind get_id (\<lambda>bnd_resourceId.
     rd_bind get_id (\<lambda>bnd_resourceGeneration.
     rd_bind get_id (\<lambda>nodeId.
     rd_bind get_id (\<lambda>nodeGeneration.
     rd_bind get_id (\<lambda>memoryDomainId.
     rd_bind get_id (\<lambda>memoryDomainGeneration.
     rd_bind get_id (\<lambda>nicId.
     rd_bind get_id (\<lambda>nicGeneration.
     rd_bind get_id (\<lambda>storageId.
     rd_bind get_id (\<lambda>storageGeneration.
     rd_bind get_id (\<lambda>cpuDomainId.
     rd_bind get_id (\<lambda>cpuDomainGeneration.
     rd_bind get_string (\<lambda>pcieRoot.
     rd_bind get_bool (\<lambda>bnd_sharesPcieRoot.
     rd_bind (get_enum all_AcceleratorClass ''invalid accelerator class'')
       (\<lambda>bnd_capability.
     rd_bind get_i32 (\<lambda>cudaCompatibility.
     rd_bind get_bool (\<lambda>capabilityCurrent.
     rd_bind get_id (\<lambda>bnd_capabilityGeneration.
     rd_return \<lparr>deviceId = deviceId, deviceGeneration = deviceGeneration,
      bnd_resourceId = bnd_resourceId, bnd_resourceGeneration = bnd_resourceGeneration,
      nodeId = nodeId, nodeGeneration = nodeGeneration, memoryDomainId = memoryDomainId,
      memoryDomainGeneration = memoryDomainGeneration, nicId = nicId,
      nicGeneration = nicGeneration, storageId = storageId,
      storageGeneration = storageGeneration, cpuDomainId = cpuDomainId,
      cpuDomainGeneration = cpuDomainGeneration, pcieRoot = pcieRoot,
      bnd_sharesPcieRoot = bnd_sharesPcieRoot, bnd_capability = bnd_capability,
      cudaCompatibility = cudaCompatibility, capabilityCurrent = capabilityCurrent,
      bnd_capabilityGeneration = bnd_capabilityGeneration\<rparr>))))))))))))))))))))"

definition binding_fits :: "DeviceBinding \<Rightarrow> bool" where
  "binding_fits v \<longleftrightarrow>
     string_ok (pcieRoot v)"

interpretation binding: codec enc_binding dec_binding binding_fits
proof
  fix v rest assume "binding_fits v"
  then show "dec_binding (enc_binding v @ rest) = Inr (v, rest)"
    by (cases v) (simp add: enc_binding_def dec_binding_def binding_fits_def codec_simps)
next
  show "yields dec_binding (\<lambda>v n. binding_fits v \<and> n = length (enc_binding v))"
    unfolding dec_binding_def
    by (intro yields_lift yields_check yields_intros yields_return)
      (simp_all add: binding_fits_def enc_binding_def)
qed

declare binding.bind_enc [codec_simps]
declare binding.dec_ok [THEN yields_bind, yields_intros]

interpretation binding_list: codec "put_list enc_binding" "get_list dec_binding" "list_ok binding_fits"
  by (rule list_codec) (rule binding.codec_axioms)

declare binding_list.bind_enc [codec_simps]
declare binding_list.dec_ok [THEN yields_bind, yields_intros]

definition enc_rejected :: "RejectedAlternative \<Rightarrow> byte list" where
  "enc_rejected r =
     put_id (rej_candidateId r) @ put_id (rej_candidateGeneration r) @
     put_enum all_EligibilityStatus (rej_status r) @ put_string (rej_reason r)"

definition dec_rejected :: "RejectedAlternative reader" where
  "dec_rejected =
     rd_bind get_id (\<lambda>rej_candidateId.
     rd_bind get_id (\<lambda>rej_candidateGeneration.
     rd_bind (get_enum all_EligibilityStatus ''invalid eligibility status'') (\<lambda>rej_status.
     rd_bind get_string (\<lambda>rej_reason.
     rd_return \<lparr>rej_candidateId = rej_candidateId,
      rej_candidateGeneration = rej_candidateGeneration, rej_status = rej_status,
      rej_reason = rej_reason\<rparr>))))"

definition rejected_fits :: "RejectedAlternative \<Rightarrow> bool" where
  "rejected_fits v \<longleftrightarrow>
     string_ok (rej_reason v)"

interpretation rejected: codec enc_rejected dec_rejected rejected_fits
proof
  fix v rest assume "rejected_fits v"
  then show "dec_rejected (enc_rejected v @ rest) = Inr (v, rest)"
    by (cases v) (simp add: enc_rejected_def dec_rejected_def rejected_fits_def codec_simps)
next
  show "yields dec_rejected (\<lambda>v n. rejected_fits v \<and> n = length (enc_rejected v))"
    unfolding dec_rejected_def
    by (intro yields_lift yields_check yields_intros yields_return)
      (simp_all add: rejected_fits_def enc_rejected_def)
qed

declare rejected.bind_enc [codec_simps]
declare rejected.dec_ok [THEN yields_bind, yields_intros]

interpretation rejected_list: codec "put_list enc_rejected" "get_list dec_rejected" "list_ok rejected_fits"
  by (rule list_codec) (rule rejected.codec_axioms)

declare rejected_list.bind_enc [codec_simps]
declare rejected_list.dec_ok [THEN yields_bind, yields_intros]

definition enc_claim :: "ResourceClaim \<Rightarrow> byte list" where
  "enc_claim c =
     put_id (clm_resourceId c) @ put_id (clm_resourceGeneration c) @
     put_enum all_ResourceKind (clm_kind c) @ put_u64 (amount c) @ put_bool (provisional c)"

definition dec_claim :: "ResourceClaim reader" where
  "dec_claim =
     rd_bind get_id (\<lambda>clm_resourceId.
     rd_bind get_id (\<lambda>clm_resourceGeneration.
     rd_bind (get_enum all_ResourceKind ''invalid resource kind'') (\<lambda>clm_kind.
     rd_bind get_u64 (\<lambda>amount.
     rd_bind get_bool (\<lambda>provisional.
     rd_return \<lparr>clm_resourceId = clm_resourceId,
      clm_resourceGeneration = clm_resourceGeneration, clm_kind = clm_kind, amount = amount,
      provisional = provisional\<rparr>)))))"

interpretation claim: codec enc_claim dec_claim "\<lambda>_. True"
proof
  fix v rest show "dec_claim (enc_claim v @ rest) = Inr (v, rest)"
    by (cases v) (simp add: enc_claim_def dec_claim_def codec_simps)
next
  show "yields dec_claim (\<lambda>v n. True \<and> n = length (enc_claim v))"
    unfolding dec_claim_def
    by (intro yields_intros yields_return) (simp_all add: enc_claim_def)
qed

declare claim.bind_enc [OF TrueI, codec_simps]
declare claim.dec_ok [THEN yields_bind, yields_intros]

interpretation claim_list: codec "put_list enc_claim" "get_list dec_claim" "list_ok (\<lambda>_. True)"
  by (rule list_codec) (rule claim.codec_axioms)

declare claim_list.bind_enc [codec_simps]
declare claim_list.dec_ok [THEN yields_bind, yields_intros]

definition enc_fingerprint :: "GenerationFingerprint \<Rightarrow> byte list" where
  "enc_fingerprint g =
     put_id (fp_topology g) @ put_id (fp_capacity g) @ put_id (fp_reservation g) @
     put_id (fp_congestion g) @ put_id (fp_capability g) @ put_id (fp_health g) @
     put_id (fp_residency g) @ put_id (fp_communicationPlan g) @ put_id (fp_policy g) @
     put_id (fp_resource g) @ put_id (fp_dependency g) @ put_id (fp_coordinatorEpoch g)"

definition dec_fingerprint :: "GenerationFingerprint reader" where
  "dec_fingerprint =
     rd_bind get_id (\<lambda>fp_topology.
     rd_bind get_id (\<lambda>fp_capacity.
     rd_bind get_id (\<lambda>fp_reservation.
     rd_bind get_id (\<lambda>fp_congestion.
     rd_bind get_id (\<lambda>fp_capability.
     rd_bind get_id (\<lambda>fp_health.
     rd_bind get_id (\<lambda>fp_residency.
     rd_bind get_id (\<lambda>fp_communicationPlan.
     rd_bind get_id (\<lambda>fp_policy.
     rd_bind get_id (\<lambda>fp_resource.
     rd_bind get_id (\<lambda>fp_dependency.
     rd_bind get_id (\<lambda>fp_coordinatorEpoch.
     rd_return \<lparr>fp_topology = fp_topology, fp_capacity = fp_capacity,
      fp_reservation = fp_reservation, fp_congestion = fp_congestion,
      fp_capability = fp_capability, fp_health = fp_health, fp_residency = fp_residency,
      fp_communicationPlan = fp_communicationPlan, fp_policy = fp_policy,
      fp_resource = fp_resource, fp_dependency = fp_dependency,
      fp_coordinatorEpoch = fp_coordinatorEpoch\<rparr>))))))))))))"

interpretation fingerprint: codec enc_fingerprint dec_fingerprint "\<lambda>_. True"
proof
  fix v rest show "dec_fingerprint (enc_fingerprint v @ rest) = Inr (v, rest)"
    by (cases v) (simp add: enc_fingerprint_def dec_fingerprint_def codec_simps)
next
  show "yields dec_fingerprint (\<lambda>v n. True \<and> n = length (enc_fingerprint v))"
    unfolding dec_fingerprint_def
    by (intro yields_intros yields_return) (simp_all add: enc_fingerprint_def)
qed

declare fingerprint.bind_enc [OF TrueI, codec_simps]
declare fingerprint.dec_ok [THEN yields_bind, yields_intros]

definition enc_factor :: "RankFactor \<Rightarrow> byte list" where
  "enc_factor f =
     put_factor_kind (rf_kind f) @ put_double (rf_value f) @ put_double (rf_weight f) @
     put_enum all_Provenance (rf_provenance f) @ put_string (rf_description f)"

definition dec_factor :: "RankFactor reader" where
  "dec_factor =
     rd_bind get_factor_kind (\<lambda>rf_kind.
     rd_bind get_double (\<lambda>rf_value.
     rd_bind get_double (\<lambda>rf_weight.
     rd_bind (get_enum all_Provenance ''invalid provenance'') (\<lambda>rf_provenance.
     rd_bind get_string (\<lambda>rf_description.
     rd_bind (rd_check (\<not> is_finite rf_value) Corruption ''non-finite factor cost'') (\<lambda>_.
     rd_return \<lparr>rf_kind = rf_kind, rf_value = rf_value, rf_weight = rf_weight,
      rf_provenance = rf_provenance, rf_description = rf_description\<rparr>))))))"

definition factor_fits :: "RankFactor \<Rightarrow> bool" where
  "factor_fits v \<longleftrightarrow>
     is_finite (rf_value v) \<and> string_ok (rf_description v)"

interpretation factor: codec enc_factor dec_factor factor_fits
proof
  fix v rest assume "factor_fits v"
  then show "dec_factor (enc_factor v @ rest) = Inr (v, rest)"
    by (cases v) (simp add: enc_factor_def dec_factor_def factor_fits_def codec_simps)
next
  show "yields dec_factor (\<lambda>v n. factor_fits v \<and> n = length (enc_factor v))"
    unfolding dec_factor_def
    by (intro yields_lift yields_check yields_intros yields_return)
      (simp_all add: factor_fits_def enc_factor_def)
qed

declare factor.bind_enc [codec_simps]
declare factor.dec_ok [THEN yields_bind, yields_intros]

interpretation factor_list: codec "put_list enc_factor" "get_list dec_factor" "list_ok factor_fits"
  by (rule list_codec) (rule factor.codec_axioms)

declare factor_list.bind_enc [codec_simps]
declare factor_list.dec_ok [THEN yields_bind, yields_intros]

text \<open>One entry of the state history.\<close>

definition enc_history :: "PlacementLifecycleState \<times> 64 word \<Rightarrow> byte list" where
  "enc_history h = put_enum all_PlacementLifecycleState (fst h) @ put_u64 (snd h)"

definition dec_history :: "(PlacementLifecycleState \<times> 64 word) reader" where
  "dec_history =
     rd_bind (get_enum all_PlacementLifecycleState ''invalid lifecycle state'') (\<lambda>s.
     rd_bind get_u64 (\<lambda>ordinal. rd_return (s, ordinal)))"

interpretation history: codec enc_history dec_history "\<lambda>_. True"
proof
  fix v rest show "dec_history (enc_history v @ rest) = Inr (v, rest)"
    by (cases v) (simp add: enc_history_def dec_history_def codec_simps)
next
  show "yields dec_history (\<lambda>v n. True \<and> n = length (enc_history v))"
    unfolding dec_history_def
    by (intro yields_intros yields_return) (simp_all add: enc_history_def)
qed

declare history.bind_enc [OF TrueI, codec_simps]
declare history.dec_ok [THEN yields_bind, yields_intros]

interpretation history_list: codec "put_list enc_history" "get_list dec_history" "list_ok (\<lambda>_. True)"
  by (rule list_codec) (rule history.codec_axioms)

declare history_list.bind_enc [codec_simps]
declare history_list.dec_ok [THEN yields_bind, yields_intros]

section \<open>Plans, candidate identities, candidates\<close>

definition enc_plan :: "PlacementPlan \<Rightarrow> byte list" where
  "enc_plan p =
     put_id (planId p) @ put_id (planGeneration p) @ put_id (pl_requestId p) @
     put_id (requestGeneration p) @ put_id (selectedCandidate p) @
     put_id (selectedCandidateGeneration p) @ put_list put_id (fallbackCandidates p) @
     put_list enc_binding (pl_bindings p) @ put_list enc_claim (claims p) @
     put_id (communicationPlan p) @ put_string (communicationPlanId p) @
     put_u64 (movementBytes p) @ put_string (movementSource p) @
     put_bool (residencyPrerequisite p) @ put_list enc_factor (selectedFactors p) @
     put_list enc_rejected (rejectedAlternatives p) @ enc_fingerprint (generations p) @
     put_id (pl_policyGeneration p) @ put_id (pl_authorityGeneration p) @
     put_enum all_PlacementLifecycleState (pl_state p) @ put_list enc_history (stateHistory p) @
     put_id (pl_coordinatorEpoch p) @ put_id (supersededBy p) @
     put_string (supersessionReason p) @ put_bool (hasCommitmentEvidence p)"

definition dec_plan_r :: "PlacementPlan reader" where
  "dec_plan_r =
     rd_bind get_id (\<lambda>planId.
     rd_bind get_id (\<lambda>planGeneration.
     rd_bind get_id (\<lambda>pl_requestId.
     rd_bind get_id (\<lambda>requestGeneration.
     rd_bind get_id (\<lambda>selectedCandidate.
     rd_bind get_id (\<lambda>selectedCandidateGeneration.
     rd_bind (get_list get_id) (\<lambda>fallbackCandidates.
     rd_bind (get_list dec_binding) (\<lambda>pl_bindings.
     rd_bind (get_list dec_claim) (\<lambda>claims.
     rd_bind get_id (\<lambda>communicationPlan.
     rd_bind get_string (\<lambda>communicationPlanId.
     rd_bind get_u64 (\<lambda>movementBytes.
     rd_bind get_string (\<lambda>movementSource.
     rd_bind get_bool (\<lambda>residencyPrerequisite.
     rd_bind (get_list dec_factor) (\<lambda>selectedFactors.
     rd_bind (get_list dec_rejected) (\<lambda>rejectedAlternatives.
     rd_bind dec_fingerprint (\<lambda>generations.
     rd_bind get_id (\<lambda>pl_policyGeneration.
     rd_bind get_id (\<lambda>pl_authorityGeneration.
     rd_bind (get_enum all_PlacementLifecycleState ''invalid lifecycle state'')
       (\<lambda>pl_state.
     rd_bind (get_list dec_history) (\<lambda>stateHistory.
     rd_bind get_id (\<lambda>pl_coordinatorEpoch.
     rd_bind get_id (\<lambda>supersededBy.
     rd_bind get_string (\<lambda>supersessionReason.
     rd_bind get_bool (\<lambda>hasCommitmentEvidence.
     rd_return \<lparr>planId = planId, planGeneration = planGeneration,
      pl_requestId = pl_requestId, requestGeneration = requestGeneration,
      selectedCandidate = selectedCandidate,
      selectedCandidateGeneration = selectedCandidateGeneration,
      fallbackCandidates = fallbackCandidates, pl_bindings = pl_bindings, claims = claims,
      communicationPlan = communicationPlan, communicationPlanId = communicationPlanId,
      movementBytes = movementBytes, movementSource = movementSource,
      residencyPrerequisite = residencyPrerequisite, selectedFactors = selectedFactors,
      rejectedAlternatives = rejectedAlternatives, generations = generations,
      pl_policyGeneration = pl_policyGeneration, pl_authorityGeneration = pl_authorityGeneration,
      pl_state = pl_state, stateHistory = stateHistory,
      pl_coordinatorEpoch = pl_coordinatorEpoch, supersededBy = supersededBy,
      supersessionReason = supersessionReason,
      hasCommitmentEvidence = hasCommitmentEvidence\<rparr>)))))))))))))))))))))))))"

definition plan_fits :: "PlacementPlan \<Rightarrow> bool" where
  "plan_fits v \<longleftrightarrow>
     length (fallbackCandidates v) \<le> kMaxRecords \<and> list_ok binding_fits (pl_bindings v) \<and>
     length (claims v) \<le> kMaxRecords \<and> string_ok (communicationPlanId v) \<and>
     string_ok (movementSource v) \<and> list_ok factor_fits (selectedFactors v) \<and>
     list_ok rejected_fits (rejectedAlternatives v) \<and> length (stateHistory v) \<le> kMaxRecords \<and>
     string_ok (supersessionReason v)"

interpretation plan: codec enc_plan dec_plan_r plan_fits
proof
  fix v rest assume "plan_fits v"
  then show "dec_plan_r (enc_plan v @ rest) = Inr (v, rest)"
    by (cases v) (simp add: enc_plan_def dec_plan_r_def plan_fits_def codec_simps)
next
  show "yields dec_plan_r (\<lambda>v n. plan_fits v \<and> n = length (enc_plan v))"
    unfolding dec_plan_r_def
    by (intro yields_lift yields_check yields_intros yields_return)
      (simp_all add: plan_fits_def enc_plan_def)
qed

declare plan.bind_enc [codec_simps]
declare plan.dec_ok [THEN yields_bind, yields_intros]

definition enc_candidate_id :: "CandidateIdentity \<Rightarrow> byte list" where
  "enc_candidate_id c =
     put_id (ci_candidateId c) @ put_id (ci_candidateGeneration c) @ put_id (ci_sourceId c) @
     put_id (ci_sourceBootId c) @ put_id (ci_workerId c) @ put_id (ci_workerBootId c)"

definition dec_candidate_id :: "CandidateIdentity reader" where
  "dec_candidate_id =
     rd_bind get_id (\<lambda>ci_candidateId.
     rd_bind get_id (\<lambda>ci_candidateGeneration.
     rd_bind get_id (\<lambda>ci_sourceId.
     rd_bind get_id (\<lambda>ci_sourceBootId.
     rd_bind get_id (\<lambda>ci_workerId.
     rd_bind get_id (\<lambda>ci_workerBootId.
     rd_return \<lparr>ci_candidateId = ci_candidateId,
      ci_candidateGeneration = ci_candidateGeneration, ci_sourceId = ci_sourceId,
      ci_sourceBootId = ci_sourceBootId, ci_workerId = ci_workerId,
      ci_workerBootId = ci_workerBootId\<rparr>))))))"

interpretation candidate_id: codec enc_candidate_id dec_candidate_id "\<lambda>_. True"
proof
  fix v rest show "dec_candidate_id (enc_candidate_id v @ rest) = Inr (v, rest)"
    by (cases v) (simp add: enc_candidate_id_def dec_candidate_id_def codec_simps)
next
  show "yields dec_candidate_id (\<lambda>v n. True \<and> n = length (enc_candidate_id v))"
    unfolding dec_candidate_id_def
    by (intro yields_intros yields_return) (simp_all add: enc_candidate_id_def)
qed

declare candidate_id.bind_enc [OF TrueI, codec_simps]
declare candidate_id.dec_ok [THEN yields_bind, yields_intros]

definition encode_candidate_record :: "Candidate \<Rightarrow> byte list" where
  "encode_candidate_record c =
     put_id (candidateId c) @ put_id (candidateGeneration c) @ put_id (sourceId c) @
     put_id (sourceBootId c) @ put_id (workerId c) @ put_id (workerBootId c) @
     put_enum all_Provenance (cand_provenance c) @ put_list enc_binding (bindings c) @
     put_id (cap_generation (capacity c)) @ put_u64 (vramTotal (capacity c)) @
     put_u64 (vramUsed (capacity c)) @ put_u64 (vramAvailable (capacity c)) @
     put_u64 (hostMemoryAvailable (capacity c)) @ put_u64 (pinnedMemoryAvailable (capacity c)) @
     put_u32 (cpuAvailable (capacity c)) @ put_u64 (storageAvailable (capacity c)) @
     put_u64 (nicBandwidthAvailable (capacity c)) @ put_bool (contiguousMemory (capacity c)) @
     put_enum all_Provenance (cap_provenance (capacity c)) @ put_id (hea_generation (health c)) @
     put_bool (hea_ready (health c)) @ put_double (healthScore (health c)) @
     put_string (degradationReason (health c)) @
     put_enum all_Provenance (hea_provenance (health c)) @
     put_id (rsv_generation (reservation c)) @ put_bool (protectedResource (reservation c)) @
     put_u64 (reservedBytes (reservation c)) @ put_string (reservationId (reservation c)) @
     put_enum all_Provenance (rsv_provenance (reservation c)) @
     put_id (cgs_generation (congestion c)) @ put_double (cgs_congestion (congestion c)) @
     put_double (residualBandwidth (congestion c)) @ put_u64 (bandwidthNominal (congestion c)) @
     put_string (bottleneck (congestion c)) @
     put_enum all_Provenance (cgs_provenance (congestion c)) @
     put_id (topologyGeneration (locality c)) @ put_u32 (numaDistance (locality c)) @
     put_u32 (pcieHops (locality c)) @ put_bool (loc_sharesPcieRoot (locality c)) @
     put_u32 (nicDistance (locality c)) @ put_u32 (storageDistance (locality c)) @
     put_string (topologyGroup (locality c)) @
     put_enum all_Provenance (loc_provenance (locality c)) @
     put_id (com_planGeneration (communication c)) @
     put_double (estimatedCost (communication c)) @
     put_double (derivedPathCost (communication c)) @
     put_double (collectiveCost (communication c)) @ put_bool (pathFeasible (communication c)) @
     put_string (com_planId (communication c)) @
     put_enum all_Provenance (com_provenance (communication c)) @
     put_id (residencyGeneration (residency c)) @ put_bool (modelResident (residency c)) @
     put_bool (adapterResident (residency c)) @ put_bool (stateLocal (residency c)) @
     put_u64 (moveBytes (residency c)) @ put_string (moveSource (residency c)) @
     put_enum all_Provenance (rsd_provenance (residency c)) @ put_id (cand_policyGeneration c) @
     put_double (memoryMovementCost c)"

lemma candidate_parts [codec_simps]:
  "\<lparr>cap_generation = cap_generation a, vramTotal = vramTotal a, vramUsed = vramUsed a,
    vramAvailable = vramAvailable a, hostMemoryAvailable = hostMemoryAvailable a,
    pinnedMemoryAvailable = pinnedMemoryAvailable a, cpuAvailable = cpuAvailable a,
    storageAvailable = storageAvailable a, nicBandwidthAvailable = nicBandwidthAvailable a,
    contiguousMemory = contiguousMemory a, cap_provenance = cap_provenance a\<rparr> = a"
  "\<lparr>hea_generation = hea_generation b, hea_ready = hea_ready b,
    healthScore = healthScore b, degradationReason = degradationReason b,
    hea_provenance = hea_provenance b\<rparr> = b"
  "\<lparr>rsv_generation = rsv_generation c, protectedResource = protectedResource c,
    reservedBytes = reservedBytes c, reservationId = reservationId c,
    rsv_provenance = rsv_provenance c\<rparr> = c"
  "\<lparr>cgs_generation = cgs_generation d, cgs_congestion = cgs_congestion d,
    residualBandwidth = residualBandwidth d, bandwidthNominal = bandwidthNominal d,
    bottleneck = bottleneck d, cgs_provenance = cgs_provenance d\<rparr> = d"
  "\<lparr>topologyGeneration = topologyGeneration e, numaDistance = numaDistance e,
    pcieHops = pcieHops e, loc_sharesPcieRoot = loc_sharesPcieRoot e,
    nicDistance = nicDistance e, storageDistance = storageDistance e,
    topologyGroup = topologyGroup e, loc_provenance = loc_provenance e\<rparr> = e"
  "\<lparr>com_planGeneration = com_planGeneration f, estimatedCost = estimatedCost f,
    derivedPathCost = derivedPathCost f, collectiveCost = collectiveCost f,
    pathFeasible = pathFeasible f, com_planId = com_planId f,
    com_provenance = com_provenance f\<rparr> = f"
  "\<lparr>residencyGeneration = residencyGeneration g, modelResident = modelResident g,
    adapterResident = adapterResident g, stateLocal = stateLocal g, moveBytes = moveBytes g,
    moveSource = moveSource g, rsd_provenance = rsd_provenance g\<rparr> = g"
  by simp_all


definition decode_candidate_record :: "Candidate reader" where
  "decode_candidate_record =
     rd_bind get_id (\<lambda>candidateId.
     rd_bind get_id (\<lambda>candidateGeneration.
     rd_bind get_id (\<lambda>sourceId.
     rd_bind get_id (\<lambda>sourceBootId.
     rd_bind get_id (\<lambda>workerId.
     rd_bind get_id (\<lambda>workerBootId.
     rd_bind (get_enum all_Provenance ''invalid provenance'') (\<lambda>cand_provenance.
     rd_bind (get_list dec_binding) (\<lambda>bindings.
     rd_bind get_id (\<lambda>cap_generation.
     rd_bind get_u64 (\<lambda>vramTotal.
     rd_bind get_u64 (\<lambda>vramUsed.
     rd_bind get_u64 (\<lambda>vramAvailable.
     rd_bind get_u64 (\<lambda>hostMemoryAvailable.
     rd_bind get_u64 (\<lambda>pinnedMemoryAvailable.
     rd_bind get_u32 (\<lambda>cpuAvailable.
     rd_bind get_u64 (\<lambda>storageAvailable.
     rd_bind get_u64 (\<lambda>nicBandwidthAvailable.
     rd_bind get_bool (\<lambda>contiguousMemory.
     rd_bind (get_enum all_Provenance ''invalid provenance'') (\<lambda>cap_provenance.
     rd_bind get_id (\<lambda>hea_generation.
     rd_bind get_bool (\<lambda>hea_ready.
     rd_bind get_double (\<lambda>healthScore.
     rd_bind get_string (\<lambda>degradationReason.
     rd_bind (get_enum all_Provenance ''invalid provenance'') (\<lambda>hea_provenance.
     rd_bind get_id (\<lambda>rsv_generation.
     rd_bind get_bool (\<lambda>protectedResource.
     rd_bind get_u64 (\<lambda>reservedBytes.
     rd_bind get_string (\<lambda>reservationId.
     rd_bind (get_enum all_Provenance ''invalid provenance'') (\<lambda>rsv_provenance.
     rd_bind get_id (\<lambda>cgs_generation.
     rd_bind get_double (\<lambda>cgs_congestion.
     rd_bind get_double (\<lambda>residualBandwidth.
     rd_bind get_u64 (\<lambda>bandwidthNominal.
     rd_bind get_string (\<lambda>bottleneck.
     rd_bind (get_enum all_Provenance ''invalid provenance'') (\<lambda>cgs_provenance.
     rd_bind get_id (\<lambda>topologyGeneration.
     rd_bind get_u32 (\<lambda>numaDistance.
     rd_bind get_u32 (\<lambda>pcieHops.
     rd_bind get_bool (\<lambda>loc_sharesPcieRoot.
     rd_bind get_u32 (\<lambda>nicDistance.
     rd_bind get_u32 (\<lambda>storageDistance.
     rd_bind get_string (\<lambda>topologyGroup.
     rd_bind (get_enum all_Provenance ''invalid provenance'') (\<lambda>loc_provenance.
     rd_bind get_id (\<lambda>com_planGeneration.
     rd_bind get_double (\<lambda>estimatedCost.
     rd_bind get_double (\<lambda>derivedPathCost.
     rd_bind get_double (\<lambda>collectiveCost.
     rd_bind get_bool (\<lambda>pathFeasible.
     rd_bind get_string (\<lambda>com_planId.
     rd_bind (get_enum all_Provenance ''invalid provenance'') (\<lambda>com_provenance.
     rd_bind get_id (\<lambda>residencyGeneration.
     rd_bind get_bool (\<lambda>modelResident.
     rd_bind get_bool (\<lambda>adapterResident.
     rd_bind get_bool (\<lambda>stateLocal.
     rd_bind get_u64 (\<lambda>moveBytes.
     rd_bind get_string (\<lambda>moveSource.
     rd_bind (get_enum all_Provenance ''invalid provenance'') (\<lambda>rsd_provenance.
     rd_bind get_id (\<lambda>cand_policyGeneration.
     rd_bind get_double (\<lambda>memoryMovementCost.
     rd_return \<lparr>candidateId = candidateId, candidateGeneration = candidateGeneration,
      sourceId = sourceId, sourceBootId = sourceBootId, workerId = workerId,
      workerBootId = workerBootId, cand_provenance = cand_provenance, bindings = bindings,
      capacity = \<lparr>cap_generation = cap_generation, vramTotal = vramTotal,
      vramUsed = vramUsed, vramAvailable = vramAvailable,
      hostMemoryAvailable = hostMemoryAvailable, pinnedMemoryAvailable = pinnedMemoryAvailable,
      cpuAvailable = cpuAvailable, storageAvailable = storageAvailable,
      nicBandwidthAvailable = nicBandwidthAvailable, contiguousMemory = contiguousMemory,
      cap_provenance = cap_provenance\<rparr>, health = \<lparr>hea_generation = hea_generation,
      hea_ready = hea_ready, healthScore = healthScore, degradationReason = degradationReason,
      hea_provenance = hea_provenance\<rparr>, reservation =
      \<lparr>rsv_generation = rsv_generation, protectedResource = protectedResource,
      reservedBytes = reservedBytes, reservationId = reservationId,
      rsv_provenance = rsv_provenance\<rparr>, congestion =
      \<lparr>cgs_generation = cgs_generation, cgs_congestion = cgs_congestion,
      residualBandwidth = residualBandwidth, bandwidthNominal = bandwidthNominal,
      bottleneck = bottleneck, cgs_provenance = cgs_provenance\<rparr>, locality =
      \<lparr>topologyGeneration = topologyGeneration, numaDistance = numaDistance,
      pcieHops = pcieHops, loc_sharesPcieRoot = loc_sharesPcieRoot, nicDistance = nicDistance,
      storageDistance = storageDistance, topologyGroup = topologyGroup,
      loc_provenance = loc_provenance\<rparr>, communication =
      \<lparr>com_planGeneration = com_planGeneration, estimatedCost = estimatedCost,
      derivedPathCost = derivedPathCost, collectiveCost = collectiveCost,
      pathFeasible = pathFeasible, com_planId = com_planId,
      com_provenance = com_provenance\<rparr>, residency =
      \<lparr>residencyGeneration = residencyGeneration, modelResident = modelResident,
      adapterResident = adapterResident, stateLocal = stateLocal, moveBytes = moveBytes,
      moveSource = moveSource, rsd_provenance = rsd_provenance\<rparr>,
      cand_policyGeneration = cand_policyGeneration,
      memoryMovementCost = memoryMovementCost\<rparr>)))))))))))))))))))))))))))))))))))))))))))))))))))))))))))"

definition candidate_fits :: "Candidate \<Rightarrow> bool" where
  "candidate_fits v \<longleftrightarrow>
     list_ok binding_fits (bindings v) \<and> string_ok (degradationReason (health v)) \<and>
     string_ok (reservationId (reservation v)) \<and> string_ok (bottleneck (congestion v)) \<and>
     string_ok (topologyGroup (locality v)) \<and> string_ok (com_planId (communication v)) \<and>
     string_ok (moveSource (residency v))"

interpretation candidate: codec encode_candidate_record decode_candidate_record candidate_fits
proof
  fix v rest assume "candidate_fits v"
  then show "decode_candidate_record (encode_candidate_record v @ rest) = Inr (v, rest)"
    by (cases v) (simp add: encode_candidate_record_def decode_candidate_record_def candidate_fits_def codec_simps)
next
  show "yields decode_candidate_record (\<lambda>v n. candidate_fits v \<and> n = length (encode_candidate_record v))"
    unfolding decode_candidate_record_def
    by (intro yields_lift yields_check yields_intros yields_return)
      (simp_all add: candidate_fits_def encode_candidate_record_def)
qed

declare candidate.bind_enc [codec_simps]
declare candidate.dec_ok [THEN yields_bind, yields_intros]

end
