(* ===== verification/Scheduler_Invariants.thy ===== *)
theory Scheduler_Invariants
  imports Scheduler
begin

text \<open>
  What every critical section of the scheduler keeps: the maps stay ordered, every plan stays
  under its own identity and only moves forward in the lifecycle, and a committed plan carries
  commitment evidence. \<open>sched_op\<close> names the sections with arbitrary arguments (any broker answer,
  any handoff), so what holds of \<open>apply_op\<close> holds under every interleaving of the threads that
  share the scheduler.
\<close>

section \<open>The critical sections as one type\<close>

datatype sched_op =
    SetEpoch CoordinatorEpoch
  | FenceWorker WorkerBootId
  | FenceSource SourceBootId
  | Ingest Candidate
  | ScheduleFinish SchedulingRequest "DependencyView option" "entry list" "RejectedAlternative list"
  | CommitBegin PlacementPlanId
  | CommitFinish PlacementPlanId "ResourceClaim list" ResourceCommitResult
  | HandoffBegin PlacementPlanId
  | HandoffFinish PlacementPlanId ExecutionHandoff
  | Revalidate PlacementPlanId GenerationFingerprint
  | Cancel SchedulingRequestId
  | Supersede SchedulingRequestId SchedulingRequestId string

fun apply_op :: "sched_op \<Rightarrow> SchedulerState \<Rightarrow> SchedulerState" where
  "apply_op (SetEpoch e) st = snd (set_epoch e st)"
| "apply_op (FenceWorker b) st = fence_worker b st"
| "apply_op (FenceSource b) st = fence_source b st"
| "apply_op (Ingest c) st = snd (ingest_candidate c st)"
| "apply_op (ScheduleFinish r dep es rej) st = snd (schedule_finish r dep es rej st)"
| "apply_op (CommitBegin pid) st = snd (commit_begin pid st)"
| "apply_op (CommitFinish pid cs br) st = snd (commit_finish pid cs br st)"
| "apply_op (HandoffBegin pid) st = snd (handoff_begin pid st)"
| "apply_op (HandoffFinish pid h) st = snd (handoff_finish pid h st)"
| "apply_op (Revalidate pid fp) st = snd (revalidate pid fp st)"
| "apply_op (Cancel rid) st = cancel rid st"
| "apply_op (Supersede a b why) st = supersede a b why st"

section \<open>How one plan may change\<close>

text \<open>The position of a state on the way to ACTIVE; the states off that way come last.\<close>

fun progress :: "PlacementLifecycleState \<Rightarrow> nat" where
  "progress REQUESTED = 0"
| "progress DISCOVERING = 1"
| "progress FILTERING = 2"
| "progress RANKING = 3"
| "progress PLAN_READY = 4"
| "progress AWAITING_RESOURCE_COMMIT = 5"
| "progress COMMITTED = 6"
| "progress AWAITING_EXECUTION = 7"
| "progress ACTIVE = 8"
| "progress REVALIDATION_REQUIRED = 9"
| "progress SUPERSEDED = 9"
| "progress CANCELLED = 9"
| "progress FAILED = 9"
| "progress RETIRED = 9"

lemma progress_max [simp]: "progress s \<le> 9"
  by (cases s) simp_all

definition needs_evidence :: "PlacementLifecycleState \<Rightarrow> bool" where
  "needs_evidence s \<longleftrightarrow> s = COMMITTED \<or> s = AWAITING_EXECUTION \<or> s = ACTIVE"

definition plan_ok :: "PlacementPlanId \<Rightarrow> PlacementPlan \<Rightarrow> bool" where
  "plan_ok k p \<longleftrightarrow> planId p = k \<and> length (stateHistory p) \<le> kMaxPlanHistory \<and>
     (needs_evidence (pl_state p) \<longrightarrow> hasCommitmentEvidence p)"

text \<open>What a section may do to a plan that exists: keep its identity, its request, its selection and
  its authority, and move it forward.\<close>

definition evolves :: "PlacementPlan \<Rightarrow> PlacementPlan \<Rightarrow> bool" where
  "evolves p q \<longleftrightarrow>
     planId q = planId p \<and> pl_requestId q = pl_requestId p \<and>
     pl_authorityGeneration q = pl_authorityGeneration p \<and>
     pl_coordinatorEpoch q = pl_coordinatorEpoch p \<and>
     selectedCandidate q = selectedCandidate p \<and> generations q = generations p \<and>
     progress (pl_state p) \<le> progress (pl_state q) \<and>
     (hasCommitmentEvidence p \<longrightarrow> hasCommitmentEvidence q) \<and>
     (length (stateHistory p) \<le> kMaxPlanHistory \<longrightarrow> length (stateHistory q) \<le> kMaxPlanHistory) \<and>
     ((needs_evidence (pl_state p) \<longrightarrow> hasCommitmentEvidence p) \<longrightarrow>
      (needs_evidence (pl_state q) \<longrightarrow> hasCommitmentEvidence q))"

lemma evolves_refl [simp]: "evolves p p"
  by (simp add: evolves_def)

lemma evolves_ok: "evolves p q \<Longrightarrow> plan_ok k p \<Longrightarrow> plan_ok k q"
  by (auto simp: evolves_def plan_ok_def)

lemma evolves_trans: "evolves p q \<Longrightarrow> evolves q r \<Longrightarrow> evolves p r"
  by (auto simp: evolves_def)

lemma evolves_record:
  assumes "progress (pl_state p) \<le> progress t"
    and "needs_evidence t \<Longrightarrow> hasCommitmentEvidence p \<or> needs_evidence (pl_state p)"
  shows "evolves p (record_state p t i)"
  using assms record_state_history [of p t i] by (auto simp: evolves_def)

lemma evolves_force:
  assumes "progress (pl_state p) \<le> progress t" "\<not> needs_evidence t"
  shows "evolves p (force_state p t i)"
  using assms force_state_history [of p t i] by (auto simp: evolves_def)

lemma off_path [simp]:
  "\<not> needs_evidence REVALIDATION_REQUIRED" "\<not> needs_evidence CANCELLED" "\<not> needs_evidence SUPERSEDED"
  "\<not> needs_evidence PLAN_READY" "\<not> needs_evidence AWAITING_RESOURCE_COMMIT"
  "needs_evidence COMMITTED" "needs_evidence AWAITING_EXECUTION" "needs_evidence ACTIVE"
  by (simp_all add: needs_evidence_def)

lemma revalidate_live_evolves: "evolves p (fst (revalidate_live p i))"
  by (simp add: revalidate_live_def evolves_force)

lemma cancel_plan_evolves: "evolves p (fst (cancel_plan rid p i))"
  by (simp add: cancel_plan_def evolves_force)

lemma supersede_plan_evolves: "evolves p (fst (supersede_plan old new why p i))"
proof -
  let ?p = "p\<lparr>supersededBy := new, supersessionReason := why\<rparr>"
  have "evolves p ?p" by (simp add: evolves_def)
  moreover have "evolves ?p (force_state ?p SUPERSEDED i)" by (rule evolves_force) simp_all
  ultimately have "evolves p (force_state ?p SUPERSEDED i)" by (rule evolves_trans)
  then show ?thesis by (simp add: supersede_plan_def)
qed

section \<open>How the plan store may change\<close>

definition plans_evolve :: "SchedulerState \<Rightarrow> SchedulerState \<Rightarrow> bool" where
  "plans_evolve st st' \<longleftrightarrow>
     (\<forall>pid p. omap_find (plans st) pid = Some p \<longrightarrow>
        (\<exists>q. omap_find (plans st') pid = Some q \<and> evolves p q))"

lemma plans_evolve_refl [simp]: "plans_evolve st st"
  by (simp add: plans_evolve_def)

lemma plans_evolve_trans: "plans_evolve a b \<Longrightarrow> plans_evolve b c \<Longrightarrow> plans_evolve a c"
  unfolding plans_evolve_def using evolves_trans by blast

lemma plans_evolve_same: "plans st' = plans st \<Longrightarrow> plans_evolve st st'"
  by (simp add: plans_evolve_def)

lemma plans_evolve_assign:
  assumes "omap_ok (plans st)" "omap_find (plans st) pid = Some p" "evolves p q"
    and "plans st' = omap_assign pid q (plans st)"
  shows "plans_evolve st st'"
  using assms by (auto simp: plans_evolve_def)

lemma plans_evolve_foreach:
  assumes "\<And>p i. evolves p (fst (f p i))" and "plans st' = fst (omap_foreach f (plans st) c)"
  shows "plans_evolve st st'"
  unfolding plans_evolve_def assms(2)
  using omap_find_foreach_Some [where R = evolves and f = f and m = "plans st", OF assms(1)] by blast

lemma plans_evolve_emplace:
  assumes "omap_ok (plans st)" "plans st' = omap_emplace pid q (plans st)"
  shows "plans_evolve st st'"
  using assms by (auto simp: plans_evolve_def omap_find_emplace)

section \<open>The invariant\<close>

definition sched_ok :: "SchedulerState \<Rightarrow> bool" where
  "sched_ok st \<longleftrightarrow>
     omap_ok (candidates st) \<and> omap_ok (requests st) \<and> omap_ok (plans st) \<and>
     omap_ok (latestPlanByRequest st) \<and>
     (\<forall>k p. omap_find (plans st) k = Some p \<longrightarrow> plan_ok k p) \<and>
     (\<forall>k c. omap_find (candidates st) k = Some c \<longrightarrow> candidateId c = k \<and> check_candidate c = Inr ()) \<and>
     distinct (cancelledRequests st) \<and> distinct (fencedWorkers st) \<and> distinct (fencedSources st)"

lemma sched_ok_new: "sched_ok (new_Scheduler cfg)"
  by (simp add: sched_ok_def new_Scheduler_def)

lemma plan_okD: "sched_ok st \<Longrightarrow> omap_find (plans st) k = Some p \<Longrightarrow> plan_ok k p"
  by (simp add: sched_ok_def)

lemma sched_ok_plans: "sched_ok st \<Longrightarrow> omap_ok (plans st)"
  by (simp add: sched_ok_def)

text \<open>A section that only touches the plans keeps the invariant when the new plans are well formed.\<close>

lemma sched_okI_plans:
  assumes "sched_ok st" "omap_ok (plans st')" "\<And>k p. omap_find (plans st') k = Some p \<Longrightarrow> plan_ok k p"
    and "candidates st' = candidates st" "requests st' = requests st"
    and "latestPlanByRequest st' = latestPlanByRequest st"
    and "distinct (cancelledRequests st')" "fencedWorkers st' = fencedWorkers st"
    and "fencedSources st' = fencedSources st"
  shows "sched_ok st'"
  using assms by (simp add: sched_ok_def)

lemma sched_ok_assign:
  assumes "sched_ok st" "omap_find (plans st) pid = Some p" "evolves p q"
  shows "sched_ok (st\<lparr>plans := omap_assign pid q (plans st), nextEventOrdinal := n\<rparr>)"
proof (rule sched_okI_plans [OF assms(1)])
  fix k r
  assume "omap_find (plans (st\<lparr>plans := omap_assign pid q (plans st), nextEventOrdinal := n\<rparr>)) k = Some r"
  then show "plan_ok k r"
    using assms sched_ok_plans [OF assms(1)] plan_okD [OF assms(1)] evolves_ok
    by (auto split: if_splits)
qed (use assms in \<open>simp_all add: sched_ok_def\<close>)

lemma sched_ok_foreach:
  assumes "sched_ok st" "\<And>p i. evolves p (fst (f p i))"
    and "plans st' = fst (omap_foreach f (plans st) c)"
    and "candidates st' = candidates st" "requests st' = requests st"
    and "latestPlanByRequest st' = latestPlanByRequest st"
    and "distinct (cancelledRequests st')" "fencedWorkers st' = fencedWorkers st"
    and "fencedSources st' = fencedSources st"
  shows "sched_ok st'"
proof (rule sched_okI_plans [OF assms(1)])
  show "omap_ok (plans st')" using assms(3) sched_ok_plans [OF assms(1)] by simp
next
  fix k q
  assume "omap_find (plans st') k = Some q"
  then have "omap_find (fst (omap_foreach f (plans st) c)) k = Some q" using assms(3) by simp
  then obtain p where "omap_find (plans st) k = Some p" "evolves p q"
    using omap_find_foreach_SomeD [where R = evolves and f = f and m = "plans st", OF assms(2)] by blast
  then show "plan_ok k q" using plan_okD [OF assms(1)] evolves_ok by blast
qed (use assms in simp_all)

section \<open>Each section\<close>

definition keeps :: "SchedulerState \<Rightarrow> SchedulerState \<Rightarrow> bool" where
  "keeps st st' \<longleftrightarrow> sched_ok st' \<and> plans_evolve st st'"

lemma keepsI_assign:
  assumes "sched_ok st" "omap_find (plans st) pid = Some p" "evolves p q"
  shows "keeps st (st\<lparr>plans := omap_assign pid q (plans st), nextEventOrdinal := n\<rparr>)"
    and "keeps st (st\<lparr>nextEventOrdinal := n, plans := omap_assign pid q (plans st)\<rparr>)"
proof -
  show *: "keeps st (st\<lparr>plans := omap_assign pid q (plans st), nextEventOrdinal := n\<rparr>)"
    unfolding keeps_def using assms sched_ok_plans [OF assms(1)]
    by (intro conjI sched_ok_assign plans_evolve_assign [where p = p and q = q and pid = pid]) simp_all
  have "st\<lparr>nextEventOrdinal := n, plans := omap_assign pid q (plans st)\<rparr> =
      st\<lparr>plans := omap_assign pid q (plans st), nextEventOrdinal := n\<rparr>"
    by (rule SchedulerState.equality) simp_all
  with * show "keeps st (st\<lparr>nextEventOrdinal := n, plans := omap_assign pid q (plans st)\<rparr>)" by (simp only:)
qed

lemma keeps_refl: "sched_ok st \<Longrightarrow> keeps st st"
  by (simp add: keeps_def)

lemma keeps_ordinal: "sched_ok st \<Longrightarrow> keeps st (st\<lparr>nextEventOrdinal := n\<rparr>)"
  by (simp add: keeps_def sched_ok_def plans_evolve_def)

lemma fence_plans_fields [simp]:
  "plans (fence_plans st) = fst (omap_foreach revalidate_live (plans st) (nextEventOrdinal st))"
  "candidates (fence_plans st) = candidates st" "requests (fence_plans st) = requests st"
  "latestPlanByRequest (fence_plans st) = latestPlanByRequest st"
  "cancelledRequests (fence_plans st) = cancelledRequests st"
  "fencedWorkers (fence_plans st) = fencedWorkers st"
  "fencedSources (fence_plans st) = fencedSources st"
  "st_epoch (fence_plans st) = st_epoch st" "st_authority (fence_plans st) = st_authority st"
  "nextPlanId (fence_plans st) = nextPlanId st" "st_policy (fence_plans st) = st_policy st"
  "rankOptions (fence_plans st) = rankOptions st"
  by (simp_all add: fence_plans_def split_beta Let_def)

lemma cancel_fields [simp]:
  "plans (cancel rid st) = fst (omap_foreach (cancel_plan rid) (plans st) (nextEventOrdinal st))"
  "candidates (cancel rid st) = candidates st" "requests (cancel rid st) = requests st"
  "latestPlanByRequest (cancel rid st) = latestPlanByRequest st"
  "cancelledRequests (cancel rid st) = uset_insert rid (cancelledRequests st)"
  "fencedWorkers (cancel rid st) = fencedWorkers st" "fencedSources (cancel rid st) = fencedSources st"
  "st_epoch (cancel rid st) = st_epoch st" "st_authority (cancel rid st) = st_authority st"
  "nextPlanId (cancel rid st) = nextPlanId st"
  by (simp_all add: cancel_def split_beta Let_def)

lemma supersede_fields [simp]:
  "plans (supersede a b why st) =
     fst (omap_foreach (supersede_plan a
       (case omap_find (latestPlanByRequest st) b of None \<Rightarrow> StrongId 0 | Some i \<Rightarrow> i) why)
       (plans st) (nextEventOrdinal st))"
  "candidates (supersede a b why st) = candidates st" "requests (supersede a b why st) = requests st"
  "latestPlanByRequest (supersede a b why st) = latestPlanByRequest st"
  "cancelledRequests (supersede a b why st) = cancelledRequests st"
  "fencedWorkers (supersede a b why st) = fencedWorkers st"
  "fencedSources (supersede a b why st) = fencedSources st"
  "st_epoch (supersede a b why st) = st_epoch st" "st_authority (supersede a b why st) = st_authority st"
  "nextPlanId (supersede a b why st) = nextPlanId st"
  by (simp_all add: supersede_def split_beta Let_def)

lemma distinct_sets:
  "sched_ok st \<Longrightarrow> distinct (cancelledRequests st) \<and> distinct (fencedWorkers st) \<and> distinct (fencedSources st)"
  by (simp add: sched_ok_def)

lemma set_epoch_keeps: "sched_ok st \<Longrightarrow> keeps st (snd (set_epoch e st))"
proof -
  assume ok: "sched_ok st"
  let ?s = "st\<lparr>st_epoch := e, st_authority := id_next (st_authority st)\<rparr>"
  have "keeps st (fence_plans ?s)"
    unfolding keeps_def
  proof
    show "sched_ok (fence_plans ?s)"
      by (rule sched_ok_foreach [OF ok revalidate_live_evolves]) (use distinct_sets [OF ok] in simp_all)
    show "plans_evolve st (fence_plans ?s)"
      by (rule plans_evolve_foreach [OF revalidate_live_evolves]) simp
  qed
  then show ?thesis using ok by (simp add: set_epoch_def keeps_refl)
qed

lemma cancel_keeps: "sched_ok st \<Longrightarrow> keeps st (cancel rid st)"
  unfolding keeps_def
proof
  assume ok: "sched_ok st"
  show "sched_ok (cancel rid st)"
    by (rule sched_ok_foreach [OF ok cancel_plan_evolves]) (use distinct_sets [OF ok] in simp_all)
  show "plans_evolve st (cancel rid st)"
    by (rule plans_evolve_foreach [OF cancel_plan_evolves]) simp
qed

lemma supersede_keeps: "sched_ok st \<Longrightarrow> keeps st (supersede a b why st)"
  unfolding keeps_def
proof
  assume ok: "sched_ok st"
  show "sched_ok (supersede a b why st)"
    by (rule sched_ok_foreach [OF ok supersede_plan_evolves]) (use distinct_sets [OF ok] in simp_all)
  show "plans_evolve st (supersede a b why st)"
    by (rule plans_evolve_foreach [OF supersede_plan_evolves]) simp
qed

lemma fence_keeps:
  "sched_ok st \<Longrightarrow> keeps st (fence_worker w st)" "sched_ok st \<Longrightarrow> keeps st (fence_source s st)"
  by (simp_all add: keeps_def sched_ok_def plans_evolve_def fence_worker_def fence_source_def)

lemma ingest_keeps: "sched_ok st \<Longrightarrow> keeps st (snd (ingest_candidate c st))"
proof -
  assume ok: "sched_ok st"
  have add: "sched_ok (st\<lparr>candidates := omap_assign (candidateId c) c (candidates st),
      ingestWatermark := n\<rparr>)" if "check_candidate c = Inr ()" for n
    using ok that by (simp add: sched_ok_def)
  have same: "omap_emplace (candidateId c) c (candidates st) = omap_assign (candidateId c) c (candidates st)"
    if "omap_find (candidates st) (candidateId c) = None"
    using that by (simp add: omap_emplace_def)
  show ?thesis
    using ok add same
    by (auto simp: ingest_candidate_def keeps_def plans_evolve_same split: sum.splits option.splits)
qed

text \<open>A fresh plan runs through the four planning states, and cannot fail to.\<close>

lemma ready_plan_ok:
  assumes "pl_state p = REQUESTED" "stateHistory p = []"
  shows "ready_plan p ord = Inr (p\<lparr>pl_state := PLAN_READY, stateHistory :=
     [(DISCOVERING, ord), (FILTERING, ord + 1), (RANKING, ord + 2), (PLAN_READY, ord + 3)]\<rparr>)"
  using assms
  by (simp add: ready_plan_def advance_local_def lifecycle_simps record_state_def kMaxPlanHistory_def)

lemma build_plan_fields [simp]:
  "pl_state (build_plan r dep rej w rest st) = REQUESTED"
  "stateHistory (build_plan r dep rej w rest st) = []"
  "planId (build_plan r dep rej w rest st) = StrongId (nextPlanId st)"
  "pl_requestId (build_plan r dep rej w rest st) = req_requestId r"
  "pl_authorityGeneration (build_plan r dep rej w rest st) = st_authority st"
  "selectedCandidate (build_plan r dep rej w rest st) = rc_candidateId (fst w)"
  by (simp_all add: build_plan_def Let_def default_PlacementPlan_def)

text \<open>The plan \<^verbatim>\<open>schedule\<close> stores.\<close>

definition fresh_plan ::
  "SchedulingRequest \<Rightarrow> DependencyView option \<Rightarrow> RejectedAlternative list \<Rightarrow> entry \<Rightarrow> entry list
     \<Rightarrow> SchedulerState \<Rightarrow> PlacementPlan"
where
  "fresh_plan r dep rej w rest st =
     (let ord = nextEventOrdinal st in
      (build_plan r dep rej w rest st)\<lparr>pl_state := PLAN_READY, stateHistory :=
        [(DISCOVERING, ord), (FILTERING, ord + 1), (RANKING, ord + 2), (PLAN_READY, ord + 3)]\<rparr>)"

lemma fresh_plan_fields [simp]:
  "pl_state (fresh_plan r dep rej w rest st) = PLAN_READY"
  "planId (fresh_plan r dep rej w rest st) = StrongId (nextPlanId st)"
  "pl_requestId (fresh_plan r dep rej w rest st) = req_requestId r"
  "pl_authorityGeneration (fresh_plan r dep rej w rest st) = st_authority st"
  "selectedCandidate (fresh_plan r dep rej w rest st) = rc_candidateId (fst w)"
  "length (stateHistory (fresh_plan r dep rej w rest st)) = 4"
  by (simp_all add: fresh_plan_def Let_def)

lemma schedule_finish_Cons:
  "schedule_finish r dep (w # rest) rej st =
     (Inr \<lparr>dec_request = r, dec_plan = fresh_plan r dep rej w rest st,
        dec_eligible = map (\<lambda>e. rc_candidateId (fst e)) (w # rest),
        disqualified = map rej_candidateId rej, rejections = rej, producedPlan = True,
        summary = ''selected candidate '' @ show_u64 (id_value (rc_candidateId (fst w)))\<rparr>,
      st\<lparr>nextPlanId := nextPlanId st + 1, nextEventOrdinal := nextEventOrdinal st + 4,
         plans := omap_emplace (StrongId (nextPlanId st)) (fresh_plan r dep rej w rest st) (plans st),
         latestPlanByRequest :=
           omap_assign (req_requestId r) (StrongId (nextPlanId st)) (latestPlanByRequest st)\<rparr>)"
  unfolding schedule_finish_def Let_def by (simp add: ready_plan_ok fresh_plan_def Let_def)

lemma schedule_finish_Nil:
  "snd (schedule_finish r dep [] rej st) =
     st\<lparr>requests := omap_assign (req_requestId r) r (requests st)\<rparr>"
  by (simp add: schedule_finish_def Let_def)

lemma schedule_keeps: "sched_ok st \<Longrightarrow> keeps st (snd (schedule_finish r dep es rej st))"
proof (cases es)
  case Nil
  assume "sched_ok st"
  then show ?thesis by (simp add: Nil schedule_finish_Nil keeps_def sched_ok_def plans_evolve_def)
next
  case (Cons w rest)
  assume ok: "sched_ok st"
  let ?p = "fresh_plan r dep rej w rest st"
  have p: "plan_ok (StrongId (nextPlanId st)) ?p"
    by (simp add: plan_ok_def kMaxPlanHistory_def)
  have "sched_ok (snd (schedule_finish r dep es rej st))"
    using ok p unfolding Cons schedule_finish_Cons sched_ok_def
    by (auto simp: omap_find_emplace split: if_splits option.splits)
  moreover have "plans_evolve st (snd (schedule_finish r dep es rej st))"
    by (rule plans_evolve_emplace [OF sched_ok_plans [OF ok]]) (simp add: Cons schedule_finish_Cons)
  ultimately show ?thesis by (simp add: keeps_def)
qed

section \<open>Commit and handoff, case by case\<close>

text \<open>The plan may start a commit.\<close>

definition committable :: "PlacementPlanId \<Rightarrow> PlacementPlan \<Rightarrow> SchedulerState \<Rightarrow> bool" where
  "committable pid p st \<longleftrightarrow>
     omap_find (plans st) pid = Some p \<and> pl_state p = PLAN_READY \<and>
     pl_requestId p \<notin> set (cancelledRequests st) \<and> pl_authorityGeneration p = st_authority st"

definition move_plan ::
  "PlacementPlanId \<Rightarrow> PlacementPlan \<Rightarrow> PlacementLifecycleState \<Rightarrow> SchedulerState \<Rightarrow> SchedulerState"
where
  "move_plan pid p t st =
     st\<lparr>nextEventOrdinal := nextEventOrdinal st + 1,
        plans := omap_assign pid (record_state p t (nextEventOrdinal st)) (plans st)\<rparr>"

lemma commit_begin_proceed:
  assumes "committable pid p st"
  shows "commit_begin pid st = (Inr (Proceed (claims p)), move_plan pid p AWAITING_RESOURCE_COMMIT st)"
  using assms
  by (simp add: committable_def commit_begin_def move_plan_def Let_def advance_local_legal lifecycle_step_def)

lemma commit_begin_return:
  assumes "\<And>p. \<not> committable pid p st"
  shows "\<exists>why. commit_begin pid st = (Inr (Return (failed_commit (StrongId 1) why)), st)"
  using assms unfolding committable_def commit_begin_def by (auto split: option.split)

lemma commit_begin_cases:
  obtains p where "committable pid p st"
      "commit_begin pid st = (Inr (Proceed (claims p)), move_plan pid p AWAITING_RESOURCE_COMMIT st)"
  | why where "\<And>p. \<not> committable pid p st"
      "commit_begin pid st = (Inr (Return (failed_commit (StrongId 1) why)), st)"
  using commit_begin_proceed commit_begin_return by metis

text \<open>The plan a finished broker call still applies to.\<close>

definition awaiting :: "PlacementPlanId \<Rightarrow> PlacementPlan \<Rightarrow> SchedulerState \<Rightarrow> bool" where
  "awaiting pid p st \<longleftrightarrow> omap_find (plans st) pid = Some p \<and> \<not> commit_stale p st"

definition committed_plan :: "PlacementPlan \<Rightarrow> ResourceClaim list \<Rightarrow> 64 word \<Rightarrow> PlacementPlan" where
  "committed_plan p cs ord = (record_state (p\<lparr>hasCommitmentEvidence := True\<rparr>) COMMITTED ord)\<lparr>claims := cs\<rparr>"

lemma commit_finish_success:
  assumes "awaiting pid p st" "succeeded br"
  shows "commit_finish pid cs br st =
     (Inr (\<lparr>succeeded = True, commitmentToken = commitmentToken br,
        rcr_resourceGeneration = rcr_resourceGeneration br, failureReason = [],
        rcr_provisional = False\<rparr>, None),
      st\<lparr>nextEventOrdinal := nextEventOrdinal st + 1,
         plans := omap_assign pid (committed_plan p cs (nextEventOrdinal st)) (plans st)\<rparr>)"
  using assms
  by (simp add: awaiting_def commit_stale_def commit_finish_def Let_def advance_local_legal
      lifecycle_step_def committed_plan_def)

lemma commit_finish_refused:
  assumes "awaiting pid p st" "\<not> succeeded br"
  shows "commit_finish pid cs br st =
     (Inr (failed_commit (rcr_resourceGeneration br) (failureReason br), None),
      move_plan pid p REVALIDATION_REQUIRED st)"
  using assms
  by (simp add: awaiting_def commit_stale_def commit_finish_def Let_def advance_local_legal
      lifecycle_step_def move_plan_def)

lemma commit_finish_stale:
  assumes "\<And>p. \<not> awaiting pid p st"
  shows "\<exists>why. commit_finish pid cs br st =
     (Inr (failed_commit (rcr_resourceGeneration br) why, release_of br), st)"
  using assms unfolding awaiting_def commit_finish_def by (auto split: option.split)

lemma commit_finish_cases:
  obtains p where "awaiting pid p st" "succeeded br"
      "snd (commit_finish pid cs br st) = st\<lparr>nextEventOrdinal := nextEventOrdinal st + 1,
         plans := omap_assign pid (committed_plan p cs (nextEventOrdinal st)) (plans st)\<rparr>"
      "\<exists>out. fst (commit_finish pid cs br st) = Inr (out, None) \<and> succeeded out"
  | p where "awaiting pid p st" "\<not> succeeded br"
      "snd (commit_finish pid cs br st) = move_plan pid p REVALIDATION_REQUIRED st"
      "\<exists>out. fst (commit_finish pid cs br st) = Inr (out, None) \<and> \<not> succeeded out"
  | "\<And>p. \<not> awaiting pid p st" "snd (commit_finish pid cs br st) = st"
      "\<exists>out. fst (commit_finish pid cs br st) = Inr (out, release_of br) \<and> \<not> succeeded out"
proof (cases "\<exists>p. awaiting pid p st")
  case True
  then obtain p where p: "awaiting pid p st" by blast
  show ?thesis
  proof (cases "succeeded br")
    case True
    from that(1) [OF p True] show ?thesis by (simp add: commit_finish_success [OF p True])
  next
    case False
    from that(2) [OF p False] show ?thesis
      by (simp add: commit_finish_refused [OF p False] failed_commit_def)
  qed
next
  case False
  then have none: "\<And>p. \<not> awaiting pid p st" by blast
  from commit_finish_stale [OF this, of cs br] that(3) [OF none] show ?thesis
    by (auto simp: failed_commit_def)
qed

definition launchable :: "PlacementPlanId \<Rightarrow> PlacementPlan \<Rightarrow> SchedulerState \<Rightarrow> bool" where
  "launchable pid p st \<longleftrightarrow>
     omap_find (plans st) pid = Some p \<and> pl_state p = COMMITTED \<and>
     pl_requestId p \<notin> set (cancelledRequests st) \<and> pl_authorityGeneration p = st_authority st"

lemma handoff_begin_proceed:
  assumes "launchable pid p st"
  shows "handoff_begin pid st = (Inr (Proceed p), move_plan pid p AWAITING_EXECUTION st)"
  using assms
  by (simp add: launchable_def handoff_begin_def move_plan_def Let_def advance_local_legal lifecycle_step_def)

lemma handoff_begin_return:
  assumes "\<And>p. \<not> launchable pid p st"
  shows "handoff_begin pid st = (Inr (Return default_ExecutionHandoff), st)"
  using assms unfolding launchable_def handoff_begin_def
  by (auto simp: make_unauthorized_def split: option.split)

lemma handoff_begin_cases:
  obtains p where "launchable pid p st"
      "handoff_begin pid st = (Inr (Proceed p), move_plan pid p AWAITING_EXECUTION st)"
  | "\<And>p. \<not> launchable pid p st" "handoff_begin pid st = (Inr (Return default_ExecutionHandoff), st)"
  using handoff_begin_proceed handoff_begin_return by metis

definition current_plan :: "PlacementPlanId \<Rightarrow> PlacementPlan \<Rightarrow> SchedulerState \<Rightarrow> bool" where
  "current_plan pid p st \<longleftrightarrow>
     omap_find (plans st) pid = Some p \<and> pl_requestId p \<notin> set (cancelledRequests st) \<and>
     pl_authorityGeneration p = st_authority st"

text \<open>All outcomes of the second section of a handoff.\<close>

lemma handoff_finish_cases:
  obtains (active) p where "current_plan pid p st" "authorized h" "pl_state p = AWAITING_EXECUTION"
      "handoff_finish pid h st = (Inr h, move_plan pid p ACTIVE st)"
  | (already) p where "current_plan pid p st" "authorized h" "pl_state p = ACTIVE"
      "handoff_finish pid h st = (Inr h, st\<lparr>nextEventOrdinal := nextEventOrdinal st + 1,
         plans := omap_assign pid p (plans st)\<rparr>)"
  | (illegal) p where "current_plan pid p st" "authorized h" "pl_state p \<notin> {AWAITING_EXECUTION, ACTIVE}"
      "handoff_finish pid h st = (illegal_transition (pl_state p) ACTIVE,
         st\<lparr>nextEventOrdinal := nextEventOrdinal st + 1\<rparr>)"
  | (refused) p where "current_plan pid p st" "\<not> authorized h"
      "handoff_finish pid h st = (Inr h, st\<lparr>nextEventOrdinal := nextEventOrdinal st + 1,
         plans := omap_assign pid (force_state p REVALIDATION_REQUIRED (nextEventOrdinal st)) (plans st)\<rparr>)"
  | (stale) "\<And>p. \<not> current_plan pid p st" "snd (handoff_finish pid h st) = st"
      "omap_find (plans st) pid \<noteq> None \<longrightarrow> fst (handoff_finish pid h st) = Inr (h\<lparr>authorized := False\<rparr>)"
proof (cases "\<exists>p. current_plan pid p st")
  case False
  then have none: "\<And>p. \<not> current_plan pid p st" by blast
  from False stale [OF none] show ?thesis
    by (auto simp: current_plan_def handoff_finish_def split: option.splits)
next
  case True
  then obtain p where p: "current_plan pid p st" by blast
  note eval = handoff_finish_def current_plan_def Let_def
  consider "\<not> authorized h" | "authorized h" "pl_state p = AWAITING_EXECUTION" | "authorized h" "pl_state p = ACTIVE"
    | "authorized h" "pl_state p \<notin> {AWAITING_EXECUTION, ACTIVE}" by blast
  then show ?thesis
  proof cases
    case 1
    then show ?thesis using refused [OF p] p by (simp add: eval)
  next
    case 2
    then show ?thesis using active [OF p] p
      by (simp add: eval advance_local_legal lifecycle_step_def move_plan_def)
  next
    case 3
    then show ?thesis using already [OF p] p by (simp add: eval advance_local_def)
  next
    case 4
    then have "advance_local p ACTIVE i = illegal_transition (pl_state p) ACTIVE" for i
      by (simp add: advance_local_def placement_can_transition_def step_to_ACTIVE)
    then show ?thesis using illegal [OF p 4] 4 p by (simp add: eval illegal_transition_def)
  qed
qed

lemma move_plan_keeps:
  assumes "sched_ok st" "omap_find (plans st) pid = Some p"
    and "progress (pl_state p) \<le> progress t"
    and "needs_evidence t \<Longrightarrow> hasCommitmentEvidence p \<or> needs_evidence (pl_state p)"
  shows "keeps st (move_plan pid p t st)"
  unfolding move_plan_def
  by (rule keepsI_assign(2) [OF assms(1,2) evolves_record]) (use assms(3,4) in auto)

lemma commit_begin_keeps: "sched_ok st \<Longrightarrow> keeps st (snd (commit_begin pid st))"
  by (cases rule: commit_begin_cases [of pid st])
     (auto simp: committable_def keeps_refl intro!: move_plan_keeps)

lemma commit_finish_keeps: "sched_ok st \<Longrightarrow> keeps st (snd (commit_finish pid cs br st))"
proof (cases rule: commit_finish_cases [of pid st br cs])
  case (1 p)
  assume "sched_ok st"
  moreover have "evolves p (committed_plan p cs i)" for i
    using 1 by (auto simp: evolves_def committed_plan_def awaiting_def commit_stale_def record_state_def)
  ultimately show ?thesis using 1 by (simp add: keepsI_assign(2) awaiting_def)
next
  case (2 p)
  then show "sched_ok st \<Longrightarrow> ?thesis"
    by (auto simp: awaiting_def commit_stale_def intro!: move_plan_keeps)
next
  case 3
  then show "sched_ok st \<Longrightarrow> ?thesis" by (simp add: keeps_refl)
qed

lemma handoff_begin_keeps: "sched_ok st \<Longrightarrow> keeps st (snd (handoff_begin pid st))"
  by (cases rule: handoff_begin_cases [of pid st])
     (auto simp: launchable_def keeps_refl intro!: move_plan_keeps)

lemma handoff_finish_keeps:
  assumes "sched_ok st"
  shows "keeps st (snd (handoff_finish pid h st))"
proof (cases rule: handoff_finish_cases [of pid st h])
  case (active p)
  with assms show ?thesis by (auto simp: current_plan_def intro!: move_plan_keeps)
next
  case (already p)
  with assms show ?thesis by (simp add: current_plan_def keepsI_assign(2))
next
  case (illegal p)
  with assms show ?thesis by (simp add: keeps_ordinal)
next
  case (refused p)
  with assms show ?thesis by (simp add: current_plan_def keepsI_assign(2) evolves_force)
next
  case stale
  with assms show ?thesis by (simp add: keeps_refl)
qed

lemma revalidate_keeps: "sched_ok st \<Longrightarrow> keeps st (snd (revalidate pid fp st))"
  unfolding revalidate_def Let_def
  by (auto simp: keeps_refl evolves_force intro!: keepsI_assign(1) split: option.split)

text \<open>Every section keeps the invariant and only moves plans forward.\<close>

lemma apply_op_keeps: "sched_ok st \<Longrightarrow> keeps st (apply_op op st)"
  by (cases op)
     (simp_all add: set_epoch_keeps fence_keeps ingest_keeps schedule_keeps commit_begin_keeps
       commit_finish_keeps handoff_begin_keeps handoff_finish_keeps revalidate_keeps cancel_keeps
       supersede_keeps)

lemma ops_keep: "sched_ok st \<Longrightarrow> keeps st (fold apply_op ops st)"
proof (induction ops arbitrary: st)
  case Nil
  then show ?case by (simp add: keeps_refl)
next
  case (Cons op ops)
  then have "keeps st (apply_op op st)" by (simp add: apply_op_keeps)
  then show ?case using Cons.IH [of "apply_op op st"] plans_evolve_trans
    by (auto simp: keeps_def)
qed

section \<open>Fencing\<close>

text \<open>
  A plan that is still on the way to ACTIVE belongs to the current authority and epoch, and once
  its commit has started its request is not cancelled.
\<close>

definition fenced_plan :: "SchedulerState \<Rightarrow> PlacementPlan \<Rightarrow> bool" where
  "fenced_plan st p \<longleftrightarrow>
     (progress (pl_state p) < 9 \<longrightarrow>
        pl_authorityGeneration p = st_authority st \<and> pl_coordinatorEpoch p = st_epoch st) \<and>
     (5 \<le> progress (pl_state p) \<and> progress (pl_state p) < 9 \<longrightarrow>
        pl_requestId p \<notin> set (cancelledRequests st))"

definition fence_ok :: "SchedulerState \<Rightarrow> bool" where
  "fence_ok st \<longleftrightarrow> (\<forall>k p. omap_find (plans st) k = Some p \<longrightarrow> fenced_plan st p)"

lemma fence_okD: "fence_ok st \<Longrightarrow> omap_find (plans st) k = Some p \<Longrightarrow> fenced_plan st p"
  by (simp add: fence_ok_def)

lemma fence_ok_assign:
  assumes "sched_ok st" "fence_ok st" "fenced_plan st q"
    and "plans st' = omap_assign pid q (plans st)"
    and "st_authority st' = st_authority st" "st_epoch st' = st_epoch st"
    and "cancelledRequests st' = cancelledRequests st"
  shows "fence_ok st'"
  using assms by (auto simp: fence_ok_def fenced_plan_def sched_ok_plans split: if_splits)

lemma fence_ok_same:
  assumes "fence_ok st" "plans st' = plans st" "st_authority st' = st_authority st"
    and "st_epoch st' = st_epoch st" "cancelledRequests st' = cancelledRequests st"
  shows "fence_ok st'"
  using assms by (simp add: fence_ok_def fenced_plan_def)

lemma terminal_progress: "is_terminal s \<Longrightarrow> progress s = 9"
  by (auto simp: is_terminal_def)

lemma fence_plans_off_path:
  assumes "omap_find (plans (fence_plans st)) k = Some q"
  shows "progress (pl_state q) = 9"
proof -
  have step: "progress (pl_state (fst (revalidate_live p i))) = 9" for p i
    by (simp add: revalidate_live_def terminal_progress)
  have "omap_find (fst (omap_foreach revalidate_live (plans st) (nextEventOrdinal st))) k = Some q"
    using assms by simp
  from omap_find_foreach_SomeD [where R = "\<lambda>_ q. progress (pl_state q) = 9" and f = revalidate_live, OF step this]
  show ?thesis by blast
qed

lemma fence_plans_fence_ok: "fence_ok (fence_plans st)"
  unfolding fence_ok_def
proof (intro allI impI)
  fix k p
  assume "omap_find (plans (fence_plans st)) k = Some p"
  then have "progress (pl_state p) = 9" by (rule fence_plans_off_path)
  then show "fenced_plan (fence_plans st) p" by (simp add: fenced_plan_def)
qed

lemma set_epoch_fence: "fence_ok st \<Longrightarrow> fence_ok (snd (set_epoch e st))"
  by (simp add: set_epoch_def fence_plans_fence_ok)

lemma cancel_fence:
  assumes "fence_ok st"
  shows "fence_ok (cancel rid st)"
  unfolding fence_ok_def
proof (intro allI impI)
  fix k q
  assume q: "omap_find (plans (cancel rid st)) k = Some q"
  let ?R = "\<lambda>p q. q = p \<and> (pl_requestId p = rid \<longrightarrow> is_terminal (pl_state p)) \<or> progress (pl_state q) = 9"
  have step: "?R p (fst (cancel_plan rid p i))" for p i
    by (auto simp: cancel_plan_def)
  have "omap_find (fst (omap_foreach (cancel_plan rid) (plans st) (nextEventOrdinal st))) k = Some q"
    using q by simp
  from omap_find_foreach_SomeD [where R = ?R, OF step this]
  obtain p where p: "omap_find (plans st) k = Some p" "?R p q" by blast
  then show "fenced_plan (cancel rid st) q"
    using fence_okD [OF assms p(1)] by (auto simp: fenced_plan_def terminal_progress)
qed

lemma supersede_fence:
  assumes "fence_ok st"
  shows "fence_ok (supersede a b why st)"
  unfolding fence_ok_def
proof (intro allI impI)
  fix k q
  let ?new = "case omap_find (latestPlanByRequest st) b of None \<Rightarrow> StrongId 0 | Some i \<Rightarrow> i"
  assume q: "omap_find (plans (supersede a b why st)) k = Some q"
  let ?R = "\<lambda>p q. q = p \<or> progress (pl_state q) = 9"
  have step: "?R p (fst (supersede_plan a ?new why p i))" for p i
    by (auto simp: supersede_plan_def)
  have "omap_find (fst (omap_foreach (supersede_plan a ?new why) (plans st) (nextEventOrdinal st))) k = Some q"
    using q by simp
  from omap_find_foreach_SomeD [where R = ?R, OF step this]
  obtain p where p: "omap_find (plans st) k = Some p" "?R p q" by blast
  then show "fenced_plan (supersede a b why st) q"
    using fence_okD [OF assms p(1)] by (auto simp: fenced_plan_def)
qed

lemma fresh_plan_epoch [simp]: "pl_coordinatorEpoch (fresh_plan r dep rej w rest st) = st_epoch st"
  by (simp add: fresh_plan_def build_plan_def Let_def)

lemma schedule_fence: "sched_ok st \<Longrightarrow> fence_ok st \<Longrightarrow> fence_ok (snd (schedule_finish r dep es rej st))"
proof (cases es)
  case Nil
  assume "fence_ok st"
  then show ?thesis by (rule fence_ok_same) (simp_all add: Nil schedule_finish_Nil)
next
  case (Cons w rest)
  assume "sched_ok st" "fence_ok st"
  then show ?thesis unfolding Cons schedule_finish_Cons
    by (auto simp: fence_ok_def omap_find_emplace sched_ok_plans fenced_plan_def
        split: if_splits option.splits)
qed

lemma move_plan_fence:
  assumes "sched_ok st" "fence_ok st" "omap_find (plans st) pid = Some p"
    and "progress t < 9 \<Longrightarrow> pl_authorityGeneration p = st_authority st \<and> pl_coordinatorEpoch p = st_epoch st
       \<and> pl_requestId p \<notin> set (cancelledRequests st)"
  shows "fence_ok (move_plan pid p t st)"
  unfolding move_plan_def
  by (rule fence_ok_assign [OF assms(1,2), of "record_state p t (nextEventOrdinal st)" _ pid])
     (use assms(4) in \<open>auto simp: fenced_plan_def\<close>)

text \<open>A plan still on its way was fenced when it was read.\<close>

lemma fence_ok_epoch:
  "fence_ok st \<Longrightarrow> omap_find (plans st) k = Some p \<Longrightarrow> progress (pl_state p) < 9 \<Longrightarrow>
     pl_coordinatorEpoch p = st_epoch st"
  by (auto dest: fence_okD simp: fenced_plan_def)

lemma commit_begin_fence: "sched_ok st \<Longrightarrow> fence_ok st \<Longrightarrow> fence_ok (snd (commit_begin pid st))"
  by (cases rule: commit_begin_cases [of pid st])
     (auto simp: committable_def intro!: move_plan_fence fence_ok_epoch)

lemma commit_finish_fence:
  assumes "sched_ok st" "fence_ok st"
  shows "fence_ok (snd (commit_finish pid cs br st))"
proof (cases rule: commit_finish_cases [of pid st br cs])
  case (1 p)
  then have p: "omap_find (plans st) pid = Some p" "\<not> commit_stale p st" by (simp_all add: awaiting_def)
  then have "pl_coordinatorEpoch p = st_epoch st"
    by (intro fence_ok_epoch [OF assms(2) p(1)]) (simp add: commit_stale_def)
  then have "fenced_plan st (committed_plan p cs (nextEventOrdinal st))"
    using p by (simp add: fenced_plan_def committed_plan_def commit_stale_def record_state_def)
  then show ?thesis unfolding 1(3) by (rule fence_ok_assign [OF assms]) simp_all
next
  case (2 p)
  then show ?thesis using assms by (auto simp: awaiting_def intro!: move_plan_fence)
next
  case 3
  then show ?thesis using assms by simp
qed

lemma handoff_begin_fence: "sched_ok st \<Longrightarrow> fence_ok st \<Longrightarrow> fence_ok (snd (handoff_begin pid st))"
  by (cases rule: handoff_begin_cases [of pid st])
     (auto simp: launchable_def intro!: move_plan_fence fence_ok_epoch)

lemma handoff_finish_fence:
  assumes "sched_ok st" "fence_ok st"
  shows "fence_ok (snd (handoff_finish pid h st))"
proof (cases rule: handoff_finish_cases [of pid st h])
  case (active p)
  then show ?thesis
    using assms by (auto simp: current_plan_def intro!: move_plan_fence fence_ok_epoch)
next
  case (already p)
  then have "fenced_plan st p" unfolding current_plan_def by (blast intro: fence_okD [OF assms(2)])
  then show ?thesis unfolding already(4) snd_conv by (rule fence_ok_assign [OF assms]) simp_all
next
  case (illegal p)
  then show ?thesis using assms(2) by (auto intro!: fence_ok_same [OF assms(2)])
next
  case (refused p)
  have "fenced_plan st (force_state p REVALIDATION_REQUIRED (nextEventOrdinal st))"
    by (simp add: fenced_plan_def)
  then show ?thesis unfolding refused(3) snd_conv by (rule fence_ok_assign [OF assms]) simp_all
next
  case stale
  then show ?thesis using assms by simp
qed

lemma revalidate_fence:
  assumes "sched_ok st" "fence_ok st"
  shows "fence_ok (snd (revalidate pid fp st))"
proof -
  have "fence_ok (st\<lparr>plans := omap_assign pid (force_state p REVALIDATION_REQUIRED (nextEventOrdinal st)) (plans st),
      nextEventOrdinal := nextEventOrdinal st + 1\<rparr>)" for p
    by (rule fence_ok_assign [OF assms, where q = "force_state p REVALIDATION_REQUIRED (nextEventOrdinal st)"
        and pid = pid]) (simp_all add: fenced_plan_def)
  then show ?thesis using assms(2) by (simp add: revalidate_def Let_def split: option.split)
qed

lemma ingest_fence: "fence_ok st \<Longrightarrow> fence_ok (snd (ingest_candidate c st))"
  by (erule fence_ok_same) (auto simp: ingest_candidate_def split: sum.splits option.splits)

lemma apply_op_fence: "sched_ok st \<Longrightarrow> fence_ok st \<Longrightarrow> fence_ok (apply_op op st)"
  by (cases op)
     (simp_all add: set_epoch_fence ingest_fence schedule_fence commit_begin_fence commit_finish_fence
       handoff_begin_fence handoff_finish_fence revalidate_fence cancel_fence supersede_fence,
      simp_all add: fence_worker_def fence_source_def fence_ok_def fenced_plan_def)

section \<open>Restoring a snapshot\<close>

lemma fold_emplace_conv:
  "fold (\<lambda>q. omap_emplace (g q) q) qs m = fold (\<lambda>(k, v). omap_emplace k v) (map (\<lambda>q. (g q, q)) qs) m"
  by (induction qs arbitrary: m) simp_all

lemma restored_ok: "omap_ok (fold (\<lambda>q. omap_emplace (g q) q) qs [])"
  unfolding fold_emplace_conv by (rule omap_store.ok_add_all) simp

lemma restored_find:
  "omap_find (fold (\<lambda>q. omap_emplace (g q) q) qs []) k = map_of (map (\<lambda>q. (g q, q)) qs) k"
  unfolding fold_emplace_conv by (subst omap_store.find_add_all) simp_all

lemma restored_find_Some:
  "omap_find (fold (\<lambda>q. omap_emplace (g q) q) qs []) k = Some q \<Longrightarrow> q \<in> set qs \<and> g q = k"
  unfolding restored_find by (auto dest!: map_of_SomeD)

lemma note_latest_ok: "omap_ok m \<Longrightarrow> omap_ok (fold note_latest qs m)"
  by (induction qs arbitrary: m) (simp_all add: note_latest_def split: option.split)

text \<open>What a snapshot must satisfy for the restored state to be well formed.\<close>

definition persisted_ok :: "Persisted \<Rightarrow> bool" where
  "persisted_ok p \<longleftrightarrow>
     (\<forall>q \<in> set (per_plans p). length (stateHistory q) \<le> kMaxPlanHistory) \<and>
     distinct (per_cancelledRequests p)"

lemma restore_off_path:
  "omap_find (plans (restore p st)) k = Some q \<Longrightarrow> progress (pl_state q) = 9"
  unfolding restore_def by (rule fence_plans_off_path)

lemma restore_fence: "fence_ok (restore p st)"
  unfolding restore_def by (rule fence_plans_fence_ok)

lemma restore_ok:
  assumes "persisted_ok p"
  shows "sched_ok (restore p st)"
proof -
  let ?m = "fold (\<lambda>q. omap_emplace (planId q) q) (per_plans p) []"
  have "plan_ok k q" if q: "omap_find (plans (restore p st)) k = Some q" for k q
  proof -
    have "omap_find (fst (omap_foreach revalidate_live ?m (per_nextEventOrdinal p))) k = Some q"
      using q by (simp add: restore_def)
    from omap_find_foreach_SomeD [where R = evolves, OF revalidate_live_evolves this]
    obtain r where r: "omap_find ?m k = Some r" "evolves r q" by blast
    then have "r \<in> set (per_plans p)" "planId r = k" by (auto dest: restored_find_Some)
    then have "planId q = k" "length (stateHistory q) \<le> kMaxPlanHistory"
      using assms r(2) by (auto simp: persisted_ok_def evolves_def)
    moreover have "\<not> needs_evidence (pl_state q)"
      using restore_off_path [OF q] by (cases "pl_state q") (simp_all add: needs_evidence_def)
    ultimately show ?thesis by (simp add: plan_ok_def)
  qed
  moreover have "omap_ok (plans (restore p st))" "omap_ok (requests (restore p st))"
    "omap_ok (latestPlanByRequest (restore p st))"
    by (simp_all add: restore_def restored_ok note_latest_ok)
  ultimately show ?thesis
    using assms by (simp add: sched_ok_def persisted_ok_def) (simp add: restore_def)
qed

end
