(* ===== verification/Persistence.thy ===== *)
theory Persistence
  imports Record_Codecs Scheduler_Invariants
begin

text \<open>
  The persistence file of \<^verbatim>\<open>persistence.cpp\<close>: \<open>persist_save\<close> is the bytes written to the
  stream, \<open>persist_load\<close> reads them back from a stream and makes every check of the code, in its
  order. A stream that ends early is a list of bytes that is too short; what follows the
  checksum stays in the stream.

  The lemmas say which snapshots survive a save and a load unchanged (\<open>persistable\<close>), that
  exactly those are ever returned by a load, that every truncated file and every file with one
  altered payload byte is refused, and what is lost.
\<close>

section \<open>Digest\<close>

definition fnv_offset :: "64 word" where
  "fnv_offset = 14695981039346656037"

definition fnv_prime :: "64 word" where
  "fnv_prime = 1099511628211"

definition fnv_step :: "byte \<Rightarrow> 64 word \<Rightarrow> 64 word" where
  "fnv_step b h = xor h (ucast b) * fnv_prime"

definition fnv1a64_digest :: "byte list \<Rightarrow> 64 word" where
  "fnv1a64_digest bs = fold fnv_step bs fnv_offset"

section \<open>Saving\<close>

definition kPersistenceMagic :: "32 word" where
  "kPersistenceMagic = 0x4642"

definition kPersistenceFlags :: "8 word" where
  "kPersistenceFlags = 0"

definition kMaxPayload :: nat where
  "kMaxPayload = 2 ^ 30"

definition save_payload :: "Persisted \<Rightarrow> byte list" where
  "save_payload st =
     put_id (per_epoch st) @ put_id (per_authority st) @ put_u64 (per_nextPlanId st) @
     put_u64 (per_nextSubmitOrdinal st) @ put_u64 (per_nextEventOrdinal st) @
     put_u64 (per_ingestWatermark st) @ put_list enc_request (per_requests st) @
     put_list enc_plan (per_plans st) @ put_list enc_candidate_id (candidateIdentities st) @
     put_list put_string (per_supersessionHistory st) @
     put_list put_id (per_cancelledRequests st)"

definition save_header :: "Persisted \<Rightarrow> byte list" where
  "save_header st =
     put_u32 kPersistenceMagic @ put_u32 (formatVersion st) @ put_u8 kPersistenceFlags @
     put_u64 (word_of_nat (length (save_payload st)))"

definition persist_save :: "Persisted \<Rightarrow> byte list" where
  "persist_save st =
     save_header st @ save_payload st @ put_u64 (fnv1a64_digest (save_payload st))"

section \<open>Loading\<close>

text \<open>\<^verbatim>\<open>in.read\<close> of \<open>n\<close> bytes followed by the test of \<^verbatim>\<open>gcount\<close>.\<close>

definition stream_read :: "nat \<Rightarrow> string \<Rightarrow> byte list reader" where
  "stream_read n msg bs = (if length bs < n then throw Truncation msg else Inr (take n bs, drop n bs))"

text \<open>A reader over a buffer of its own: what it leaves unread is dropped.\<close>

definition rd_run :: "'a reader \<Rightarrow> byte list \<Rightarrow> 'a res" where
  "rd_run m buf = (case m buf of Inl e \<Rightarrow> Inl e | Inr (x, _) \<Rightarrow> Inr x)"

definition read_header :: "(32 word \<times> nat) reader" where
  "read_header =
     rd_bind get_u32 (\<lambda>magic.
     rd_bind (rd_check (magic \<noteq> kPersistenceMagic) Corruption ''bad magic'') (\<lambda>_.
     rd_bind get_u32 (\<lambda>version.
     rd_bind (rd_check (version = 0 \<or> version > kPersistenceFormatVersion) UnsupportedVersion
       ''unsupported format version'') (\<lambda>_.
     rd_bind get_u8 (\<lambda>_.
     rd_bind get_u64 (\<lambda>payLen.
     rd_bind (rd_check (unat payLen > kMaxPayload) OversizedFrame ''payload size exceeds bound'') (\<lambda>_.
     rd_return (version, unat payLen))))))))"

text \<open>A loop that decodes \<open>n\<close> records and keeps the set of the keys it has seen.\<close>

fun read_unique :: "('a \<Rightarrow> 'k) \<Rightarrow> string \<Rightarrow> 'a reader \<Rightarrow> nat \<Rightarrow> 'k list \<Rightarrow> 'a list reader" where
  "read_unique key msg dec 0 seen = rd_return []"
| "read_unique key msg dec (Suc n) seen =
     rd_bind dec (\<lambda>x.
     rd_bind (rd_check (key x \<in> set seen) Corruption msg) (\<lambda>_.
     rd_bind (read_unique key msg dec n (key x # seen)) (\<lambda>xs. rd_return (x # xs))))"

definition max_plan_id :: "PlacementPlan list \<Rightarrow> 64 word" where
  "max_plan_id ps = fold (\<lambda>p m. if id_value (planId p) > m then id_value (planId p) else m) ps 0"

text \<open>The integrity checks across the records, plan by plan: a state that holds a commitment
  (\<open>needs_evidence\<close>) must carry its evidence.\<close>

fun check_plans :: "CandidateIdentity list \<Rightarrow> PlacementPlan list \<Rightarrow> unit res" where
  "check_plans cs [] = Inr ()"
| "check_plans cs (p # ps) =
     (if \<not> list_ex (\<lambda>c. ci_candidateId c = selectedCandidate p) cs
      then throw Corruption ''selected candidate not in candidate set''
      else if needs_evidence (pl_state p) \<and> \<not> hasCommitmentEvidence p
      then throw Corruption ''committed placement without commitment evidence''
      else check_plans cs ps)"

definition read_payload :: "32 word \<Rightarrow> Persisted reader" where
  "read_payload version =
     rd_bind get_id (\<lambda>epoch.
     rd_bind get_id (\<lambda>authority.
     rd_bind get_u64 (\<lambda>nextPlan.
     rd_bind get_u64 (\<lambda>nextSubmit.
     rd_bind get_u64 (\<lambda>nextEvent.
     rd_bind get_u64 (\<lambda>watermark.
     rd_bind (rd_check (\<not> is_valid epoch) Corruption ''invalid coordinator epoch'') (\<lambda>_.
     rd_bind read_checked_len (\<lambda>nr.
     rd_bind (read_unique req_requestId ''duplicate request id'' dec_request_r nr []) (\<lambda>reqs.
     rd_bind read_checked_len (\<lambda>np.
     rd_bind (read_unique planId ''duplicate plan id'' dec_plan_r np []) (\<lambda>ps.
     rd_bind (rd_check (nextPlan \<le> max_plan_id ps) Corruption ''plan id generation regression'') (\<lambda>_.
     rd_bind read_checked_len (\<lambda>nc.
     rd_bind (read_unique ci_candidateId ''duplicate candidate id'' dec_candidate_id nc []) (\<lambda>cs.
     rd_bind (get_list get_string) (\<lambda>history.
     rd_bind (get_list get_id) (\<lambda>cancelled.
     rd_bind (rd_lift (check_plans cs ps)) (\<lambda>_.
     rd_bind check_bytes (\<lambda>_.
     rd_return
       \<lparr>formatVersion = version, per_epoch = epoch, per_authority = authority,
        per_nextPlanId = nextPlan, per_nextSubmitOrdinal = nextSubmit,
        per_nextEventOrdinal = nextEvent, per_ingestWatermark = watermark, per_requests = reqs,
        per_plans = ps, candidateIdentities = cs, per_supersessionHistory = history,
        per_cancelledRequests = fold uset_insert cancelled []\<rparr>))))))))))))))))))"

definition persist_load :: "Persisted reader" where
  "persist_load =
     rd_bind (stream_read 17 ''header truncated'') (\<lambda>hdr.
     rd_bind (rd_lift (rd_run read_header hdr)) (\<lambda>(version, payLen).
     rd_bind (stream_read payLen ''payload truncated'') (\<lambda>payload.
     rd_bind (stream_read 8 ''checksum truncated'') (\<lambda>foot.
     rd_bind (rd_lift (rd_run get_u64 foot)) (\<lambda>stored.
     rd_bind (rd_check (stored \<noteq> fnv1a64_digest payload) ChecksumMismatch ''checksum mismatch'') (\<lambda>_.
     rd_bind (rd_lift (rd_run (read_payload version) payload)) (\<lambda>st. rd_return st)))))))"

section \<open>Which snapshots a file can hold\<close>

text \<open>What the writers emit without looking and the readers check or cannot give back: the sizes of
  lists, strings and payload, that every demand passes \<^verbatim>\<open>validate\<close> and pins no topology generation
  (\<open>demand_fits\<close>), and that every recorded factor value is finite (\<open>factor_fits\<close>).\<close>

definition snapshot_fits :: "Persisted \<Rightarrow> bool" where
  "snapshot_fits st \<longleftrightarrow>
     list_ok request_fits (per_requests st) \<and> list_ok plan_fits (per_plans st) \<and>
     length (candidateIdentities st) \<le> kMaxRecords \<and>
     list_ok string_ok (per_supersessionHistory st) \<and>
     length (per_cancelledRequests st) \<le> kMaxRecords \<and>
     length (save_payload st) \<le> kMaxPayload"

text \<open>The identities are in order: each occurs once, and every plan id has been issued.\<close>

definition snapshot_indexed :: "Persisted \<Rightarrow> bool" where
  "snapshot_indexed st \<longleftrightarrow>
     formatVersion st = kPersistenceFormatVersion \<and> is_valid (per_epoch st) \<and>
     distinct (map req_requestId (per_requests st)) \<and> distinct (map planId (per_plans st)) \<and>
     distinct (map ci_candidateId (candidateIdentities st)) \<and>
     distinct (per_cancelledRequests st) \<and> 0 < per_nextPlanId st \<and>
     (\<forall>p \<in> set (per_plans st). planId p < StrongId (per_nextPlanId st))"

text \<open>The records agree with each other.\<close>

definition plan_recorded :: "Persisted \<Rightarrow> PlacementPlan \<Rightarrow> bool" where
  "plan_recorded st p \<longleftrightarrow>
     selectedCandidate p \<in> ci_candidateId ` set (candidateIdentities st) \<and>
     (needs_evidence (pl_state p) \<longrightarrow> hasCommitmentEvidence p)"

definition snapshot_sound :: "Persisted \<Rightarrow> bool" where
  "snapshot_sound st \<longleftrightarrow>
     snapshot_indexed st \<and> (\<forall>p \<in> set (per_plans st). plan_recorded st p)"

lemma max_plan_id_less:
  "0 < n \<Longrightarrow> max_plan_id ps < n \<longleftrightarrow> (\<forall>p \<in> set ps. id_value (planId p) < n)"
proof -
  have "fold (\<lambda>p m. if id_value (planId p) > m then id_value (planId p) else m) ps m0 < n \<longleftrightarrow>
      m0 < n \<and> (\<forall>p \<in> set ps. id_value (planId p) < n)" for m0
    by (induction ps arbitrary: m0) auto
  then show "0 < n \<Longrightarrow> ?thesis" by (simp add: max_plan_id_def)
qed

lemma max_plan_id_pos: "max_plan_id ps < n \<Longrightarrow> 0 < n"
  by (simp add: word_neq_0_conv [symmetric]) auto

lemma check_plans_ok: "check_plans cs ps = Inr () \<longleftrightarrow>
    (\<forall>p \<in> set ps. selectedCandidate p \<in> ci_candidateId ` set cs \<and>
       (needs_evidence (pl_state p) \<longrightarrow> hasCommitmentEvidence p))"
proof -
  have "list_ex (\<lambda>c. ci_candidateId c = x) cs \<longleftrightarrow> x \<in> ci_candidateId ` set cs" for x
    by (auto simp: list_ex_iff)
  then show ?thesis by (induction ps) auto
qed

lemma fold_uset_insert:
  "distinct (ys @ xs) \<Longrightarrow> fold uset_insert xs ys = ys @ xs"
  by (induction xs arbitrary: ys) (auto simp: uset_insert_def)

lemma distinct_fold_uset_insert: "distinct ys \<Longrightarrow> distinct (fold uset_insert xs ys)"
  by (induction xs arbitrary: ys) simp_all

lemma length_fold_uset_insert: "length (fold uset_insert xs ys) \<le> length ys + length xs"
proof (induction xs arbitrary: ys)
  case (Cons x xs)
  have "length (uset_insert x ys) \<le> Suc (length ys)" by (simp add: uset_insert_def)
  with Cons [of "uset_insert x ys"] show ?case by simp
qed simp

section \<open>Loops that refuse a repeated key\<close>

context codec begin

lemma unique_enc:
  "list_all ok xs \<Longrightarrow> distinct (map key xs) \<Longrightarrow> set seen \<inter> key ` set xs = {} \<Longrightarrow>
     read_unique key msg dec (length xs) seen (concat (map enc xs) @ rest) = Inr (xs, rest)"
proof (induction xs arbitrary: seen)
  case (Cons x xs)
  then have "read_unique key msg dec (length xs) (key x # seen) (concat (map enc xs) @ rest)
      = Inr (xs, rest)"
    by (intro Cons.IH) auto
  with Cons.prems show ?case by (simp add: bind_enc rd_bind_Inr)
qed simp

lemma unique_ok: "yields (read_unique key msg dec n seen)
    (\<lambda>xs k. length xs = n \<and> list_all ok xs \<and> distinct (map key xs) \<and>
       set seen \<inter> key ` set xs = {} \<and> k = length (concat (map enc xs)))"
proof (induction n arbitrary: seen)
  case 0
  show ?case by (simp add: yields_def)
next
  case (Suc n)
  show ?case
    unfolding read_unique.simps
    by (intro yields_bind [OF dec_ok] yields_check yields_bind [OF Suc.IH] yields_return) auto
qed

lemma unique_bind:
  assumes "list_ok ok xs" "distinct (map key xs)"
  shows "rd_bind read_checked_len (\<lambda>n. rd_bind (read_unique key msg dec n []) f)
      (put_list enc xs @ rest) = f xs rest"
proof -
  have "read_unique key msg dec (length xs) [] (concat (map enc xs) @ rest) = Inr (xs, rest)"
    using assms by (intro unique_enc) (simp_all add: list_ok_def)
  with assms show ?thesis
    by (simp add: put_list_def read_len_bind list_ok_def rd_bind_Inr)
qed

lemma unique_yields:
  assumes "\<And>xs k. list_ok ok xs \<and> distinct (map key xs) \<and> k = length (put_list enc xs) \<Longrightarrow>
      yields (f xs) (\<lambda>y n. P y (k + n))"
  shows "yields (rd_bind read_checked_len (\<lambda>n. rd_bind (read_unique key msg dec n []) f)) P"
proof (rule yields_bind [OF read_len_bound], rule yields_bind [OF unique_ok])
  fix n k j :: nat and xs
  assume "n \<le> kMaxRecords \<and> k = 4"
    and "length xs = n \<and> list_all ok xs \<and> distinct (map key xs) \<and> set [] \<inter> key ` set xs = {} \<and>
      j = length (concat (map enc xs))"
  then have "list_ok ok xs \<and> distinct (map key xs) \<and> k + j = length (put_list enc xs)"
    by (simp add: list_ok_def put_list_def)
  from assms [OF this] show "yields (f xs) (\<lambda>y n. P y (k + (j + n)))" by (simp add: add.assoc)
qed

end

section \<open>Round trip\<close>

lemma stream_read_append [simp]:
  "length xs = n \<Longrightarrow> rd_bind (stream_read n msg) f (xs @ rest) = f xs rest"
  by (simp add: rd_bind_def stream_read_def)

lemma check_bytes_apply [simp]:
  "rd_bind check_bytes f bs =
     (if bs \<noteq> [] then throw Corruption ''trailing garbage in record'' else f () bs)"
  by (simp add: rd_bind_def check_bytes_def)

lemma length_put_ids [simp]: "length (put_list put_id xs) = 4 + 8 * length xs"
  by (induction xs) (simp_all add: length_put_list)

lemma check_bytes_yields: "yields (f ()) P \<Longrightarrow> yields (rd_bind check_bytes f) P"
  by (fastforce simp: yields_def split: if_splits)

text \<open>With sizes and identities in order, only the checks across the records are left.\<close>

lemma payload_parsed:
  assumes "snapshot_fits st" "snapshot_indexed st"
  shows "read_payload kPersistenceFormatVersion (save_payload st) =
     (case check_plans (candidateIdentities st) (per_plans st) of
        Inl e \<Rightarrow> Inl e | Inr _ \<Rightarrow> Inr (st, []))"
proof -
  have m: "max_plan_id (per_plans st) < per_nextPlanId st"
    and "fold uset_insert (per_cancelledRequests st) [] = per_cancelledRequests st"
    using assms(2) max_plan_id_less [of "per_nextPlanId st" "per_plans st"]
    by (auto simp: snapshot_indexed_def less_strong_id_def fold_uset_insert)
  moreover have "\<not> per_nextPlanId st \<le> max_plan_id (per_plans st)" using m by simp
  ultimately show ?thesis
    using assms
    by (cases st)
      (simp add: read_payload_def save_payload_def codec_simps snapshot_fits_def snapshot_indexed_def
        request.unique_bind plan.unique_bind candidate_id.unique_bind
        id_list.bind_enc [where rest = "[]", simplified] split: sum.split)
qed

lemma payload_round:
  assumes "snapshot_fits st" "snapshot_sound st"
  shows "read_payload kPersistenceFormatVersion (save_payload st) = Inr (st, [])"
proof -
  have "check_plans (candidateIdentities st) (per_plans st) = Inr ()"
    using assms(2) by (auto simp: snapshot_sound_def check_plans_ok plan_recorded_def)
  with payload_parsed [OF assms(1)] assms(2) show ?thesis by (simp add: snapshot_sound_def)
qed

text \<open>Everything a payload reader returns could have been written, in no more bytes than were read.\<close>

lemma payload_accepted:
  assumes "read_payload kPersistenceFormatVersion bs = Inr (st, rest)" "length bs \<le> kMaxPayload"
  shows "snapshot_fits st \<and> snapshot_sound st"
proof -
  have "yields (read_payload kPersistenceFormatVersion) (\<lambda>v n.
      snapshot_sound v \<and> length (save_payload v) \<le> n \<and>
      (length (save_payload v) \<le> kMaxPayload \<longrightarrow> snapshot_fits v))"
    unfolding read_payload_def
  proof (intro yields_intros yields_check yields_lift request.unique_yields plan.unique_yields
        candidate_id.unique_yields check_bytes_yields yields_return, goal_cases)
    case (1 epoch n1 auth n2 nplan n3 nsub n4 nev n5 wm n6 reqs n7 ps n8 cs n9 hist n10 can n11 n12)
    have "max_plan_id ps < nplan" using 1 by simp
    with max_plan_id_pos [OF this] max_plan_id_less [of nplan ps] 1
      distinct_fold_uset_insert [of "[]" can] length_fold_uset_insert [of can "[]"]
    show ?case
      by (simp add: snapshot_sound_def snapshot_indexed_def snapshot_fits_def save_payload_def
          plan_recorded_def check_plans_ok less_strong_id_def)
  qed
  from yieldsD [OF this assms(1)] assms(2) show ?thesis by auto
qed

section \<open>The file\<close>

text \<open>Reading a file whose header announces exactly the payload that follows.\<close>

lemma header_round:
  assumes "formatVersion st = kPersistenceFormatVersion" "length (save_payload st) \<le> kMaxPayload"
  shows "rd_run read_header (save_header st) = Inr (kPersistenceFormatVersion, length (save_payload st))"
proof -
  have "unat (word_of_nat (length (save_payload st)) :: 64 word) = length (save_payload st)"
    using assms(2) by (simp add: unat_of_nat kMaxPayload_def)
  with assms show ?thesis
    by (simp add: rd_run_def read_header_def save_header_def codec_simps
        kPersistenceFormatVersion_def u64.bind_enc [where rest = "[]", simplified])
qed

lemma length_save_header [simp]: "length (save_header st) = 17"
  by (simp add: save_header_def)

lemma load_framed:
  assumes "formatVersion st = kPersistenceFormatVersion" "length (save_payload st) \<le> kMaxPayload"
    and "length payload = length (save_payload st)"
  shows "persist_load (save_header st @ payload @ put_u64 stored @ rest) =
     (if stored \<noteq> fnv1a64_digest payload then throw ChecksumMismatch ''checksum mismatch''
      else case rd_run (read_payload kPersistenceFormatVersion) payload of
        Inl e \<Rightarrow> Inl e | Inr v \<Rightarrow> Inr (v, rest))"
  using assms by (simp add: persist_load_def header_round rd_run_def [of get_u64] u64.dec_enc_only
      split: sum.splits)

lemma persist_load_saved:
  assumes "snapshot_fits st" "snapshot_sound st"
  shows "persist_load (persist_save st @ rest) = Inr (st, rest)"
  using assms payload_round [OF assms]
  by (simp add: persist_save_def load_framed snapshot_fits_def snapshot_sound_def
      snapshot_indexed_def rd_run_def)

lemma rd_run_eq_Inr: "rd_run m bs = Inr x \<longleftrightarrow> (\<exists>rest. m bs = Inr (x, rest))"
  by (auto simp: rd_run_def split: sum.splits)

lemma version_accepted: "\<not> (v = 0 \<or> v > kPersistenceFormatVersion) \<longleftrightarrow> v = kPersistenceFormatVersion"
  by (auto simp: kPersistenceFormatVersion_def word_le_nat_alt word_less_nat_alt word_unat_eq_iff)

lemma rd_lift_eq_Inr: "rd_lift r bs = Inr (x, bs') \<longleftrightarrow> r = Inr x \<and> bs' = bs"
  by (auto simp: rd_lift_def split: sum.splits)

lemma rd_check_eq_Inr: "rd_check bad c m bs = Inr (x, bs') \<longleftrightarrow> \<not> bad \<and> bs' = bs"
  by (auto simp: rd_check_def)

lemma read_header_bounds:
  "yields read_header (\<lambda>h n. fst h = kPersistenceFormatVersion \<and> snd h \<le> kMaxPayload)"
  unfolding read_header_def version_accepted [symmetric]
  by (intro yields_intros yields_check yields_return) simp

lemma persist_load_accepted:
  assumes "persist_load bs = Inr (st, rest)"
  shows "\<exists>hdr payload foot. bs = hdr @ payload @ foot @ rest \<and> length hdr = 17 \<and> length foot = 8 \<and>
     length payload \<le> kMaxPayload \<and>
     rd_run (read_payload kPersistenceFormatVersion) payload = Inr st"
proof -
  from assms obtain hdr bs1 v n payload bs2 foot where
    1: "stream_read 17 ''header truncated'' bs = Inr (hdr, bs1)"
    and 2: "rd_run read_header hdr = Inr (v, n)"
    and 3: "stream_read n ''payload truncated'' bs1 = Inr (payload, bs2)"
    and 4: "stream_read 8 ''checksum truncated'' bs2 = Inr (foot, rest)"
    and 5: "rd_run (read_payload v) payload = Inr st"
    unfolding persist_load_def
    by (auto simp: rd_bind_eq_Inr rd_lift_eq_Inr rd_check_eq_Inr
        simp del: rd_lift_apply rd_check_apply)
  have cut: "cs = xs @ ys \<and> length xs = k" if "stream_read k msg cs = Inr (xs, ys)" for k msg cs xs ys
    using that by (auto simp: stream_read_def split: if_splits)
  from 2 obtain r where "read_header hdr = Inr ((v, n), r)" by (auto simp: rd_run_eq_Inr)
  from yieldsD [OF read_header_bounds this] have "v = kPersistenceFormatVersion" "n \<le> kMaxPayload"
    by auto
  with cut [OF 1] cut [OF 3] cut [OF 4] 5 show ?thesis
    by (intro exI [of _ hdr] exI [of _ payload] exI [of _ foot]) simp
qed

lemma load_validates:
  assumes "persist_load bs = Inr (st, rest)"
  shows "snapshot_fits st \<and> snapshot_sound st"
proof -
  from persist_load_accepted [OF assms] obtain payload where "length payload \<le> kMaxPayload"
    and "rd_run (read_payload kPersistenceFormatVersion) payload = Inr st" by blast
  then show ?thesis using payload_accepted by (auto simp: rd_run_eq_Inr)
qed

section \<open>Damage\<close>

text \<open>The digest step is a bijection on the hash, and tells two bytes apart.\<close>

lemma fnv_prime_unit: "fnv_prime * 14886173955864302971 = 1"
  by (simp add: fnv_prime_def)

lemma fnv_prime_cancel: "a * fnv_prime = b * fnv_prime \<longleftrightarrow> a = b"
proof
  assume "a * fnv_prime = b * fnv_prime"
  then have "a * (fnv_prime * 14886173955864302971) = b * (fnv_prime * 14886173955864302971)"
    by (simp only: mult.assoc [symmetric])
  then show "a = b" by (simp only: fnv_prime_unit mult_1_right)
qed simp

lemma ucast_byte_inject: "(ucast (a :: byte) :: 64 word) = ucast b \<longleftrightarrow> a = b"
proof
  assume "(ucast a :: 64 word) = ucast b"
  then have eq: "bit (ucast a :: 64 word) n \<longleftrightarrow> bit (ucast b :: 64 word) n" for n by simp
  show "a = b"
  proof (rule bit_word_eqI)
    fix n assume "n < LENGTH(8)"
    with eq [of n] show "bit a n \<longleftrightarrow> bit b n" by (simp add: bit_simps)
  qed
qed simp

lemma xor_cancel: "xor a b = xor a c \<longleftrightarrow> b = (c :: 64 word)"
proof
  assume "xor a b = xor a c"
  then have "xor a (xor a b) = xor a (xor a c)" by simp
  then show "b = c" by (simp add: xor.assoc [symmetric])
qed simp

lemma fnv_step_hash: "fnv_step b g = fnv_step b h \<longleftrightarrow> g = h"
  by (simp add: fnv_step_def fnv_prime_cancel xor_cancel xor.commute [of _ "ucast b"])

lemma fnv_step_byte: "fnv_step a h = fnv_step b h \<longleftrightarrow> a = b"
  by (simp add: fnv_step_def fnv_prime_cancel xor_cancel ucast_byte_inject)

lemma fnv_fold_hash: "fold fnv_step bs g = fold fnv_step bs h \<longleftrightarrow> g = h"
  by (induction bs arbitrary: g h) (simp_all add: fnv_step_hash)

lemma fnv_one_byte:
  "fnv1a64_digest (xs @ a # ys) = fnv1a64_digest (xs @ b # ys) \<longleftrightarrow> a = b"
  by (simp add: fnv1a64_digest_def fnv_fold_hash fnv_step_byte)

lemma fnv_update:
  assumes "i < length bs"
  shows "fnv1a64_digest (bs[i := v]) = fnv1a64_digest bs \<longleftrightarrow> v = bs ! i"
proof -
  have "bs[i := v] = take i bs @ v # drop (Suc i) bs" using assms by (rule upd_conv_take_nth_drop)
  moreover have "bs = take i bs @ bs ! i # drop (Suc i) bs" using assms by (rule id_take_nth_drop)
  ultimately show ?thesis using fnv_one_byte by metis
qed

lemma stream_read_short: "length bs < n \<Longrightarrow> rd_bind (stream_read n msg) f bs = throw Truncation msg"
  by (simp add: rd_bind_def stream_read_def)

lemma load_truncated:
  assumes "formatVersion st = kPersistenceFormatVersion" "length (save_payload st) \<le> kMaxPayload"
    and "k < length (persist_save st)"
  shows "persist_load (take k (persist_save st)) =
     throw Truncation (if k < 17 then ''header truncated''
       else if k < 17 + length (save_payload st) then ''payload truncated'' else ''checksum truncated'')"
proof -
  let ?n = "length (save_payload st)"
  have hdr: "persist_load (save_header st @ bs) =
      rd_bind (stream_read ?n ''payload truncated'') (\<lambda>payload.
      rd_bind (stream_read 8 ''checksum truncated'') (\<lambda>foot.
      rd_bind (rd_lift (rd_run get_u64 foot)) (\<lambda>stored.
      rd_bind (rd_check (stored \<noteq> fnv1a64_digest payload) ChecksumMismatch ''checksum mismatch'') (\<lambda>_.
      rd_bind (rd_lift (rd_run (read_payload kPersistenceFormatVersion) payload)) (\<lambda>st. rd_return st))))) bs"
    for bs
    using assms by (simp add: persist_load_def header_round)
  consider "k < 17" | "17 \<le> k" "k < 17 + ?n" | "17 + ?n \<le> k" by linarith
  then show ?thesis
  proof cases
    case 1
    then show ?thesis by (simp add: persist_load_def stream_read_short)
  next
    case 2
    then have "take k (persist_save st) = save_header st @ take (k - 17) (save_payload st)"
      by (simp add: persist_save_def)
    with 2 show ?thesis by (simp add: hdr stream_read_short)
  next
    case 3
    then have "take k (persist_save st) = save_header st @ save_payload st @
        take (k - 17 - ?n) (put_u64 (fnv1a64_digest (save_payload st)))"
      by (simp add: persist_save_def)
    moreover have "k - 17 - ?n < 8" using 3 assms(3) by (simp add: persist_save_def)
    ultimately show ?thesis using 3 by (simp add: hdr stream_read_short)
  qed
qed

end
