(* ===== verification/Protocol.thy ===== *)
theory Protocol
  imports Persistence
begin

text \<open>
  The frame protocol (\<^verbatim>\<open>protocol.hpp\<close>, \<^verbatim>\<open>protocol.cpp\<close>): message types, \<open>encode_frame\<close>,
  the checks of a received header and of the digest.

  \<open>decode_frame\<close> is the specification of receiving: what a stream of bytes holds at its
  front, or why it is refused. The transport implements it over partial reads (theory \<open>Net\<close>).
  The lemmas show that it inverts \<open>encode_frame\<close>, and that a frame with one altered byte
  outside its length field is refused.
\<close>

section \<open>Message types\<close>

datatype MessageType =
    HELLO
  | REGISTER
  | PUBLISH_RESOURCE
  | PUBLISH_TOPOLOGY
  | PUBLISH_CAPACITY
  | PUBLISH_RESERVATION_VIEW
  | PUBLISH_CONGESTION
  | PUBLISH_HEALTH
  | SUBMIT_WORKLOAD
  | QUERY_PLACEMENT
  | PLACEMENT_PLAN
  | COMMIT_REQUEST
  | COMMIT_RESULT
  | REVALIDATE
  | SUPERSEDE
  | CANCEL
  | EXECUTION_HANDOFF
  | EXECUTION_RESULT
  | SAVE
  | SHUTDOWN
  | ERROR
  | EXECUTE

definition all_MessageType :: "MessageType list" where
  "all_MessageType =
     [HELLO, REGISTER, PUBLISH_RESOURCE, PUBLISH_TOPOLOGY, PUBLISH_CAPACITY,
      PUBLISH_RESERVATION_VIEW, PUBLISH_CONGESTION, PUBLISH_HEALTH, SUBMIT_WORKLOAD,
      QUERY_PLACEMENT, PLACEMENT_PLAN, COMMIT_REQUEST, COMMIT_RESULT, REVALIDATE, SUPERSEDE,
      CANCEL, EXECUTION_HANDOFF, EXECUTION_RESULT, SAVE, SHUTDOWN, ERROR, EXECUTE]"

interpretation MessageType_enum: byte_enum all_MessageType
  by unfold_locales (auto simp: all_MessageType_def intro: MessageType.exhaust)

fun MessageType_to_string :: "MessageType \<Rightarrow> string" where
  "MessageType_to_string HELLO = ''HELLO''"
| "MessageType_to_string REGISTER = ''REGISTER''"
| "MessageType_to_string PUBLISH_RESOURCE = ''PUBLISH_RESOURCE''"
| "MessageType_to_string PUBLISH_TOPOLOGY = ''PUBLISH_TOPOLOGY''"
| "MessageType_to_string PUBLISH_CAPACITY = ''PUBLISH_CAPACITY''"
| "MessageType_to_string PUBLISH_RESERVATION_VIEW = ''PUBLISH_RESERVATION_VIEW''"
| "MessageType_to_string PUBLISH_CONGESTION = ''PUBLISH_CONGESTION''"
| "MessageType_to_string PUBLISH_HEALTH = ''PUBLISH_HEALTH''"
| "MessageType_to_string SUBMIT_WORKLOAD = ''SUBMIT_WORKLOAD''"
| "MessageType_to_string QUERY_PLACEMENT = ''QUERY_PLACEMENT''"
| "MessageType_to_string PLACEMENT_PLAN = ''PLACEMENT_PLAN''"
| "MessageType_to_string COMMIT_REQUEST = ''COMMIT_REQUEST''"
| "MessageType_to_string COMMIT_RESULT = ''COMMIT_RESULT''"
| "MessageType_to_string REVALIDATE = ''REVALIDATE''"
| "MessageType_to_string SUPERSEDE = ''SUPERSEDE''"
| "MessageType_to_string CANCEL = ''CANCEL''"
| "MessageType_to_string EXECUTION_HANDOFF = ''EXECUTION_HANDOFF''"
| "MessageType_to_string EXECUTION_RESULT = ''EXECUTION_RESULT''"
| "MessageType_to_string SAVE = ''SAVE''"
| "MessageType_to_string SHUTDOWN = ''SHUTDOWN''"
| "MessageType_to_string ERROR = ''ERROR''"
| "MessageType_to_string EXECUTE = ''EXECUTE''"

section \<open>Frames\<close>

definition kFrameMagic :: "32 word" where
  "kFrameMagic = 0x46414252"

definition kFrameVersion :: "8 word" where
  "kFrameVersion = 1"

definition kFrameHeaderSize :: nat where
  "kFrameHeaderSize = 12"

definition kMaxFramePayload :: "32 word" where
  "kMaxFramePayload = push_bit 20 16"

record FrameHeader =
  fh_type :: MessageType
  payloadLen :: "32 word"
  fh_flags :: "8 word"

text \<open>The header, the payload, and the digest of everything behind the magic.\<close>

definition frame_header :: "MessageType \<Rightarrow> byte list \<Rightarrow> 8 word \<Rightarrow> byte list" where
  "frame_header t payload flags =
     put_u32 kFrameMagic @ put_u8 kFrameVersion @ put_enum all_MessageType t @ put_u8 flags @
     put_u8 0 @ put_u32 (word_of_nat (length payload))"

definition encode_frame :: "MessageType \<Rightarrow> byte list \<Rightarrow> 8 word \<Rightarrow> byte list res" where
  "encode_frame t payload flags =
     (if length payload > unat kMaxFramePayload then
        throw OversizedFrame ''frame payload exceeds bound''
      else
        let out = frame_header t payload flags @ payload in
        Inr (out @ put_u64 (fnv1a64_digest (drop 4 out))))"

definition check_payload_length :: "32 word \<Rightarrow> unit res" where
  "check_payload_length len =
     (if len > kMaxFramePayload then throw OversizedFrame ''frame payload exceeds bound'' else Inr ())"

definition get_message_type :: "MessageType reader" where
  "get_message_type = rd_bind get_u8 (\<lambda>v.
     case enum_of_code all_MessageType v of
       None \<Rightarrow> rd_throw MalformedFrame ''invalid message type''
     | Some t \<Rightarrow> rd_return t)"

definition read_frame_header :: "FrameHeader reader" where
  "read_frame_header =
     rd_bind get_u32 (\<lambda>magic.
     rd_bind (rd_check (magic \<noteq> kFrameMagic) MalformedFrame ''bad frame magic'') (\<lambda>_.
     rd_bind get_u8 (\<lambda>version.
     rd_bind (rd_check (version \<noteq> kFrameVersion) UnsupportedVersion ''unsupported frame version'') (\<lambda>_.
     rd_bind get_message_type (\<lambda>t.
     rd_bind get_u8 (\<lambda>flags.
     rd_bind get_u8 (\<lambda>_.
     rd_bind get_u32 (\<lambda>len.
     rd_bind (rd_lift (check_payload_length len)) (\<lambda>_.
     rd_return \<lparr>fh_type = t, payloadLen = len, fh_flags = flags\<rparr>)))))))))"

definition parse_header :: "byte list \<Rightarrow> FrameHeader res" where
  "parse_header header12 = rd_run read_frame_header (take kFrameHeaderSize header12)"

definition check_digest :: "byte list \<Rightarrow> byte list \<Rightarrow> byte list \<Rightarrow> unit res" where
  "check_digest header12 payload digest8 =
     res_bind (rd_run get_u64 digest8) (\<lambda>stored.
       if fnv1a64_digest (drop 4 (take kFrameHeaderSize header12) @ payload) \<noteq> stored
       then throw ChecksumMismatch ''frame checksum mismatch'' else Inr ())"

text \<open>The specification of receiving one frame from a stream that ends after \<open>bs\<close>.\<close>

definition decode_frame :: "(MessageType \<times> byte list) reader" where
  "decode_frame bs =
     (if length bs < 12 then throw ProtocolError ''connection closed during header'' else
      res_bind (parse_header (take 12 bs)) (\<lambda>h.
        let n = unat (payloadLen h); body = drop 12 bs in
        if length body < n then throw Truncation ''payload truncated''
        else if length body < n + 8 then throw Truncation ''digest truncated''
        else res_bind (check_digest (take 12 bs) (take n body) (take 8 (drop n body))) (\<lambda>_.
          Inr ((fh_type h, take n body), drop (n + 8) body))))"

section \<open>Encoding and decoding\<close>

lemma unat_kMaxFramePayload [simp]: "unat kMaxFramePayload = 2 ^ 24"
  by (simp add: kMaxFramePayload_def)

lemma length_frame_header [simp]: "length (frame_header t p f) = 12"
  by (simp add: frame_header_def)

interpretation message_type: codec "put_enum all_MessageType" get_message_type "\<lambda>_. True"
proof
  show "yields get_message_type (\<lambda>t n. True \<and> n = length (put_enum all_MessageType t))"
    unfolding get_message_type_def
  proof (rule number_yields)
    fix v :: "8 word" and k assume "True \<and> k = length (put_u8 v)"
    then show "yields (case enum_of_code all_MessageType v of
        None \<Rightarrow> rd_throw MalformedFrame ''invalid message type'' | Some t \<Rightarrow> rd_return t)
        (\<lambda>t n. True \<and> k + n = length (put_enum all_MessageType t))"
      by (cases "enum_of_code all_MessageType v") (simp_all add: yields_throw yields_return)
  qed
qed (simp add: get_message_type_def put_enum_def number_bind MessageType_enum.code_round)

declare message_type.bind_enc [OF TrueI, codec_simps]
declare message_type.dec_ok [THEN yields_bind, yields_intros]

lemma parse_frame_header:
  assumes "length p \<le> 2 ^ 24"
  shows "parse_header (frame_header t p f @ rest) =
     Inr \<lparr>fh_type = t, payloadLen = word_of_nat (length p), fh_flags = f\<rparr>"
proof -
  have "\<not> kMaxFramePayload < (word_of_nat (length p) :: 32 word)"
    using assms by (simp add: word_less_nat_alt unat_of_nat)
  then show ?thesis
    by (simp add: parse_header_def kFrameHeaderSize_def rd_run_def read_frame_header_def
        frame_header_def codec_simps check_payload_length_def
        u32.bind_enc [where rest = "[]", simplified])
qed

lemma read_frame_header_bound:
  "yields read_frame_header (\<lambda>h n. unat (payloadLen h) \<le> 2 ^ 24)"
  unfolding read_frame_header_def
  by (intro yields_intros yields_check yields_lift yields_return)
    (simp add: check_payload_length_def word_less_nat_alt split: if_splits)

lemma parse_header_bound: "parse_header hdr = Inr h \<Longrightarrow> unat (payloadLen h) \<le> 2 ^ 24"
  using yieldsD [OF read_frame_header_bound] by (auto simp: parse_header_def rd_run_eq_Inr)

lemma encode_frame_eq:
  "length p \<le> 2 ^ 24 \<Longrightarrow> encode_frame t p f =
     Inr (frame_header t p f @ p @ put_u64 (fnv1a64_digest (drop 4 (frame_header t p f) @ p)))"
  by (simp add: encode_frame_def Let_def)

lemma decode_encoded:
  assumes "length p \<le> 2 ^ 24" "length p' = length p" "length d = 8"
  shows "decode_frame (frame_header t p f @ p' @ d @ rest) =
     res_bind (check_digest (frame_header t p f) p' d) (\<lambda>_. Inr ((t, p'), rest))"
  using assms parse_frame_header [OF assms(1), of t f "[]"]
  by (simp add: decode_frame_def unat_of_nat)

lemma check_digest_apply:
  "length h = 12 \<Longrightarrow> check_digest h p (put_u64 s) =
     (if fnv1a64_digest (drop 4 h @ p) \<noteq> s then throw ChecksumMismatch ''frame checksum mismatch''
      else Inr ())"
  by (simp add: check_digest_def rd_run_def u64.dec_enc_only kFrameHeaderSize_def)

lemma decode_frame_round:
  assumes "encode_frame t p f = Inr bs"
  shows "decode_frame (bs @ rest) = Inr ((t, p), rest)"
proof -
  from assms have p: "length p \<le> 2 ^ 24" by (simp add: encode_frame_def Let_def split: if_splits)
  with assms have "bs = frame_header t p f @ p @ put_u64 (fnv1a64_digest (drop 4 (frame_header t p f) @ p))"
    by (simp add: encode_frame_eq)
  then show ?thesis
    using decode_encoded [OF p refl, of "put_u64 (fnv1a64_digest (drop 4 (frame_header t p f) @ p))" t f rest]
    by (simp add: check_digest_apply)
qed

section \<open>Altered frames\<close>

text \<open>What an accepted frame looks like: only the type, the flags and the reserved byte are free.\<close>

lemma read_frame_header_shape:
  assumes "read_frame_header bs = Inr (h, rest)"
  shows "\<exists>a b c. bs = put_u32 kFrameMagic @ [kFrameVersion, a, b, c] @ put_u32 (payloadLen h) @ rest"
proof -
  have t: "\<exists>a. xs = a # ys" if "get_message_type xs = Inr (t, ys)" for xs t ys
    using that by (auto simp: get_message_type_def rd_bind_eq_Inr put_u8_def
        dest!: number_canonical split: option.splits)
  from assms show ?thesis
    unfolding read_frame_header_def
    by (auto simp: rd_bind_eq_Inr rd_lift_eq_Inr rd_check_eq_Inr put_u8_def
        simp del: rd_lift_apply rd_check_apply dest!: number_canonical t)
qed

lemma check_digest_shape:
  assumes "check_digest h p d = Inr ()" "length h = 12" "length d = 8"
  shows "d = put_u64 (fnv1a64_digest (drop 4 h @ p))"
proof -
  from assms(1) obtain s r where "get_u64 d = Inr (s, r)" "s = fnv1a64_digest (drop 4 h @ p)"
    using assms(2)
    by (auto simp: check_digest_def res_bind_eq_Inr rd_run_eq_Inr kFrameHeaderSize_def split: if_splits)
  moreover from this have "d = put_u64 s @ r" by (simp add: number_canonical)
  ultimately show ?thesis using assms(3) by simp
qed

lemma decode_frame_shape:
  assumes "decode_frame bs = Inr ((t, p), rest)"
  shows "\<exists>a b c len. bs = put_u32 kFrameMagic @ [kFrameVersion, a, b, c] @ put_u32 len @ p @
       put_u64 (fnv1a64_digest ([kFrameVersion, a, b, c] @ put_u32 len @ p)) @ rest \<and>
     unat len = length p"
proof -
  let ?body = "drop 12 bs"
  from assms obtain h n where h: "12 \<le> length bs" "parse_header (take 12 bs) = Inr h"
    and n: "n = unat (payloadLen h)"
    and len: "n + 8 \<le> length ?body" "p = take n ?body" "rest = drop (n + 8) ?body"
    and dig: "check_digest (take 12 bs) p (take 8 (drop n ?body)) = Inr ()"
    by (auto simp: decode_frame_def Let_def res_bind_eq_Inr split: if_splits)
  from h obtain r where "read_frame_header (take 12 bs) = Inr (h, r)"
    by (auto simp: parse_header_def rd_run_eq_Inr kFrameHeaderSize_def)
  from read_frame_header_shape [OF this] obtain a b c where
    hdr: "take 12 bs = put_u32 kFrameMagic @ [kFrameVersion, a, b, c] @ put_u32 (payloadLen h) @ r"
    by blast
  have "length (take 12 bs) = 12" using h(1) by simp
  then have r: "r = []" by (simp add: hdr)
  have "drop 4 (take 12 bs) = [kFrameVersion, a, b, c] @ put_u32 (payloadLen h)"
    by (simp add: hdr r)
  with check_digest_shape [OF dig] h(1) len(1)
  have d: "take 8 (drop n ?body) =
      put_u64 (fnv1a64_digest ([kFrameVersion, a, b, c] @ put_u32 (payloadLen h) @ p))"
    by simp
  have "rest = drop 8 (drop n ?body)" by (simp add: len(3) add.commute)
  then have "?body = p @ take 8 (drop n ?body) @ rest"
    by (simp only: len(2) append_take_drop_id)
  moreover have "bs = take 12 bs @ ?body" by (simp only: append_take_drop_id)
  ultimately have "bs = take 12 bs @ p @ take 8 (drop n ?body) @ rest" by (simp only:)
  then have "bs = put_u32 kFrameMagic @ [kFrameVersion, a, b, c] @ put_u32 (payloadLen h) @ p @
      put_u64 (fnv1a64_digest ([kFrameVersion, a, b, c] @ put_u32 (payloadLen h) @ p)) @ rest"
    by (simp only: hdr r d append_assoc append_Nil append_Nil2)
  moreover have "unat (payloadLen h) = length p" using len(1,2) n by simp
  ultimately show ?thesis by blast
qed

text \<open>Two accepted streams that differ in one byte of the first frame, outside its length field.\<close>

lemma altered_frame:
  assumes "decode_frame bs = Inr ((t, p), rest)" "i < length p + 20" "i \<notin> {8..<12}" "v \<noteq> bs ! i"
  shows "decode_frame (bs[i := v]) \<noteq> Inr ((t', p'), rest')"
proof
  assume "decode_frame (bs[i := v]) = Inr ((t', p'), rest')"
  from decode_frame_shape [OF this] obtain a' b' c' len' where
    bs': "bs[i := v] = put_u32 kFrameMagic @ [kFrameVersion, a', b', c'] @ put_u32 len' @ p' @
       put_u64 (fnv1a64_digest ([kFrameVersion, a', b', c'] @ put_u32 len' @ p')) @ rest'"
    and len': "unat len' = length p'" by blast
  from decode_frame_shape [OF assms(1)] obtain a b c len where
    bs: "bs = put_u32 kFrameMagic @ [kFrameVersion, a, b, c] @ put_u32 len @ p @
       put_u64 (fnv1a64_digest ([kFrameVersion, a, b, c] @ put_u32 len @ p)) @ rest"
    and len: "unat len = length p" by blast
  have il: "i < length bs" using assms(2) by (simp add: bs)
  have field: "take 4 (drop 8 (bs[i := v])) = take 4 (drop 8 bs)"
    using assms(3)
    by (cases "i < 8") (auto simp: drop_update_cancel drop_update_swap take_update_swap list_update_beyond)
  have "take 4 (drop 8 bs) = put_u32 len" "take 4 (drop 8 (bs[i := v])) = put_u32 len'"
    by (simp add: bs, simp add: bs')
  with field have "len' = len" using u32.enc_inject [of len' len] by simp
  with len len' have n: "length p' = length p" by simp
  let ?n = "length p"
  define D where "D = [kFrameVersion, a, b, c] @ put_u32 len @ p"
  define D' where "D' = [kFrameVersion, a', b', c'] @ put_u32 len' @ p'"
  have split: "bs = put_u32 kFrameMagic @ D @ put_u64 (fnv1a64_digest D) @ rest"
    "bs[i := v] = put_u32 kFrameMagic @ D' @ put_u64 (fnv1a64_digest D') @ rest'"
    and lD: "length D = 8 + ?n" "length D' = 8 + ?n"
    using bs bs' n by (simp_all add: D_def D'_def)
  have differ: "D' \<noteq> D"
  proof
    assume "D' = D"
    then have "take (20 + ?n) (bs[i := v]) = take (20 + ?n) bs"
      unfolding split(2) by (simp add: split(1) lD)
    then have "take (20 + ?n) (bs[i := v]) ! i = take (20 + ?n) bs ! i" by simp
    then show False using assms(2,4) il by simp
  qed
  have D: "D = take (8 + ?n) (drop 4 bs)" by (simp add: split(1) lD)
  have D': "D' = take (8 + ?n) (drop 4 (bs[i := v]))" by (simp add: split(2) lD)
  have i4: "4 \<le> i"
    using differ unfolding D D' by (metis drop_update_cancel not_le)
  moreover have "\<not> 12 + ?n \<le> i"
    using differ i4 unfolding D D' by (auto simp: drop_update_swap take_update_cancel)
  ultimately have i: "4 \<le> i" "i < 12 + ?n" by simp_all
  then have upd: "D' = D[i - 4 := v]"
    unfolding D D' by (simp add: drop_update_swap take_update_swap)
  have "put_u64 (fnv1a64_digest D') = take 8 (drop (12 + ?n) (bs[i := v]))"
    by (simp add: split(2) lD)
  also have "\<dots> = take 8 (drop (12 + ?n) bs)" using i by (simp add: drop_update_cancel)
  also have "\<dots> = put_u64 (fnv1a64_digest D)" by (simp add: split(1) lD)
  finally have "fnv1a64_digest (D[i - 4 := v]) = fnv1a64_digest D"
    unfolding upd using u64.enc_inject by blast
  moreover have j: "i - 4 < length D" using i lD by simp
  ultimately have "v = D ! (i - 4)" by (simp only: fnv_update)
  then have "D' = D" unfolding upd by (simp only: list_update_id)
  with differ show False ..
qed

end
