(* ===== verification/Net.thy ===== *)
theory Net
  imports Protocol
begin

text \<open>
  The TCP channel of \<^verbatim>\<open>net.cpp\<close> over an abstract socket: the loops that write and read until
  everything has passed, and the sending and receiving of one frame. The operating system's
  \<^verbatim>\<open>send\<close> and \<^verbatim>\<open>recv\<close> are parameters (\<open>SocketIo\<close>) over a world of their own; what is assumed of
  them is what their documentation says, as the predicates \<open>delivers\<close> and \<open>accepts\<close>: a read of
  a connected stream yields a non-empty part of what is still to come, at most as long as asked
  for, or nothing once the peer has closed; a write takes a non-empty prefix.

  Both loops terminate for every socket, whatever it returns. Over a socket that behaves as
  documented, receiving refines \<open>decode_frame\<close>, independently of how the stream is cut.
\<close>

section \<open>Sockets and channels\<close>

text \<open>\<^verbatim>\<open>recv\<close>: \<^verbatim>\<open>SOCKET_ERROR\<close>, or the bytes received (none when the peer has closed).\<close>

datatype recv_result = RecvError | Received "byte list"

record 'w SocketIo =
  recv_call :: "nat \<Rightarrow> 'w \<Rightarrow> recv_result \<times> 'w"
  send_call :: "byte list \<Rightarrow> 'w \<Rightarrow> nat option \<times> 'w"

record TcpChannel =
  socket :: "64 word"

definition channel_valid :: "TcpChannel \<Rightarrow> bool" where
  "channel_valid ch \<longleftrightarrow> socket ch \<noteq> 0"

text \<open>\<^verbatim>\<open>close\<close>: the handle given to \<^verbatim>\<open>closesocket\<close>, if any. The move constructor leaves 0 behind.\<close>

definition channel_close :: "TcpChannel \<Rightarrow> 64 word option \<times> TcpChannel" where
  "channel_close ch = (if socket ch \<noteq> 0 then (Some (socket ch), ch\<lparr>socket := 0\<rparr>) else (None, ch))"

definition channel_move :: "TcpChannel \<Rightarrow> TcpChannel \<times> TcpChannel" where
  "channel_move other = (other, other\<lparr>socket := 0\<rparr>)"

definition channel_assign :: "TcpChannel \<Rightarrow> TcpChannel \<Rightarrow> 64 word option \<times> TcpChannel \<times> TcpChannel" where
  "channel_assign self other =
     (let (closed, _) = channel_close self in (closed, other, other\<lparr>socket := 0\<rparr>))"

section \<open>Winsock start-up\<close>

record Winsock =
  winsockStarted :: bool
  winsockRefs :: int

definition winsock_init :: "bool \<Rightarrow> Winsock \<Rightarrow> unit res \<times> Winsock" where
  "winsock_init startup_ok ws =
     (if winsockRefs ws = 0 \<and> \<not> startup_ok then (throw ProtocolError ''WSAStartup failed'', ws)
      else (Inr (), (if winsockRefs ws = 0 then ws\<lparr>winsockStarted := True\<rparr> else ws)
                      \<lparr>winsockRefs := winsockRefs ws + 1\<rparr>))"

text \<open>The flag says whether \<^verbatim>\<open>WSACleanup\<close> was called.\<close>

definition winsock_done :: "Winsock \<Rightarrow> bool \<times> Winsock" where
  "winsock_done ws =
     (if winsockRefs ws > 0 then
        let ws1 = ws\<lparr>winsockRefs := winsockRefs ws - 1\<rparr> in
        if winsockRefs ws1 = 0 \<and> winsockStarted ws1 then (True, ws1\<lparr>winsockStarted := False\<rparr>)
        else (False, ws1)
      else (False, ws))"

section \<open>Whole writes and reads\<close>

function send_loop :: "'w SocketIo \<Rightarrow> byte list \<Rightarrow> 'w \<Rightarrow> unit res \<times> 'w" where
  "send_loop io bs w =
     (if bs = [] then (Inr (), w)
      else case send_call io bs w of
        (None, w') \<Rightarrow> (throw ProtocolError ''send failed'', w')
      | (Some k, w') \<Rightarrow>
          if k = 0 then (throw ProtocolError ''send returned 0'', w')
          else send_loop io (drop k bs) w')"
  by pat_completeness auto
termination
  by (relation "measure (\<lambda>(io, bs, w). length bs)") auto

declare send_loop.simps [simp del]

definition send_all :: "'w SocketIo \<Rightarrow> TcpChannel \<Rightarrow> byte list \<Rightarrow> 'w \<Rightarrow> unit res \<times> 'w" where
  "send_all io ch bs w =
     (if socket ch = 0 then (throw ProtocolError ''send on closed socket'', w)
      else send_loop io bs w)"

text \<open>\<open>None\<close> is the return value \<^verbatim>\<open>false\<close>: the peer closed before everything had come.\<close>

function recv_loop :: "'w SocketIo \<Rightarrow> nat \<Rightarrow> 'w \<Rightarrow> byte list option res \<times> 'w" where
  "recv_loop io n w =
     (if n = 0 then (Inr (Some []), w)
      else case recv_call io n w of
        (RecvError, w') \<Rightarrow> (throw ProtocolError ''recv failed'', w')
      | (Received b, w') \<Rightarrow>
          if b = [] then (Inr None, w')
          else (case recv_loop io (n - length b) w' of
              (Inr (Some bs), w'') \<Rightarrow> (Inr (Some (b @ bs)), w'')
            | r \<Rightarrow> r))"
  by pat_completeness auto
termination
  by (relation "measure (\<lambda>(io, n, w). n)") auto

declare recv_loop.simps [simp del]

definition recv_exact :: "'w SocketIo \<Rightarrow> TcpChannel \<Rightarrow> nat \<Rightarrow> 'w \<Rightarrow> byte list option res \<times> 'w" where
  "recv_exact io ch n w =
     (if socket ch = 0 then (throw ProtocolError ''recv on closed socket'', w)
      else recv_loop io n w)"

section \<open>Frames over a channel\<close>

definition send_frame ::
  "'w SocketIo \<Rightarrow> TcpChannel \<Rightarrow> MessageType \<Rightarrow> byte list \<Rightarrow> 8 word \<Rightarrow> 'w \<Rightarrow> unit res \<times> 'w"
where
  "send_frame io ch t payload flags w =
     (case encode_frame t payload flags of
        Inl e \<Rightarrow> (Inl e, w)
      | Inr frame \<Rightarrow> send_all io ch frame w)"

text \<open>One whole read, or the given error when the peer has closed.\<close>

definition recv_or ::
  "'w SocketIo \<Rightarrow> TcpChannel \<Rightarrow> nat \<Rightarrow> ErrorCode \<Rightarrow> string \<Rightarrow> 'w \<Rightarrow> byte list res \<times> 'w"
where
  "recv_or io ch n code msg w =
     (case recv_exact io ch n w of
        (Inl e, w') \<Rightarrow> (Inl e, w')
      | (Inr None, w') \<Rightarrow> (throw code msg, w')
      | (Inr (Some bs), w') \<Rightarrow> (Inr bs, w'))"

definition recv_frame :: "'w SocketIo \<Rightarrow> TcpChannel \<Rightarrow> 'w \<Rightarrow> (MessageType \<times> byte list) res \<times> 'w" where
  "recv_frame io ch w =
     (case recv_or io ch kFrameHeaderSize ProtocolError ''connection closed during header'' w of
        (Inl e, w1) \<Rightarrow> (Inl e, w1)
      | (Inr hdr, w1) \<Rightarrow>
          (case parse_header hdr of
             Inl e \<Rightarrow> (Inl e, w1)
           | Inr h \<Rightarrow>
               (case (if payloadLen h > 0
                      then recv_or io ch (unat (payloadLen h)) Truncation ''payload truncated'' w1
                      else (Inr [], w1)) of
                  (Inl e, w2) \<Rightarrow> (Inl e, w2)
                | (Inr payload, w2) \<Rightarrow>
                    (case recv_or io ch 8 Truncation ''digest truncated'' w2 of
                       (Inl e, w3) \<Rightarrow> (Inl e, w3)
                     | (Inr digest, w3) \<Rightarrow>
                         (case check_digest hdr payload digest of
                            Inl e \<Rightarrow> (Inl e, w3)
                          | Inr _ \<Rightarrow> (Inr (fh_type h, payload), w3))))))"

section \<open>Sockets that behave as documented\<close>

text \<open>\<open>pending w\<close> is what the peer will have sent when it closes, \<open>sent w\<close> what has been taken.\<close>

definition delivers :: "'w SocketIo \<Rightarrow> ('w \<Rightarrow> byte list) \<Rightarrow> bool" where
  "delivers io pending \<longleftrightarrow>
     (\<forall>n w. 0 < n \<longrightarrow> (\<exists>b w'. recv_call io n w = (Received b, w') \<and> length b \<le> n \<and>
        pending w = b @ pending w' \<and> (b = [] \<longleftrightarrow> pending w = [])))"

definition accepts :: "'w SocketIo \<Rightarrow> ('w \<Rightarrow> byte list) \<Rightarrow> bool" where
  "accepts io sent \<longleftrightarrow>
     (\<forall>bs w. bs \<noteq> [] \<longrightarrow> (\<exists>k w'. send_call io bs w = (Some k, w') \<and> 0 < k \<and> k \<le> length bs \<and>
        sent w' = sent w @ take k bs))"

lemma send_loop_accepts:
  assumes "accepts io sent"
  shows "\<exists>w'. send_loop io bs w = (Inr (), w') \<and> sent w' = sent w @ bs"
proof (induction bs arbitrary: w rule: length_induct)
  case (1 bs)
  show ?case
  proof (cases "bs = []")
    case True
    then show ?thesis by (simp add: send_loop.simps)
  next
    case False
    with assms obtain k w' where k: "send_call io bs w = (Some k, w')" "0 < k"
      "sent w' = sent w @ take k bs" unfolding accepts_def by blast
    moreover from False k(2) have "length (drop k bs) < length bs" by simp
    then obtain w'' where "send_loop io (drop k bs) w' = (Inr (), w'')" "sent w'' = sent w' @ drop k bs"
      using "1.IH" by blast
    ultimately show ?thesis using False by (subst send_loop.simps) simp
  qed
qed

lemma recv_loop_delivers:
  assumes "delivers io pending"
  shows "\<exists>w'. recv_loop io n w = (Inr (if n \<le> length (pending w) then Some (take n (pending w)) else None), w') \<and>
     pending w' = drop n (pending w)"
proof (induction n arbitrary: w rule: less_induct)
  case (less n)
  show ?case
  proof (cases "n = 0")
    case True
    then show ?thesis by (simp add: recv_loop.simps)
  next
    case False
    with assms obtain b w' where b: "recv_call io n w = (Received b, w')" "length b \<le> n"
      "pending w = b @ pending w'" "b = [] \<longleftrightarrow> pending w = []" unfolding delivers_def by blast
    show ?thesis
    proof (cases "b = []")
      case True
      with b False show ?thesis by (subst recv_loop.simps) simp
    next
      case nonempty: False
      with False b(2) have "n - length b < n" by (simp add: diff_less)
      from less.IH [OF this, of w'] obtain w'' where
        "recv_loop io (n - length b) w' =
           (Inr (if n - length b \<le> length (pending w') then Some (take (n - length b) (pending w')) else None), w'')"
        "pending w'' = drop (n - length b) (pending w')" by blast
      with False b nonempty show ?thesis by (subst recv_loop.simps) auto
    qed
  qed
qed

lemma recv_or_delivers:
  assumes "delivers io pending" "socket ch \<noteq> 0"
  shows "\<exists>w'. recv_or io ch n code msg w =
       ((if n \<le> length (pending w) then Inr (take n (pending w)) else throw code msg), w') \<and>
     pending w' = drop n (pending w)"
  using recv_loop_delivers [OF assms(1), of n w] assms(2)
  by (auto simp: recv_or_def recv_exact_def split: if_splits)

lemma recv_frame_decodes:
  assumes "delivers io pending" "socket ch \<noteq> 0"
  shows "fst (recv_frame io ch w) =
       (case decode_frame (pending w) of Inl e \<Rightarrow> Inl e | Inr (x, rest) \<Rightarrow> Inr x) \<and>
     (\<forall>x rest. decode_frame (pending w) = Inr (x, rest) \<longrightarrow> pending (snd (recv_frame io ch w)) = rest)"
proof -
  let ?bs = "pending w"
  note recv = recv_or_delivers [OF assms]
  obtain w1 where w1: "recv_or io ch 12 ProtocolError ''connection closed during header'' w =
      ((if 12 \<le> length ?bs then Inr (take 12 ?bs) else throw ProtocolError ''connection closed during header''), w1)"
    "pending w1 = drop 12 ?bs"
    using recv [of 12 ProtocolError "''connection closed during header''" w] by blast
  show ?thesis
  proof (cases "12 \<le> length ?bs \<and> (\<exists>h. parse_header (take 12 ?bs) = Inr h)")
    case False
    then show ?thesis
      using w1(1)
      by (cases "parse_header (take 12 ?bs)")
        (auto simp: recv_frame_def kFrameHeaderSize_def decode_frame_def)
  next
    case True
    then obtain h where h: "12 \<le> length ?bs" "parse_header (take 12 ?bs) = Inr h" by blast
    let ?n = "unat (payloadLen h)" and ?body = "drop 12 ?bs"
    have pay: "\<exists>w2. (if payloadLen h > 0 then recv_or io ch ?n Truncation ''payload truncated'' w1 else (Inr [], w1)) =
        ((if ?n \<le> length ?body then Inr (take ?n ?body) else throw Truncation ''payload truncated''), w2) \<and>
        pending w2 = drop ?n ?body"
    proof (cases "payloadLen h > 0")
      case True
      then show ?thesis
        using recv [of ?n Truncation "''payload truncated''" w1] unfolding w1(2) by (simp only: if_True)
    next
      case False
      then have "?n = 0" by (simp add: word_neq_0_conv [symmetric])
      with False w1(2) show ?thesis by simp
    qed
    then obtain w2 where w2: "(if payloadLen h > 0 then recv_or io ch ?n Truncation ''payload truncated'' w1 else (Inr [], w1)) =
        ((if ?n \<le> length ?body then Inr (take ?n ?body) else throw Truncation ''payload truncated''), w2)"
      "pending w2 = drop ?n ?body" by blast
    obtain w3 where w3: "recv_or io ch 8 Truncation ''digest truncated'' w2 =
        ((if 8 \<le> length (drop ?n ?body) then Inr (take 8 (drop ?n ?body)) else throw Truncation ''digest truncated''), w3)"
      "pending w3 = drop 8 (drop ?n ?body)"
      using recv [of 8 Truncation "''digest truncated''" w2] w2(2) by metis
    have "drop 8 (drop ?n ?body) = drop (?n + 8) ?body" by (simp add: add.commute)
    moreover have "8 \<le> length (drop ?n ?body) \<longleftrightarrow> \<not> length ?body < ?n + 8" if "?n \<le> length ?body"
      using that by auto
    ultimately show ?thesis
      using h w1(1) w2(1) w3
      by (cases "check_digest (take 12 ?bs) (take ?n ?body) (take 8 (drop ?n ?body))")
        (auto simp: recv_frame_def kFrameHeaderSize_def decode_frame_def Let_def not_less)
  qed
qed

section \<open>What a channel guarantees\<close>

text \<open>C26: \<^verbatim>\<open>recv_frame\<close> implements the specification \<open>decode_frame\<close>: over a connected socket that
  delivers its stream in any non-empty pieces, it returns exactly the frame, or the error, that the
  bytes still to come hold at their front, and consumes exactly that frame.\<close>

theorem recv_frame_refines:
  assumes "delivers io pending" "socket ch \<noteq> 0"
  shows "fst (recv_frame io ch w) =
       (case decode_frame (pending w) of Inl e \<Rightarrow> Inl e | Inr (x, rest) \<Rightarrow> Inr x) \<and>
     (\<forall>x rest. decode_frame (pending w) = Inr (x, rest) \<longrightarrow> pending (snd (recv_frame io ch w)) = rest)"
  using assms by (rule recv_frame_decodes)

text \<open>A pipe that passes bytes in pieces of the sizes given by a list (whole when it is empty).\<close>

definition piece :: "nat list \<Rightarrow> byte list \<Rightarrow> nat" where
  "piece cs bs = (case cs of [] \<Rightarrow> length bs | c # _ \<Rightarrow> min (Suc c) (length bs))"

definition pipe :: "(byte list \<times> nat list) SocketIo" where
  "pipe = \<lparr>
     recv_call = (\<lambda>n (bs, cs). let k = min n (piece cs bs) in (Received (take k bs), (drop k bs, tl cs))),
     send_call = (\<lambda>bs (s, cs). (Some (piece cs bs), (s @ take (piece cs bs) bs, tl cs)))\<rparr>"

lemma piece_bounds: "piece cs bs \<le> length bs" "bs \<noteq> [] \<Longrightarrow> 0 < piece cs bs"
  by (simp_all add: piece_def split: list.split)

lemma pipe_delivers: "delivers pipe fst"
  unfolding delivers_def
proof (intro allI impI)
  fix n :: nat and w :: "byte list \<times> nat list"
  assume "0 < n"
  moreover obtain bs cs where "w = (bs, cs)" by (cases w)
  ultimately show "\<exists>b w'. recv_call pipe n w = (Received b, w') \<and> length b \<le> n \<and>
      fst w = b @ fst w' \<and> (b = [] \<longleftrightarrow> fst w = [])"
    using piece_bounds(1) [of cs bs] piece_bounds(2) [of bs cs] by (cases "bs = []") (auto simp: pipe_def Let_def)
qed

lemma pipe_accepts: "accepts pipe fst"
  unfolding accepts_def using piece_bounds by (auto simp: pipe_def)

abbreviation demo_channel :: TcpChannel where
  "demo_channel \<equiv> \<lparr>socket = 4\<rparr>"

theorem recv_frame_refines_witness:
  "fst (recv_frame pipe demo_channel ([1, 2, 3], [0, 1])) =
     throw ProtocolError ''connection closed during header''"
  using recv_frame_refines [OF pipe_delivers, of demo_channel "([1, 2, 3], [0, 1])"]
  by (simp add: decode_frame_def)

text \<open>C27: a frame of at most 16 MiB sent over one socket arrives: \<^verbatim>\<open>send_frame\<close> returns without an
  error however the writes are cut, and when the bytes it wrote come next at the receiver,
  \<^verbatim>\<open>recv_frame\<close> returns the same type and payload, however the reads are cut.\<close>

theorem frame_arrives:
  assumes "accepts out sent" "delivers io pending" "socket ch \<noteq> 0" "socket ch' \<noteq> 0"
    and "length payload \<le> 2 ^ 24"
  shows "\<exists>s' bs. send_frame out ch t payload flags s = (Inr (), s') \<and> sent s' = sent s @ bs \<and>
     (\<forall>w rest. pending w = bs @ rest \<longrightarrow>
        (\<exists>w'. recv_frame io ch' w = (Inr (t, payload), w') \<and> pending w' = rest))"
proof -
  obtain bs where bs: "encode_frame t payload flags = Inr bs"
    using assms(5) by (simp add: encode_frame_def Let_def)
  obtain s' where "send_loop out bs s = (Inr (), s')" "sent s' = sent s @ bs"
    using send_loop_accepts [OF assms(1)] by blast
  with bs assms(3) have "send_frame out ch t payload flags s = (Inr (), s')" "sent s' = sent s @ bs"
    by (simp_all add: send_frame_def send_all_def)
  moreover have "\<exists>w'. recv_frame io ch' w = (Inr (t, payload), w') \<and> pending w' = rest"
    if "pending w = bs @ rest" for w rest
    using recv_frame_decodes [OF assms(2,4), of w] decode_frame_round [OF bs, of rest] that
    by (cases "recv_frame io ch' w") simp
  ultimately show ?thesis by blast
qed

theorem frame_arrives_witness:
  "\<exists>s' bs. send_frame pipe demo_channel CANCEL (put_u64 7) 0 ([], [3, 0]) = (Inr (), s') \<and> fst s' = bs \<and>
     (\<exists>w'. recv_frame pipe demo_channel (bs @ [9], [0, 0, 5]) = (Inr (CANCEL, put_u64 7), w') \<and> fst w' = [9])"
  using frame_arrives [OF pipe_accepts pipe_delivers, of demo_channel demo_channel "put_u64 7" CANCEL 0 "([], [3, 0])"]
  by fastforce

text \<open>C28: a received frame in which one byte was altered anywhere outside its four length bytes is
  refused: no altered magic, version, type, flags, payload or digest byte gives a frame.\<close>

theorem altered_frame_refused:
  assumes "encode_frame t p f = Inr bs" "i < length bs" "i \<notin> {8..<12}" "v \<noteq> bs ! i"
    and "delivers io pending" "socket ch \<noteq> 0" "pending w = bs[i := v] @ rest"
  shows "\<exists>e. fst (recv_frame io ch w) = Inl e"
proof -
  from assms(1) have "length bs = length p + 20"
    by (auto simp: encode_frame_def Let_def split: if_splits)
  then have "decode_frame ((bs @ rest)[i := v]) \<noteq> Inr ((t', p'), r)" for t' p' r
    using assms(2-4) by (intro altered_frame [OF decode_frame_round [OF assms(1)]])
      (simp_all add: nth_append)
  then have "decode_frame (bs[i := v] @ rest) \<noteq> Inr r" for r
    using assms(2) by (cases r) (auto simp: list_update_append)
  with assms(7) recv_frame_decodes [OF assms(5,6), of w] show ?thesis
    by (cases "decode_frame (pending w)") auto
qed

theorem altered_frame_refused_witness:
  "\<exists>bs e. encode_frame SAVE [] 0 = Inr bs \<and>
     fst (recv_frame pipe demo_channel (bs[6 := 1], [])) = Inl e"
proof -
  obtain bs where bs: "encode_frame SAVE [] 0 = Inr bs" by (simp add: encode_frame_def Let_def)
  then have "bs ! 6 = 0" "length bs = 20"
    by (auto simp: encode_frame_def Let_def frame_header_def put_u32_def put_u8_def put_enum_def)
  with altered_frame_refused [OF bs, of 6 1 pipe fst demo_channel "(bs[6 := 1], [])" "[]"] pipe_delivers
  show ?thesis using bs by auto
qed

section \<open>Termination\<close>

text \<open>The same socket, counting its reads.\<close>

definition counted :: "'w SocketIo \<Rightarrow> ('w \<times> nat) SocketIo" where
  "counted io = \<lparr>
     recv_call = (\<lambda>n (w, c). let (r, w') = recv_call io n w in (r, (w', Suc c))),
     send_call = (\<lambda>bs (w, c). let (r, w') = send_call io bs w in (r, (w', c)))\<rparr>"

lemma recv_loop_counted: "snd (snd (recv_loop (counted io) n wc)) \<le> snd wc + n"
proof (induction n arbitrary: wc rule: less_induct)
  case (less n)
  obtain w c where wc: "wc = (w, c)" by (cases wc)
  obtain r w' where r: "recv_call io n w = (r, w')" by (cases "recv_call io n w")
  have call: "recv_call (counted io) n wc = (r, (w', Suc c))" by (simp add: counted_def wc r)
  show ?case
  proof (cases "n = 0 \<or> r = RecvError \<or> r = Received []")
    case True
    then show ?thesis by (subst recv_loop.simps) (auto simp: wc call [unfolded wc])
  next
    case False
    then obtain b where b: "r = Received b" "b \<noteq> []" "n \<noteq> 0" by (cases r) auto
    then have "n - length b < n" by (simp add: diff_less)
    from less.IH [OF this, of "(w', Suc c)"]
    have "snd (snd (recv_loop (counted io) (n - length b) (w', Suc c))) \<le> c + n"
      using b by (cases b) auto
    then show ?thesis
      using b by (subst recv_loop.simps)
        (auto simp: wc call [unfolded wc] split: prod.splits sum.splits option.splits)
  qed
qed

lemma recv_or_counted: "snd (snd (recv_or (counted io) ch n code msg wc)) \<le> snd wc + n"
  using recv_loop_counted [of io n wc]
  by (auto simp: recv_or_def recv_exact_def split: prod.splits sum.splits option.splits)

text \<open>Receiving a frame always comes to an end: whatever the socket returns, in pieces of any size,
  with errors or with more bytes than asked for, \<^verbatim>\<open>recv_frame\<close> makes at most 16777236 reads, one
  per byte of the largest frame.\<close>

theorem recv_frame_terminates:
  "snd (snd (recv_frame (counted io) ch (w, 0))) \<le> 12 + 2 ^ 24 + 8"
proof -
  note bound = recv_or_counted [of io ch]
  obtain r1 w1 where r1: "recv_or (counted io) ch 12 ProtocolError ''connection closed during header'' (w, 0) = (r1, w1)"
    by (cases "recv_or (counted io) ch 12 ProtocolError ''connection closed during header'' (w, 0)")
  with bound [of 12 ProtocolError "''connection closed during header''" "(w, 0)"] have c1: "snd w1 \<le> 12" by simp
  show ?thesis
  proof (cases "\<exists>hdr h. r1 = Inr hdr \<and> parse_header hdr = Inr h")
    case False
    with r1 c1 show ?thesis
      by (auto simp: recv_frame_def kFrameHeaderSize_def split: sum.splits)
  next
    case True
    then obtain hdr h where h: "r1 = Inr hdr" "parse_header hdr = Inr h" by blast
    let ?two = "if payloadLen h > 0 then recv_or (counted io) ch (unat (payloadLen h)) Truncation ''payload truncated'' w1
      else (Inr [], w1)"
    obtain r2 w2 where r2: "?two = (r2, w2)" by (cases ?two)
    with bound [of "unat (payloadLen h)" Truncation "''payload truncated''" w1] c1
    have "snd w2 \<le> 12 + unat (payloadLen h)" by (auto split: if_splits)
    with parse_header_bound [OF h(2)] have c2: "snd w2 \<le> 12 + 2 ^ 24" by simp
    obtain r3 w3 where r3: "recv_or (counted io) ch 8 Truncation ''digest truncated'' w2 = (r3, w3)"
      by (cases "recv_or (counted io) ch 8 Truncation ''digest truncated'' w2")
    with bound [of 8 Truncation "''digest truncated''" w2] c2 have "snd w3 \<le> 12 + 2 ^ 24 + 8" by simp
    with r1 h r2 r3 c2 show ?thesis
      by (auto simp: recv_frame_def kFrameHeaderSize_def split: sum.splits)
  qed
qed

end
