(* ===== verification/Interleaving.thy ===== *)
theory Interleaving
  imports Scheduler_Invariants
begin

text \<open>
  The scheduler shared by many threads. A thread inside \<open>schedule\<close>, \<open>commit\<close> or \<open>handoff\<close> has
  dropped the mutex between two critical sections; what it still has to do is a \<open>job\<close>. A step
  runs one critical section of some thread, or lets the resource broker or the execution fabric
  answer a call that is outstanding, with any answer. The log records the calls and answers.
  Between its two sections \<open>schedule\<close> filters and ranks its snapshot, with any policy veto.

  Shown here: in every reachable state the broker has been asked at most once for each plan, a
  plan carries commitment evidence only if the broker committed it, it is ACTIVE only if the
  execution fabric authorised it, and a successful broker commitment is recorded, released, or
  still on its way back.
\<close>

datatype job =
    SnapshotJob SchedulingRequest "DependencyView option" "Candidate list"
  | ScheduleJob SchedulingRequest "DependencyView option" "entry list" "RejectedAlternative list"
  | CommitCall PlacementPlanId "ResourceClaim list"
  | CommitAnswer PlacementPlanId "ResourceClaim list" ResourceCommitResult
  | HandoffCall PlacementPlanId PlacementPlan
  | HandoffAnswer PlacementPlanId ExecutionHandoff

datatype event =
    BrokerAsked PlacementPlanId "ResourceClaim list"
  | BrokerAnswered PlacementPlanId ResourceCommitResult
  | CommitDone PlacementPlanId ResourceCommitResult
  | Released string
  | ExecAsked PlacementPlanId PlacementPlan
  | ExecAnswered PlacementPlanId ExecutionHandoff
  | HandoffDone PlacementPlanId "ExecutionHandoff res"

record system =
  sched :: SchedulerState
  jobs :: "job list"
  log :: "event list"

text \<open>The methods that hold the mutex throughout.\<close>

fun atomic :: "sched_op \<Rightarrow> bool" where
  "atomic (SetEpoch _) = True"
| "atomic (FenceWorker _) = True"
| "atomic (FenceSource _) = True"
| "atomic (Ingest _) = True"
| "atomic (Revalidate _ _) = True"
| "atomic (Cancel _) = True"
| "atomic (Supersede _ _ _) = True"
| "atomic _ = False"

definition released_event :: "string option \<Rightarrow> event list" where
  "released_event rel = (case rel of None \<Rightarrow> [] | Some token \<Rightarrow> [Released token])"

inductive sys_step :: "system \<Rightarrow> system \<Rightarrow> bool" where
  mutex_method: "atomic op \<Longrightarrow> sys_step S (S\<lparr>sched := apply_op op (sched S)\<rparr>)"
| schedule_start: "validate (demand r) = Inr () \<Longrightarrow>
    sys_step S (S\<lparr>jobs := SnapshotJob r dep (schedule_begin (sched S)) # jobs S\<rparr>)"
| schedule_filter: "jobs S = xs @ SnapshotJob r dep cs # ys \<Longrightarrow>
    sys_step S (S\<lparr>jobs := xs @ ScheduleJob r dep
      (std_sort entry_less (eligible_entries r dep pol (rankOptions (sched S)) cs))
      (rejected_entries r dep pol cs) # ys\<rparr>)"
| schedule_end: "jobs S = xs @ ScheduleJob r dep es rej # ys \<Longrightarrow>
    sys_step S (S\<lparr>sched := snd (schedule_finish r dep es rej (sched S)), jobs := xs @ ys\<rparr>)"
| commit_refused: "commit_begin pid (sched S) = (Inr (Return out), st) \<Longrightarrow> sys_step S (S\<lparr>sched := st\<rparr>)"
| commit_start: "commit_begin pid (sched S) = (Inr (Proceed cs), st) \<Longrightarrow>
    sys_step S (S\<lparr>sched := st, jobs := CommitCall pid cs # jobs S, log := log S @ [BrokerAsked pid cs]\<rparr>)"
| broker_answer: "jobs S = xs @ CommitCall pid cs # ys \<Longrightarrow>
    sys_step S (S\<lparr>jobs := xs @ CommitAnswer pid cs br # ys, log := log S @ [BrokerAnswered pid br]\<rparr>)"
| commit_end: "jobs S = xs @ CommitAnswer pid cs br # ys \<Longrightarrow>
    commit_finish pid cs br (sched S) = (Inr (out, rel), st) \<Longrightarrow>
    sys_step S (S\<lparr>sched := st, jobs := xs @ ys,
      log := log S @ released_event rel @ [CommitDone pid out]\<rparr>)"
| handoff_refused: "handoff_begin pid (sched S) = (Inr (Return h), st) \<Longrightarrow> sys_step S (S\<lparr>sched := st\<rparr>)"
| handoff_start: "handoff_begin pid (sched S) = (Inr (Proceed p), st) \<Longrightarrow>
    sys_step S (S\<lparr>sched := st, jobs := HandoffCall pid p # jobs S, log := log S @ [ExecAsked pid p]\<rparr>)"
| exec_answer: "jobs S = xs @ HandoffCall pid p # ys \<Longrightarrow>
    sys_step S (S\<lparr>jobs := xs @ HandoffAnswer pid h # ys, log := log S @ [ExecAnswered pid h]\<rparr>)"
| handoff_end: "jobs S = xs @ HandoffAnswer pid h # ys \<Longrightarrow>
    handoff_finish pid h (sched S) = (r, st) \<Longrightarrow>
    sys_step S (S\<lparr>sched := st, jobs := xs @ ys, log := log S @ [HandoffDone pid r]\<rparr>)"

definition sys_init :: "SchedulerConfig \<Rightarrow> system" where
  "sys_init cfg = \<lparr>sched = new_Scheduler cfg, jobs = [], log = []\<rparr>"

inductive reachable :: "SchedulerConfig \<Rightarrow> system \<Rightarrow> bool" for cfg where
  start: "reachable cfg (sys_init cfg)"
| step: "reachable cfg S \<Longrightarrow> sys_step S S' \<Longrightarrow> reachable cfg S'"

lemma steps_reachable: "sys_step\<^sup>*\<^sup>* S S' \<Longrightarrow> reachable cfg S \<Longrightarrow> reachable cfg S'"
  by (induction rule: rtranclp_induct) (auto intro: reachable.step)

text \<open>A snapshot and its filtering with nothing in between.\<close>

lemma schedule_filtered:
  assumes "validate (demand r) = Inr ()"
  shows "sys_step\<^sup>*\<^sup>* S (S\<lparr>jobs := ScheduleJob r dep
      (std_sort entry_less (eligible_entries r dep pol (rankOptions (sched S)) (schedule_begin (sched S))))
      (rejected_entries r dep pol (schedule_begin (sched S))) # jobs S\<rparr>)"
proof -
  let ?S = "S\<lparr>jobs := SnapshotJob r dep (schedule_begin (sched S)) # jobs S\<rparr>"
  have "sys_step S ?S" by (rule sys_step.schedule_start [OF assms])
  moreover note sys_step.schedule_filter [of ?S "[]" r dep "schedule_begin (sched S)" "jobs S" pol]
  ultimately show ?thesis by (auto intro: converse_rtranclp_into_rtranclp)
qed

section \<open>The scheduler's own invariant\<close>

text \<open>Every step runs at most one section on the scheduler.\<close>

lemma step_sched: "sys_step S S' \<Longrightarrow> sched S' = sched S \<or> (\<exists>op. sched S' = apply_op op (sched S))"
proof (induction rule: sys_step.induct)
  case (schedule_end S xs r dep es rej ys)
  show ?case by (rule disjI2, rule exI [of _ "ScheduleFinish r dep es rej"]) simp
next
  case (commit_refused pid S out st)
  then show ?case by (intro disjI2 exI [of _ "CommitBegin pid"]) simp
next
  case (commit_start pid S cs st)
  then show ?case by (intro disjI2 exI [of _ "CommitBegin pid"]) simp
next
  case (commit_end S xs pid cs br ys out rel st)
  then show ?case by (intro disjI2 exI [of _ "CommitFinish pid cs br"]) simp
next
  case (handoff_refused pid S h st)
  then show ?case by (intro disjI2 exI [of _ "HandoffBegin pid"]) simp
next
  case (handoff_start pid S p st)
  then show ?case by (intro disjI2 exI [of _ "HandoffBegin pid"]) simp
next
  case (handoff_end S xs pid h ys r st)
  then show ?case by (intro disjI2 exI [of _ "HandoffFinish pid h"]) simp
qed auto

lemma step_keeps: "sys_step S S' \<Longrightarrow> sched_ok (sched S) \<Longrightarrow> keeps (sched S) (sched S')"
  using step_sched apply_op_keeps keeps_refl by metis

lemma step_fence: "sys_step S S' \<Longrightarrow> sched_ok (sched S) \<Longrightarrow> fence_ok (sched S) \<Longrightarrow> fence_ok (sched S')"
  using step_sched apply_op_fence by metis

lemma fence_ok_new: "fence_ok (new_Scheduler cfg)"
  by (simp add: fence_ok_def new_Scheduler_def)

lemma reachable_ok: "reachable cfg S \<Longrightarrow> sched_ok (sched S) \<and> fence_ok (sched S)"
proof (induction rule: reachable.induct)
  case start
  then show ?case by (simp add: sys_init_def sched_ok_new fence_ok_new)
next
  case (step S S')
  then show ?case using step_keeps step_fence keeps_def by blast
qed

section \<open>Where evidence and activity come from\<close>

text \<open>Every plan after a section was there before, without gaining evidence or activity, or is
  fresh.\<close>

definition no_gain :: "SchedulerState \<Rightarrow> SchedulerState \<Rightarrow> bool" where
  "no_gain st st' \<longleftrightarrow>
     (\<forall>k q. omap_find (plans st') k = Some q \<longrightarrow>
        (\<exists>p. omap_find (plans st) k = Some p \<and> (hasCommitmentEvidence q \<longrightarrow> hasCommitmentEvidence p) \<and>
             (pl_state q = ACTIVE \<longrightarrow> pl_state p = ACTIVE)) \<or>
        \<not> hasCommitmentEvidence q \<and> pl_state q = PLAN_READY)"

definition no_gain_plan :: "PlacementPlan \<Rightarrow> PlacementPlan \<Rightarrow> bool" where
  "no_gain_plan p q \<longleftrightarrow> (hasCommitmentEvidence q \<longrightarrow> hasCommitmentEvidence p) \<and>
     (pl_state q = ACTIVE \<longrightarrow> pl_state p = ACTIVE)"

lemma no_gain_same: "plans st' = plans st \<Longrightarrow> no_gain st st'"
  by (auto simp: no_gain_def)

lemma no_gain_assign:
  assumes "omap_ok (plans st)" "omap_find (plans st) pid = Some p" "no_gain_plan p q"
    and "plans st' = omap_assign pid q (plans st)"
  shows "no_gain st st'"
  using assms by (auto simp: no_gain_def no_gain_plan_def)

lemma no_gain_foreach:
  assumes "\<And>p i. no_gain_plan p (fst (f p i))" and "plans st' = fst (omap_foreach f (plans st) c)"
  shows "no_gain st st'"
  unfolding no_gain_def
proof (intro allI impI disjI1)
  fix k q
  assume "omap_find (plans st') k = Some q"
  then have "omap_find (fst (omap_foreach f (plans st) c)) k = Some q" using assms(2) by simp
  from omap_find_foreach_SomeD [where R = no_gain_plan, OF assms(1) this]
  show "\<exists>p. omap_find (plans st) k = Some p \<and> (hasCommitmentEvidence q \<longrightarrow> hasCommitmentEvidence p) \<and>
      (pl_state q = ACTIVE \<longrightarrow> pl_state p = ACTIVE)"
    by (auto simp: no_gain_plan_def)
qed

lemma move_plan_no_gain:
  assumes "sched_ok st" "omap_find (plans st) pid = Some p" "t \<noteq> ACTIVE"
  shows "no_gain st (move_plan pid p t st)"
  using assms
  by (intro no_gain_assign [OF sched_ok_plans, where q = "record_state p t (nextEventOrdinal st)"])
     (auto simp: move_plan_def no_gain_plan_def)

lemma atomic_no_gain:
  assumes "atomic op" "sched_ok st"
  shows "no_gain st (apply_op op st)"
proof (cases op)
  case (SetEpoch e)
  have "no_gain st (fence_plans (st\<lparr>st_epoch := e, st_authority := a\<rparr>))" for a
    by (rule no_gain_foreach [of revalidate_live]) (auto simp: no_gain_plan_def revalidate_live_def)
  then show ?thesis by (simp add: SetEpoch set_epoch_def no_gain_same)
next
  case (Ingest c)
  show ?thesis
    by (rule no_gain_same) (auto simp: Ingest ingest_candidate_def split: sum.splits option.splits)
next
  case (Revalidate pid fp)
  have "no_gain st (st\<lparr>plans := omap_assign pid (force_state p REVALIDATION_REQUIRED (nextEventOrdinal st)) (plans st),
      nextEventOrdinal := nextEventOrdinal st + 1\<rparr>)" if "omap_find (plans st) pid = Some p" for p
    by (rule no_gain_assign [OF sched_ok_plans [OF assms(2)] that,
        where q = "force_state p REVALIDATION_REQUIRED (nextEventOrdinal st)"])
       (simp_all add: no_gain_plan_def)
  then show ?thesis
    by (simp add: Revalidate revalidate_def Let_def no_gain_same split: option.split)
next
  case (Cancel rid)
  have "no_gain st (cancel rid st)"
    by (rule no_gain_foreach [of "cancel_plan rid"]) (auto simp: no_gain_plan_def cancel_plan_def)
  then show ?thesis by (simp add: Cancel)
next
  case (Supersede a b why)
  have "no_gain st (supersede a b why st)"
    by (rule no_gain_foreach [where f = "supersede_plan a
        (case omap_find (latestPlanByRequest st) b of None \<Rightarrow> StrongId 0 | Some i \<Rightarrow> i) why"])
       (auto simp: no_gain_plan_def supersede_plan_def)
  then show ?thesis by (simp add: Supersede)
qed (use assms in \<open>auto simp: fence_worker_def fence_source_def intro!: no_gain_same\<close>)

lemma schedule_no_gain:
  assumes "sched_ok st"
  shows "no_gain st (snd (schedule_finish r dep es rej st))"
proof (cases es)
  case Nil
  then show ?thesis by (simp add: schedule_finish_Nil no_gain_same)
next
  case (Cons w rest)
  have "\<not> hasCommitmentEvidence (fresh_plan r dep rej w rest st)"
    by (simp add: fresh_plan_def build_plan_def Let_def default_PlacementPlan_def)
  then show ?thesis using sched_ok_plans [OF assms]
    by (auto simp: no_gain_def Cons schedule_finish_Cons omap_find_emplace split: if_splits option.splits)
qed

lemma commit_begin_no_gain: "sched_ok st \<Longrightarrow> no_gain st (snd (commit_begin pid st))"
  by (cases rule: commit_begin_cases [of pid st])
     (auto simp: committable_def no_gain_same intro!: move_plan_no_gain)

lemma handoff_begin_no_gain: "sched_ok st \<Longrightarrow> no_gain st (snd (handoff_begin pid st))"
  by (cases rule: handoff_begin_cases [of pid st])
     (auto simp: launchable_def no_gain_same intro!: move_plan_no_gain)

section \<open>The broker is asked at most once per plan\<close>

fun asks :: "PlacementPlanId \<Rightarrow> event \<Rightarrow> bool" where
  "asks pid (BrokerAsked q cs) \<longleftrightarrow> q = pid"
| "asks pid _ \<longleftrightarrow> False"

definition started :: "PlacementPlanId \<Rightarrow> SchedulerState \<Rightarrow> bool" where
  "started pid st \<longleftrightarrow> (\<exists>p. omap_find (plans st) pid = Some p \<and> 5 \<le> progress (pl_state p))"

definition asked_once :: "system \<Rightarrow> bool" where
  "asked_once S \<longleftrightarrow> (\<forall>pid. length (filter (asks pid) (log S)) \<le> 1 \<and>
     (filter (asks pid) (log S) \<noteq> [] \<longrightarrow> started pid (sched S)))"

lemma started_keeps: "keeps st st' \<Longrightarrow> started pid st \<Longrightarrow> started pid st'"
  unfolding keeps_def plans_evolve_def started_def evolves_def by (meson order_trans)

lemma asks_other [simp]:
  "filter (asks pid) (released_event rel) = []"
  by (simp add: released_event_def split: option.split)

lemma committable_start:
  assumes "sched_ok st" "committable pid p st"
  shows "\<not> started pid st" "started pid (move_plan pid p AWAITING_RESOURCE_COMMIT st)"
  using assms sched_ok_plans [OF assms(1)]
  by (auto simp: committable_def started_def move_plan_def)

lemma commit_start_inv:
  assumes "commit_begin pid st = (Inr (Proceed cs), st')"
  obtains p where "committable pid p st" "st' = move_plan pid p AWAITING_RESOURCE_COMMIT st" "cs = claims p"
  using assms by (cases rule: commit_begin_cases [of pid st]) auto

lemma asked_once_quiet:
  assumes "asked_once S" "keeps (sched S) (sched S')" "\<And>pid. filter (asks pid) (log S') = filter (asks pid) (log S)"
  shows "asked_once S'"
  using assms started_keeps by (auto simp: asked_once_def)

lemma asked_once_start:
  assumes "asked_once S" "sched_ok (sched S)" "commit_begin pid (sched S) = (Inr (Proceed cs), st)"
  shows "asked_once (S\<lparr>sched := st, jobs := js, log := log S @ [BrokerAsked pid cs]\<rparr>)"
proof -
  obtain p where p: "committable pid p (sched S)" "st = move_plan pid p AWAITING_RESOURCE_COMMIT (sched S)"
    using assms(3) by (rule commit_start_inv)
  then have "filter (asks pid) (log S) = []"
    using assms(1) committable_start(1) [OF assms(2) p(1)] by (auto simp: asked_once_def)
  moreover have "keeps (sched S) st"
    using commit_begin_keeps [OF assms(2), of pid] assms(3) by simp
  ultimately show ?thesis
    using assms(1) p committable_start(2) [OF assms(2) p(1)] started_keeps [of "sched S" st]
    by (auto simp: asked_once_def)
qed

lemma step_asked_once:
  assumes "sys_step S S'" "sched_ok (sched S)" "asked_once S"
  shows "asked_once S'"
  using assms(1)
proof (cases rule: sys_step.cases)
  case (commit_start pid cs st)
  then show ?thesis using asked_once_start [OF assms(3,2)] by simp
qed (use step_keeps [OF assms(1,2)] in \<open>auto intro!: asked_once_quiet [OF assms(3)]\<close>)

lemma reachable_asked_once: "reachable cfg S \<Longrightarrow> asked_once S"
proof (induction rule: reachable.induct)
  case start
  then show ?case by (simp add: asked_once_def sys_init_def)
next
  case (step S S')
  then show ?case using step_asked_once reachable_ok by blast
qed

section \<open>Evidence is genuine, activity is authorised\<close>

definition jobs_logged :: "system \<Rightarrow> bool" where
  "jobs_logged S \<longleftrightarrow>
     (\<forall>pid cs br. CommitAnswer pid cs br \<in> set (jobs S) \<longrightarrow> BrokerAnswered pid br \<in> set (log S)) \<and>
     (\<forall>pid h. HandoffAnswer pid h \<in> set (jobs S) \<longrightarrow> ExecAnswered pid h \<in> set (log S))"

lemma step_jobs_logged: "sys_step S S' \<Longrightarrow> jobs_logged S \<Longrightarrow> jobs_logged S'"
  by (induction rule: sys_step.induct) (auto simp: jobs_logged_def)

lemma reachable_jobs_logged: "reachable cfg S \<Longrightarrow> jobs_logged S"
proof (induction rule: reachable.induct)
  case start
  then show ?case by (simp add: jobs_logged_def sys_init_def)
qed (rule step_jobs_logged)

definition genuine :: "event list \<Rightarrow> PlacementPlanId \<Rightarrow> PlacementPlan \<Rightarrow> bool" where
  "genuine lg pid p \<longleftrightarrow>
     (hasCommitmentEvidence p \<longrightarrow> (\<exists>br. BrokerAnswered pid br \<in> set lg \<and> succeeded br)) \<and>
     (pl_state p = ACTIVE \<longrightarrow> (\<exists>h. ExecAnswered pid h \<in> set lg \<and> authorized h))"

definition all_genuine :: "system \<Rightarrow> bool" where
  "all_genuine S \<longleftrightarrow> (\<forall>pid p. omap_find (plans (sched S)) pid = Some p \<longrightarrow> genuine (log S) pid p)"

lemma genuine_more: "genuine lg pid p \<Longrightarrow> set lg \<subseteq> set lg' \<Longrightarrow> genuine lg' pid p"
  unfolding genuine_def by blast

lemma all_genuine_no_gain:
  assumes "all_genuine S" "no_gain (sched S) (sched S')" "set (log S) \<subseteq> set (log S')"
  shows "all_genuine S'"
  unfolding all_genuine_def
proof (intro allI impI)
  fix pid q
  assume "omap_find (plans (sched S')) pid = Some q"
  with assms(2) consider p where "omap_find (plans (sched S)) pid = Some p"
      "hasCommitmentEvidence q \<longrightarrow> hasCommitmentEvidence p" "pl_state q = ACTIVE \<longrightarrow> pl_state p = ACTIVE"
    | "\<not> hasCommitmentEvidence q" "pl_state q = PLAN_READY"
    unfolding no_gain_def by blast
  then show "genuine (log S') pid q"
  proof cases
    case (1 p)
    then have "genuine (log S) pid p" using assms(1) by (simp add: all_genuine_def)
    then show ?thesis using 1 genuine_more [OF _ assms(3)] by (auto simp: genuine_def)
  qed (simp add: genuine_def)
qed

lemma all_genuine_assign:
  assumes "all_genuine S" "sched_ok (sched S)" "genuine lg pid q" "set (log S) \<subseteq> set lg"
    and "plans st = omap_assign pid q (plans (sched S))"
  shows "all_genuine (S\<lparr>sched := st, jobs := js, log := lg\<rparr>)"
  using assms genuine_more [OF _ assms(4)] sched_ok_plans [OF assms(2)]
  by (auto simp: all_genuine_def)

lemma commit_end_genuine:
  assumes "all_genuine S" "sched_ok (sched S)" "BrokerAnswered pid br \<in> set (log S)"
    and "commit_finish pid cs br (sched S) = (Inr (out, rel), st)" "set (log S) \<subseteq> set lg"
  shows "all_genuine (S\<lparr>sched := st, jobs := js, log := lg\<rparr>)"
proof (cases rule: commit_finish_cases [of pid "sched S" br cs])
  case (1 p)
  have "genuine lg pid (committed_plan p cs i)" for i
    using 1 assms(3,5) by (auto simp: genuine_def committed_plan_def)
  then show ?thesis
    using 1 assms by (intro all_genuine_assign) simp_all
next
  case (2 p)
  then have "no_gain (sched S) st"
    using assms(2,4) by (auto simp: awaiting_def intro!: move_plan_no_gain)
  then show ?thesis using assms(1,5) by (intro all_genuine_no_gain [OF assms(1)]) simp_all
next
  case 3
  then have "no_gain (sched S) st" using assms(4) by (simp add: no_gain_same)
  then show ?thesis using assms(1,5) by (intro all_genuine_no_gain [OF assms(1)]) simp_all
qed

lemma handoff_end_genuine:
  assumes "all_genuine S" "sched_ok (sched S)" "ExecAnswered pid h \<in> set (log S)"
    and "handoff_finish pid h (sched S) = (r, st)" "set (log S) \<subseteq> set lg"
  shows "all_genuine (S\<lparr>sched := st, jobs := js, log := lg\<rparr>)"
proof -
  have gen: "genuine lg pid p" if "current_plan pid p (sched S)" for p
    using that assms(1) unfolding all_genuine_def current_plan_def
    by (blast intro: genuine_more [OF _ assms(5)])
  show ?thesis
  proof (cases rule: handoff_finish_cases [of pid "sched S" h])
    case (active p)
    have "genuine lg pid (record_state p ACTIVE i)" for i
      using gen [OF active(1)] active(2) assms(3,5) by (auto simp: genuine_def)
    then show ?thesis using active assms by (intro all_genuine_assign) (auto simp: move_plan_def)
  next
    case (already p)
    then show ?thesis using gen assms by (intro all_genuine_assign [of S lg pid p]) auto
  next
    case (illegal p)
    then have "no_gain (sched S) st" using assms(4) by (auto intro: no_gain_same)
    then show ?thesis using assms(5) by (intro all_genuine_no_gain [OF assms(1)]) simp_all
  next
    case (refused p)
    have "genuine lg pid (force_state p REVALIDATION_REQUIRED i)" for i
      using gen [OF refused(1)] by (auto simp: genuine_def)
    then show ?thesis using refused assms by (intro all_genuine_assign) auto
  next
    case stale
    then have "no_gain (sched S) st" using assms(4) by (auto intro: no_gain_same)
    then show ?thesis using assms(5) by (intro all_genuine_no_gain [OF assms(1)]) simp_all
  qed
qed

lemma step_genuine:
  assumes "sys_step S S'" "sched_ok (sched S)" "jobs_logged S" "all_genuine S"
  shows "all_genuine S'"
  using assms(1)
proof (cases rule: sys_step.cases)
  case (mutex_method op)
  then show ?thesis
    using atomic_no_gain [OF _ assms(2)] by (intro all_genuine_no_gain [OF assms(4)]) simp_all
next
  case (schedule_end xs r dep es rej ys)
  then show ?thesis
    using schedule_no_gain [OF assms(2)] by (intro all_genuine_no_gain [OF assms(4)]) simp_all
next
  case (commit_refused pid out st)
  then show ?thesis using commit_begin_no_gain [OF assms(2), of pid]
    by (intro all_genuine_no_gain [OF assms(4)]) simp_all
next
  case (commit_start pid cs st)
  then show ?thesis using commit_begin_no_gain [OF assms(2), of pid]
    by (intro all_genuine_no_gain [OF assms(4)]) auto
next
  case (commit_end xs pid cs br ys out rel st)
  then have "BrokerAnswered pid br \<in> set (log S)" using assms(3) by (auto simp: jobs_logged_def)
  then show ?thesis unfolding commit_end(1)
    by (rule commit_end_genuine [OF assms(4,2) _ commit_end(3)]) auto
next
  case (handoff_refused pid h st)
  then show ?thesis using handoff_begin_no_gain [OF assms(2), of pid]
    by (intro all_genuine_no_gain [OF assms(4)]) simp_all
next
  case (handoff_start pid p st)
  then show ?thesis using handoff_begin_no_gain [OF assms(2), of pid]
    by (intro all_genuine_no_gain [OF assms(4)]) auto
next
  case (handoff_end xs pid h ys r st)
  then have "ExecAnswered pid h \<in> set (log S)" using assms(3) by (auto simp: jobs_logged_def)
  then show ?thesis unfolding handoff_end(1)
    by (rule handoff_end_genuine [OF assms(4,2) _ handoff_end(3)]) auto
qed (auto intro!: all_genuine_no_gain [OF assms(4)] no_gain_same)

lemma reachable_genuine: "reachable cfg S \<Longrightarrow> all_genuine S"
proof (induction rule: reachable.induct)
  case start
  then show ?case by (simp add: all_genuine_def sys_init_def new_Scheduler_def)
next
  case (step S S')
  then show ?case using step_genuine reachable_ok reachable_jobs_logged by blast
qed

section \<open>No commitment is lost\<close>

definition accounted :: "system \<Rightarrow> PlacementPlanId \<Rightarrow> ResourceCommitResult \<Rightarrow> bool" where
  "accounted S pid br \<longleftrightarrow>
     (\<exists>cs. CommitAnswer pid cs br \<in> set (jobs S)) \<or>
     (\<exists>out. CommitDone pid out \<in> set (log S) \<and> succeeded out \<and> commitmentToken out = commitmentToken br) \<or>
     commitmentToken br = [] \<or> Released (commitmentToken br) \<in> set (log S)"

definition all_accounted :: "system \<Rightarrow> bool" where
  "all_accounted S \<longleftrightarrow>
     (\<forall>pid br. BrokerAnswered pid br \<in> set (log S) \<and> succeeded br \<longrightarrow> accounted S pid br)"

lemma commit_finish_accounts:
  assumes "commit_finish pid cs br st = (Inr (out, rel), st')" "succeeded br"
  shows "succeeded out \<and> commitmentToken out = commitmentToken br \<or> rel = release_of br"
proof (cases "\<exists>p. awaiting pid p st")
  case True
  then obtain p where "awaiting pid p st" by blast
  from commit_finish_success [OF this assms(2), of cs] assms(1) show ?thesis by auto
next
  case False
  then have "\<And>p. \<not> awaiting pid p st" by blast
  from commit_finish_stale [OF this, of cs br] assms(1) show ?thesis by auto
qed

lemma step_accounted: "sys_step S S' \<Longrightarrow> all_accounted S \<Longrightarrow> all_accounted S'"
proof (induction rule: sys_step.induct)
  case (commit_end S xs pid cs br ys out rel st)
  show ?case
    unfolding all_accounted_def
  proof (intro allI impI)
    fix q b
    let ?lg = "log S @ released_event rel @ [CommitDone pid out]"
    assume "BrokerAnswered q b \<in> set (log (S\<lparr>sched := st, jobs := xs @ ys, log := ?lg\<rparr>)) \<and> succeeded b"
    then have "BrokerAnswered q b \<in> set (log S)" and b: "succeeded b"
      by (auto simp: released_event_def split: option.splits)
    then have old: "accounted S q b" using commit_end.prems by (simp add: all_accounted_def)
    show "accounted (S\<lparr>sched := st, jobs := xs @ ys, log := ?lg\<rparr>) q b"
    proof (cases "q = pid \<and> b = br")
      case True
      then show ?thesis
        using commit_finish_accounts [OF commit_end.hyps(2)] b
        by (auto simp: accounted_def release_of_def released_event_def)
    next
      case False
      then show ?thesis using old commit_end.hyps(1) by (auto simp: accounted_def)
    qed
  qed
qed (auto simp: all_accounted_def accounted_def; blast)+

lemma reachable_accounted: "reachable cfg S \<Longrightarrow> all_accounted S"
proof (induction rule: reachable.induct)
  case start
  then show ?case by (simp add: all_accounted_def sys_init_def)
qed (rule step_accounted)

end
