(* ===== verification/Scheduler_Properties.thy ===== *)
theory Scheduler_Properties
  imports Interleaving
begin

text \<open>
  What the scheduler's methods promise, method by method: the placement \<open>schedule\<close> picks, the
  outcomes of \<open>commit\<close> and \<open>handoff\<close> on every path, the effect of an epoch change, of
  cancellation, supersession, revalidation, ingest and restore.
\<close>

section \<open>The schedule\<close>

interpretation entry_order: keyed_order entry_less "rank_key o fst" "comparable o fst"
  by unfold_locales (simp add: entry_less_def RankComparator_key)

definition all_finite :: "SchedulerState \<Rightarrow> bool" where
  "all_finite st \<longleftrightarrow> (\<forall>c \<in> set (schedule_begin st). finite_evidence c)"

lemma candidate_in_snapshot:
  "sched_ok st \<Longrightarrow> c \<in> set (schedule_begin st) \<longleftrightarrow> omap_find (candidates st) (candidateId c) = Some c"
proof -
  assume ok: "sched_ok st"
  then have m: "omap_ok (candidates st)" by (simp add: sched_ok_def)
  show ?thesis
  proof
    assume "c \<in> set (schedule_begin st)"
    then obtain k where "(k, c) \<in> set (candidates st)" by (auto simp: schedule_begin_def)
    then have "omap_find (candidates st) k = Some c" using m by (simp add: omap_find_Some_iff)
    moreover from this have "candidateId c = k" using ok by (simp add: sched_ok_def)
    ultimately show "omap_find (candidates st) (candidateId c) = Some c" by simp
  next
    assume "omap_find (candidates st) (candidateId c) = Some c"
    then show "c \<in> set (schedule_begin st)"
      using m by (force simp: omap_find_Some_iff schedule_begin_def)
  qed
qed

lemma snapshot_ids_distinct: "sched_ok st \<Longrightarrow> distinct (map candidateId (schedule_begin st))"
proof -
  assume ok: "sched_ok st"
  have "map candidateId (schedule_begin st) = map fst (candidates st)"
    using ok by (auto simp: schedule_begin_def sched_ok_def omap_find_Some_iff)
  then show ?thesis using ok by (simp add: sched_ok_def omap_ok_def strict_sorted_iff)
qed

text \<open>The entries \<^verbatim>\<open>schedule\<close> sorts, all of them comparable, with distinct keys.\<close>

abbreviation entries_of ::
  "SchedulingRequest \<Rightarrow> DependencyView option \<Rightarrow> PolicyVeto option \<Rightarrow> SchedulerState \<Rightarrow> entry list"
where
  "entries_of r dep pol st \<equiv> eligible_entries r dep pol (rankOptions st) (schedule_begin st)"

lemma entries_iff:
  "(rk, c) \<in> set (entries_of r dep pol st) \<longleftrightarrow>
     c \<in> set (schedule_begin st) \<and> meets_hard_constraints r c dep pol \<and> rk = Ranker_evaluate r c (rankOptions st)"
  by (auto simp: eligible_entries_def eligible_def evaluate_eligible)

definition eligible_finite ::
  "SchedulingRequest \<Rightarrow> DependencyView option \<Rightarrow> PolicyVeto option \<Rightarrow> SchedulerState \<Rightarrow> bool"
where
  "eligible_finite r dep pol st \<longleftrightarrow>
     (\<forall>c \<in> set (schedule_begin st). meets_hard_constraints r c dep pol \<longrightarrow> finite_evidence c)"

lemma all_eligible_finite: "all_finite st \<Longrightarrow> eligible_finite r dep pol st"
  by (simp add: all_finite_def eligible_finite_def)

lemma entries_comparable:
  assumes "eligible_finite r dep pol st" "nonneg_weights (opt_weights (rankOptions st))"
  shows "\<forall>e \<in> set (entries_of r dep pol st). (comparable o fst) e"
  using assms Ranker_comparable by (fastforce simp: entries_iff eligible_finite_def)

lemma entries_inj:
  assumes "sched_ok st"
  shows "inj_on (rank_key o fst) (set (entries_of r dep pol st))"
proof (rule inj_onI)
  fix a b
  assume ab: "a \<in> set (entries_of r dep pol st)" "b \<in> set (entries_of r dep pol st)"
    and eq: "(rank_key o fst) a = (rank_key o fst) b"
  obtain ra ca rb cb where p: "a = (ra, ca)" "b = (rb, cb)" by (cases a, cases b)
  have r: "ra = Ranker_evaluate r ca (rankOptions st)" "rb = Ranker_evaluate r cb (rankOptions st)"
    and m: "ca \<in> set (schedule_begin st)" "cb \<in> set (schedule_begin st)"
    using ab unfolding p entries_iff by blast+
  have "rc_candidateId ra = rc_candidateId rb" using eq rank_key_id [of ra rb] by (simp add: p)
  then have "candidateId ca = candidateId cb" unfolding r by simp
  then have "Some ca = Some cb" using m unfolding candidate_in_snapshot [OF assms] by metis
  then show "a = b" unfolding p r by simp
qed

lemma schedule_eq:
  assumes "validate (demand r) = Inr ()"
  shows "schedule r dep pol st =
     schedule_finish r dep (std_sort entry_less (entries_of r dep pol st))
       (rejected_entries r dep pol (schedule_begin st)) st"
  using assms by (simp add: schedule_def Let_def)

lemma produced_iff:
  assumes "schedule_finish r dep es rej st = (Inr d, st')"
  shows "producedPlan d \<longleftrightarrow> es \<noteq> []"
proof (cases es)
  case Nil
  then show ?thesis using assms by (auto simp: schedule_finish_def Let_def)
next
  case (Cons w rest)
  then show ?thesis using assms by (auto simp: schedule_finish_Cons)
qed

lemma schedule_valid: "schedule r dep pol st = (Inr d, st') \<Longrightarrow> validate (demand r) = Inr ()"
  by (auto simp: schedule_def split: sum.splits)

lemma schedule_Inr:
  assumes "schedule r dep pol st = (Inr d, st')"
  shows "schedule_finish r dep (std_sort entry_less (entries_of r dep pol st))
       (rejected_entries r dep pol (schedule_begin st)) st = (Inr d, st')"
  using assms schedule_valid [OF assms] by (simp add: schedule_eq)

lemma winner:
  assumes "sched_ok st" "eligible_finite r dep pol st" "nonneg_weights (opt_weights (rankOptions st))"
    and "std_sort entry_less (entries_of r dep pol st) = (rk, c) # rest"
  shows "omap_find (candidates st) (candidateId c) = Some c" "meets_hard_constraints r c dep pol"
    and "rk = Ranker_evaluate r c (rankOptions st)"
    and "\<And>c'. omap_find (candidates st) (candidateId c') = Some c' \<Longrightarrow> meets_hard_constraints r c' dep pol \<Longrightarrow>
       \<not> RankComparator (Ranker_evaluate r c' (rankOptions st)) rk"
proof -
  have "(rk, c) \<in> set (entries_of r dep pol st)"
    using set_std_sort [of entry_less "entries_of r dep pol st"] assms(4) by auto
  then show "omap_find (candidates st) (candidateId c) = Some c" "meets_hard_constraints r c dep pol"
      "rk = Ranker_evaluate r c (rankOptions st)"
    by (simp_all add: entries_iff candidate_in_snapshot [OF assms(1)])
  fix c'
  assume "omap_find (candidates st) (candidateId c') = Some c'" "meets_hard_constraints r c' dep pol"
  then have "(Ranker_evaluate r c' (rankOptions st), c') \<in> set (entries_of r dep pol st)"
    by (simp add: entries_iff candidate_in_snapshot [OF assms(1)])
  from entry_order.hd_std_sort_least [OF entries_comparable [OF assms(2,3)] this]
  show "\<not> RankComparator (Ranker_evaluate r c' (rankOptions st)) rk"
    by (simp add: assms(4) entry_less_def)
qed

text \<open>C10: In a well-formed state a call of \<^verbatim>\<open>schedule\<close> that returns a decision produces a plan exactly when some known
  candidate meets every hard constraint. If moreover the numbers in the evidence of the candidates
  that meet them are finite and every ranking weight of the configuration is finite and not
  negative, then the selected candidate is one that meets the constraints, and no other such
  candidate is ranked strictly better by the comparator. (With a NaN score the comparator is no
  ordering, and \<^verbatim>\<open>std::sort\<close> promises nothing about which candidate comes first.)\<close>

theorem schedule_selects_best:
  assumes "schedule r dep pol st = (Inr d, st')" "sched_ok st"
  shows "(producedPlan d \<longleftrightarrow>
       (\<exists>c. omap_find (candidates st) (candidateId c) = Some c \<and> meets_hard_constraints r c dep pol)) \<and>
     (producedPlan d \<and> nonneg_weights (opt_weights (rankOptions st)) \<and>
      (\<forall>c. omap_find (candidates st) (candidateId c) = Some c \<and> meets_hard_constraints r c dep pol \<longrightarrow>
         finite_evidence c) \<longrightarrow>
      (\<exists>c. omap_find (candidates st) (selectedCandidate (dec_plan d)) = Some c \<and>
       meets_hard_constraints r c dep pol \<and>
       (\<forall>c'. omap_find (candidates st) (candidateId c') = Some c' \<and> meets_hard_constraints r c' dep pol \<longrightarrow>
          \<not> RankComparator (Ranker_evaluate r c' (rankOptions st)) (Ranker_evaluate r c (rankOptions st)))))"
proof -
  let ?es = "std_sort entry_less (entries_of r dep pol st)"
  note fin = schedule_Inr [OF assms(1)]
  have "?es \<noteq> [] \<longleftrightarrow> (\<exists>e. e \<in> set (entries_of r dep pol st))"
    by (metis list.set_intros(1) neq_Nil_conv set_std_sort empty_iff list.set(1))
  then have some: "producedPlan d \<longleftrightarrow>
       (\<exists>c. omap_find (candidates st) (candidateId c) = Some c \<and> meets_hard_constraints r c dep pol)"
    unfolding produced_iff [OF fin]
    by (auto simp: entries_iff candidate_in_snapshot [OF assms(2)])
  have "\<exists>c. omap_find (candidates st) (selectedCandidate (dec_plan d)) = Some c \<and>
       meets_hard_constraints r c dep pol \<and>
       (\<forall>c'. omap_find (candidates st) (candidateId c') = Some c' \<and> meets_hard_constraints r c' dep pol \<longrightarrow>
          \<not> RankComparator (Ranker_evaluate r c' (rankOptions st)) (Ranker_evaluate r c (rankOptions st)))"
    if p: "producedPlan d" and w: "nonneg_weights (opt_weights (rankOptions st))"
      and f: "\<forall>c. omap_find (candidates st) (candidateId c) = Some c \<and> meets_hard_constraints r c dep pol \<longrightarrow>
         finite_evidence c"
  proof -
    have fin': "eligible_finite r dep pol st"
      using f by (simp add: eligible_finite_def candidate_in_snapshot [OF assms(2)])
    have "?es \<noteq> []" using p produced_iff [OF fin] by simp
    then obtain e rest where e: "?es = e # rest" by (cases ?es) auto
    obtain rk c where "e = (rk, c)" by (cases e)
    with e have es: "?es = (rk, c) # rest" by simp
    note w = winner [OF assms(2) fin' w es]
    have "selectedCandidate (dec_plan d) = candidateId c"
      using fin w(3) unfolding es schedule_finish_Cons by auto
    then show ?thesis using w by auto
  qed
  with some show ?thesis by blast
qed

text \<open>The ranking order does not depend on how \<^verbatim>\<open>std::sort\<close> works: every permutation of the
  eligible entries without inversions under the comparator is the list the model uses.\<close>

theorem schedule_sort_unique:
  assumes "sched_ok st" "all_finite st" "nonneg_weights (opt_weights (rankOptions st))"
    and "mset es = mset (entries_of r dep pol st)" "sorted_wrt (\<lambda>a b. \<not> entry_less b a) es"
  shows "es = std_sort entry_less (entries_of r dep pol st)"
  using assms by (intro entry_order.sorted_permutation_unique entries_comparable entries_inj all_eligible_finite)

section \<open>A worked example\<close>

text \<open>A scheduler that knows the local candidate of the scenario, and the state after it has planned
  the inspection tool's request: the inputs of the examples below.\<close>

definition demo_st :: SchedulerState where
  "demo_st = snd (ingest_candidate sampleA (new_Scheduler default_SchedulerConfig))"

definition demo_plan :: PlacementPlan where
  "demo_plan = fresh_plan req None [] (Ranker_evaluate req sampleA default_RankOptions, sampleA) [] demo_st"

definition demo_ready :: SchedulerState where
  "demo_ready = snd (schedule req None None demo_st)"

lemma sampleA_id [simp]: "candidateId sampleA = StrongId 1" "candidateGeneration sampleA = StrongId 1"
  by (simp_all add: make_scenario_candidate_def Let_def)

lemma sampleA_checks: "check_candidate sampleA = Inr ()"
  by (simp add: check_candidate_def is_valid_def scenario_defs)

lemma demo_st_eq:
  "demo_st = (new_Scheduler default_SchedulerConfig)
     \<lparr>candidates := [(StrongId 1, sampleA)], ingestWatermark := 1\<rparr>"
  by (simp add: demo_st_def ingest_candidate_def sampleA_checks new_Scheduler_def omap_emplace_def)

lemma demo_ok: "sched_ok demo_st" "fence_ok demo_st"
  using ingest_keeps [OF sched_ok_new] ingest_fence [OF fence_ok_new] by (simp_all add: demo_st_def keeps_def)

lemma sampleA_finite: "finite_evidence sampleA"
  by (simp add: finite_evidence_def scenario_defs)

lemma demo_finite: "all_finite demo_st" "nonneg_weights (opt_weights (rankOptions demo_st))"
  by (simp_all add: all_finite_def demo_st_eq schedule_begin_def sampleA_finite new_Scheduler_def
      default_SchedulerConfig_def default_RankOptions_def default_weights_nonneg)

lemma demo_meets: "meets_hard_constraints req sampleA None None"
  by (simp add: meets_hard_constraints_def scenario_defs constraint_defs vram_demand_def is_valid_def)

lemma demo_valid: "validate (demand req) = Inr ()"
  by (simp add: demand_eval scenario_defs)

lemma demo_entries: "entries_of req None None demo_st = [(Ranker_evaluate req sampleA default_RankOptions, sampleA)]"
  by (simp add: eligible_entries_def demo_st_eq schedule_begin_def eligible_def evaluate_eligible demo_meets
      new_Scheduler_def default_SchedulerConfig_def)

lemma demo_schedule:
  "schedule req None None demo_st =
     schedule_finish req None [(Ranker_evaluate req sampleA default_RankOptions, sampleA)] [] demo_st"
proof -
  have "schedule_begin demo_st = [sampleA]" by (simp add: demo_st_eq schedule_begin_def)
  then have "rejected_entries req None None (schedule_begin demo_st) = []"
    by (simp add: rejected_entries_def eligible_def evaluate_eligible demo_meets)
  then show ?thesis
    using schedule_eq [OF demo_valid, of None None demo_st] unfolding demo_entries
    by (simp add: std_sort_def)
qed

lemma demo_produced: "\<exists>d. schedule req None None demo_st = (Inr d, demo_ready) \<and> producedPlan d"
  by (simp add: demo_ready_def demo_schedule schedule_finish_Cons)

lemma demo_counters [simp]:
  "nextPlanId demo_st = 1" "plans demo_st = []" "st_authority demo_st = StrongId 1"
  "cancelledRequests demo_st = []" "st_epoch demo_st = StrongId 1"
  by (simp_all add: demo_st_eq new_Scheduler_def default_SchedulerConfig_def)

lemma demo_ready_plan [simp]:
  "omap_find (plans demo_ready) (StrongId 1) = Some demo_plan" "st_authority demo_ready = StrongId 1"
  "cancelledRequests demo_ready = []" "st_epoch demo_ready = StrongId 1"
  by (simp_all add: demo_ready_def demo_schedule schedule_finish_Cons demo_plan_def omap_emplace_def omap_find_def)

lemma demo_plan_fields [simp]:
  "pl_state demo_plan = PLAN_READY" "planId demo_plan = StrongId 1" "pl_authorityGeneration demo_plan = StrongId 1"
  "pl_requestId demo_plan = StrongId 1"
  by (simp_all add: demo_plan_def req_def)

lemma demo_committable: "committable (StrongId 1) demo_plan demo_ready"
  by (simp add: committable_def)

lemma demo_ready_ok: "sched_ok demo_ready" "fence_ok demo_ready"
  using schedule_keeps [OF demo_ok(1)] schedule_fence [OF demo_ok]
  by (simp_all add: demo_ready_def demo_schedule keeps_def)

theorem schedule_selects_best_witness:
  "\<exists>d. schedule req None None demo_st = (Inr d, demo_ready) \<and>
     (\<exists>c. omap_find (candidates demo_st) (selectedCandidate (dec_plan d)) = Some c)"
proof -
  obtain d where d: "schedule req None None demo_st = (Inr d, demo_ready)" "producedPlan d"
    using demo_produced by blast
  have "\<forall>c. omap_find (candidates demo_st) (candidateId c) = Some c \<longrightarrow> finite_evidence c"
    using demo_finite(1) by (simp add: all_finite_def candidate_in_snapshot [OF demo_ok(1)])
  with d(2) demo_finite(2) schedule_selects_best [OF d(1) demo_ok(1)] show ?thesis
    by (meson d(1))
qed

theorem schedule_sort_unique_witness:
  "entries_of req None None demo_st = std_sort entry_less (entries_of req None None demo_st)"
  by (rule schedule_sort_unique [OF demo_ok(1) demo_finite]) (simp_all add: demo_entries)

section \<open>Commit\<close>

text \<open>C13: run without interference, \<^verbatim>\<open>commit\<close> never throws; it succeeds exactly when the plan is
  PLAN_READY, its request is not cancelled, its authority is current and the broker commits its
  claims. Then the plan is COMMITTED, with evidence and those claims. Otherwise no plan becomes
  COMMITTED, and a plan the broker refused is left REVALIDATION_REQUIRED.\<close>

theorem commit_outcome:
  assumes "sched_ok st" "commit pid broker b st = (r, b', st')"
  shows "\<exists>out. r = Inr out \<and>
     (succeeded out \<longleftrightarrow> (\<exists>p. committable pid p st \<and> succeeded (fst (broker_commit broker (claims p) b)))) \<and>
     (succeeded out \<longrightarrow> (\<exists>p q. omap_find (plans st) pid = Some p \<and> omap_find (plans st') pid = Some q \<and>
        pl_state q = COMMITTED \<and> hasCommitmentEvidence q \<and> claims q = claims p)) \<and>
     (\<not> succeeded out \<longrightarrow>
        (\<forall>k q. omap_find (plans st') k = Some q \<and> pl_state q = COMMITTED \<longrightarrow> omap_find (plans st) k = Some q) \<and>
        (\<forall>p q. committable pid p st \<and> omap_find (plans st') pid = Some q \<longrightarrow> pl_state q = REVALIDATION_REQUIRED))"
proof (cases rule: commit_begin_cases [of pid st])
  case (2 why)
  then have "r = Inr (failed_commit (StrongId 1) why)" "st' = st"
    using assms(2) by (simp_all add: commit_def)
  then show ?thesis using 2(1) by (auto simp: failed_commit_def)
next
  case (1 p)
  let ?st1 = "move_plan pid p AWAITING_RESOURCE_COMMIT st"
  let ?q = "record_state p AWAITING_RESOURCE_COMMIT (nextEventOrdinal st)"
  obtain br b1 where br: "broker_commit broker (claims p) b = (br, b1)" by (cases "broker_commit broker (claims p) b")
  have ok: "omap_ok (plans st)" using assms(1) by (rule sched_ok_plans)
  then have q: "awaiting pid ?q ?st1"
    using 1(1) by (simp add: awaiting_def commit_stale_def committable_def move_plan_def)
  have only: "committable pid p' st \<longleftrightarrow> p' = p" for p' using 1(1) by (auto simp: committable_def)
  show ?thesis
  proof (cases "succeeded br")
    case True
    have "commit pid broker b st = (Inr \<lparr>succeeded = True, commitmentToken = commitmentToken br,
        rcr_resourceGeneration = rcr_resourceGeneration br, failureReason = [], rcr_provisional = False\<rparr>,
        b1, ?st1\<lparr>nextEventOrdinal := nextEventOrdinal ?st1 + 1,
          plans := omap_assign pid (committed_plan ?q (claims p) (nextEventOrdinal ?st1)) (plans ?st1)\<rparr>)"
      by (simp only: commit_def 1(2) br commit_finish_success [OF q True] prod.case sum.case
          section_result.case option.case Let_def)
    then have "r = Inr \<lparr>succeeded = True, commitmentToken = commitmentToken br,
        rcr_resourceGeneration = rcr_resourceGeneration br, failureReason = [], rcr_provisional = False\<rparr>"
      "plans st' = omap_assign pid (committed_plan ?q (claims p) (nextEventOrdinal ?st1)) (plans ?st1)"
      using assms(2) by auto
    then show ?thesis using 1(1) ok True
      by (simp add: only br committed_plan_def move_plan_def committable_def)
  next
    case False
    have "commit pid broker b st = (Inr (failed_commit (rcr_resourceGeneration br) (failureReason br)), b1,
        move_plan pid ?q REVALIDATION_REQUIRED ?st1)"
      by (simp only: commit_def 1(2) br commit_finish_refused [OF q False] prod.case sum.case
          section_result.case option.case Let_def)
    then have "r = Inr (failed_commit (rcr_resourceGeneration br) (failureReason br))"
      "plans st' = plans (move_plan pid ?q REVALIDATION_REQUIRED ?st1)"
      using assms(2) by auto
    then show ?thesis using 1(1) ok False
      by (auto simp: only br failed_commit_def move_plan_def committable_def split: if_splits)
  qed
qed

theorem commit_outcome_witness:
  "\<exists>out b' st'. commit (StrongId 1) in_memory_broker \<lparr>failNext = False, nextToken = 0\<rparr> demo_ready =
     (Inr out, b', st') \<and> succeeded out"
proof -
  obtain r b' st' where c: "commit (StrongId 1) in_memory_broker \<lparr>failNext = False, nextToken = 0\<rparr> demo_ready = (r, b', st')"
    by (metis prod.exhaust)
  have "succeeded (fst (broker_commit in_memory_broker (claims demo_plan) \<lparr>failNext = False, nextToken = 0\<rparr>))"
    by (simp add: in_memory_broker_def InMemoryBroker_commit_def Let_def)
  with commit_outcome [OF demo_ready_ok(1) c] demo_committable c show ?thesis by blast
qed

text \<open>A commit whose plan was cancelled, superseded, revalidated or outdated by a newer authority
  while the broker was deciding changes nothing, reports failure, and asks for the release of
  exactly the token the broker handed out.\<close>

theorem commit_race_releases:
  assumes "omap_find (plans st) pid = Some p"
    and "pl_requestId p \<in> set (cancelledRequests st) \<or> pl_authorityGeneration p \<noteq> st_authority st \<or>
      pl_state p \<noteq> AWAITING_RESOURCE_COMMIT"
  shows "\<exists>out. commit_finish pid cs br st = (Inr (out, release_of br), st) \<and> \<not> succeeded out"
  using assms by (auto simp: commit_finish_def commit_stale_def failed_commit_def)

theorem commit_race_releases_witness:
  "\<exists>out. commit_finish (StrongId 1) [] (default_ResourceCommitResult\<lparr>succeeded := True, commitmentToken := ''tok-1''\<rparr>)
      demo_ready = (Inr (out, Some ''tok-1''), demo_ready) \<and> \<not> succeeded out"
  using commit_race_releases [OF demo_ready_plan(1), of "[]"
      "default_ResourceCommitResult\<lparr>succeeded := True, commitmentToken := ''tok-1''\<rparr>"]
  by (simp add: release_of_def)

section \<open>Handoff\<close>

lemma handoff_result:
  assumes "sched_ok st" "handoff pid exec e st = (r, e', st')"
  shows "\<exists>h. r = Inr h \<and>
     (authorized h \<longleftrightarrow> (\<exists>p. launchable pid p st \<and> authorized (fst (authorize exec p e)))) \<and>
     (\<forall>p q. launchable pid p st \<and> omap_find (plans st') pid = Some q \<longrightarrow>
        pl_state q = (if authorized h then ACTIVE else REVALIDATION_REQUIRED)) \<and>
     ((\<forall>p. \<not> launchable pid p st) \<longrightarrow> st' = st)"
proof (cases rule: handoff_begin_cases [of pid st])
  case 2
  then have "r = Inr default_ExecutionHandoff" "st' = st"
    using assms(2) by (simp_all add: handoff_def)
  then show ?thesis using 2(1) by (auto simp: default_ExecutionHandoff_def)
next
  case (1 p)
  let ?st1 = "move_plan pid p AWAITING_EXECUTION st"
  let ?q = "record_state p AWAITING_EXECUTION (nextEventOrdinal st)"
  obtain h e1 where h: "authorize exec p e = (h, e1)" by (cases "authorize exec p e")
  obtain r2 st2 where fin: "handoff_finish pid h ?st1 = (r2, st2)" by (cases "handoff_finish pid h ?st1")
  have ok: "omap_ok (plans st)" using assms(1) by (rule sched_ok_plans)
  have q: "omap_find (plans ?st1) pid = Some ?q" using ok by (simp add: move_plan_def)
  have only: "launchable pid p' st \<longleftrightarrow> p' = p" for p' using 1(1) by (auto simp: launchable_def)
  have res: "r = r2" "st' = st2" using assms(2) by (auto simp: handoff_def 1(2) h fin)
  have cur: "current_plan pid ?q ?st1"
    using 1(1) q by (simp add: current_plan_def launchable_def move_plan_def)
  show ?thesis
  proof (cases rule: handoff_finish_cases [of pid ?st1 h])
    case (active p')
    then show ?thesis using fin res ok only h 1(1)
      by (auto simp: move_plan_def)
  next
    case (already p')
    then show ?thesis using q by (auto simp: current_plan_def)
  next
    case (illegal p')
    then show ?thesis using q by (auto simp: current_plan_def)
  next
    case (refused p')
    then show ?thesis using fin res ok only h
      by (auto simp: move_plan_def)
  next
    case stale
    then show ?thesis using cur by blast
  qed
qed

text \<open>C14: run without interference, \<^verbatim>\<open>handoff\<close> never throws; its answer is authorised exactly when
  the plan is COMMITTED, not cancelled and of the current authority, and the execution fabric
  authorises it. Then the plan is ACTIVE; a plan the fabric refuses is REVALIDATION_REQUIRED.\<close>

theorem handoff_outcome:
  assumes "sched_ok st" "handoff pid exec e st = (r, e', st')"
  shows "\<exists>h. r = Inr h \<and>
     (authorized h \<longleftrightarrow> (\<exists>p. launchable pid p st \<and> authorized (fst (authorize exec p e)))) \<and>
     (\<forall>p q. launchable pid p st \<and> omap_find (plans st') pid = Some q \<longrightarrow>
        pl_state q = (if authorized h then ACTIVE else REVALIDATION_REQUIRED)) \<and>
     ((\<forall>p. \<not> launchable pid p st) \<longrightarrow> st' = st)"
  by (rule handoff_result [OF assms])

lemma demo_commit_succeeds:
  "\<exists>out b' st'. commit (StrongId 1) in_memory_broker \<lparr>failNext = False, nextToken = 0\<rparr> demo_ready =
     (Inr out, b', st') \<and> succeeded out"
proof -
  have q: "awaiting (StrongId 1) (record_state demo_plan AWAITING_RESOURCE_COMMIT (nextEventOrdinal demo_ready))
      (move_plan (StrongId 1) demo_plan AWAITING_RESOURCE_COMMIT demo_ready)"
    using sched_ok_plans [OF demo_ready_ok(1)] by (simp add: awaiting_def commit_stale_def move_plan_def)
  obtain br b1 where br: "broker_commit in_memory_broker (claims demo_plan) \<lparr>failNext = False, nextToken = 0\<rparr> = (br, b1)"
      and s: "succeeded br"
    by (simp add: in_memory_broker_def InMemoryBroker_commit_def Let_def)
  show ?thesis
    by (simp add: commit_def commit_begin_proceed [OF demo_committable] br commit_finish_success [OF q s])
qed

definition demo_committed :: SchedulerState where
  "demo_committed = snd (snd (commit (StrongId 1) in_memory_broker \<lparr>failNext = False, nextToken = 0\<rparr> demo_ready))"

definition committed_demo_plan :: PlacementPlan where
  "committed_demo_plan =
     committed_plan (record_state demo_plan AWAITING_RESOURCE_COMMIT (nextEventOrdinal demo_ready))
       (claims demo_plan) (nextEventOrdinal demo_ready + 1)"

lemma demo_committed_eq:
  "plans demo_committed = omap_assign (StrongId 1) committed_demo_plan
     (omap_assign (StrongId 1) (record_state demo_plan AWAITING_RESOURCE_COMMIT (nextEventOrdinal demo_ready)) (plans demo_ready))"
  "cancelledRequests demo_committed = []" "st_authority demo_committed = StrongId 1"
  "st_epoch demo_committed = StrongId 1"
proof -
  let ?st1 = "move_plan (StrongId 1) demo_plan AWAITING_RESOURCE_COMMIT demo_ready"
  let ?q = "record_state demo_plan AWAITING_RESOURCE_COMMIT (nextEventOrdinal demo_ready)"
  have q: "awaiting (StrongId 1) ?q ?st1"
    using sched_ok_plans [OF demo_ready_ok(1)] by (simp add: awaiting_def commit_stale_def move_plan_def)
  obtain br b1 where br: "broker_commit in_memory_broker (claims demo_plan) \<lparr>failNext = False, nextToken = 0\<rparr> = (br, b1)"
      and s: "succeeded br"
    by (simp add: in_memory_broker_def InMemoryBroker_commit_def Let_def)
  have "demo_committed = ?st1\<lparr>nextEventOrdinal := nextEventOrdinal ?st1 + 1,
         plans := omap_assign (StrongId 1) (committed_plan ?q (claims demo_plan) (nextEventOrdinal ?st1)) (plans ?st1)\<rparr>"
    unfolding demo_committed_def commit_def commit_begin_proceed [OF demo_committable]
    by (simp add: br commit_finish_success [OF q s])
  note eq = this
  show "plans demo_committed = omap_assign (StrongId 1) committed_demo_plan
     (omap_assign (StrongId 1) ?q (plans demo_ready))" "cancelledRequests demo_committed = []"
     "st_authority demo_committed = StrongId 1" "st_epoch demo_committed = StrongId 1"
    unfolding eq by (simp_all add: move_plan_def committed_demo_plan_def)
qed

lemma demo_launchable: "launchable (StrongId 1) committed_demo_plan demo_committed"
  using sched_ok_plans [OF demo_ready_ok(1)]
  by (simp add: launchable_def demo_committed_eq) (simp add: committed_demo_plan_def committed_plan_def)

lemma demo_committed_ok: "sched_ok demo_committed"
proof -
  have "demo_committed = apply_op (CommitFinish (StrongId 1) (claims demo_plan)
      (fst (broker_commit in_memory_broker (claims demo_plan) \<lparr>failNext = False, nextToken = 0\<rparr>)))
      (apply_op (CommitBegin (StrongId 1)) demo_ready)"
    by (auto simp: demo_committed_def commit_def commit_begin_proceed [OF demo_committable] split: prod.split sum.split)
  then show ?thesis using apply_op_keeps demo_ready_ok(1) unfolding keeps_def by metis
qed

theorem handoff_outcome_witness:
  "\<exists>h e' st'. handoff (StrongId 1) reference_execution (StrongId 1) demo_committed = (Inr h, e', st') \<and> authorized h"
proof -
  obtain r e' st' where h: "handoff (StrongId 1) reference_execution (StrongId 1) demo_committed = (r, e', st')"
    by (metis prod.exhaust)
  have "authorized (fst (authorize reference_execution committed_demo_plan (StrongId 1)))"
    by (simp add: reference_execution_def ReferenceExecutionAdapter_authorize_def committed_demo_plan_def
        committed_plan_def)
  with handoff_outcome [OF demo_committed_ok h] demo_launchable h show ?thesis by blast
qed

text \<open>With the reference execution adapter, a handoff is authorised only for a plan of the
  scheduler's current authority that is also the authority the adapter accepts.\<close>

theorem handoff_reference_authority:
  assumes "sched_ok st" "handoff pid reference_execution accepted st = (Inr h, e', st')" "authorized h"
  shows "accepted = st_authority st \<and> (\<exists>p. omap_find (plans st) pid = Some p \<and> pl_state p = COMMITTED \<and>
     hasCommitmentEvidence p)"
proof -
  obtain p where p: "launchable pid p st" "authorized (fst (authorize reference_execution p accepted))"
    using handoff_result [OF assms(1,2)] assms(3) by auto
  have "accepted = pl_authorityGeneration p" using reference_gate.authorized_only [OF p(2)] .
  moreover have "hasCommitmentEvidence p"
    using p(1) plan_okD [OF assms(1)] by (fastforce simp: launchable_def plan_ok_def)
  ultimately show ?thesis using p(1) by (auto simp: launchable_def)
qed

lemma demo_handoff:
  obtains h e' st' where
    "handoff (StrongId 1) reference_execution (StrongId 1) demo_committed = (Inr h, e', st')" "authorized h"
proof -
  obtain r e' st' where h: "handoff (StrongId 1) reference_execution (StrongId 1) demo_committed = (r, e', st')"
    by (metis prod.exhaust)
  have "authorized (fst (authorize reference_execution committed_demo_plan (StrongId 1)))"
    by (simp add: reference_execution_def ReferenceExecutionAdapter_authorize_def committed_demo_plan_def
        committed_plan_def)
  with handoff_result [OF demo_committed_ok h] demo_launchable h that show ?thesis by blast
qed

theorem handoff_reference_authority_witness:
  "\<exists>p. omap_find (plans demo_committed) (StrongId 1) = Some p \<and> hasCommitmentEvidence p"
proof -
  obtain h e' st' where
    "handoff (StrongId 1) reference_execution (StrongId 1) demo_committed = (Inr h, e', st')" "authorized h"
    by (rule demo_handoff)
  from handoff_reference_authority [OF demo_committed_ok this] show ?thesis by blast
qed

section \<open>Epoch, cancellation, supersession\<close>

lemma foreach_find:
  assumes "omap_ok m" "omap_find m k = Some p"
  shows "\<exists>i. omap_find (fst (omap_foreach f m c)) k = Some (fst (f p i))"
  using assms(2)
proof (induction m arbitrary: c)
  case (Cons a m)
  then show ?case by (cases a) (auto simp: omap_find_def omap_foreach_Cons)
qed simp

text \<open>C15: an epoch change is refused exactly when the new epoch is below the current one, and then
  changes nothing; setting the same epoch is no change; a higher epoch is taken, draws the next
  authority, and moves every non-terminal plan to REVALIDATION_REQUIRED while terminal plans stay
  as they are.\<close>

theorem set_epoch_fences:
  assumes "sched_ok st" "set_epoch e st = (r, st')"
  shows "(r = Inr () \<longleftrightarrow> st_epoch st \<le> e) \<and>
     (r \<noteq> Inr () \<longrightarrow> st' = st \<and> (\<exists>m. r = throw StaleAuthority m)) \<and>
     (st_epoch st = e \<longrightarrow> st' = st) \<and>
     (st_epoch st < e \<longrightarrow> st_epoch st' = e \<and> st_authority st' = id_next (st_authority st) \<and>
        (\<forall>k p. omap_find (plans st) k = Some p \<longrightarrow>
           (\<exists>q. omap_find (plans st') k = Some q \<and>
              (if is_terminal (pl_state p) then q = p else pl_state q = REVALIDATION_REQUIRED))))"
proof -
  let ?s = "st\<lparr>st_epoch := e, st_authority := id_next (st_authority st)\<rparr>"
  have "\<exists>q. omap_find (plans (fence_plans ?s)) k = Some q \<and>
      (if is_terminal (pl_state p) then q = p else pl_state q = REVALIDATION_REQUIRED)"
    if p: "omap_find (plans st) k = Some p" for k p
  proof -
    obtain i where "omap_find (fst (omap_foreach revalidate_live (plans st) (nextEventOrdinal st))) k =
        Some (fst (revalidate_live p i))"
      using foreach_find [OF sched_ok_plans [OF assms(1)] p, of revalidate_live "nextEventOrdinal st"]
      by blast
    then show ?thesis by (simp add: revalidate_live_def)
  qed
  note moved = this
  consider "st_epoch st = e" | "e < st_epoch st" | "st_epoch st < e" by (rule linorder_cases) auto
  then show ?thesis
  proof cases
    case 1
    then show ?thesis using assms(2) by (auto simp: set_epoch_def)
  next
    case 2
    then have "id_value e \<le> id_value (st_epoch st)" "st_epoch st \<noteq> e"
      by (auto simp: less_strong_id_def)
    then have "r = throw StaleAuthority ''coordinator epoch must not move backward''" "st' = st"
      using assms(2) by (auto simp: set_epoch_def)
    then show ?thesis using 2 by auto
  next
    case 3
    then have "\<not> id_value e \<le> id_value (st_epoch st)" "st_epoch st \<noteq> e"
      by (auto simp: less_strong_id_def)
    then have "r = Inr ()" "st' = fence_plans ?s" using assms(2) by (auto simp: set_epoch_def)
    then show ?thesis using 3 moved by simp
  qed
qed

theorem set_epoch_fences_witness:
  "\<exists>q. omap_find (plans (snd (set_epoch (StrongId 2) demo_committed))) (StrongId 1) = Some q \<and>
     pl_state q = REVALIDATION_REQUIRED"
proof -
  obtain r st' where e: "set_epoch (StrongId 2) demo_committed = (r, st')" by fastforce
  have "pl_state committed_demo_plan = COMMITTED" using demo_launchable by (simp add: launchable_def)
  then have t: "\<not> is_terminal (pl_state committed_demo_plan)" by (simp add: is_terminal_def)
  have "omap_find (plans demo_committed) (StrongId 1) = Some committed_demo_plan"
    using demo_launchable by (simp add: launchable_def)
  moreover have "st_epoch demo_committed < StrongId 2" by (simp add: demo_committed_eq(4))
  ultimately show ?thesis
    using set_epoch_fences [OF demo_committed_ok e] t by (metis e snd_conv)
qed

text \<open>\<^verbatim>\<open>cancel\<close> records the request and moves every non-terminal plan of it to CANCELLED; plans of
  other requests and terminal plans are untouched, and a later \<^verbatim>\<open>commit\<close> of any plan of the request
  is refused without asking the broker.\<close>

theorem cancel_effect:
  assumes "sched_ok st" "omap_find (plans st) k = Some p"
  shows "\<exists>q. omap_find (plans (cancel rid st)) k = Some q \<and>
     (if pl_requestId p = rid \<and> \<not> is_terminal (pl_state p) then pl_state q = CANCELLED else q = p) \<and>
     (pl_requestId p = rid \<longrightarrow>
        (\<exists>out. commit_begin k (cancel rid st) = (Inr (Return out), cancel rid st) \<and> \<not> succeeded out))"
proof -
  obtain i where i: "omap_find (fst (omap_foreach (cancel_plan rid) (plans st) (nextEventOrdinal st))) k =
      Some (fst (cancel_plan rid p i))"
    using foreach_find [OF sched_ok_plans [OF assms(1)] assms(2), of "cancel_plan rid" "nextEventOrdinal st"]
    by blast
  define q where "q = fst (cancel_plan rid p i)"
  have q: "omap_find (plans (cancel rid st)) k = Some q"
      "if pl_requestId p = rid \<and> \<not> is_terminal (pl_state p) then pl_state q = CANCELLED else q = p"
      "pl_requestId q = pl_requestId p"
    by (simp_all add: i q_def) (simp_all add: cancel_plan_def)
  have "\<not> committable k p' (cancel rid st)" if "pl_requestId p = rid" for p'
    using that q by (auto simp: committable_def)
  then have "pl_requestId p = rid \<longrightarrow>
      (\<exists>out. commit_begin k (cancel rid st) = (Inr (Return out), cancel rid st) \<and> \<not> succeeded out)"
    using commit_begin_return [of k "cancel rid st"] by (auto simp: failed_commit_def)
  then show ?thesis using q by blast
qed

theorem cancel_effect_witness:
  "\<exists>q. omap_find (plans (cancel (StrongId 1) demo_ready)) (StrongId 1) = Some q \<and> pl_state q = CANCELLED"
  using cancel_effect [OF demo_ready_ok(1) demo_ready_plan(1), of "StrongId 1"]
  by (auto simp: is_terminal_def)

text \<open>\<^verbatim>\<open>supersede\<close> moves every non-terminal plan of the old request to SUPERSEDED, pointing at the
  latest plan of the new request (or none), leaves all others untouched, and logs the reason.\<close>

theorem supersede_effect:
  assumes "sched_ok st" "omap_find (plans st) k = Some p"
  shows "\<exists>q. omap_find (plans (supersede old new why st)) k = Some q \<and>
     (if pl_requestId p = old \<and> \<not> is_terminal (pl_state p)
      then pl_state q = SUPERSEDED \<and> supersessionReason q = why \<and>
        supersededBy q = (case omap_find (latestPlanByRequest st) new of None \<Rightarrow> StrongId 0 | Some i \<Rightarrow> i)
      else q = p) \<and>
     length (supersessionHistory (supersede old new why st)) = length (supersessionHistory st) + 1"
proof -
  let ?new = "case omap_find (latestPlanByRequest st) new of None \<Rightarrow> StrongId 0 | Some i \<Rightarrow> i"
  have "length (supersessionHistory (supersede old new why st)) = length (supersessionHistory st) + 1"
    by (simp add: supersede_def split_beta Let_def)
  moreover have "supersessionReason (force_state q SUPERSEDED i) = supersessionReason q" for q i
    by (simp add: force_state_def record_state_def)
  moreover obtain i where
    "omap_find (fst (omap_foreach (supersede_plan old ?new why) (plans st) (nextEventOrdinal st))) k =
      Some (fst (supersede_plan old ?new why p i))"
    using foreach_find [OF sched_ok_plans [OF assms(1)] assms(2), of "supersede_plan old ?new why"
        "nextEventOrdinal st"] by blast
  ultimately show ?thesis by (simp add: supersede_plan_def)
qed

theorem supersede_effect_witness:
  "\<exists>q. omap_find (plans (supersede (StrongId 1) (StrongId 9) ''newer'' demo_ready)) (StrongId 1) = Some q \<and>
     pl_state q = SUPERSEDED"
  using supersede_effect [OF demo_ready_ok(1) demo_ready_plan(1), of "StrongId 1" "StrongId 9" "''newer''"]
  by (auto simp: is_terminal_def)

section \<open>Ingest and restore\<close>

text \<open>C39: in a well-formed state \<^verbatim>\<open>ingest_candidate\<close> accepts exactly a candidate whose candidate identity, candidate
  generation, source boot and worker boot are not 0, which carries some evidence (a device binding
  or a total VRAM that is not 0), which was published by an unfenced worker and source boot, and
  whose generation is above that of the candidate known under its identity, when there is one.
  Accepting stores it under its identity, counts it and changes nothing else; refusing changes
  nothing at all.\<close>

theorem ingest_exact:
  assumes "sched_ok st" "ingest_candidate c st = (r, st')"
  shows "(r = Inr () \<longleftrightarrow>
       id_value (candidateId c) \<noteq> 0 \<and> id_value (candidateGeneration c) \<noteq> 0 \<and>
       id_value (sourceBootId c) \<noteq> 0 \<and> id_value (workerBootId c) \<noteq> 0 \<and>
       (bindings c \<noteq> [] \<or> vramTotal (capacity c) \<noteq> 0) \<and>
       workerBootId c \<notin> set (fencedWorkers st) \<and> sourceBootId c \<notin> set (fencedSources st) \<and>
       (\<forall>old. omap_find (candidates st) (candidateId c) = Some old \<longrightarrow>
          candidateGeneration old < candidateGeneration c)) \<and>
     (r = Inr () \<longrightarrow> st' = st\<lparr>candidates := candidates st', ingestWatermark := ingestWatermark st + 1\<rparr> \<and>
       (\<forall>k. omap_find (candidates st') k = (if k = candidateId c then Some c else omap_find (candidates st) k))) \<and>
     (r \<noteq> Inr () \<longrightarrow> st' = st)"
proof -
  have ok: "omap_ok (candidates st)" using assms(1) by (simp add: sched_ok_def)
  have check: "check_candidate c = Inr u \<longleftrightarrow>
      id_value (candidateId c) \<noteq> 0 \<and> id_value (candidateGeneration c) \<noteq> 0 \<and>
      id_value (sourceBootId c) \<noteq> 0 \<and> id_value (workerBootId c) \<noteq> 0 \<and>
      (bindings c \<noteq> [] \<or> vramTotal (capacity c) \<noteq> 0)" for u
    by (auto simp: check_candidate_def is_valid_def)
  have "(r = Inr () \<longleftrightarrow>
       check_candidate c = Inr () \<and> workerBootId c \<notin> set (fencedWorkers st) \<and>
       sourceBootId c \<notin> set (fencedSources st) \<and>
       (\<forall>old. omap_find (candidates st) (candidateId c) = Some old \<longrightarrow>
          candidateGeneration old < candidateGeneration c)) \<and>
     (r = Inr () \<longrightarrow> st' = st\<lparr>candidates := candidates st', ingestWatermark := ingestWatermark st + 1\<rparr> \<and>
       (\<forall>k. omap_find (candidates st') k = (if k = candidateId c then Some c else omap_find (candidates st) k))) \<and>
     (r \<noteq> Inr () \<longrightarrow> st' = st)"
    using assms(2) ok
    by (auto simp: ingest_candidate_def less_strong_id_def not_less omap_find_emplace
        split: sum.splits option.splits if_splits)
  then show ?thesis unfolding check conj_assoc .
qed

theorem ingest_exact_witness:
  "snd (ingest_candidate sampleA demo_st) = demo_st"
proof -
  obtain r st' where i: "ingest_candidate sampleA demo_st = (r, st')" by fastforce
  have "omap_find (candidates demo_st) (candidateId sampleA) = Some sampleA"
    by (simp add: demo_st_eq omap_find_def)
  with ingest_exact [OF demo_ok(1) i] have "r \<noteq> Inr ()" by auto
  with ingest_exact [OF demo_ok(1) i] show ?thesis by (simp add: i)
qed

lemma restored_plans:
  "map_of (map (\<lambda>q. (planId q, q)) (per_plans p)) k = None \<Longrightarrow> omap_find (plans (restore p st)) k = None"
  "map_of (map (\<lambda>q. (planId q, q)) (per_plans p)) k = Some r \<Longrightarrow>
     \<exists>q i. omap_find (plans (restore p st)) k = Some q \<and>
       q = (if is_terminal (pl_state r) then r else force_state r REVALIDATION_REQUIRED i)"
proof -
  let ?m = "fold (\<lambda>q. omap_emplace (planId q) q) (per_plans p) []"
  have plans: "plans (restore p st) = fst (omap_foreach revalidate_live ?m (per_nextEventOrdinal p))"
    by (simp add: restore_def)
  show "omap_find (plans (restore p st)) k = None"
    if "map_of (map (\<lambda>q. (planId q, q)) (per_plans p)) k = None"
    unfolding plans using that by (simp add: restored_find)
  assume "map_of (map (\<lambda>q. (planId q, q)) (per_plans p)) k = Some r"
  then have "omap_find ?m k = Some r" by (simp add: restored_find)
  from foreach_find [OF restored_ok this, of revalidate_live "per_nextEventOrdinal p"]
  show "\<exists>q i. omap_find (plans (restore p st)) k = Some q \<and>
       q = (if is_terminal (pl_state r) then r else force_state r REVALIDATION_REQUIRED i)"
    unfolding plans by (auto simp: revalidate_live_def)
qed

lemma restored_requests:
  "omap_find (requests (restore p st)) k = map_of (map (\<lambda>r. (req_requestId r, r)) (per_requests p)) k"
  by (simp add: restore_def restored_find)

lemma restored_not_started:
  "\<exists>out. fst (commit_begin k (restore p st)) = Inr (Return out) \<and> \<not> succeeded out"
  "fst (handoff_begin k (restore p st)) = Inr (Return default_ExecutionHandoff)"
proof -
  have no: "\<not> committable k q (restore p st)" "\<not> launchable k q (restore p st)" for q
    using restore_off_path [of p st k q] by (auto simp: committable_def launchable_def)
  show "\<exists>out. fst (commit_begin k (restore p st)) = Inr (Return out) \<and> \<not> succeeded out"
    using commit_begin_return [of k "restore p st"] no by (fastforce simp: failed_commit_def)
  show "fst (handoff_begin k (restore p st)) = Inr (Return default_ExecutionHandoff)"
    using handoff_begin_return [of k "restore p st"] no by simp
qed

text \<open>C38: restoring any snapshot is conservative: no candidate evidence and no fence of a worker or a
  source survives, and the epoch, the authority, the plan, submit and ingest counters, the requests, the
  supersession history and the cancelled requests are the persisted ones. The plans are those of the snapshot (the first of each
  plan id, as \<^verbatim>\<open>emplace\<close> keeps it): a terminal one is as it was persisted, and every other one
  differs from the persisted one only by being moved to REVALIDATION_REQUIRED, that move added to
  its history while there is room. So \<^verbatim>\<open>commit\<close> and \<^verbatim>\<open>handoff\<close> refuse every plan of the restored state,
  without asking the broker or the fabric.\<close>

theorem restore_conservative:
  "candidates (restore p st) = [] \<and> fencedWorkers (restore p st) = [] \<and> fencedSources (restore p st) = [] \<and>
   st_epoch (restore p st) = per_epoch p \<and> st_authority (restore p st) = per_authority p \<and>
   nextPlanId (restore p st) = per_nextPlanId p \<and> nextSubmitOrdinal (restore p st) = per_nextSubmitOrdinal p \<and>
   ingestWatermark (restore p st) = per_ingestWatermark p \<and>
   supersessionHistory (restore p st) = per_supersessionHistory p \<and>
   cancelledRequests (restore p st) = per_cancelledRequests p \<and>
   (\<forall>k. omap_find (requests (restore p st)) k = map_of (map (\<lambda>r. (req_requestId r, r)) (per_requests p)) k) \<and>
   (\<forall>k. case map_of (map (\<lambda>q. (planId q, q)) (per_plans p)) k of
          None \<Rightarrow> omap_find (plans (restore p st)) k = None
        | Some r \<Rightarrow> \<exists>q i. omap_find (plans (restore p st)) k = Some q \<and>
            (if is_terminal (pl_state r) then q = r
             else pl_state q = REVALIDATION_REQUIRED \<and> q = force_state r REVALIDATION_REQUIRED i)) \<and>
   (\<forall>k. \<exists>out. fst (commit_begin k (restore p st)) = Inr (Return out) \<and> \<not> succeeded out) \<and>
   (\<forall>k. fst (handoff_begin k (restore p st)) = Inr (Return default_ExecutionHandoff))"
proof -
  have "case map_of (map (\<lambda>q. (planId q, q)) (per_plans p)) k of
          None \<Rightarrow> omap_find (plans (restore p st)) k = None
        | Some r \<Rightarrow> \<exists>q i. omap_find (plans (restore p st)) k = Some q \<and>
            (if is_terminal (pl_state r) then q = r
             else pl_state q = REVALIDATION_REQUIRED \<and> q = force_state r REVALIDATION_REQUIRED i)" for k
  proof (cases "map_of (map (\<lambda>q. (planId q, q)) (per_plans p)) k")
    case None
    then show ?thesis using restored_plans(1) [OF None, of st] by simp
  next
    case (Some r)
    from restored_plans(2) [OF Some, of st] show ?thesis by (auto simp: Some force_state_def)
  qed
  moreover have "nextPlanId (restore p st) = per_nextPlanId p"
    "ingestWatermark (restore p st) = per_ingestWatermark p"
    "supersessionHistory (restore p st) = per_supersessionHistory p"
    "nextSubmitOrdinal (restore p st) = per_nextSubmitOrdinal p"
    "cancelledRequests (restore p st) = per_cancelledRequests p"
    by (simp_all add: restore_def fence_plans_def split_def Let_def)
  ultimately show ?thesis
    using restored_not_started restored_requests by (simp add: restore_def)
qed

section \<open>Revalidation of plans that had ended\<close>

text \<open>\<^verbatim>\<open>revalidate\<close> with a moved generation sets any plan to REVALIDATION_REQUIRED, whatever its
  state was, a terminal one included: the lifecycle table is bypassed, and a cancelled or
  superseded plan becomes non-terminal again.\<close>

theorem revalidate_forces:
  assumes "sched_ok st" "omap_find (plans st) pid = Some p" "generations p \<noteq> cur"
  shows "\<exists>r q. fst (revalidate pid cur st) = Inr r \<and> \<not> current r \<and>
     omap_find (plans (snd (revalidate pid cur st))) pid = Some q \<and> pl_state q = REVALIDATION_REQUIRED"
  using assms sched_ok_plans [OF assms(1)] by (simp add: revalidate_def current_iff_same Let_def)

lemma demo_cancelled:
  obtains q where "omap_find (plans (cancel (StrongId 1) demo_ready)) (StrongId 1) = Some q"
    "pl_state q = CANCELLED" "generations q = generations demo_plan"
proof -
  obtain i where "omap_find (fst (omap_foreach (cancel_plan (StrongId 1)) (plans demo_ready)
      (nextEventOrdinal demo_ready))) (StrongId 1) = Some (fst (cancel_plan (StrongId 1) demo_plan i))"
    using foreach_find [OF sched_ok_plans [OF demo_ready_ok(1)] demo_ready_plan(1), of "cancel_plan (StrongId 1)"
        "nextEventOrdinal demo_ready"] by blast
  then show thesis
    by (intro that [of "fst (cancel_plan (StrongId 1) demo_plan i)"])
       (simp_all add: cancel_plan_def is_terminal_def)
qed

theorem revalidate_forces_witness:
  "\<exists>p q. omap_find (plans (cancel (StrongId 1) demo_ready)) (StrongId 1) = Some p \<and> pl_state p = CANCELLED \<and>
     omap_find (plans (snd (revalidate (StrongId 1) default_GenerationFingerprint
       (cancel (StrongId 1) demo_ready)))) (StrongId 1) = Some q \<and> pl_state q = REVALIDATION_REQUIRED"
proof -
  obtain p where p: "omap_find (plans (cancel (StrongId 1) demo_ready)) (StrongId 1) = Some p"
    "pl_state p = CANCELLED" "generations p = generations demo_plan" by (rule demo_cancelled)
  have "fp_topology (generations demo_plan) = StrongId 1"
    by (simp add: demo_plan_def fresh_plan_def build_plan_def make_fingerprint_def Let_def scenario_defs)
  then have "generations p \<noteq> default_GenerationFingerprint"
    unfolding p(3) by (auto simp: default_GenerationFingerprint_def)
  moreover have "sched_ok (cancel (StrongId 1) demo_ready)"
    using cancel_keeps [OF demo_ready_ok(1)] by (simp add: keeps_def)
  ultimately show ?thesis using revalidate_forces [OF _ p(1)] p by blast
qed

text \<open>A handoff the execution fabric refuses forces the plan to REVALIDATION_REQUIRED even when it
  was superseded while the fabric was deciding; one it authorises then ends in the
  IllegalLifecycleTransition error instead.\<close>

theorem handoff_of_superseded:
  assumes "sched_ok st" "current_plan pid p st" "pl_state p = SUPERSEDED"
  shows "if authorized h then
       (\<exists>m. fst (handoff_finish pid h st) = throw IllegalLifecycleTransition m) \<and>
       omap_find (plans (snd (handoff_finish pid h st))) pid = Some p
     else \<exists>q. omap_find (plans (snd (handoff_finish pid h st))) pid = Some q \<and>
       pl_state q = REVALIDATION_REQUIRED"
  using assms(2,3) sched_ok_plans [OF assms(1)]
  by (cases rule: handoff_finish_cases [of pid st h])
     (auto simp: current_plan_def illegal_transition_def)

lemma demo_superseded:
  obtains q where "current_plan (StrongId 1) q (supersede (StrongId 1) (StrongId 9) [] demo_committed)"
    "pl_state q = SUPERSEDED"
proof -
  let ?new = "case omap_find (latestPlanByRequest demo_committed) (StrongId 9) of None \<Rightarrow> StrongId 0 | Some i \<Rightarrow> i"
  have p: "omap_find (plans demo_committed) (StrongId 1) = Some committed_demo_plan"
    "pl_state committed_demo_plan = COMMITTED" "pl_authorityGeneration committed_demo_plan = StrongId 1"
    "pl_requestId committed_demo_plan = StrongId 1"
    using demo_launchable by (simp_all add: launchable_def demo_committed_eq committed_demo_plan_def committed_plan_def)
  obtain i where "omap_find (fst (omap_foreach (supersede_plan (StrongId 1) ?new []) (plans demo_committed)
      (nextEventOrdinal demo_committed))) (StrongId 1) =
      Some (fst (supersede_plan (StrongId 1) ?new [] committed_demo_plan i))"
    using foreach_find [OF sched_ok_plans [OF demo_committed_ok] p(1), of "supersede_plan (StrongId 1) ?new []"
        "nextEventOrdinal demo_committed"] by blast
  then show thesis
    by (intro that [of "fst (supersede_plan (StrongId 1) ?new [] committed_demo_plan i)"])
       (simp_all add: current_plan_def supersede_plan_def is_terminal_def p demo_committed_eq)
qed

theorem handoff_of_superseded_witness:
  "\<exists>q. omap_find (plans (snd (handoff_finish (StrongId 1) default_ExecutionHandoff
     (supersede (StrongId 1) (StrongId 9) [] demo_committed)))) (StrongId 1) = Some q \<and>
     pl_state q = REVALIDATION_REQUIRED"
proof -
  obtain q where "current_plan (StrongId 1) q (supersede (StrongId 1) (StrongId 9) [] demo_committed)"
    "pl_state q = SUPERSEDED" by (rule demo_superseded)
  moreover have "sched_ok (supersede (StrongId 1) (StrongId 9) [] demo_committed)"
    using supersede_keeps [OF demo_committed_ok] by (simp add: keeps_def)
  ultimately show ?thesis
    using handoff_of_superseded [of "supersede (StrongId 1) (StrongId 9) [] demo_committed" "StrongId 1" q
        default_ExecutionHandoff] by (simp add: default_ExecutionHandoff_def)
qed

section \<open>Every interleaving\<close>

text \<open>An interleaved run: ingest, schedule and commit of the example, with the broker's answer.\<close>

definition demo_answer :: ResourceCommitResult where
  "demo_answer = default_ResourceCommitResult\<lparr>succeeded := True, commitmentToken := ''tok-1''\<rparr>"

definition demo_sys :: system where
  "demo_sys = \<lparr>sched = move_plan (StrongId 1) demo_plan AWAITING_RESOURCE_COMMIT demo_ready,
     jobs = [CommitAnswer (StrongId 1) (claims demo_plan) demo_answer],
     log = [BrokerAsked (StrongId 1) (claims demo_plan), BrokerAnswered (StrongId 1) demo_answer]\<rparr>"

lemma demo_reachable: "reachable default_SchedulerConfig demo_sys"
proof -
  let ?C = default_SchedulerConfig
  let ?e = "[(Ranker_evaluate req sampleA default_RankOptions, sampleA)]"
  let ?m = "move_plan (StrongId 1) demo_plan AWAITING_RESOURCE_COMMIT demo_ready"
  have "reachable ?C ((sys_init ?C)\<lparr>sched := apply_op (Ingest sampleA) (sched (sys_init ?C))\<rparr>)"
    by (rule reachable.step [OF reachable.start sys_step.mutex_method]) simp
  then have 1: "reachable ?C \<lparr>sched = demo_st, jobs = [], log = []\<rparr>"
    by (simp add: sys_init_def demo_st_def)
  have snap: "schedule_begin demo_st = [sampleA]" by (simp add: demo_st_eq schedule_begin_def)
  have rej: "rejected_entries req None None [sampleA] = []"
    by (simp add: rejected_entries_def eligible_def evaluate_eligible demo_meets)
  have ent: "std_sort entry_less (eligible_entries req None None (rankOptions demo_st) [sampleA]) = ?e"
    using demo_entries by (simp add: snap std_sort_def)
  have 2: "reachable ?C \<lparr>sched = demo_st, jobs = [ScheduleJob req None ?e []], log = []\<rparr>"
    using steps_reachable [OF schedule_filtered [OF demo_valid, of _ None None] 1]
    by (simp add: snap rej ent)
  have 3: "reachable ?C \<lparr>sched = demo_ready, jobs = [], log = []\<rparr>"
    using reachable.step [OF 2 sys_step.schedule_end [of _ "[]" req None ?e "[]" "[]"]]
    by (simp add: demo_ready_def demo_schedule)
  have 4: "reachable ?C \<lparr>sched = ?m, jobs = [CommitCall (StrongId 1) (claims demo_plan)],
      log = [BrokerAsked (StrongId 1) (claims demo_plan)]\<rparr>"
    using reachable.step [OF 3 sys_step.commit_start, of "StrongId 1" "claims demo_plan" ?m]
    by (simp add: commit_begin_proceed [OF demo_committable])
  show ?thesis
    using reachable.step [OF 4 sys_step.broker_answer [of _ "[]" "StrongId 1" "claims demo_plan" "[]" demo_answer]]
    by (simp add: demo_sys_def)
qed

text \<open>C4: under every interleaving of the threads' critical sections, with any answers from broker and
  execution fabric, the scheduler state stays well formed: plans sit under their own identity
  with a bounded history, COMMITTED, AWAITING_EXECUTION and ACTIVE plans carry commitment
  evidence, plans still in progress belong to the current epoch and authority, and once a commit
  has started the request is not cancelled.\<close>

theorem interleaving_invariant:
  assumes "reachable cfg S"
  shows "sched_ok (sched S) \<and> fence_ok (sched S)"
  using assms by (rule reachable_ok)

theorem interleaving_invariant_witness: "sched_ok (sched demo_sys) \<and> fence_ok (sched demo_sys)"
  by (rule interleaving_invariant [OF demo_reachable])

text \<open>C2: the broker is asked to commit the claims of a plan at most once, however many threads call
  \<^verbatim>\<open>commit\<close> for it and whatever happens in between.\<close>

theorem broker_asked_once:
  assumes "reachable cfg S"
  shows "length (filter (asks pid) (log S)) \<le> 1"
  using reachable_asked_once [OF assms] by (simp add: asked_once_def)

theorem broker_asked_once_witness: "length (filter (asks (StrongId 1)) (log demo_sys)) \<le> 1"
  by (rule broker_asked_once [OF demo_reachable])

text \<open>C1: commitment is never false: a plan that is COMMITTED, AWAITING_EXECUTION or ACTIVE had its
  claims committed by the broker, and an ACTIVE plan was authorised by the execution fabric.\<close>

theorem committed_is_genuine:
  assumes "reachable cfg S" "omap_find (plans (sched S)) pid = Some p"
  shows "(needs_evidence (pl_state p) \<longrightarrow> (\<exists>br. BrokerAnswered pid br \<in> set (log S) \<and> succeeded br)) \<and>
     (pl_state p = ACTIVE \<longrightarrow> (\<exists>h. ExecAnswered pid h \<in> set (log S) \<and> authorized h))"
  using reachable_genuine [OF assms(1)] reachable_ok [OF assms(1)] assms(2)
  by (auto simp: all_genuine_def genuine_def sched_ok_def plan_ok_def)

lemma demo_done:
  obtains S p where "reachable default_SchedulerConfig S" "omap_find (plans (sched S)) (StrongId 1) = Some p"
    "pl_state p = COMMITTED"
proof -
  let ?q = "record_state demo_plan AWAITING_RESOURCE_COMMIT (nextEventOrdinal demo_ready)"
  let ?m = "move_plan (StrongId 1) demo_plan AWAITING_RESOURCE_COMMIT demo_ready"
  have ok: "omap_ok (plans demo_ready)" by (rule sched_ok_plans [OF demo_ready_ok(1)])
  have q: "awaiting (StrongId 1) ?q ?m"
    using ok by (simp add: awaiting_def commit_stale_def move_plan_def)
  have s: "succeeded demo_answer" by (simp add: demo_answer_def)
  have "\<exists>S. reachable default_SchedulerConfig S \<and> sched S = snd (commit_finish (StrongId 1) (claims demo_plan) demo_answer ?m)"
    using reachable.step [OF demo_reachable sys_step.commit_end [of _ "[]" "StrongId 1" "claims demo_plan" demo_answer "[]"]]
    by (simp add: demo_sys_def commit_finish_success [OF q s]) (metis select_convs(1))
  then show thesis using that commit_finish_success [OF q s, of "claims demo_plan"] ok
    by (auto simp: move_plan_def committed_plan_def)
qed

theorem committed_is_genuine_witness:
  "\<exists>S br. reachable default_SchedulerConfig S \<and> BrokerAnswered (StrongId 1) br \<in> set (log S) \<and> succeeded br"
proof -
  obtain S p where "reachable default_SchedulerConfig S" "omap_find (plans (sched S)) (StrongId 1) = Some p"
    "pl_state p = COMMITTED" by (rule demo_done)
  with committed_is_genuine [of default_SchedulerConfig S "StrongId 1" p] show ?thesis by auto
qed

text \<open>C3: no successful broker commitment is lost: its answer is still on the way back to its thread,
  or it was reported as a success with that token, or the token was released (or is empty).\<close>

theorem no_commitment_lost:
  assumes "reachable cfg S" "BrokerAnswered pid br \<in> set (log S)" "succeeded br"
  shows "accounted S pid br"
  using reachable_accounted [OF assms(1)] assms(2,3) by (simp add: all_accounted_def)

theorem no_commitment_lost_witness: "accounted demo_sys (StrongId 1) demo_answer"
  by (rule no_commitment_lost [OF demo_reachable]) (simp_all add: demo_sys_def demo_answer_def)

end
