(* ===== verification/Persistence_Properties.thy ===== *)
theory Persistence_Properties
  imports Persistence Scheduler_Properties
begin

text \<open>
  What the persistence file guarantees: what comes back of a saved snapshot, a load returns
  only snapshots that are whole, every truncation and every altered payload byte is noticed,
  and a scheduler that was never restored always writes a file it can read. Two losses are
  stated as well: the required topology generation of a demand is not in the file, and a
  restored scheduler writes a file that no load accepts until its candidates are back.
\<close>

section \<open>A small file\<close>

definition demo_request :: SchedulingRequest where
  "demo_request = req\<lparr>demand := (demand req)\<lparr>requiredTopologyGeneration := StrongId 0\<rparr>\<rparr>"

definition demo_record :: PlacementPlan where
  "demo_record = default_PlacementPlan
     \<lparr>planId := StrongId 1, pl_requestId := StrongId 1, selectedCandidate := StrongId 7,
      pl_state := COMMITTED, hasCommitmentEvidence := True, claims := [],
      rejectedAlternatives := [\<lparr>rej_candidateId = StrongId 8, rej_candidateGeneration = StrongId 1,
        rej_status = ES_REJECT_MEMORY, rej_reason = ''insufficient free VRAM''\<rparr>]\<rparr>"

definition demo_file :: Persisted where
  "demo_file =
     \<lparr>formatVersion = 1, per_epoch = StrongId 2, per_authority = StrongId 3, per_nextPlanId = 2,
      per_nextSubmitOrdinal = 1, per_nextEventOrdinal = 6, per_ingestWatermark = 0,
      per_requests = [demo_request], per_plans = [demo_record],
      candidateIdentities = [\<lparr>ci_candidateId = StrongId 7, ci_candidateGeneration = StrongId 1,
        ci_sourceId = StrongId 1, ci_sourceBootId = StrongId 1, ci_workerId = StrongId 1,
        ci_workerBootId = StrongId 1\<rparr>],
      per_supersessionHistory = [''request superseded''], per_cancelledRequests = [StrongId 9]\<rparr>"

lemma demo_valid_demand: "validate (demand req) = Inr ()" "validate (demand demo_request) = Inr ()"
  by (simp_all add: demo_request_def req_def demand_eval GiB_def MiB_def)

lemmas length_records = enc_demand_def enc_request_def enc_binding_def enc_factor_def enc_rejected_def
  enc_claim_def enc_fingerprint_def enc_plan_def enc_candidate_id_def enc_history_def
  length_put_list

lemma demo_sound: "snapshot_sound demo_file"
  by (simp add: snapshot_sound_def snapshot_indexed_def plan_recorded_def demo_file_def demo_record_def
      is_valid_def kPersistenceFormatVersion_def)

lemmas demo_records = demo_file_def length_records demo_request_def demo_record_def
  default_PlacementPlan_def req_def default_SchedulingRequest_def default_DemandProfile_def

lemma demo_payload_length: "length (save_payload demo_file) \<le> kMaxPayload"
  by (simp add: save_payload_def demo_records kMaxPayload_def)

lemma demo_fits: "snapshot_fits demo_file"
  using demo_valid_demand(2) demo_payload_length
  by (simp add: snapshot_fits_def demo_file_def list_ok_def kMaxRecords_def request_fits_def
      demand_fits_def plan_fits_def rejected_fits_def string_ok_def kMaxString_def demo_record_def
      default_PlacementPlan_def)
    (simp add: demo_request_def req_def default_DemandProfile_def)

section \<open>Round trips\<close>

text \<open>No writer emits the required topology generation of a demand, so a request comes back from a
  file without one, whatever it asked for. What else the readers demand of a snapshot is
  \<open>storable\<close>: every list has at most 2^20 elements, every string at most 2^20 bytes and the payload
  at most 1 GiB, every demand passes \<^verbatim>\<open>validate\<close>, and the value of every ranking factor that a
  plan records is a finite number.\<close>

definition forget_topology :: "Persisted \<Rightarrow> Persisted" where
  "forget_topology st =
     st\<lparr>per_requests := map (\<lambda>r. r\<lparr>demand := (demand r)\<lparr>requiredTopologyGeneration := StrongId 0\<rparr>\<rparr>)
          (per_requests st)\<rparr>"

lemma save_payload_forgets: "save_payload (forget_topology st) = save_payload st"
proof -
  have "enc_request (r\<lparr>demand := (demand r)\<lparr>requiredTopologyGeneration := g\<rparr>\<rparr>) = enc_request r" for r g
    by (simp add: enc_request_def enc_demand_def)
  then show ?thesis
    by (simp add: save_payload_def forget_topology_def put_list_def o_def)
qed

definition storable :: "Persisted \<Rightarrow> bool" where
  "storable st \<longleftrightarrow> snapshot_fits (forget_topology st)"

lemma forget_sound: "snapshot_sound (forget_topology st) \<longleftrightarrow> snapshot_sound st"
  by (simp add: snapshot_sound_def snapshot_indexed_def plan_recorded_def forget_topology_def o_def)

lemma save_forgets: "persist_save (forget_topology st) = persist_save st"
  by (simp add: persist_save_def save_header_def save_payload_forgets) (simp add: forget_topology_def)

lemma load_storable:
  assumes "storable st" "snapshot_sound st"
  shows "persist_load (persist_save st @ rest) = Inr (forget_topology st, rest)"
  using persist_load_saved [of "forget_topology st" rest] assms
  by (simp add: storable_def forget_sound save_forgets)

lemma forget_unpinned:
  assumes "\<forall>r \<in> set (per_requests st). requiredTopologyGeneration (demand r) = StrongId 0"
  shows "forget_topology st = st"
proof -
  have "map (\<lambda>r. r\<lparr>demand := (demand r)\<lparr>requiredTopologyGeneration := StrongId 0\<rparr>\<rparr>) (per_requests st) = per_requests st"
    by (rule map_idI) (use assms in simp)
  then show ?thesis by (simp add: forget_topology_def)
qed

lemma fits_storable: "snapshot_fits st \<Longrightarrow> storable st" "snapshot_fits st \<Longrightarrow> forget_topology st = st"
proof -
  assume f: "snapshot_fits st"
  then show "forget_topology st = st"
    by (intro forget_unpinned) (auto simp: snapshot_fits_def list_ok_def list_all_iff request_fits_def demand_fits_def)
  with f show "storable st" by (simp add: storable_def)
qed

definition pinned_file :: Persisted where
  "pinned_file = demo_file\<lparr>per_requests := [req]\<rparr>"

lemma forget_pinned: "forget_topology pinned_file = demo_file"
  by (simp add: forget_topology_def pinned_file_def demo_file_def demo_request_def)

text \<open>C18: what \<^verbatim>\<open>persist_save\<close> wrote is read back by \<^verbatim>\<open>persist_load\<close>, which leaves what follows the file
  in the stream. The snapshot must be sound (each request, plan and candidate identity once, only
  issued plan ids, a recorded candidate for every plan and evidence for every commitment), its
  lists, strings and payload within the bounds of the readers, its demands must pass \<^verbatim>\<open>validate\<close>, and
  the values of the recorded ranking factors must be finite. It then comes back unchanged but for
  the required topology generation of each demand, which comes back as 0 (none); so it is unchanged
  altogether when no demand pins one.\<close>

theorem persist_roundtrip:
  assumes "storable st" "snapshot_sound st"
  shows "persist_load (persist_save st @ rest) = Inr (forget_topology st, rest) \<and>
     ((\<forall>r \<in> set (per_requests st). requiredTopologyGeneration (demand r) = StrongId 0) \<longrightarrow>
        forget_topology st = st)"
  using load_storable [OF assms] forget_unpinned by blast

theorem persist_roundtrip_witness:
  "requiredTopologyGeneration (demand req) = StrongId 1 \<and>
   persist_load (persist_save pinned_file @ [1, 2]) = Inr (demo_file, [1, 2])"
proof -
  have "snapshot_sound pinned_file"
    using demo_sound
    by (simp add: pinned_file_def snapshot_sound_def snapshot_indexed_def plan_recorded_def demo_file_def)
  moreover have "storable pinned_file" by (simp add: storable_def forget_pinned demo_fits)
  ultimately show ?thesis
    using persist_roundtrip [of pinned_file "[1, 2]"]
    by (simp add: forget_pinned) (simp add: req_def)
qed

text \<open>C19: whatever the bytes in the stream, a snapshot that \<^verbatim>\<open>persist_load\<close> returns has each request,
  plan and candidate once, only issued plan ids, a known candidate for every plan and evidence for
  every commitment, and only validated demands; and saving it again gives a file that loads to the
  same snapshot.\<close>

theorem loaded_snapshot_whole:
  assumes "persist_load bs = Inr (st, rest)"
  shows "snapshot_sound st \<and> (\<forall>r \<in> set (per_requests st). validate (demand r) = Inr ()) \<and>
     (\<forall>more. persist_load (persist_save st @ more) = Inr (st, more))"
proof -
  have v: "snapshot_fits st" "snapshot_sound st" using load_validates [OF assms] by simp_all
  then have "\<forall>r \<in> set (per_requests st). validate (demand r) = Inr ()"
    by (auto simp: snapshot_fits_def list_ok_def list_all_iff request_fits_def demand_fits_def)
  with v persist_load_saved [OF v] show ?thesis by simp
qed

theorem loaded_snapshot_whole_witness: "validate (demand demo_request) = Inr ()"
  using loaded_snapshot_whole [OF persist_load_saved [OF demo_fits demo_sound, of "[]"]]
  by (simp add: demo_file_def)

text \<open>The three record codecs the protocol shares with the file read back any request, candidate
  and plan that the readers accept, whatever follows.\<close>

theorem record_roundtrips:
  "(request_fits r \<longrightarrow> dec_request_r (enc_request r @ rest) = Inr (r, rest)) \<and>
   (candidate_fits c \<longrightarrow> decode_candidate_record (encode_candidate_record c @ rest) = Inr (c, rest)) \<and>
   (plan_fits p \<longrightarrow> dec_plan_r (enc_plan p @ rest) = Inr (p, rest))"
  by (simp add: request.dec_enc candidate.dec_enc plan.dec_enc)

lemma sample_fits: "candidate_fits sampleA"
  by (simp add: candidate_fits_def scenario_defs list_ok_def binding_fits_def string_ok_def
      kMaxString_def kMaxRecords_def show_u64_def digits_of.simps)

theorem record_roundtrips_witness:
  "decode_candidate_record (encode_candidate_record sampleA) = Inr (sampleA, [])"
  using record_roundtrips [of demo_request "[]" sampleA demo_record] sample_fits by simp

section \<open>Damaged files\<close>

text \<open>C32: every proper prefix of a file that \<^verbatim>\<open>persist_save\<close> wrote is refused as a truncation, wherever
  it was cut and whatever records it holds, if the snapshot has the current format version (as
  every one taken from a scheduler has) and its payload is at most 1 GiB.\<close>

theorem truncated_file_refused:
  assumes "formatVersion st = kPersistenceFormatVersion" "length (save_payload st) \<le> kMaxPayload"
    and "k < length (persist_save st)"
  shows "\<exists>msg. persist_load (take k (persist_save st)) = throw Truncation msg"
  using load_truncated [of st k] assms by simp

lemma demo_framed: "formatVersion demo_file = kPersistenceFormatVersion"
  by (simp add: demo_file_def kPersistenceFormatVersion_def)

theorem truncated_file_refused_witness:
  "\<exists>msg. persist_load (take 40 (persist_save demo_file)) = throw Truncation msg"
proof (rule truncated_file_refused [OF demo_framed demo_payload_length])
  show "40 < length (persist_save demo_file)"
    by (simp add: persist_save_def save_payload_def demo_file_def)
qed

text \<open>Altering one byte of the payload of such a file, to whatever value, changes its digest, so the
  file is refused with a checksum mismatch.\<close>

lemma altered_payload:
  assumes "formatVersion st = kPersistenceFormatVersion" "length (save_payload st) \<le> kMaxPayload"
    and "i < length (save_payload st)" "b \<noteq> save_payload st ! i"
  shows "persist_load ((persist_save st)[17 + i := b] @ rest) =
     throw ChecksumMismatch ''checksum mismatch''"
proof -
  let ?p = "save_payload st"
  have "fnv1a64_digest ?p \<noteq> fnv1a64_digest (?p[i := b])"
    using fnv_update [OF assms(3), of b] assms(4) by simp
  moreover have "(persist_save st)[17 + i := b] =
      save_header st @ ?p[i := b] @ put_u64 (fnv1a64_digest ?p)"
    using assms(3) by (simp add: persist_save_def list_update_append)
  ultimately show ?thesis
    using assms(1,2) by (simp add: load_framed)
qed

text \<open>C7: changing one byte of the payload of a file that \<^verbatim>\<open>persist_save\<close> wrote, whichever byte and to
  whatever value, makes \<^verbatim>\<open>persist_load\<close> refuse it with a checksum mismatch, whatever records it holds,
  if the snapshot has the current format version and its payload is at most 1 GiB.\<close>

theorem altered_byte_refused:
  assumes "formatVersion st = kPersistenceFormatVersion" "length (save_payload st) \<le> kMaxPayload"
    and "i < length (save_payload st)" "b \<noteq> save_payload st ! i"
  shows "persist_load ((persist_save st)[17 + i := b] @ rest) =
     throw ChecksumMismatch ''checksum mismatch''"
  using assms by (rule altered_payload)

theorem altered_byte_refused_witness:
  "persist_load ((persist_save demo_file)[17 + 0 := 5] @ []) = throw ChecksumMismatch ''checksum mismatch''"
proof (rule altered_byte_refused [OF demo_framed demo_payload_length])
  show "0 < length (save_payload demo_file)" by (simp add: save_payload_def)
  have "save_payload demo_file ! 0 = 2"
    by (simp add: save_payload_def demo_file_def put_id_def put_u64_def put_u8_def upt_rec)
  then show "5 \<noteq> save_payload demo_file ! 0" by simp
qed

section \<open>The snapshot of a running scheduler\<close>

text \<open>
  What makes the snapshot of a state whole: plan ids below the next one, requests under their own
  id, and for every plan a candidate that is still known. Every section keeps it as long as the
  plan counter does not wrap and \<^verbatim>\<open>schedule\<close> ranked candidates the scheduler knows.
\<close>

definition durable :: "SchedulerState \<Rightarrow> bool" where
  "durable st \<longleftrightarrow>
     is_valid (st_epoch st) \<and> 0 < nextPlanId st \<and>
     (\<forall>k r. omap_find (requests st) k = Some r \<longrightarrow> req_requestId r = k) \<and>
     (\<forall>k p. omap_find (plans st) k = Some p \<longrightarrow>
        omap_find (candidates st) (selectedCandidate p) \<noteq> None \<and> k < StrongId (nextPlanId st))"

definition knows_entries :: "sched_op \<Rightarrow> SchedulerState \<Rightarrow> bool" where
  "knows_entries op st \<longleftrightarrow> (case op of
     ScheduleFinish r dep es rej \<Rightarrow>
       \<forall>e \<in> set es. omap_find (candidates st) (rc_candidateId (fst e)) \<noteq> None
   | _ \<Rightarrow> True)"

fun known_run :: "SchedulerState \<Rightarrow> sched_op list \<Rightarrow> bool" where
  "known_run st [] = True"
| "known_run st (op # ops) = (knows_entries op st \<and> known_run (apply_op op st) ops)"

text \<open>What the sections other than the end of \<^verbatim>\<open>schedule\<close> leave alone.\<close>

definition same_store :: "SchedulerState \<Rightarrow> SchedulerState \<Rightarrow> bool" where
  "same_store st st' \<longleftrightarrow>
     (\<forall>k. omap_find (plans st') k = None \<longleftrightarrow> omap_find (plans st) k = None) \<and>
     (\<forall>k. omap_find (candidates st) k \<noteq> None \<longrightarrow> omap_find (candidates st') k \<noteq> None) \<and>
     requests st' = requests st \<and> nextPlanId st' = nextPlanId st \<and>
     (is_valid (st_epoch st) \<longrightarrow> is_valid (st_epoch st'))"

lemma same_storeI:
  assumes "\<And>k. omap_find (plans st') k = None \<longleftrightarrow> omap_find (plans st) k = None"
    and "candidates st' = candidates st" "requests st' = requests st" "nextPlanId st' = nextPlanId st"
    and "st_epoch st' = st_epoch st"
  shows "same_store st st'"
  using assms by (simp add: same_store_def)

lemma same_store_assign:
  assumes "sched_ok st" "omap_find (plans st) pid = Some p"
  shows "same_store st (st\<lparr>plans := omap_assign pid q (plans st), nextEventOrdinal := n\<rparr>)"
    and "same_store st (st\<lparr>nextEventOrdinal := n, plans := omap_assign pid q (plans st)\<rparr>)"
    and "same_store st (move_plan pid p t st)"
  using assms sched_ok_plans [OF assms(1)] by (auto simp: same_store_def move_plan_def)

lemma same_store_refl: "same_store st st" "same_store st (st\<lparr>nextEventOrdinal := n\<rparr>)"
  by (simp_all add: same_store_def)

lemma set_epoch_same: "same_store st (snd (set_epoch e st))"
  by (auto simp: set_epoch_def same_store_def is_valid_def)

lemma ingest_same: "sched_ok st \<Longrightarrow> same_store st (snd (ingest_candidate c st))"
  unfolding ingest_candidate_def
  by (auto simp: same_store_def sched_ok_def omap_find_emplace split: sum.splits option.splits)

lemma commit_same:
  assumes "sched_ok st"
  shows "same_store st (snd (commit_begin pid st))" "same_store st (snd (commit_finish pid cs br st))"
proof -
  show "same_store st (snd (commit_begin pid st))"
    using assms by (cases rule: commit_begin_cases [of pid st])
      (auto simp: committable_def same_store_refl intro: same_store_assign)
  show "same_store st (snd (commit_finish pid cs br st))"
    using assms by (cases rule: commit_finish_cases [of pid st br cs])
      (auto simp: awaiting_def same_store_refl intro: same_store_assign)
qed

lemma handoff_same:
  assumes "sched_ok st"
  shows "same_store st (snd (handoff_begin pid st))" "same_store st (snd (handoff_finish pid h st))"
proof -
  show "same_store st (snd (handoff_begin pid st))"
    using assms by (cases rule: handoff_begin_cases [of pid st])
      (auto simp: launchable_def same_store_refl intro: same_store_assign)
  show "same_store st (snd (handoff_finish pid h st))"
    using assms by (cases rule: handoff_finish_cases [of pid st h])
      (auto simp: current_plan_def same_store_refl intro: same_store_assign)
qed

lemma revalidate_same: "sched_ok st \<Longrightarrow> same_store st (snd (revalidate pid fp st))"
  unfolding revalidate_def Let_def
  by (auto simp: same_store_refl intro!: same_store_assign(1) split: option.split)

lemma op_same_store:
  "sched_ok st \<Longrightarrow> (\<And>r dep es rej. op \<noteq> ScheduleFinish r dep es rej) \<Longrightarrow> same_store st (apply_op op st)"
  by (cases op)
    (auto simp: set_epoch_same ingest_same commit_same handoff_same revalidate_same
      fence_worker_def fence_source_def intro: same_storeI)

lemma durable_same_store:
  assumes "durable st" "same_store st st'" "plans_evolve st st'"
  shows "durable st'"
proof -
  have "omap_find (candidates st') (selectedCandidate q) \<noteq> None \<and> k < StrongId (nextPlanId st')"
    if q: "omap_find (plans st') k = Some q" for k q
  proof -
    have "omap_find (plans st') k = None \<longleftrightarrow> omap_find (plans st) k = None"
      using assms(2) unfolding same_store_def by blast
    with q obtain p where p: "omap_find (plans st) k = Some p" by auto
    with assms(3) obtain q' where "omap_find (plans st') k = Some q'" "evolves p q'"
      unfolding plans_evolve_def by blast
    with q have "evolves p q" by simp
    then have "selectedCandidate q = selectedCandidate p" by (simp add: evolves_def)
    with p assms(1,2) show ?thesis by (auto simp: durable_def same_store_def)
  qed
  with assms(1,2) show ?thesis by (simp add: durable_def same_store_def)
qed

lemma counter_succ: "unat (n :: 64 word) + 1 < 2 ^ 64 \<Longrightarrow> unat (n + 1) = Suc (unat n)"
  by (simp add: unat_word_ariths)

lemma durable_schedule:
  assumes "sched_ok st" "durable st" "unat (nextPlanId st) + 1 < 2 ^ 64"
    and "\<forall>e \<in> set es. omap_find (candidates st) (rc_candidateId (fst e)) \<noteq> None"
  shows "durable (snd (schedule_finish r dep es rej st))"
proof (cases es)
  case Nil
  then show ?thesis
    using assms(1,2) by (auto simp: schedule_finish_Nil durable_def sched_ok_def)
next
  case (Cons w rest)
  have less: "nextPlanId st < nextPlanId st + 1"
    using counter_succ [OF assms(3)] by (simp add: word_less_nat_alt)
  have old: "id_value k < nextPlanId st + 1" if "omap_find (plans st) k = Some p" for k p
    using assms(2) that less less_trans [of "id_value k" "nextPlanId st"]
    by (auto simp: durable_def less_strong_id_def)
  show ?thesis
    using assms(1,2,4) less
    by (auto simp: Cons schedule_finish_Cons durable_def omap_find_emplace[OF sched_ok_plans]
        less_strong_id_def intro: old split: option.splits if_splits)
qed

lemma durable_step:
  assumes "sched_ok st" "durable st" "unat (nextPlanId st) + 1 < 2 ^ 64" "knows_entries op st"
  shows "durable (apply_op op st)"
proof (cases "\<exists>r dep es rej. op = ScheduleFinish r dep es rej")
  case True
  then obtain r dep es rej where op: "op = ScheduleFinish r dep es rej" by blast
  show ?thesis
    unfolding op apply_op.simps
    by (rule durable_schedule [OF assms(1-3)]) (use assms(4) in \<open>simp add: op knows_entries_def\<close>)
next
  case False
  then have "same_store st (apply_op op st)" by (intro op_same_store [OF assms(1)]) blast
  with assms(2) show ?thesis
    using apply_op_keeps [OF assms(1), of op] by (auto simp: keeps_def intro: durable_same_store)
qed

lemma step_counter:
  assumes "sched_ok st"
  shows "nextPlanId (apply_op op st) = nextPlanId st \<or> nextPlanId (apply_op op st) = nextPlanId st + 1"
proof (cases "\<exists>r dep es rej. op = ScheduleFinish r dep es rej")
  case True
  then obtain r dep es rej where op: "op = ScheduleFinish r dep es rej" by blast
  show ?thesis
    by (cases es) (simp_all add: op schedule_finish_Nil schedule_finish_Cons)
next
  case False
  then have "same_store st (apply_op op st)" by (intro op_same_store [OF assms(1)]) blast
  then show ?thesis by (simp add: same_store_def)
qed

lemma durable_run:
  assumes "sched_ok st" "durable st" "known_run st ops"
    and "unat (nextPlanId st) + length ops < 2 ^ 64"
  shows "sched_ok (fold apply_op ops st) \<and> durable (fold apply_op ops st)"
  using assms
proof (induction ops arbitrary: st)
  case (Cons op ops)
  have n: "unat (nextPlanId st) + 1 < 2 ^ 64" using Cons.prems(4) by simp
  then have "unat (nextPlanId (apply_op op st)) \<le> Suc (unat (nextPlanId st))"
    using step_counter [OF Cons.prems(1), of op] counter_succ [OF n] by auto
  moreover have "durable (apply_op op st)"
    using Cons.prems n by (intro durable_step) simp_all
  ultimately show ?case
    using Cons.prems apply_op_keeps [OF Cons.prems(1), of op]
    by (simp add: Cons.IH keeps_def)
qed simp

lemma distinct_keys: "omap_ok m \<Longrightarrow> distinct (map fst m)"
  by (simp add: omap_ok_def strict_sorted_iff)

text \<open>A map whose values carry their own key.\<close>

lemma own_keys:
  assumes "omap_ok m" "\<And>k v. omap_find m k = Some v \<Longrightarrow> f v = k"
  shows "map f (map snd m) = map fst m"
proof -
  have "f (snd e) = fst e" if "e \<in> set m" for e
    using assms(2) [of "fst e" "snd e"] that omap_find_Some_iff [OF assms(1), of "fst e" "snd e"] by simp
  then show ?thesis by simp
qed

lemma snapshot_fields:
  "formatVersion (snapshot st) = kPersistenceFormatVersion" "per_epoch (snapshot st) = st_epoch st"
  "per_nextPlanId (snapshot st) = nextPlanId st" "per_requests (snapshot st) = map snd (requests st)"
  "per_plans (snapshot st) = map snd (plans st)"
  "map ci_candidateId (candidateIdentities (snapshot st)) = map candidateId (map snd (candidates st))"
  "per_cancelledRequests (snapshot st) = cancelledRequests st"
  by (simp_all add: snapshot_def identity_of_def)

lemma plan_of_store:
  assumes "sched_ok st" "p \<in> set (map snd (plans st))"
  obtains k where "omap_find (plans st) k = Some p"
  using assms omap_find_Some_iff [OF sched_ok_plans [OF assms(1)]] by auto

lemma store_keys:
  assumes "sched_ok st"
  shows "map planId (map snd (plans st)) = map fst (plans st)"
    and "map candidateId (map snd (candidates st)) = map fst (candidates st)"
proof -
  show "map planId (map snd (plans st)) = map fst (plans st)"
    by (rule own_keys [OF sched_ok_plans [OF assms]]) (use plan_okD [OF assms] in \<open>simp add: plan_ok_def\<close>)
  show "map candidateId (map snd (candidates st)) = map fst (candidates st)"
    using assms by (intro own_keys) (simp_all add: sched_ok_def)
qed

text \<open>The identities of a snapshot are in order, whatever the plans refer to.\<close>

lemma indexed_snapshot:
  assumes "sched_ok st" "is_valid (st_epoch st)" "0 < nextPlanId st"
    and "\<And>k r. omap_find (requests st) k = Some r \<Longrightarrow> req_requestId r = k"
    and "\<And>k p. omap_find (plans st) k = Some p \<Longrightarrow> k < StrongId (nextPlanId st)"
  shows "snapshot_indexed (snapshot st)"
proof -
  have ok: "omap_ok (requests st)" "omap_ok (plans st)" "omap_ok (candidates st)"
    and "distinct (cancelledRequests st)"
    using assms(1) by (simp_all add: sched_ok_def)
  moreover have "map req_requestId (map snd (requests st)) = map fst (requests st)"
    using ok(1) assms(4) by (rule own_keys)
  moreover have "planId p < StrongId (nextPlanId st)" if "p \<in> set (map snd (plans st))" for p
  proof -
    from that obtain k where "omap_find (plans st) k = Some p" by (rule plan_of_store [OF assms(1)])
    with assms(5) plan_okD [OF assms(1)] show ?thesis by (auto simp: plan_ok_def)
  qed
  ultimately show ?thesis
    unfolding snapshot_indexed_def snapshot_fields
    using assms(2,3) store_keys [OF assms(1)] distinct_keys [OF ok(1)] distinct_keys [OF ok(2)]
      distinct_keys [OF ok(3)] by (simp only:) simp
qed

lemma durable_indexed:
  assumes "sched_ok st" "durable st"
  shows "snapshot_sound (snapshot st)"
  unfolding snapshot_sound_def
proof
  show "snapshot_indexed (snapshot st)"
    using assms(2) by (intro indexed_snapshot [OF assms(1)]) (auto simp: durable_def)
  show "\<forall>p \<in> set (per_plans (snapshot st)). plan_recorded (snapshot st) p"
  proof
    fix p assume "p \<in> set (per_plans (snapshot st))"
    then have "p \<in> set (map snd (plans st))" by (simp only: snapshot_fields)
    then obtain k where k: "omap_find (plans st) k = Some p" by (rule plan_of_store [OF assms(1)])
    with assms(2) have "omap_find (candidates st) (selectedCandidate p) \<noteq> None"
      unfolding durable_def by blast
    then have "selectedCandidate p \<in> set (map fst (candidates st))"
      by (simp add: omap_find_None_iff image_iff Bex_def)
    then have "selectedCandidate p \<in> set (map ci_candidateId (candidateIdentities (snapshot st)))"
      by (simp only: snapshot_fields store_keys [OF assms(1)])
    with plan_okD [OF assms(1) k] show "plan_recorded (snapshot st) p"
      by (simp add: plan_ok_def plan_recorded_def)
  qed
qed

text \<open>A scheduler that starts fresh and runs any sequence of sections (fewer than 2^64 of them,
  \<^verbatim>\<open>schedule\<close> choosing among candidates it knows) always has a sound snapshot: when it is storable, the
  file written from it loads, and gives back that snapshot, the pinned topology generations aside.\<close>

theorem running_snapshot_loads:
  assumes "known_run (new_Scheduler cfg) ops" "length ops < 2 ^ 64 - 1"
    and "st = fold apply_op ops (new_Scheduler cfg)"
  shows "snapshot_sound (snapshot st) \<and>
     (storable (snapshot st) \<longrightarrow>
        persist_load (persist_save (snapshot st)) = Inr (forget_topology (snapshot st), []))"
proof -
  have "durable (new_Scheduler cfg)"
    by (simp add: durable_def new_Scheduler_def is_valid_def)
  moreover have "unat (nextPlanId (new_Scheduler cfg)) + length ops < 2 ^ 64"
    using assms(2) by (simp add: new_Scheduler_def)
  ultimately have s: "snapshot_sound (snapshot st)"
    using durable_run [OF sched_ok_new _ assms(1)] assms(3) by (simp add: durable_indexed)
  with load_storable [of "snapshot st" "[]"] show ?thesis by simp
qed

lemma demo_run:
  "known_run (new_Scheduler cfg) [Ingest sampleA, Cancel (StrongId 1)]"
  by (simp add: knows_entries_def)

theorem running_snapshot_loads_witness:
  "snapshot_sound (snapshot (cancel (StrongId 1) demo_st))"
proof -
  have "cancel (StrongId 1) demo_st =
      fold apply_op [Ingest sampleA, Cancel (StrongId 1)] (new_Scheduler default_SchedulerConfig)"
    by (simp add: demo_st_def)
  from running_snapshot_loads [OF demo_run _ this] show ?thesis by simp
qed

section \<open>After a restore\<close>

lemma restore_fields:
  "candidates (restore p st) = []" "st_epoch (restore p st) = per_epoch p"
  "nextPlanId (restore p st) = per_nextPlanId p"
  "requests (restore p st) = fold (\<lambda>r. omap_emplace (req_requestId r) r) (per_requests p) []"
  "map fst (plans (restore p st)) = map fst (fold (\<lambda>q. omap_emplace (planId q) q) (per_plans p) [])"
  by (simp_all add: restore_def)

text \<open>\<^verbatim>\<open>restore\<close> drops the known candidates but keeps the plans, so until the candidates are
  ingested again the snapshot of a restored scheduler that has a plan is written to a file that
  every load refuses as corrupt.\<close>

theorem restored_snapshot_refused:
  assumes "snapshot_sound p" "persisted_ok p" "per_plans p \<noteq> []"
    and "snapshot_fits (snapshot (restore p st))"
  shows "persist_load (persist_save (snapshot (restore p st)) @ rest) =
     throw Corruption ''selected candidate not in candidate set''"
proof -
  let ?s = "restore p st"
  have ok: "sched_ok ?s" using assms(2) by (rule restore_ok)
  have "snapshot_indexed (snapshot ?s)"
  proof (rule indexed_snapshot [OF ok])
    show "is_valid (st_epoch ?s)" "0 < nextPlanId ?s"
      using assms(1) by (simp_all add: restore_fields snapshot_sound_def snapshot_indexed_def)
    show "req_requestId r = k" if "omap_find (requests ?s) k = Some r" for k r
      using that by (auto simp: restore_fields dest: restored_find_Some)
    show "k < StrongId (nextPlanId ?s)" if "omap_find (plans ?s) k = Some q" for k q
    proof -
      have "k \<in> set (map fst (plans ?s))"
        using that omap_find_None_iff [of "plans ?s" k] by auto
      then have "omap_find (fold (\<lambda>q. omap_emplace (planId q) q) (per_plans p) []) k \<noteq> None"
        unfolding restore_fields by (simp add: omap_find_None_iff)
      then obtain q' where "planId q' = k" "q' \<in> set (per_plans p)"
        by (auto dest: restored_find_Some)
      with assms(1) show ?thesis
        by (auto simp: restore_fields snapshot_sound_def snapshot_indexed_def)
    qed
  qed
  moreover have "candidateIdentities (snapshot ?s) = []"
    by (simp add: snapshot_def restore_fields)
  moreover obtain q qs where "per_plans (snapshot ?s) = q # qs"
  proof -
    obtain x xs where "per_plans p = x # xs" using assms(3) by (cases "per_plans p") auto
    then have "omap_find (fold (\<lambda>q. omap_emplace (planId q) q) (per_plans p) []) (planId x) = Some x"
      unfolding restored_find by simp
    then have "map fst (plans ?s) \<noteq> []" unfolding restore_fields by auto
    then show ?thesis using that by (cases "plans ?s") (auto simp: snapshot_fields)
  qed
  ultimately have "read_payload kPersistenceFormatVersion (save_payload (snapshot ?s)) =
      throw Corruption ''selected candidate not in candidate set''"
    by (simp add: payload_parsed [OF assms(4)])
  with assms(4) show ?thesis
    by (simp add: persist_save_def load_framed snapshot_fits_def snapshot_fields rd_run_def)
qed

definition demo_restored :: SchedulerState where
  "demo_restored = restore demo_file (new_Scheduler default_SchedulerConfig)"

lemma demo_restored_snapshot:
  "snapshot demo_restored = demo_file
     \<lparr>per_nextEventOrdinal := 7, candidateIdentities := [],
      per_plans := [demo_record\<lparr>pl_state := REVALIDATION_REQUIRED,
        stateHistory := [(REVALIDATION_REQUIRED, 6)]\<rparr>]\<rparr>"
  by (simp add: demo_restored_def restore_def demo_file_def fence_plans_def omap_emplace_def snapshot_def
      demo_record_def default_PlacementPlan_def revalidate_live_def force_state_def record_state_def
      is_terminal_def kMaxPlanHistory_def kPersistenceFormatVersion_def Let_def)

lemma demo_restored_fits: "snapshot_fits (snapshot demo_restored)"
proof -
  have "length (save_payload (snapshot demo_restored)) \<le> kMaxPayload"
    unfolding demo_restored_snapshot by (simp add: save_payload_def demo_records kMaxPayload_def)
  then show ?thesis
    using demo_fits unfolding demo_restored_snapshot
    by (simp add: snapshot_fits_def plan_fits_def list_ok_def demo_file_def kMaxRecords_def)
qed

theorem restored_snapshot_refused_witness:
  "persist_load (persist_save (snapshot demo_restored)) =
     throw Corruption ''selected candidate not in candidate set''"
proof -
  have "persisted_ok demo_file"
    by (simp add: persisted_ok_def demo_file_def demo_record_def default_PlacementPlan_def)
  from restored_snapshot_refused [OF demo_sound this, of "new_Scheduler default_SchedulerConfig" "[]"]
    demo_restored_fits
  show ?thesis by (simp add: demo_restored_def) (simp add: demo_file_def)
qed

end
