(* ===== verification/Coordinator.thy ===== *)
theory Coordinator
  imports Net Persistence_Properties
begin

text \<open>
  The coordinator process (\<^verbatim>\<open>coordinator_main.cpp\<close>): what one connection thread does with each
  frame it receives, over the scheduler facade, the in-memory broker, the execution adapter that
  compares with the current authority, and the veto against fenced workers.

  The socket and the state file are the host's (\<open>Host\<close>), over one world \<open>'w\<close>. A frame is
  handled as one step; the interleaving of the scheduler's critical sections between threads is
  the subject of the theory \<open>Interleaving\<close>. C++ exceptions other than \<^verbatim>\<open>FabricError\<close> (a failed
  allocation) are not modelled, so the handlers \<^verbatim>\<open>catch (...)\<close> only see \<^verbatim>\<open>FabricError\<close>.
\<close>

section \<open>The process state\<close>

datatype file_result = OpenFailed | WriteFailed | Written

record 'w Host =
  host_socket :: "'w SocketIo"
  write_file :: "string \<Rightarrow> byte list \<Rightarrow> 'w \<Rightarrow> file_result \<times> 'w"

record Ctx =
  ctx_sched :: SchedulerState
  ctx_broker :: InMemoryBroker
  live_fenced :: "WorkerBootId list"
  running :: bool
  stateFile :: string
  ctx_workers :: "string \<Rightarrow> WorkerBootId option"

record Connection =
  con_channel :: TcpChannel
  con_boot :: WorkerBootId
  hasBoot :: bool

text \<open>\<^verbatim>\<open>CurrentAuthorityExec\<close>: its state is the scheduler's current authority, which it reads.\<close>

definition CurrentAuthorityExec_authorize ::
  "PlacementPlan \<Rightarrow> AuthorityGeneration \<Rightarrow> ExecutionHandoff \<times> AuthorityGeneration"
where
  "CurrentAuthorityExec_authorize plan authority =
     (default_ExecutionHandoff
        \<lparr>hnd_authorityGeneration := pl_authorityGeneration plan,
         authorized := (pl_authorityGeneration plan = authority)\<rparr>, authority)"

definition current_authority_exec :: "AuthorityGeneration ExecutionFabric" where
  "current_authority_exec = \<lparr>authorize = CurrentAuthorityExec_authorize\<rparr>"

interpretation current_gate: authority_gate current_authority_exec "(=)"
  by unfold_locales (auto simp: current_authority_exec_def CurrentAuthorityExec_authorize_def)

definition LiveVeto :: "WorkerBootId list \<Rightarrow> PolicyVeto" where
  "LiveVeto fenced = \<lparr>
     pv_allows = (\<lambda>c. workerBootId c \<notin> set fenced),
     pv_reason = (\<lambda>c. if workerBootId c \<in> set fenced then ''worker boot is fenced'' else [])\<rparr>"

definition all_ErrorCode :: "ErrorCode list" where
  "all_ErrorCode =
     [InvalidArgument, InvalidDemand, NegativeQuantity, NonFinite, Overflow, ImpossibleTopology,
      EmptyRequiredCandidateSet, InvalidCountRange, ImpossibleDuration,
      MalformedLocalityConstraint, InvalidPolicyGeneration, IllegalLifecycleTransition,
      StaleGeneration, StaleAuthority, UnknownState, IntegrityError, UnsupportedVersion,
      Corruption, ProtocolError, MalformedFrame, OversizedFrame, ChecksumMismatch, Truncation,
      ResourceCommitFailure, Cancelled, Superseded, Internal, NotImplemented,
      RevalidationRequired]"

interpretation ErrorCode_enum: byte_enum all_ErrorCode
  by unfold_locales (auto simp: all_ErrorCode_def intro: ErrorCode.exhaust)

section \<open>Replies\<close>

definition reply :: "'w Host \<Rightarrow> Connection \<Rightarrow> MessageType \<Rightarrow> byte list \<Rightarrow> 'w \<Rightarrow> unit res \<times> 'w" where
  "reply host con t payload w = send_frame (host_socket host) (con_channel con) t payload 0 w"

text \<open>\<^verbatim>\<open>send_error\<close>: whatever goes wrong while it is sent is swallowed.\<close>

definition error_payload :: "ErrorCode \<Rightarrow> string \<Rightarrow> byte list" where
  "error_payload code msg = put_u16 (enum_code all_ErrorCode code) @ put_string msg"

definition send_error :: "'w Host \<Rightarrow> Connection \<Rightarrow> ErrorCode \<Rightarrow> string \<Rightarrow> 'w \<Rightarrow> 'w" where
  "send_error host con code msg w = snd (reply host con ERROR (error_payload code msg) w)"

definition fence_worker_and_bump :: "WorkerBootId \<Rightarrow> Ctx \<Rightarrow> Ctx" where
  "fence_worker_and_bump boot ctx =
     (let s1 = fence_worker boot (ctx_sched ctx);
          (_, s2) = set_epoch (StrongId (id_value (epoch s1) + 1)) s1 in
      ctx\<lparr>live_fenced := uset_insert boot (live_fenced ctx), ctx_sched := s2\<rparr>)"

section \<open>One message\<close>

definition handle_hello :: "'w Host \<Rightarrow> Connection \<Rightarrow> Ctx \<Rightarrow> 'w \<Rightarrow> unit res \<times> 'w" where
  "handle_hello host con ctx w =
     reply host con HELLO
       (put_u64 (id_value (epoch (ctx_sched ctx))) @
        put_u64 (word_of_nat (candidate_count (ctx_sched ctx)))) w"

definition handle_register ::
  "'w Host \<Rightarrow> byte list \<Rightarrow> Connection \<Rightarrow> Ctx \<Rightarrow> 'w \<Rightarrow> unit res \<times> Connection \<times> Ctx \<times> 'w"
where
  "handle_register host payload con ctx w =
     (case rd_run (rd_bind get_u64 (\<lambda>workerId. rd_bind get_u64 (\<lambda>b.
             rd_bind get_string (\<lambda>name. rd_return (b, name))))) payload of
        Inl e \<Rightarrow> (Inl e, con, ctx, w)
      | Inr (b, name) \<Rightarrow>
          (let con1 = con\<lparr>con_boot := StrongId b, hasBoot := True\<rparr>;
               ctx1 = ctx\<lparr>ctx_workers := (ctx_workers ctx)(name \<mapsto> StrongId b)\<rparr>;
               (r, w1) = reply host con1 REGISTER (put_u8 1) w in
           (r, con1, ctx1, w1)))"

definition handle_publish ::
  "'w Host \<Rightarrow> MessageType \<Rightarrow> byte list \<Rightarrow> Connection \<Rightarrow> Ctx \<Rightarrow> 'w \<Rightarrow> unit res \<times> Ctx \<times> 'w"
where
  "handle_publish host t payload con ctx w =
     (case rd_run decode_candidate_record payload of
        Inl e \<Rightarrow> (Inl e, ctx, w)
      | Inr cand \<Rightarrow>
          (case ingest_candidate cand (ctx_sched ctx) of
             (Inl e, s1) \<Rightarrow>
               (Inr (), ctx\<lparr>ctx_sched := s1\<rparr>, send_error host con (fe_code e) (fe_what e) w)
           | (Inr _, s1) \<Rightarrow>
               (case reply host con t (put_u8 1) w of
                  (Inl e, w1) \<Rightarrow>
                    (Inr (), ctx\<lparr>ctx_sched := s1\<rparr>, send_error host con (fe_code e) (fe_what e) w1)
                | (Inr _, w1) \<Rightarrow> (Inr (), ctx\<lparr>ctx_sched := s1\<rparr>, w1))))"

definition handle_submit ::
  "'w Host \<Rightarrow> byte list \<Rightarrow> Connection \<Rightarrow> Ctx \<Rightarrow> 'w \<Rightarrow> unit res \<times> Ctx \<times> 'w"
where
  "handle_submit host payload con ctx w =
     (case rd_run dec_request_r payload of
        Inl e \<Rightarrow> (Inl e, ctx, w)
      | Inr r \<Rightarrow>
          (case schedule r (Some AlwaysReadyDependency) (Some (LiveVeto (live_fenced ctx)))
                  (ctx_sched ctx) of
             (Inl e, s1) \<Rightarrow> (Inl e, ctx\<lparr>ctx_sched := s1\<rparr>, w)
           | (Inr d, s1) \<Rightarrow>
               (let (sent, w1) = reply host con PLACEMENT_PLAN
                      (put_u8 (if producedPlan d then 1 else 0) @ enc_plan (dec_plan d) @
                       put_string (summary d)) w in
                (sent, ctx\<lparr>ctx_sched := s1\<rparr>, w1))))"

definition handle_commit ::
  "'w Host \<Rightarrow> byte list \<Rightarrow> Connection \<Rightarrow> Ctx \<Rightarrow> 'w \<Rightarrow> unit res \<times> Ctx \<times> 'w"
where
  "handle_commit host payload con ctx w =
     (case rd_run get_id payload of
        Inl e \<Rightarrow> (Inl e, ctx, w)
      | Inr pid \<Rightarrow>
          (let (r, b1, s1) = commit pid in_memory_broker (ctx_broker ctx) (ctx_sched ctx);
               ctx1 = ctx\<lparr>ctx_sched := s1, ctx_broker := b1\<rparr> in
           case r of
             Inl e \<Rightarrow> (Inl e, ctx1, w)
           | Inr cr \<Rightarrow>
               (let (r1, w1) = reply host con COMMIT_RESULT
                      (put_u8 (if succeeded cr then 1 else 0) @ put_id (rcr_resourceGeneration cr) @
                       put_string (commitmentToken cr) @ put_string (failureReason cr)) w in
                (r1, ctx1, w1))))"

definition handle_handoff ::
  "'w Host \<Rightarrow> byte list \<Rightarrow> Connection \<Rightarrow> Ctx \<Rightarrow> 'w \<Rightarrow> unit res \<times> Ctx \<times> 'w"
where
  "handle_handoff host payload con ctx w =
     (case rd_run get_id payload of
        Inl e \<Rightarrow> (Inl e, ctx, w)
      | Inr pid \<Rightarrow>
          (let (r, _, s1) = handoff pid current_authority_exec
                 (current_authority (ctx_sched ctx)) (ctx_sched ctx);
               ctx1 = ctx\<lparr>ctx_sched := s1\<rparr> in
           case r of
             Inl e \<Rightarrow> (Inl e, ctx1, w)
           | Inr h \<Rightarrow>
               (let (r1, w1) = reply host con EXECUTION_RESULT
                      (put_u8 (if authorized h then 1 else 0) @ put_id (hnd_authorityGeneration h)) w in
                (r1, ctx1, w1))))"

definition handle_revalidate ::
  "'w Host \<Rightarrow> byte list \<Rightarrow> Connection \<Rightarrow> Ctx \<Rightarrow> 'w \<Rightarrow> unit res \<times> Ctx \<times> 'w"
where
  "handle_revalidate host payload con ctx w =
     (case rd_run (rd_bind get_id (\<lambda>pid. rd_bind dec_fingerprint (\<lambda>fp. rd_return (pid, fp)))) payload of
        Inl e \<Rightarrow> (Inl e, ctx, w)
      | Inr (pid, fp) \<Rightarrow>
          (case revalidate pid fp (ctx_sched ctx) of
             (Inl e, s1) \<Rightarrow> (Inl e, ctx\<lparr>ctx_sched := s1\<rparr>, w)
           | (Inr rr, s1) \<Rightarrow>
               (let (r1, w1) = reply host con REVALIDATE
                      (put_u8 (if current rr then 1 else 0) @ put_list put_string (changes rr)) w in
                (r1, ctx\<lparr>ctx_sched := s1\<rparr>, w1))))"

definition handle_cancel ::
  "'w Host \<Rightarrow> byte list \<Rightarrow> Connection \<Rightarrow> Ctx \<Rightarrow> 'w \<Rightarrow> unit res \<times> Ctx \<times> 'w"
where
  "handle_cancel host payload con ctx w =
     (case rd_run get_id payload of
        Inl e \<Rightarrow> (Inl e, ctx, w)
      | Inr rid \<Rightarrow>
          (let (r, w1) = reply host con CANCEL (put_u8 0) w in
           (r, ctx\<lparr>ctx_sched := cancel rid (ctx_sched ctx)\<rparr>, w1)))"

definition handle_supersede ::
  "'w Host \<Rightarrow> byte list \<Rightarrow> Connection \<Rightarrow> Ctx \<Rightarrow> 'w \<Rightarrow> unit res \<times> Ctx \<times> 'w"
where
  "handle_supersede host payload con ctx w =
     (case rd_run (rd_bind get_id (\<lambda>old. rd_bind get_id (\<lambda>new. rd_return (old, new)))) payload of
        Inl e \<Rightarrow> (Inl e, ctx, w)
      | Inr (old, new) \<Rightarrow>
          (let (r, w1) = reply host con SUPERSEDE (put_u8 0) w in
           (r, ctx\<lparr>ctx_sched := supersede old new [] (ctx_sched ctx)\<rparr>, w1)))"

definition handle_save :: "'w Host \<Rightarrow> Connection \<Rightarrow> Ctx \<Rightarrow> 'w \<Rightarrow> unit res \<times> 'w" where
  "handle_save host con ctx w =
     (case write_file host (stateFile ctx) (persist_save (snapshot (ctx_sched ctx))) w of
        (OpenFailed, w1) \<Rightarrow> (Inr (), send_error host con Internal ''cannot open state file'' w1)
      | (WriteFailed, w1) \<Rightarrow> (Inr (), send_error host con Internal ''state write failed'' w1)
      | (Written, w1) \<Rightarrow> reply host con SAVE (put_u8 1) w1)"

text \<open>The flag says that the thread returns: the reply to SHUTDOWN was sent.\<close>

definition handle_shutdown :: "'w Host \<Rightarrow> Connection \<Rightarrow> Ctx \<Rightarrow> 'w \<Rightarrow> bool res \<times> Ctx \<times> 'w" where
  "handle_shutdown host con ctx w =
     (case reply host con SHUTDOWN [] w of
        (Inl e, w1) \<Rightarrow> (Inl e, ctx, w1)
      | (Inr _, w1) \<Rightarrow> (Inr True, ctx\<lparr>running := False\<rparr>, w1))"

section \<open>The connection loop\<close>

text \<open>The \<^verbatim>\<open>switch\<close> over the message type; the flag says that the thread returns.\<close>

definition handle_frame ::
  "'w Host \<Rightarrow> MessageType \<Rightarrow> byte list \<Rightarrow> Connection \<Rightarrow> Ctx \<Rightarrow> 'w \<Rightarrow> bool res \<times> Connection \<times> Ctx \<times> 'w"
where
  "handle_frame host t payload con ctx w =
     (let stay = (\<lambda>(r, ctx1, w1). (map_sum id (\<lambda>_. False) r, con, ctx1, w1)) in
      case t of
        HELLO \<Rightarrow> (let (r, w1) = handle_hello host con ctx w in stay (r, ctx, w1))
      | REGISTER \<Rightarrow>
          (let (r, con1, ctx1, w1) = handle_register host payload con ctx w in
           (map_sum id (\<lambda>_. False) r, con1, ctx1, w1))
      | PUBLISH_RESOURCE \<Rightarrow> stay (handle_publish host t payload con ctx w)
      | PUBLISH_CAPACITY \<Rightarrow> stay (handle_publish host t payload con ctx w)
      | PUBLISH_CONGESTION \<Rightarrow> stay (handle_publish host t payload con ctx w)
      | PUBLISH_HEALTH \<Rightarrow> stay (handle_publish host t payload con ctx w)
      | SUBMIT_WORKLOAD \<Rightarrow> stay (handle_submit host payload con ctx w)
      | COMMIT_REQUEST \<Rightarrow> stay (handle_commit host payload con ctx w)
      | EXECUTION_HANDOFF \<Rightarrow> stay (handle_handoff host payload con ctx w)
      | REVALIDATE \<Rightarrow> stay (handle_revalidate host payload con ctx w)
      | CANCEL \<Rightarrow> stay (handle_cancel host payload con ctx w)
      | SUPERSEDE \<Rightarrow> stay (handle_supersede host payload con ctx w)
      | SAVE \<Rightarrow> (let (r, w1) = handle_save host con ctx w in stay (r, ctx, w1))
      | SHUTDOWN \<Rightarrow> (let (r, ctx1, w1) = handle_shutdown host con ctx w in (r, con, ctx1, w1))
      | _ \<Rightarrow> (Inr False, con, ctx, send_error host con ProtocolError ''unhandled message type'' w))"

text \<open>One turn of the loop: \<open>None\<close> when the thread returns.\<close>

definition serve_step :: "'w Host \<Rightarrow> Connection \<Rightarrow> Ctx \<Rightarrow> 'w \<Rightarrow> Connection option \<times> Ctx \<times> 'w" where
  "serve_step host con ctx w =
     (if \<not> running ctx then (None, ctx, w)
      else case recv_frame (host_socket host) (con_channel con) w of
        (Inl e, w1) \<Rightarrow>
          (None, if hasBoot con then fence_worker_and_bump (con_boot con) ctx else ctx, w1)
      | (Inr (t, payload), w1) \<Rightarrow>
          (case handle_frame host t payload con ctx w1 of
             (Inr True, con1, ctx1, w2) \<Rightarrow> (None, ctx1, w2)
           | (Inr False, con1, ctx1, w2) \<Rightarrow> (Some con1, ctx1, w2)
           | (Inl e, con1, ctx1, w2) \<Rightarrow>
               if channel_valid (con_channel con1) then
                 (Some con1, ctx1, send_error host con1 (fe_code e) (fe_what e) w2)
               else if hasBoot con1 then
                 (None, fence_worker_and_bump (con_boot con1) ctx1, w2)
               else (Some con1, ctx1, w2)))"

partial_function (option) serve_loop :: "'w Host \<Rightarrow> Connection \<Rightarrow> Ctx \<Rightarrow> 'w \<Rightarrow> (Ctx \<times> 'w) option" where
  "serve_loop host con ctx w =
     (case serve_step host con ctx w of
        (None, ctx1, w1) \<Rightarrow> Some (ctx1, w1)
      | (Some con1, ctx1, w1) \<Rightarrow> serve_loop host con1 ctx1 w1)"

definition serve_connection :: "'w Host \<Rightarrow> TcpChannel \<Rightarrow> Ctx \<Rightarrow> 'w \<Rightarrow> (Ctx \<times> 'w) option" where
  "serve_connection host ch ctx w =
     serve_loop host \<lparr>con_channel = ch, con_boot = StrongId 0, hasBoot = False\<rparr> ctx w"

text \<open>The state \<^verbatim>\<open>main\<close> starts with.\<close>

definition coordinator_config :: SchedulerConfig where
  "coordinator_config = default_SchedulerConfig
     \<lparr>cfg_policy := default_PolicyConfig\<lparr>pol_generation := StrongId 1\<rparr>,
      cfg_maxCandidatesPerRequest := 64\<rparr>"

definition new_coordinator :: "string \<Rightarrow> Ctx" where
  "new_coordinator file =
     \<lparr>ctx_sched = new_Scheduler coordinator_config,
      ctx_broker = \<lparr>failNext = False, nextToken = 0\<rparr>, live_fenced = [], running = True,
      stateFile = file, ctx_workers = (\<lambda>_. None)\<rparr>"

lemma fence_and_bump_fields:
  "live_fenced (fence_worker_and_bump b ctx) = uset_insert b (live_fenced ctx)"
  "running (fence_worker_and_bump b ctx) = running ctx"
  "ctx_sched (fence_worker_and_bump b ctx) =
     apply_op (SetEpoch (StrongId (id_value (st_epoch (ctx_sched ctx)) + 1)))
       (apply_op (FenceWorker b) (ctx_sched ctx))"
  by (simp_all add: fence_worker_and_bump_def Let_def epoch_def fence_worker_def split: prod.split)

end
