(* ===== verification/Coordinator_Turns.thy ===== *)
theory Coordinator_Turns
  imports Coordinator
begin

text \<open>
  What one turn of a connection thread may do to the shared state, and what every state holds that
  the coordinator can get into. A call of the facade is a short run of its critical sections
  (\<open>facade_call\<close>) and, in the model of the theory \<open>Interleaving\<close>, a run of one thread that starts and
  ends with no job outstanding; a turn makes at most three calls. The relation \<open>served\<close> runs turns
  of any connections, over any hosts, in any order.
\<close>

section \<open>Calls of the facade\<close>

abbreviation idle :: "SchedulerState \<Rightarrow> event list \<Rightarrow> system" where
  "idle st lg \<equiv> \<lparr>sched = st, jobs = [], log = lg\<rparr>"

definition facade_call :: "SchedulerState \<Rightarrow> SchedulerState \<Rightarrow> bool" where
  "facade_call st st' \<longleftrightarrow>
     (\<exists>ops. st' = fold apply_op ops st \<and> known_run st ops \<and> length ops \<le> 2) \<and>
     (\<forall>lg. \<exists>lg'. sys_step\<^sup>*\<^sup>* (idle st lg) (idle st' lg'))"

lemma facade_callI:
  assumes "st' = fold apply_op ops st" "known_run st ops" "length ops \<le> 2"
    and "\<And>lg. \<exists>lg'. sys_step\<^sup>*\<^sup>* (idle st lg) (idle st' lg')"
  shows "facade_call st st'"
  using assms unfolding facade_call_def by blast

lemma no_call: "facade_call st st"
  by (rule facade_callI [of _ "[]"]) auto

lemma atomic_call: "atomic op \<Longrightarrow> facade_call st (apply_op op st)"
proof (rule facade_callI [of _ "[op]"])
  assume "atomic op"
  then show "known_run st [op]" by (cases op) (simp_all add: knows_entries_def)
  show "\<exists>lg'. sys_step\<^sup>*\<^sup>* (idle st lg) (idle (apply_op op st) lg')" for lg
    using sys_step.mutex_method [OF \<open>atomic op\<close>, of "idle st lg"] by auto
qed simp_all

lemmas mutex_calls =
  atomic_call [of "SetEpoch e" for e, simplified]
  atomic_call [of "FenceWorker b" for b, simplified]
  atomic_call [of "Ingest c" for c, simplified]
  atomic_call [of "Revalidate pid fp" for pid fp, simplified]
  atomic_call [of "Cancel rid" for rid, simplified]
  atomic_call [of "Supersede a b why" for a b why, simplified]

lemma schedule_call:
  assumes "sched_ok st"
  shows "facade_call st (snd (schedule r dep pol st))"
proof (cases "validate (demand r)")
  case (Inl e)
  then show ?thesis by (simp add: schedule_def no_call)
next
  case (Inr u)
  let ?es = "std_sort entry_less (entries_of r dep pol st)"
  let ?rej = "rejected_entries r dep pol (schedule_begin st)"
  have valid: "validate (demand r) = Inr ()" using Inr by simp
  have eq: "snd (schedule r dep pol st) = snd (schedule_finish r dep ?es ?rej st)"
    by (simp add: schedule_eq [OF valid])
  show ?thesis
  proof (rule facade_callI [of _ "[ScheduleFinish r dep ?es ?rej]"])
    have "omap_find (candidates st) (rc_candidateId (fst e)) \<noteq> None" if "e \<in> set ?es" for e
    proof -
      obtain rk c where e: "e = (rk, c)" by (cases e)
      with that have "(rk, c) \<in> set (entries_of r dep pol st)" by simp
      then show ?thesis by (simp add: e entries_iff candidate_in_snapshot [OF assms])
    qed
    then show "known_run st [ScheduleFinish r dep ?es ?rej]" by (simp add: knows_entries_def)
    fix lg
    have "sys_step\<^sup>*\<^sup>* (idle st lg) (idle st lg\<lparr>jobs := [ScheduleJob r dep ?es ?rej]\<rparr>)"
      using schedule_filtered [OF valid, of "idle st lg" dep pol] by simp
    moreover have "sys_step (idle st lg\<lparr>jobs := [ScheduleJob r dep ?es ?rej]\<rparr>)
        (idle (snd (schedule r dep pol st)) lg)"
      using sys_step.schedule_end [of "idle st lg\<lparr>jobs := [ScheduleJob r dep ?es ?rej]\<rparr>" "[]" r dep ?es ?rej "[]"]
      by (simp add: eq)
    ultimately show "\<exists>lg'. sys_step\<^sup>*\<^sup>* (idle st lg) (idle (snd (schedule r dep pol st)) lg')"
      by (meson rtranclp.rtrancl_into_rtrancl rtranclp.rtrancl_refl)
  qed (simp_all add: eq)
qed

lemma commit_call:
  assumes "sched_ok st"
  shows "facade_call st (snd (snd (commit pid broker b st)))"
proof (cases rule: commit_begin_cases [of pid st])
  case (2 why)
  then show ?thesis by (simp add: commit_def no_call)
next
  case (1 p)
  let ?st1 = "move_plan pid p AWAITING_RESOURCE_COMMIT st" and ?cs = "claims p"
  obtain br b1 where br: "broker_commit broker ?cs b = (br, b1)" by (cases "broker_commit broker ?cs b")
  obtain out rel st2 where fin: "commit_finish pid ?cs br ?st1 = (Inr (out, rel), st2)"
    by (cases rule: commit_finish_cases [of pid ?st1 br ?cs]; cases "commit_finish pid ?cs br ?st1") auto
  have eq: "snd (snd (commit pid broker b st)) = st2"
    by (simp add: commit_def 1(2) br fin)
  have "facade_call st st2"
  proof (rule facade_callI [of _ "[CommitBegin pid, CommitFinish pid ?cs br]"])
    fix lg
    let ?S1 = "idle st lg\<lparr>sched := ?st1, jobs := [CommitCall pid ?cs], log := lg @ [BrokerAsked pid ?cs]\<rparr>"
    let ?S2 = "?S1\<lparr>jobs := [CommitAnswer pid ?cs br], log := log ?S1 @ [BrokerAnswered pid br]\<rparr>"
    let ?S3 = "idle st2 (log ?S2 @ released_event rel @ [CommitDone pid out])"
    have "sys_step (idle st lg) ?S1"
      using sys_step.commit_start [of pid "idle st lg" ?cs ?st1] 1(2) by simp
    moreover have "sys_step ?S1 ?S2"
      using sys_step.broker_answer [of ?S1 "[]" pid ?cs "[]" br] by simp
    moreover have "sys_step ?S2 ?S3"
      using sys_step.commit_end [of ?S2 "[]" pid ?cs br "[]" out rel st2] fin by simp
    ultimately show "\<exists>lg'. sys_step\<^sup>*\<^sup>* (idle st lg) (idle st2 lg')"
      by (meson rtranclp.rtrancl_into_rtrancl rtranclp.rtrancl_refl)
  qed (simp_all add: 1(2) fin knows_entries_def)
  then show ?thesis by (simp add: eq)
qed

lemma handoff_call:
  "facade_call st (snd (snd (handoff pid exec e st)))"
proof (cases rule: handoff_begin_cases [of pid st])
  case 2
  then show ?thesis by (simp add: handoff_def no_call)
next
  case (1 p)
  let ?st1 = "move_plan pid p AWAITING_EXECUTION st"
  obtain h e1 where h: "authorize exec p e = (h, e1)" by (cases "authorize exec p e")
  obtain r st2 where fin: "handoff_finish pid h ?st1 = (r, st2)" by (cases "handoff_finish pid h ?st1")
  have eq: "snd (snd (handoff pid exec e st)) = st2" by (simp add: handoff_def 1(2) h fin)
  have "facade_call st st2"
  proof (rule facade_callI [of _ "[HandoffBegin pid, HandoffFinish pid h]"])
    fix lg
    let ?S1 = "idle st lg\<lparr>sched := ?st1, jobs := [HandoffCall pid p], log := lg @ [ExecAsked pid p]\<rparr>"
    let ?S2 = "?S1\<lparr>jobs := [HandoffAnswer pid h], log := log ?S1 @ [ExecAnswered pid h]\<rparr>"
    have "sys_step (idle st lg) ?S1"
      using sys_step.handoff_start [of pid "idle st lg" p ?st1] 1(2) by simp
    moreover have "sys_step ?S1 ?S2"
      using sys_step.exec_answer [of ?S1 "[]" pid p "[]" h] by simp
    moreover have "sys_step ?S2 (idle st2 (log ?S2 @ [HandoffDone pid r]))"
      using sys_step.handoff_end [of ?S2 "[]" pid h "[]" r st2] fin by simp
    ultimately show "\<exists>lg'. sys_step\<^sup>*\<^sup>* (idle st lg) (idle st2 lg')"
      by (meson rtranclp.rtrancl_into_rtrancl rtranclp.rtrancl_refl)
  qed (simp_all add: 1(2) fin knows_entries_def)
  then show ?thesis by (simp add: eq)
qed

lemmas facade_calls = mutex_calls schedule_call commit_call handoff_call no_call

section \<open>Sequences of calls\<close>

lemma known_run_append:
  "known_run st (as @ bs) \<longleftrightarrow> known_run st as \<and> known_run (fold apply_op as st) bs"
  by (induction as arbitrary: st) auto

lemma calls_ops:
  assumes "(facade_call ^^ n) st st'"
  shows "\<exists>ops. st' = fold apply_op ops st \<and> known_run st ops \<and> length ops \<le> 2 * n"
  using assms
proof (induction n arbitrary: st')
  case (Suc n)
  then obtain st1 where "(facade_call ^^ n) st st1" "facade_call st1 st'" by auto
  with Suc.IH obtain as bs where "st1 = fold apply_op as st" "known_run st as" "length as \<le> 2 * n"
    and "st' = fold apply_op bs st1" "known_run st1 bs" "length bs \<le> 2"
    unfolding facade_call_def by blast
  then show ?case by (intro exI [of _ "as @ bs"]) (simp add: known_run_append)
qed auto

lemma calls_threads:
  assumes "(facade_call ^^ n) st st'"
  shows "\<exists>lg'. sys_step\<^sup>*\<^sup>* (idle st lg) (idle st' lg')"
  using assms
proof (induction n arbitrary: st')
  case (Suc n)
  then obtain st1 where "(facade_call ^^ n) st st1" "facade_call st1 st'" by auto
  with Suc.IH obtain l1 l2 where "sys_step\<^sup>*\<^sup>* (idle st lg) (idle st1 l1)" "sys_step\<^sup>*\<^sup>* (idle st1 l1) (idle st' l2)"
    unfolding facade_call_def by blast
  then show ?case by (meson rtranclp_trans)
qed auto

lemma call_ok: "facade_call st st' \<Longrightarrow> sched_ok st \<Longrightarrow> sched_ok st'"
  unfolding facade_call_def using ops_keep by (auto simp: keeps_def)

text \<open>What only ever grows.\<close>

definition grows :: "SchedulerState \<Rightarrow> SchedulerState \<Rightarrow> bool" where
  "grows st st' \<longleftrightarrow>
     set (fencedWorkers st) \<subseteq> set (fencedWorkers st') \<and> id_value (st_epoch st) \<le> id_value (st_epoch st') \<and>
     plans_evolve st st'"

lemma op_grows:
  assumes "sched_ok st"
  shows "grows st (apply_op op st)"
proof -
  have "set (fencedWorkers st) \<subseteq> set (fencedWorkers (apply_op op st)) \<and>
      id_value (st_epoch st) \<le> id_value (st_epoch (apply_op op st))"
  proof (cases op)
    case (SetEpoch e)
    then show ?thesis by (auto simp: set_epoch_def)
  next
    case (Ingest c)
    then show ?thesis by (auto simp: ingest_candidate_def split: sum.split option.split)
  next
    case (ScheduleFinish r dep es rej)
    then show ?thesis by (cases es) (simp_all add: schedule_finish_Nil schedule_finish_Cons)
  next
    case (CommitBegin pid)
    then show ?thesis by (cases rule: commit_begin_cases [of pid st]) (simp_all add: move_plan_def)
  next
    case (CommitFinish pid cs br)
    then show ?thesis by (cases rule: commit_finish_cases [of pid st br cs]) (simp_all add: move_plan_def)
  next
    case (HandoffBegin pid)
    then show ?thesis by (cases rule: handoff_begin_cases [of pid st]) (simp_all add: move_plan_def)
  next
    case (HandoffFinish pid h)
    then show ?thesis by (cases rule: handoff_finish_cases [of pid st h]) (simp_all add: move_plan_def)
  next
    case (Revalidate pid fp)
    then show ?thesis by (simp add: revalidate_def Let_def split: option.split)
  qed (auto simp: fence_worker_def fence_source_def)
  with apply_op_keeps [OF assms, of op] show ?thesis by (simp add: grows_def keeps_def)
qed

lemma grows_trans: "grows a b \<Longrightarrow> grows b c \<Longrightarrow> grows a c"
  unfolding grows_def by (meson order_trans plans_evolve_trans)

lemma ops_grow: "sched_ok st \<Longrightarrow> grows st (fold apply_op ops st)"
proof (induction ops arbitrary: st)
  case Nil
  then show ?case by (simp add: grows_def)
next
  case (Cons op ops)
  then show ?case
    using grows_trans [OF op_grows [OF Cons.prems, of op]] apply_op_keeps [OF Cons.prems, of op]
    by (simp add: keeps_def)
qed

lemma call_grows: "facade_call st st' \<Longrightarrow> sched_ok st \<Longrightarrow> grows st st'"
  unfolding facade_call_def using ops_grow by blast

section \<open>Placements that avoid a worker\<close>

text \<open>
  \<open>avoids b old st\<close>: worker boot \<open>b\<close> is fenced, and every plan whose id is not in \<open>old\<close> has selected a
  candidate that another boot published.
\<close>

definition avoids :: "WorkerBootId \<Rightarrow> PlacementPlanId set \<Rightarrow> SchedulerState \<Rightarrow> bool" where
  "avoids b old st \<longleftrightarrow>
     sched_ok st \<and> b \<in> set (fencedWorkers st) \<and>
     (\<forall>k p. omap_find (plans st) k = Some p \<longrightarrow> k \<notin> old \<longrightarrow>
        (\<exists>c. omap_find (candidates st) (selectedCandidate p) = Some c \<and> workerBootId c \<noteq> b))"

lemma op_candidates:
  assumes "\<And>r dep es rej. op \<noteq> ScheduleFinish r dep es rej" "sched_ok st"
    and "omap_find (candidates st) k = Some c"
  shows "\<exists>c'. omap_find (candidates (apply_op op st)) k = Some c' \<and>
     (c' = c \<or> workerBootId c' \<notin> set (fencedWorkers st))"
proof (cases op)
  case (Ingest c')
  have "omap_ok (candidates st)" using assms(2) by (simp add: sched_ok_def)
  with assms(3) show ?thesis
    by (auto simp: Ingest ingest_candidate_def omap_find_emplace split: sum.split option.split)
next
  case (SetEpoch e)
  then show ?thesis using assms(3) by (simp add: set_epoch_def)
next
  case (CommitBegin pid)
  then show ?thesis
    using assms(3) by (cases rule: commit_begin_cases [of pid st]) (simp_all add: move_plan_def)
next
  case (CommitFinish pid cs br)
  then show ?thesis
    using assms(3) by (cases rule: commit_finish_cases [of pid st br cs]) (simp_all add: move_plan_def)
next
  case (HandoffBegin pid)
  then show ?thesis
    using assms(3) by (cases rule: handoff_begin_cases [of pid st]) (simp_all add: move_plan_def)
next
  case (HandoffFinish pid h)
  then show ?thesis
    using assms(3) by (cases rule: handoff_finish_cases [of pid st h]) (simp_all add: move_plan_def)
next
  case (Revalidate pid fp)
  then show ?thesis using assms(3) by (simp add: revalidate_def Let_def split: option.split)
qed (use assms in \<open>auto simp: fence_worker_def fence_source_def\<close>)

lemma op_avoids:
  assumes "\<And>r dep es rej. op \<noteq> ScheduleFinish r dep es rej" "avoids b old st"
  shows "avoids b old (apply_op op st)"
proof -
  let ?st = "apply_op op st"
  have ok: "sched_ok st" using assms(2) by (simp add: avoids_def)
  have "\<exists>c. omap_find (candidates ?st) (selectedCandidate q) = Some c \<and> workerBootId c \<noteq> b"
    if q: "omap_find (plans ?st) k = Some q" and "k \<notin> old" for k q
  proof -
    have "omap_find (plans ?st) k = None \<longleftrightarrow> omap_find (plans st) k = None"
      using op_same_store [OF ok assms(1)] unfolding same_store_def by blast
    with q obtain p where p: "omap_find (plans st) k = Some p" by auto
    with assms(2) \<open>k \<notin> old\<close> obtain c where c: "omap_find (candidates st) (selectedCandidate p) = Some c"
      "workerBootId c \<noteq> b" unfolding avoids_def by blast
    have "plans_evolve st ?st" using apply_op_keeps [OF ok] by (simp add: keeps_def)
    with p obtain q' where "omap_find (plans ?st) k = Some q'" "evolves p q'"
      unfolding plans_evolve_def by blast
    with q have "selectedCandidate q = selectedCandidate p" by (simp add: evolves_def)
    moreover obtain c' where "omap_find (candidates ?st) (selectedCandidate p) = Some c'"
      "c' = c \<or> workerBootId c' \<notin> set (fencedWorkers st)"
      using op_candidates [OF assms(1) ok c(1)] by blast
    ultimately show ?thesis using c(2) assms(2) by (auto simp: avoids_def)
  qed
  moreover have "b \<in> set (fencedWorkers ?st)"
    using op_grows [OF ok, of op] assms(2) by (auto simp: grows_def avoids_def)
  ultimately show ?thesis using apply_op_keeps [OF ok, of op] by (simp add: avoids_def keeps_def)
qed

lemma schedule_finish_avoids:
  assumes "avoids b old st"
    and "\<And>rk c. (rk, c) \<in> set es \<Longrightarrow> omap_find (candidates st) (rc_candidateId rk) = Some c \<and> workerBootId c \<noteq> b"
  shows "avoids b old (snd (schedule_finish r dep es rej st))"
proof (cases es)
  case Nil
  with assms(1) show ?thesis
    using schedule_keeps [of st r dep es rej] by (simp add: schedule_finish_Nil avoids_def keeps_def)
next
  case (Cons w rest)
  obtain rk c where w: "w = (rk, c)" by (cases w)
  have ok: "sched_ok st" using assms(1) by (simp add: avoids_def)
  have "(rk, c) \<in> set es" by (simp add: Cons w)
  from assms(2) [OF this] assms(1) schedule_keeps [OF ok, of r dep es rej] show ?thesis
    unfolding Cons
    by (auto simp: schedule_finish_Cons avoids_def keeps_def w omap_find_emplace [OF sched_ok_plans [OF ok]]
        split: option.splits if_splits)
qed

lemma schedule_avoids:
  assumes "avoids b old st" "b \<in> set fenced"
  shows "avoids b old (snd (schedule r dep (Some (LiveVeto fenced)) st))"
proof (cases "validate (demand r)")
  case (Inl e)
  then show ?thesis using assms(1) by (simp add: schedule_def)
next
  case (Inr u)
  let ?pol = "Some (LiveVeto fenced)"
  have ok: "sched_ok st" using assms(1) by (simp add: avoids_def)
  have known: "omap_find (candidates st) (rc_candidateId rk) = Some c \<and> workerBootId c \<noteq> b"
    if "(rk, c) \<in> set (std_sort entry_less (entries_of r dep ?pol st))" for rk c
  proof -
    from that have "(rk, c) \<in> set (entries_of r dep ?pol st)" by simp
    then have "omap_find (candidates st) (candidateId c) = Some c" "rk = Ranker_evaluate r c (rankOptions st)"
      and "meets_hard_constraints r c dep ?pol"
      by (simp_all add: entries_iff candidate_in_snapshot [OF ok])
    with assms(2) show ?thesis by (auto simp: meets_hard_constraints_def policy_met_def LiveVeto_def)
  qed
  have "avoids b old (snd (schedule_finish r dep (std_sort entry_less (entries_of r dep ?pol st)) rej st))" for rej
    by (rule schedule_finish_avoids [OF assms(1)]) (rule known)
  with Inr show ?thesis by (simp add: schedule_eq)
qed

lemma commit_sections:
  "snd (snd (commit pid broker b st)) \<in>
     {st, snd (commit_begin pid st)} \<union>
     {snd (commit_finish pid cs br (snd (commit_begin pid st))) | cs br. True}"
  by (auto simp: commit_def Let_def split: prod.split sum.split section_result.split) (metis snd_conv)+

lemma handoff_sections:
  "snd (snd (handoff pid exec e st)) \<in>
     {st, snd (handoff_begin pid st)} \<union>
     {snd (handoff_finish pid h (snd (handoff_begin pid st))) | h. True}"
  by (auto simp: handoff_def Let_def split: prod.split sum.split section_result.split) (metis snd_conv)+

text \<open>What only adds plans elsewhere than on the fenced boots of a list.\<close>

definition shuns :: "WorkerBootId list \<Rightarrow> SchedulerState \<Rightarrow> SchedulerState \<Rightarrow> bool" where
  "shuns fenced st st' \<longleftrightarrow> (\<forall>b \<in> set fenced. \<forall>old. avoids b old st \<longrightarrow> avoids b old st')"

lemma shuns_refl [simp]: "shuns fenced st st"
  by (simp add: shuns_def)

lemma op_shuns: "(\<And>r dep es rej. op \<noteq> ScheduleFinish r dep es rej) \<Longrightarrow> shuns fenced st (apply_op op st)"
  unfolding shuns_def using op_avoids by blast

lemma shuns_trans: "shuns fenced a b \<Longrightarrow> shuns fenced b c \<Longrightarrow> shuns fenced a c"
  unfolding shuns_def by blast

lemmas section_shuns =
  op_shuns [of "SetEpoch e" for e, simplified]
  op_shuns [of "FenceWorker b" for b, simplified]
  op_shuns [of "Ingest c" for c, simplified]
  op_shuns [of "Revalidate pid fp" for pid fp, simplified]
  op_shuns [of "Cancel rid" for rid, simplified]
  op_shuns [of "Supersede a b why" for a b why, simplified]
  op_shuns [of "CommitBegin pid" for pid, simplified]
  op_shuns [of "CommitFinish pid cs br" for pid cs br, simplified]
  op_shuns [of "HandoffBegin pid" for pid, simplified]
  op_shuns [of "HandoffFinish pid h" for pid h, simplified]

lemma commit_shuns: "shuns fenced st (snd (snd (commit pid broker b st)))"
  using commit_sections [of pid broker b st] section_shuns(7) [of fenced st pid]
    shuns_trans [OF section_shuns(7) section_shuns(8)] by auto

lemma handoff_shuns: "shuns fenced st (snd (snd (handoff pid exec e st)))"
  using handoff_sections [of pid exec e st] section_shuns(9) [of fenced st pid]
    shuns_trans [OF section_shuns(9) section_shuns(10)] by auto

lemma schedule_shuns: "shuns fenced st (snd (schedule r dep (Some (LiveVeto fenced)) st))"
  unfolding shuns_def using schedule_avoids by blast

section \<open>One turn\<close>

lemma call_results:
  "ingest_candidate c st = (ri, s1) \<Longrightarrow> facade_call st s1"
  "revalidate pid fp st = (rv, s1) \<Longrightarrow> facade_call st s1"
  "sched_ok st \<Longrightarrow> schedule r dep pol st = (rs, s1) \<Longrightarrow> facade_call st s1"
  "sched_ok st \<Longrightarrow> commit pid broker b st = (rc, b1, s1) \<Longrightarrow> facade_call st s1"
  "handoff pid exec e st = (rh, e1, s1) \<Longrightarrow> facade_call st s1"
  using mutex_calls(3) [of st c] mutex_calls(4) [of st pid fp] schedule_call [of st r dep pol]
    commit_call [of st pid broker b] handoff_call [of st pid exec e] by simp_all

lemma shun_results:
  "ingest_candidate c st = (ri, s1) \<Longrightarrow> shuns fenced st s1"
  "revalidate pid fp st = (rv, s1) \<Longrightarrow> shuns fenced st s1"
  "schedule r dep (Some (LiveVeto fenced)) st = (rs, s1) \<Longrightarrow> shuns fenced st s1"
  "commit pid broker b st = (rc, b1, s1) \<Longrightarrow> shuns fenced st s1"
  "handoff pid exec e st = (rh, e1, s1) \<Longrightarrow> shuns fenced st s1"
  using section_shuns(3) [of fenced st c] section_shuns(4) [of fenced st pid fp]
    schedule_shuns [of fenced st r dep] commit_shuns [of fenced st pid broker b]
    handoff_shuns [of fenced st pid exec e] by simp_all

text \<open>What a message may change: the scheduler by one call, the registration, the end.\<close>

definition turn_effect :: "Ctx \<Rightarrow> Ctx \<Rightarrow> bool" where
  "turn_effect ctx ctx1 \<longleftrightarrow>
     facade_call (ctx_sched ctx) (ctx_sched ctx1) \<and> live_fenced ctx1 = live_fenced ctx \<and>
     stateFile ctx1 = stateFile ctx \<and> shuns (live_fenced ctx) (ctx_sched ctx) (ctx_sched ctx1)"

lemma turn_effect_refl [simp]: "turn_effect ctx ctx"
  by (simp add: turn_effect_def no_call)

lemma handler_effects:
  assumes "sched_ok (ctx_sched ctx)"
  shows "turn_effect ctx (fst (snd (handle_publish host t payload con ctx w)))"
    and "turn_effect ctx (fst (snd (handle_submit host payload con ctx w)))"
    and "turn_effect ctx (fst (snd (handle_commit host payload con ctx w)))"
    and "turn_effect ctx (fst (snd (handle_handoff host payload con ctx w)))"
    and "turn_effect ctx (fst (snd (handle_revalidate host payload con ctx w)))"
    and "turn_effect ctx (fst (snd (handle_cancel host payload con ctx w)))"
    and "turn_effect ctx (fst (snd (handle_supersede host payload con ctx w)))"
proof -
  note effect = turn_effect_def call_results shun_results assms
  show "turn_effect ctx (fst (snd (handle_publish host t payload con ctx w)))"
    by (auto simp: handle_publish_def effect no_call Let_def split: sum.split prod.split)
  show "turn_effect ctx (fst (snd (handle_submit host payload con ctx w)))"
    by (auto simp: handle_submit_def effect no_call Let_def split: sum.split prod.split)
  show "turn_effect ctx (fst (snd (handle_commit host payload con ctx w)))"
    by (auto simp: handle_commit_def effect no_call Let_def split: sum.split prod.split)
  show "turn_effect ctx (fst (snd (handle_handoff host payload con ctx w)))"
    by (auto simp: handle_handoff_def effect no_call Let_def split: sum.split prod.split)
  show "turn_effect ctx (fst (snd (handle_revalidate host payload con ctx w)))"
    by (auto simp: handle_revalidate_def effect no_call Let_def split: sum.split prod.split)
  show "turn_effect ctx (fst (snd (handle_cancel host payload con ctx w)))"
    by (auto simp: handle_cancel_def turn_effect_def mutex_calls section_shuns no_call Let_def split: sum.split prod.split)
  show "turn_effect ctx (fst (snd (handle_supersede host payload con ctx w)))"
    by (auto simp: handle_supersede_def turn_effect_def mutex_calls section_shuns no_call Let_def split: sum.split prod.split)
qed

lemma handlers_running:
  "running (fst (snd (handle_publish host t payload con ctx w))) = running ctx"
  "running (fst (snd (handle_submit host payload con ctx w))) = running ctx"
  "running (fst (snd (handle_commit host payload con ctx w))) = running ctx"
  "running (fst (snd (handle_handoff host payload con ctx w))) = running ctx"
  "running (fst (snd (handle_revalidate host payload con ctx w))) = running ctx"
  "running (fst (snd (handle_cancel host payload con ctx w))) = running ctx"
  "running (fst (snd (handle_supersede host payload con ctx w))) = running ctx"
  by (auto simp: handle_publish_def handle_submit_def handle_commit_def handle_handoff_def
      handle_revalidate_def handle_cancel_def handle_supersede_def Let_def split: sum.split prod.split)

lemma stays:
  assumes "handle_frame host t payload con ctx w =
      (case H of (r, ctx1, w1) \<Rightarrow> (map_sum id (\<lambda>_. False) (r :: unit res), con, ctx1, w1))"
    and "sched_ok (ctx_sched ctx) \<Longrightarrow> turn_effect ctx (fst (snd H))" "running (fst (snd H)) = running ctx"
  shows "\<exists>r ctx1 w1. handle_frame host t payload con ctx w = (map_sum id (\<lambda>_. False) (r :: unit res), con, ctx1, w1) \<and>
      running ctx1 = running ctx \<and> (sched_ok (ctx_sched ctx) \<longrightarrow> turn_effect ctx ctx1)"
  using assms by (cases H) auto

text \<open>The switch in a form that shows the parts: the handlers that keep the connection.\<close>

lemma handle_frame_cases:
  obtains (register) r con1 ctx1 w1 where "t = REGISTER"
      "handle_register host payload con ctx w = (r, con1, ctx1, w1)"
      "handle_frame host t payload con ctx w = (map_sum id (\<lambda>_. False) r, con1, ctx1, w1)"
  | (shutdown) r ctx1 w1 where "t = SHUTDOWN" "handle_shutdown host con ctx w = (r, ctx1, w1)"
      "handle_frame host t payload con ctx w = (r, con, ctx1, w1)"
  | (stay) r ctx1 w1 where "t \<noteq> REGISTER" "t \<noteq> SHUTDOWN"
      "handle_frame host t payload con ctx w = (map_sum id (\<lambda>_. False) (r :: unit res), con, ctx1, w1)"
      "running ctx1 = running ctx" "sched_ok (ctx_sched ctx) \<Longrightarrow> turn_effect ctx ctx1"
proof -
  have "\<exists>r ctx1 w1. handle_frame host t payload con ctx w = (map_sum id (\<lambda>_. False) (r :: unit res), con, ctx1, w1) \<and>
      running ctx1 = running ctx \<and> (sched_ok (ctx_sched ctx) \<longrightarrow> turn_effect ctx ctx1)"
    if "t \<noteq> REGISTER" "t \<noteq> SHUTDOWN"
  proof (cases t)
    case PUBLISH_RESOURCE
    then show ?thesis
      by (intro stays [where H = "handle_publish host t payload con ctx w"])
        (simp_all add: handle_frame_def handler_effects handlers_running split: prod.split)
  next
    case PUBLISH_CAPACITY
    then show ?thesis
      by (intro stays [where H = "handle_publish host t payload con ctx w"])
        (simp_all add: handle_frame_def handler_effects handlers_running split: prod.split)
  next
    case PUBLISH_CONGESTION
    then show ?thesis
      by (intro stays [where H = "handle_publish host t payload con ctx w"])
        (simp_all add: handle_frame_def handler_effects handlers_running split: prod.split)
  next
    case PUBLISH_HEALTH
    then show ?thesis
      by (intro stays [where H = "handle_publish host t payload con ctx w"])
        (simp_all add: handle_frame_def handler_effects handlers_running split: prod.split)
  next
    case SUBMIT_WORKLOAD
    then show ?thesis
      by (intro stays [where H = "handle_submit host payload con ctx w"])
        (simp_all add: handle_frame_def handler_effects handlers_running split: prod.split)
  next
    case COMMIT_REQUEST
    then show ?thesis
      by (intro stays [where H = "handle_commit host payload con ctx w"])
        (simp_all add: handle_frame_def handler_effects handlers_running split: prod.split)
  next
    case EXECUTION_HANDOFF
    then show ?thesis
      by (intro stays [where H = "handle_handoff host payload con ctx w"])
        (simp_all add: handle_frame_def handler_effects handlers_running split: prod.split)
  next
    case REVALIDATE
    then show ?thesis
      by (intro stays [where H = "handle_revalidate host payload con ctx w"])
        (simp_all add: handle_frame_def handler_effects handlers_running split: prod.split)
  next
    case CANCEL
    then show ?thesis
      by (intro stays [where H = "handle_cancel host payload con ctx w"])
        (simp_all add: handle_frame_def handler_effects handlers_running split: prod.split)
  next
    case SUPERSEDE
    then show ?thesis
      by (intro stays [where H = "handle_supersede host payload con ctx w"])
        (simp_all add: handle_frame_def handler_effects handlers_running split: prod.split)
  next
    case HELLO
    then show ?thesis by (cases "handle_hello host con ctx w") (auto simp: handle_frame_def)
  next
    case SAVE
    then show ?thesis by (cases "handle_save host con ctx w") (auto simp: handle_frame_def)
  qed (use that in \<open>auto simp: handle_frame_def intro: exI [of _ "Inr ()"]\<close>)
  then show thesis
    using register shutdown stay
    by (cases "t = REGISTER"; cases "t = SHUTDOWN";
        cases "handle_register host payload con ctx w"; cases "handle_shutdown host con ctx w")
      (auto simp: handle_frame_def)
qed

lemma register_shutdown_effect:
  "handle_register host payload con ctx w = (r, con1, ctx1, w1) \<Longrightarrow>
     turn_effect ctx ctx1 \<and> con_channel con1 = con_channel con \<and> running ctx1 = running ctx"
  "handle_shutdown host con ctx w = (rs, ctx1, w1) \<Longrightarrow> turn_effect ctx ctx1 \<and> rs \<noteq> Inr False"
  by (auto simp: handle_register_def handle_shutdown_def turn_effect_def no_call Let_def
      split: sum.splits prod.splits)

lemma handle_frame_effect:
  assumes "sched_ok (ctx_sched ctx)" "handle_frame host t payload con ctx w = (r, con1, ctx1, w1)"
  shows "turn_effect ctx ctx1" and "con_channel con1 = con_channel con"
proof -
  have "turn_effect ctx ctx1 \<and> con_channel con1 = con_channel con"
  proof (cases rule: handle_frame_cases [of t host payload con ctx w])
    case (register r' con' ctx' w')
    with assms(2) register_shutdown_effect(1) [OF register(2)] show ?thesis by simp
  next
    case (shutdown r' ctx' w')
    with assms(2) register_shutdown_effect(2) [OF shutdown(2)] show ?thesis by simp
  next
    case (stay r' ctx' w')
    with assms show ?thesis by simp
  qed
  then show "turn_effect ctx ctx1" "con_channel con1 = con_channel con" by simp_all
qed

text \<open>Any number of calls up to a bound.\<close>

definition calls :: "nat \<Rightarrow> SchedulerState \<Rightarrow> SchedulerState \<Rightarrow> bool" where
  "calls n st st' \<longleftrightarrow> (\<exists>k \<le> n. (facade_call ^^ k) st st')"

lemma calls_one: "facade_call st st' \<Longrightarrow> 1 \<le> n \<Longrightarrow> calls n st st'"
  unfolding calls_def by (intro exI [of _ 1]) auto

lemma calls_trans:
  assumes "calls m a b" "calls n b c"
  shows "calls (m + n) a c"
proof -
  from assms obtain i j where "i \<le> m" "j \<le> n" "(facade_call ^^ i) a b" "(facade_call ^^ j) b c"
    unfolding calls_def by blast
  then show ?thesis
    unfolding calls_def by (intro exI [of _ "i + j"]) (auto simp: relpowp_add)
qed

lemma drop_calls: "calls 2 (ctx_sched ctx) (ctx_sched (fence_worker_and_bump b ctx))"
  using calls_trans [OF calls_one [OF mutex_calls(2) order_refl] calls_one [OF mutex_calls(1) order_refl]]
  by (simp add: fence_and_bump_fields numeral_2_eq_2)

text \<open>The outcomes of a turn; a channel that is open stays open.\<close>

lemma serve_step_cases:
  obtains (stopped) "\<not> running ctx" "serve_step host con ctx w = (None, ctx, w)"
  | (lost) e w1 where "running ctx" "recv_frame (host_socket host) (con_channel con) w = (Inl e, w1)"
      "serve_step host con ctx w =
         (None, if hasBoot con then fence_worker_and_bump (con_boot con) ctx else ctx, w1)"
  | (handled) t payload w1 r con1 ctx1 w2 next_con w3 where "running ctx"
      "recv_frame (host_socket host) (con_channel con) w = (Inr (t, payload), w1)"
      "handle_frame host t payload con ctx w1 = (r, con1, ctx1, w2)"
      "serve_step host con ctx w = (next_con, ctx1, w3)"
      "next_con = (if r = Inr True then None else Some con1)"
      "w3 = (case r of Inl e \<Rightarrow>
           if channel_valid (con_channel con1) then send_error host con1 (fe_code e) (fe_what e) w2 else w2
         | Inr _ \<Rightarrow> w2)"
  | (closed) t payload w1 e con1 ctx1 w2 where "running ctx"
      "handle_frame host t payload con ctx w1 = (Inl e, con1, ctx1, w2)"
      "\<not> channel_valid (con_channel con1)"
      "serve_step host con ctx w = (None, fence_worker_and_bump (con_boot con1) ctx1, w2)"
proof (cases "running ctx")
  case False
  then show ?thesis by (intro stopped) (simp_all add: serve_step_def)
next
  case True
  obtain x w1 where x: "recv_frame (host_socket host) (con_channel con) w = (x, w1)"
    by (cases "recv_frame (host_socket host) (con_channel con) w")
  show ?thesis
  proof (cases x)
    case (Inl e)
    with True x show ?thesis by (intro lost) (simp_all add: serve_step_def)
  next
    case (Inr y)
    obtain t payload where y: "y = (t, payload)" by (cases y)
    obtain r con1 ctx1 w2 where h: "handle_frame host t payload con ctx w1 = (r, con1, ctx1, w2)"
      by (cases "handle_frame host t payload con ctx w1")
    show ?thesis
    proof (cases "\<exists>e. r = Inl e \<and> \<not> channel_valid (con_channel con1) \<and> hasBoot con1")
      case True
      then obtain e where e: "r = Inl e" "\<not> channel_valid (con_channel con1)" "hasBoot con1" by blast
      show ?thesis
        by (rule closed [OF \<open>running ctx\<close> h [unfolded e(1)] e(2)])
          (use \<open>running ctx\<close> x Inr y h e in \<open>simp add: serve_step_def\<close>)
    next
      case False
      with True x Inr y h show ?thesis
        by (intro handled [OF _ _ h]) (auto simp: serve_step_def split: sum.split bool.split)
    qed
  qed
qed

lemma serve_step_calls:
  assumes "sched_ok (ctx_sched ctx)" "serve_step host con ctx w = (con1, ctx1, w1)"
  shows "calls 3 (ctx_sched ctx) (ctx_sched ctx1)"
proof -
  have more: "calls 3 a b" if "calls k a b" "k \<le> 3" for k a b
    using that order_trans unfolding calls_def by blast
  have frame: "calls 1 (ctx_sched ctx) (ctx_sched c)"
    if "handle_frame host t payload con ctx w' = (r, con', c, w'')" for t payload w' r con' c w''
    using handle_frame_effect(1) [OF assms(1) that] by (simp add: turn_effect_def calls_one)
  show ?thesis
  proof (cases rule: serve_step_cases [of ctx host con w])
    case stopped
    with assms(2) calls_one [OF no_call] show ?thesis by simp
  next
    case (lost e w')
    with assms(2) more [OF drop_calls] calls_one [OF no_call] show ?thesis by (auto split: if_splits)
  next
    case (handled t payload w' r con' c w'' next_con w3)
    with assms(2) more [OF frame [OF handled(3)]] show ?thesis by simp
  next
    case (closed t payload w' e con' c w'')
    with assms(2) calls_trans [OF frame [OF closed(2)] drop_calls] show ?thesis
      by (auto simp: numeral_3_eq_3)
  qed
qed

section \<open>Any number of turns\<close>

text \<open>
  The states of the coordinator after some turns of any connections. The world is free at every
  turn, as what the peers and the system do in between is: this is a hypothesis on the coordinator's
  state, not a run of one loop (for that see \<open>after_turns\<close> in \<open>Coordinator_Properties\<close>).
\<close>

inductive served :: "'w Host set \<Rightarrow> nat \<Rightarrow> Ctx \<Rightarrow> Ctx \<Rightarrow> bool" for hosts where
  none: "served hosts 0 ctx ctx"
| turn: "served hosts n ctx ctx1 \<Longrightarrow> host \<in> hosts \<Longrightarrow>
    serve_step host con ctx1 w = (next_con, ctx2, w1) \<Longrightarrow> served hosts (Suc n) ctx ctx2"

lemma calls_ok:
  assumes "calls n st st'" "sched_ok st"
  shows "sched_ok st' \<and> grows st st'"
proof -
  from assms(1) obtain k where "(facade_call ^^ k) st st'" unfolding calls_def by blast
  then obtain ops where "st' = fold apply_op ops st" using calls_ops by blast
  with ops_keep [OF assms(2), of ops] ops_grow [OF assms(2), of ops] show ?thesis by (simp add: keeps_def)
qed

lemma served_trans: "served hosts n a b \<Longrightarrow> served hosts m c a \<Longrightarrow> served hosts (m + n) c b"
  by (induction rule: served.induct) (auto intro: served.intros)

text \<open>The veto list only grows, and whoever is on it is fenced in the scheduler as well.\<close>

lemma fence_and_bump_fenced:
  "fencedWorkers (ctx_sched (fence_worker_and_bump b ctx)) = uset_insert b (fencedWorkers (ctx_sched ctx))"
  by (simp add: fence_and_bump_fields set_epoch_def fence_worker_def)

definition vetoes_fenced :: "Ctx \<Rightarrow> bool" where
  "vetoes_fenced ctx \<longleftrightarrow> set (live_fenced ctx) \<subseteq> set (fencedWorkers (ctx_sched ctx))"

lemma turn_effect_vetoes:
  assumes "turn_effect ctx ctx1" "sched_ok (ctx_sched ctx)" "vetoes_fenced ctx"
  shows "vetoes_fenced ctx1"
proof -
  have "grows (ctx_sched ctx) (ctx_sched ctx1)"
    using assms(1,2) call_grows unfolding turn_effect_def by blast
  with assms(1,3) show ?thesis by (auto simp: vetoes_fenced_def turn_effect_def grows_def)
qed

lemma drop_vetoes: "vetoes_fenced ctx \<Longrightarrow> vetoes_fenced (fence_worker_and_bump b ctx)"
  by (auto simp: vetoes_fenced_def fence_and_bump_fenced) (auto simp: fence_and_bump_fields)

lemma serve_step_vetoes:
  assumes "sched_ok (ctx_sched ctx)" "serve_step host con ctx w = (con1, ctx1, w1)"
  shows "set (live_fenced ctx) \<subseteq> set (live_fenced ctx1) \<and> (vetoes_fenced ctx \<longrightarrow> vetoes_fenced ctx1)"
proof (cases rule: serve_step_cases [of ctx host con w])
  case stopped
  with assms(2) show ?thesis by simp
next
  case (lost e w')
  with assms(2) show ?thesis by (auto simp: fence_and_bump_fields(1) drop_vetoes split: if_splits)
next
  case (handled t payload w' r con' c w'' next_con w3)
  note turn_effect_vetoes [OF handle_frame_effect(1) [OF assms(1) handled(3)] assms(1)]
  with assms(2) handled handle_frame_effect(1) [OF assms(1) handled(3)] show ?thesis
    by (simp add: turn_effect_def)
next
  case (closed t payload w' e con' c w'')
  note turn_effect_vetoes [OF handle_frame_effect(1) [OF assms(1) closed(2)] assms(1)]
  with assms(2) closed handle_frame_effect(1) [OF assms(1) closed(2)] show ?thesis
    by (auto simp: turn_effect_def fence_and_bump_fields(1) drop_vetoes)
qed

lemma served_effect:
  assumes "served hosts n ctx ctx1" "sched_ok (ctx_sched ctx)"
  shows "calls (3 * n) (ctx_sched ctx) (ctx_sched ctx1) \<and> sched_ok (ctx_sched ctx1) \<and>
     grows (ctx_sched ctx) (ctx_sched ctx1) \<and> set (live_fenced ctx) \<subseteq> set (live_fenced ctx1) \<and>
     (vetoes_fenced ctx \<longrightarrow> vetoes_fenced ctx1)"
  using assms
proof (induction rule: served.induct)
  case (none ctx)
  then show ?case by (auto simp: calls_def grows_def)
next
  case (turn n ctx ctx1 host con w next_con ctx2 w1)
  then have ok: "sched_ok (ctx_sched ctx1)" by blast
  note step = serve_step_calls [OF ok turn.hyps(3)]
  from turn have "calls (3 * n) (ctx_sched ctx) (ctx_sched ctx1)" by blast
  from calls_trans [OF this step] have "calls (3 * Suc n) (ctx_sched ctx) (ctx_sched ctx2)"
    by (simp add: add.commute)
  with calls_ok [OF this turn.prems] serve_step_vetoes [OF ok turn.hyps(3)] turn show ?case by blast
qed

lemma drop_avoids: "avoids b old (ctx_sched ctx) \<Longrightarrow> avoids b old (ctx_sched (fence_worker_and_bump b' ctx))"
  unfolding fence_and_bump_fields(3) by (intro op_avoids) simp_all

lemma serve_step_avoids:
  assumes "serve_step host con ctx w = (con1, ctx1, w1)" "b \<in> set (live_fenced ctx)"
    and "avoids b old (ctx_sched ctx)"
  shows "avoids b old (ctx_sched ctx1)"
proof -
  have ok: "sched_ok (ctx_sched ctx)" using assms(3) by (simp add: avoids_def)
  have frame: "avoids b old (ctx_sched c)"
    if "handle_frame host t payload con ctx w' = (r, con', c, w'')" for t payload w' r con' c w''
    using handle_frame_effect(1) [OF ok that] assms(2,3) by (simp add: turn_effect_def shuns_def)
  show ?thesis
  proof (cases rule: serve_step_cases [of ctx host con w])
    case stopped
    with assms show ?thesis by simp
  next
    case (lost e w')
    with assms drop_avoids show ?thesis by (auto split: if_splits)
  next
    case (handled t payload w' r con' c w'' next_con w3)
    with assms(1) frame show ?thesis by simp
  next
    case (closed t payload w' e con' c w'')
    with assms(1) drop_avoids [OF frame [OF closed(2)]] show ?thesis by auto
  qed
qed

lemma served_avoids:
  assumes "served hosts n ctx ctx1" "b \<in> set (live_fenced ctx)" "avoids b old (ctx_sched ctx)"
  shows "avoids b old (ctx_sched ctx1)"
  using assms
proof (induction rule: served.induct)
  case (turn n ctx ctx1 host con w next_con ctx2 w1)
  then have "avoids b old (ctx_sched ctx1)" by blast
  moreover have "sched_ok (ctx_sched ctx)" using turn.prems(2) by (simp add: avoids_def)
  then have "b \<in> set (live_fenced ctx1)" using served_effect [OF turn.hyps(1)] turn.prems(1) by blast
  ultimately show ?case using serve_step_avoids [OF turn.hyps(3)] by blast
qed simp

lemma new_coordinator_ok:
  "sched_ok (ctx_sched (new_coordinator file))" "vetoes_fenced (new_coordinator file)"
  by (simp_all add: new_coordinator_def sched_ok_new vetoes_fenced_def)

text \<open>Every state of the coordinator is one of the thread model, with nothing outstanding.\<close>

lemma served_reachable:
  assumes "served hosts n (new_coordinator file) ctx"
  shows "\<exists>lg. reachable coordinator_config (idle (ctx_sched ctx) lg)"
proof -
  from served_effect [OF assms new_coordinator_ok(1)] obtain k where
    "(facade_call ^^ k) (ctx_sched (new_coordinator file)) (ctx_sched ctx)"
    unfolding calls_def by blast
  from calls_threads [OF this, of "[]"] obtain lg where
    "sys_step\<^sup>*\<^sup>* (sys_init coordinator_config) (idle (ctx_sched ctx) lg)"
    by (auto simp: sys_init_def new_coordinator_def)
  then have "reachable coordinator_config (idle (ctx_sched ctx) lg)"
    by (rule steps_reachable) (rule reachable.start)
  then show ?thesis by blast
qed

lemma served_run:
  assumes "served hosts n (new_coordinator file) ctx"
  shows "\<exists>ops. ctx_sched ctx = fold apply_op ops (new_Scheduler coordinator_config) \<and>
     known_run (new_Scheduler coordinator_config) ops \<and> length ops \<le> 6 * n"
proof -
  from served_effect [OF assms new_coordinator_ok(1)] obtain k where k: "k \<le> 3 * n"
    "(facade_call ^^ k) (ctx_sched (new_coordinator file)) (ctx_sched ctx)"
    unfolding calls_def by blast
  from calls_ops [OF k(2)] obtain ops where ops: "length ops \<le> 2 * k"
    "ctx_sched ctx = fold apply_op ops (ctx_sched (new_coordinator file))"
    "known_run (ctx_sched (new_coordinator file)) ops" by blast
  have "length ops \<le> 6 * n" using k(1) ops(1) by linarith
  with ops show ?thesis by (intro exI [of _ ops]) (simp add: new_coordinator_def)
qed

end
