(* ===== verification/Coordinator_Properties.thy ===== *)
theory Coordinator_Properties
  imports Coordinator_Turns
begin

text \<open>
  What the coordinator process guarantees: its turns are runs of the thread model, a worker whose
  connection is lost is never placed again and nothing planned before can still be launched, a
  saved state file loads, a malformed payload changes nothing, and a connection thread ends.
\<close>

section \<open>A host for examples\<close>

record World =
  incoming :: "byte list"
  outgoing :: "byte list"
  state_file :: "byte list"

definition demo_host :: "World Host" where
  "demo_host = \<lparr>
     host_socket = \<lparr>
       recv_call = (\<lambda>n w. (Received (take n (incoming w)), w\<lparr>incoming := drop n (incoming w)\<rparr>)),
       send_call = (\<lambda>bs w. (Some (length bs), w\<lparr>outgoing := outgoing w @ bs\<rparr>))\<rparr>,
     write_file = (\<lambda>_ bs w. (Written, w\<lparr>state_file := bs\<rparr>))\<rparr>"

abbreviation demo_world :: "byte list \<Rightarrow> World" where
  "demo_world bs \<equiv> \<lparr>incoming = bs, outgoing = [], state_file = []\<rparr>"

abbreviation demo_connection :: Connection where
  "demo_connection \<equiv> \<lparr>con_channel = demo_channel, con_boot = StrongId 9, hasBoot = True\<rparr>"

lemma demo_delivers: "delivers (host_socket demo_host) incoming"
  unfolding delivers_def
proof (intro allI impI)
  fix n :: nat and w :: World
  assume "0 < n"
  then show "\<exists>b w'. recv_call (host_socket demo_host) n w = (Received b, w') \<and> length b \<le> n \<and>
      incoming w = b @ incoming w' \<and> (b = [] \<longleftrightarrow> incoming w = [])"
    by (simp add: demo_host_def)
qed

lemma demo_receives:
  assumes "encode_frame t payload 0 = Inr bs"
  shows "\<exists>w. recv_frame (host_socket demo_host) demo_channel (demo_world bs) = (Inr (t, payload), w)"
  using recv_frame_decodes [OF demo_delivers, of demo_channel "demo_world bs"] decode_frame_round [OF assms, of "[]"]
  by (cases "recv_frame (host_socket demo_host) demo_channel (demo_world bs)") simp

lemma demo_lost:
  "fst (recv_frame (host_socket demo_host) demo_channel (demo_world [])) =
     throw ProtocolError ''connection closed during header''"
  using recv_frame_decodes [OF demo_delivers, of demo_channel "demo_world []"]
  by (simp add: decode_frame_def)

definition demo_dropped :: World where
  "demo_dropped = snd (recv_frame (host_socket demo_host) demo_channel (demo_world []))"

lemma demo_drop:
  "serve_step demo_host demo_connection (new_coordinator f) (demo_world []) =
     (None, fence_worker_and_bump (StrongId 9) (new_coordinator f), demo_dropped)"
  using demo_lost
  by (cases "recv_frame (host_socket demo_host) demo_channel (demo_world [])")
    (simp add: serve_step_def new_coordinator_def demo_dropped_def)

section \<open>Refinement of the thread model\<close>

text \<open>The coordinator refines the model of many threads over one scheduler: from every state that
  model can be in with no call outstanding, whatever a connection thread does in one turn (any
  message, any socket, a lost connection) is a run of that model that ends with no call outstanding,
  and the coordinator's first state is the model's first state.\<close>

theorem turn_refines_threads:
  assumes "reachable cfg (idle (ctx_sched ctx) lg)" "serve_step host con ctx w = (next_con, ctx1, w1)"
  shows "(\<exists>lg'. sys_step\<^sup>*\<^sup>* (idle (ctx_sched ctx) lg) (idle (ctx_sched ctx1) lg')) \<and>
     idle (ctx_sched (new_coordinator file)) [] = sys_init coordinator_config"
proof -
  have "sched_ok (ctx_sched ctx)" using reachable_ok [OF assms(1)] by simp
  from serve_step_calls [OF this assms(2)] obtain k where
    "(facade_call ^^ k) (ctx_sched ctx) (ctx_sched ctx1)" unfolding calls_def by blast
  from calls_threads [OF this] show ?thesis by (simp add: sys_init_def new_coordinator_def)
qed

theorem turn_refines_threads_witness:
  "\<exists>lg'. sys_step\<^sup>*\<^sup>* (sys_init coordinator_config)
     (idle (ctx_sched (fence_worker_and_bump (StrongId 9) (new_coordinator ''f''))) lg')"
proof -
  have start: "sys_init coordinator_config = idle (ctx_sched (new_coordinator ''f'')) []"
    by (simp add: sys_init_def new_coordinator_def)
  have "reachable coordinator_config (idle (ctx_sched (new_coordinator ''f'')) [])"
    unfolding start [symmetric] by (rule reachable.start)
  from turn_refines_threads [OF this demo_drop] show ?thesis unfolding start by blast
qed

section \<open>Lost connections\<close>

lemma lost_step:
  assumes "running ctx" "hasBoot con" "fst (recv_frame (host_socket host) (con_channel con) w) = Inl e"
    and "serve_step host con ctx w = (next_con, ctx1, w1)"
  shows "next_con = None" "ctx1 = fence_worker_and_bump (con_boot con) ctx"
  using assms by (cases "recv_frame (host_socket host) (con_channel con) w"; simp add: serve_step_def)+

lemma drop_ok: "sched_ok (ctx_sched ctx) \<Longrightarrow> sched_ok (ctx_sched (fence_worker_and_bump b ctx))"
  using calls_ok [OF drop_calls] by blast

text \<open>C8: once the connection of a registered worker is lost, no turn of any connection that starts
  later places work on it: every plan added afterwards has selected a candidate that another worker boot
  published.\<close>

theorem dropped_worker_never_placed:
  assumes "sched_ok (ctx_sched ctx)" "running ctx" "hasBoot con"
    and "fst (recv_frame (host_socket host) (con_channel con) w) = Inl e"
    and "serve_step host con ctx w = (next_con, ctx1, w1)" "served hosts n ctx1 ctx2"
    and "omap_find (plans (ctx_sched ctx2)) k = Some p" "omap_find (plans (ctx_sched ctx1)) k = None"
  shows "\<exists>c. omap_find (candidates (ctx_sched ctx2)) (selectedCandidate p) = Some c \<and>
     workerBootId c \<noteq> con_boot con"
proof -
  let ?b = "con_boot con" and ?old = "fst ` set (plans (ctx_sched ctx1))"
  have ctx1: "ctx1 = fence_worker_and_bump ?b ctx" by (rule lost_step(2) [OF assms(2-5)])
  have known: "i \<in> ?old" if "omap_find (plans (ctx_sched ctx1)) i = Some q" for i q
    using that omap_find_None_iff [of "plans (ctx_sched ctx1)" i] by auto
  have "sched_ok (ctx_sched ctx1)" unfolding ctx1 by (rule drop_ok [OF assms(1)])
  moreover have "?b \<in> set (fencedWorkers (ctx_sched ctx1))" by (simp add: ctx1 fence_and_bump_fenced)
  ultimately have "avoids ?b ?old (ctx_sched ctx1)" using known unfolding avoids_def by blast
  moreover have "?b \<in> set (live_fenced ctx1)" by (simp add: ctx1 fence_and_bump_fields)
  ultimately have "avoids ?b ?old (ctx_sched ctx2)" using served_avoids [OF assms(6)] by blast
  moreover have "k \<notin> ?old" using assms(8) by (simp add: omap_find_None_iff)
  ultimately show ?thesis using assms(7) unfolding avoids_def by blast
qed

text \<open>The example: worker boot 9 is lost, and the candidate of another boot is placed afterwards.\<close>

definition demo_ctx :: Ctx where
  "demo_ctx = (new_coordinator ''f'')\<lparr>ctx_sched := demo_st\<rparr>"

abbreviation demo_after :: Ctx where
  "demo_after \<equiv> fence_worker_and_bump (StrongId 9) demo_ctx"

lemma demo_ctx_drop:
  "serve_step demo_host demo_connection demo_ctx (demo_world []) = (None, demo_after, demo_dropped)"
  using demo_lost
  by (cases "recv_frame (host_socket demo_host) demo_channel (demo_world [])")
    (simp add: serve_step_def demo_ctx_def new_coordinator_def demo_dropped_def)

lemma demo_after_fields:
  "plans (ctx_sched demo_after) = []" "schedule_begin (ctx_sched demo_after) = [sampleA]"
  "live_fenced demo_after = [StrongId 9]" "running demo_after"
  "nextPlanId (ctx_sched demo_after) = 1"
  by (simp_all add: fence_and_bump_fields demo_ctx_def fence_worker_def set_epoch_def demo_st_eq
      new_Scheduler_def schedule_begin_def new_coordinator_def uset_insert_def)

lemma demo_submit:
  "\<exists>d st. schedule demo_request (Some AlwaysReadyDependency) (Some (LiveVeto [StrongId 9]))
       (ctx_sched demo_after) = (Inr d, st) \<and> omap_find (plans st) (StrongId 1) \<noteq> None"
proof -
  let ?dep = "Some AlwaysReadyDependency" and ?pol = "Some (LiveVeto [StrongId 9])"
  have "meets_hard_constraints demo_request sampleA ?dep ?pol"
    by (simp add: meets_hard_constraints_def demo_request_def scenario_defs constraint_defs
        vram_demand_def is_valid_def LiveVeto_def AlwaysReadyDependency_def)
  then have "eligible_entries demo_request ?dep ?pol opts [sampleA] =
      [(Ranker_evaluate demo_request sampleA opts, sampleA)]" for opts
    by (simp add: eligible_entries_def eligible_def evaluate_eligible)
  then show ?thesis
    using schedule_eq [OF demo_valid_demand(2)]
    by (simp add: demo_after_fields std_sort_def schedule_finish_Cons omap_emplace_def omap_find_def)
qed

lemma demo_request_frame: "\<exists>bs. encode_frame SUBMIT_WORKLOAD (enc_request demo_request) 0 = Inr bs"
proof -
  have "length (enc_request demo_request) \<le> 2 ^ 24" by (simp add: length_records demo_records)
  then show ?thesis by (simp add: encode_frame_eq)
qed

lemma demo_submit_turn:
  "\<exists>bs con1 ctx2 w1. serve_step demo_host demo_connection demo_after (demo_world bs) = (con1, ctx2, w1) \<and>
     omap_find (plans (ctx_sched ctx2)) (StrongId 1) \<noteq> None"
proof -
  obtain bs where "encode_frame SUBMIT_WORKLOAD (enc_request demo_request) 0 = Inr bs"
    using demo_request_frame by blast
  from demo_receives [OF this] obtain w where
    w: "recv_frame (host_socket demo_host) demo_channel (demo_world bs) = (Inr (SUBMIT_WORKLOAD, enc_request demo_request), w)"
    by blast
  obtain d st where d: "schedule demo_request (Some AlwaysReadyDependency) (Some (LiveVeto [StrongId 9]))
      (ctx_sched demo_after) = (Inr d, st)" "omap_find (plans st) (StrongId 1) \<noteq> None"
    using demo_submit by blast
  have "request_fits demo_request" using demo_fits by (simp add: snapshot_fits_def demo_file_def list_ok_def)
  then have "rd_run dec_request_r (enc_request demo_request) = Inr demo_request"
    using request.dec_enc [of demo_request "[]"] by (simp add: rd_run_def)
  with d(1) demo_after_fields(3) obtain r w' where
    "handle_submit demo_host (enc_request demo_request) demo_connection demo_after w =
       (r, demo_after\<lparr>ctx_sched := st\<rparr>, w')"
    by (cases "reply demo_host demo_connection PLACEMENT_PLAN (put_u8 (if producedPlan d then 1 else 0) @
        enc_plan (dec_plan d) @ put_string (summary d)) w") (simp add: handle_submit_def)
  then have "\<exists>con1 w1. serve_step demo_host demo_connection demo_after (demo_world bs) =
      (con1, demo_after\<lparr>ctx_sched := st\<rparr>, w1)"
    using w demo_after_fields(4) by (cases r) (simp_all add: serve_step_def handle_frame_def channel_valid_def)
  with d(2) show ?thesis by fastforce
qed

theorem dropped_worker_never_placed_witness:
  "\<exists>ctx2 p c. served {demo_host} 1 demo_after ctx2 \<and> omap_find (plans (ctx_sched ctx2)) (StrongId 1) = Some p \<and>
     omap_find (candidates (ctx_sched ctx2)) (selectedCandidate p) = Some c \<and> workerBootId c \<noteq> StrongId 9"
proof -
  obtain bs con1 ctx2 w1 p where
    turn: "serve_step demo_host demo_connection demo_after (demo_world bs) = (con1, ctx2, w1)"
    and p: "omap_find (plans (ctx_sched ctx2)) (StrongId 1) = Some p"
    using demo_submit_turn by blast
  from served.turn [OF served.none _ turn, of "{demo_host}"]
  have served: "served {demo_host} 1 demo_after ctx2" by simp
  have "sched_ok (ctx_sched demo_ctx)" "running demo_ctx"
    by (simp_all add: demo_ctx_def demo_ok new_coordinator_def)
  moreover have "omap_find (plans (ctx_sched demo_after)) (StrongId 1) = None"
    by (simp add: demo_after_fields)
  ultimately have "\<exists>c. omap_find (candidates (ctx_sched ctx2)) (selectedCandidate p) = Some c \<and>
      workerBootId c \<noteq> con_boot demo_connection"
    using demo_lost by (intro dropped_worker_never_placed [OF _ _ _ _ demo_ctx_drop served p]) simp_all
  with served p show ?thesis by auto
qed

text \<open>C9: losing a registered worker below the last epoch ends its thread, moves the coordinator to the
  next epoch and to another authority, and puts every plan off the way to ACTIVE; in no later turn
  of any connection does such a plan come back on it, and a candidate of that boot is refused.\<close>

theorem drop_retires_plans:
  assumes "sched_ok (ctx_sched ctx)" "running ctx" "hasBoot con"
    and "fst (recv_frame (host_socket host) (con_channel con) w) = Inl e"
    and "unat (id_value (epoch (ctx_sched ctx))) + 1 < 2 ^ 64"
    and "serve_step host con ctx w = (next_con, ctx1, w1)" "served hosts n ctx1 ctx2"
  shows "next_con = None \<and> id_value (epoch (ctx_sched ctx1)) = id_value (epoch (ctx_sched ctx)) + 1 \<and>
     current_authority (ctx_sched ctx1) = id_next (current_authority (ctx_sched ctx)) \<and>
     (\<forall>k p q. omap_find (plans (ctx_sched ctx)) k = Some p \<and> omap_find (plans (ctx_sched ctx2)) k = Some q \<longrightarrow>
        pl_state q \<in> {REVALIDATION_REQUIRED, SUPERSEDED, CANCELLED, FAILED, RETIRED}) \<and>
     (\<forall>c. workerBootId c = con_boot con \<longrightarrow> (\<exists>err. ingest_candidate c (ctx_sched ctx2) = (Inl err, ctx_sched ctx2)))"
proof -
  let ?b = "con_boot con" and ?s = "fence_worker (con_boot con) (ctx_sched ctx)"
  let ?e = "st_epoch (ctx_sched ctx)"
  note lost = lost_step [OF assms(2-4,6)]
  have "id_value ?e < id_value ?e + 1"
    using counter_succ [of "id_value ?e"] assms(5) by (simp add: epoch_def word_less_nat_alt)
  then have "\<not> id_value ?e + 1 \<le> id_value ?e" "StrongId (id_value ?e + 1) \<noteq> ?e" by (auto, cases ?e, auto)
  then have step: "ctx_sched ctx1 = fence_plans (?s\<lparr>st_epoch := StrongId (id_value ?e + 1),
      st_authority := id_next (st_authority (ctx_sched ctx))\<rparr>)"
    by (auto simp: lost(2) fence_and_bump_fields set_epoch_def fence_worker_def)
  have ok1: "sched_ok (ctx_sched ctx1)" unfolding lost(2) by (rule drop_ok [OF assms(1)])
  note later = served_effect [OF assms(7) ok1]
  have "pl_state q \<in> {REVALIDATION_REQUIRED, SUPERSEDED, CANCELLED, FAILED, RETIRED}"
    if p: "omap_find (plans (ctx_sched ctx)) k = Some p" and q: "omap_find (plans (ctx_sched ctx2)) k = Some q"
    for k p q
  proof -
    have "grows (ctx_sched ctx) (ctx_sched ctx1)"
      using calls_ok [OF drop_calls [of ctx ?b] assms(1)] by (simp add: lost(2))
    with p obtain p1 where p1: "omap_find (plans (ctx_sched ctx1)) k = Some p1"
      unfolding grows_def plans_evolve_def by blast
    then have "progress (pl_state p1) = 9" unfolding step by (rule fence_plans_off_path)
    moreover from p1 later q have "evolves p1 q"
      unfolding grows_def plans_evolve_def by fastforce
    ultimately have "9 \<le> progress (pl_state q)" by (simp add: evolves_def)
    then show ?thesis by (cases "pl_state q") simp_all
  qed
  moreover have "\<exists>err. ingest_candidate c (ctx_sched ctx2) = (Inl err, ctx_sched ctx2)" if "workerBootId c = ?b" for c
  proof -
    have "?b \<in> set (fencedWorkers (ctx_sched ctx1))" by (simp add: lost(2) fence_and_bump_fenced)
    then have "workerBootId c \<in> set (fencedWorkers (ctx_sched ctx2))"
      using later that by (auto simp: grows_def)
    then show ?thesis by (simp add: ingest_candidate_def split: sum.split)
  qed
  moreover have "epoch (ctx_sched ctx1) = StrongId (id_value (epoch (ctx_sched ctx)) + 1)"
      "current_authority (ctx_sched ctx1) = id_next (current_authority (ctx_sched ctx))"
    by (simp_all add: step epoch_def current_authority_def)
  ultimately show ?thesis using lost(1) by auto
qed

theorem drop_retires_plans_witness:
  "\<exists>ctx1 q. serve_step demo_host demo_connection (demo_ctx\<lparr>ctx_sched := demo_ready\<rparr>) (demo_world []) =
       (None, ctx1, demo_dropped) \<and> current_authority (ctx_sched ctx1) = StrongId 2 \<and>
     omap_find (plans (ctx_sched ctx1)) (StrongId 1) = Some q \<and>
     pl_state q \<in> {REVALIDATION_REQUIRED, SUPERSEDED, CANCELLED, FAILED, RETIRED}"
proof -
  let ?ctx = "demo_ctx\<lparr>ctx_sched := demo_ready\<rparr>"
  let ?ctx1 = "fence_worker_and_bump (StrongId 9) ?ctx"
  have run: "running ?ctx" by (simp add: demo_ctx_def new_coordinator_def)
  then have turn: "serve_step demo_host demo_connection ?ctx (demo_world []) = (None, ?ctx1, demo_dropped)"
    using demo_lost
    by (cases "recv_frame (host_socket demo_host) demo_channel (demo_world [])")
      (simp add: serve_step_def demo_dropped_def)
  have "unat (id_value (epoch (ctx_sched ?ctx))) + 1 < 2 ^ 64" "sched_ok (ctx_sched ?ctx)"
    by (simp_all add: epoch_def demo_ready_ok)
  note drop = drop_retires_plans [OF this(2) run _ _ this(1) turn served.none [where hosts = "{demo_host}"]]
  have "\<exists>q. omap_find (plans (ctx_sched ?ctx1)) (StrongId 1) = Some q"
  proof -
    have "plans_evolve demo_ready (ctx_sched ?ctx1)"
      using calls_ok [OF drop_calls [of ?ctx "StrongId 9"]] demo_ready_ok(1) by (simp add: grows_def)
    then show ?thesis using demo_ready_plan(1) unfolding plans_evolve_def by blast
  qed
  then obtain q where q: "omap_find (plans (ctx_sched ?ctx1)) (StrongId 1) = Some q" by blast
  have "omap_find (plans (ctx_sched ?ctx)) (StrongId 1) = Some demo_plan" by simp
  moreover have "\<forall>k p q. omap_find (plans (ctx_sched ?ctx)) k = Some p \<and> omap_find (plans (ctx_sched ?ctx1)) k = Some q \<longrightarrow>
      pl_state q \<in> {REVALIDATION_REQUIRED, SUPERSEDED, CANCELLED, FAILED, RETIRED}"
    using drop demo_lost by simp
  ultimately have "pl_state q \<in> {REVALIDATION_REQUIRED, SUPERSEDED, CANCELLED, FAILED, RETIRED}"
    using q by blast
  with q turn drop demo_lost show ?thesis
    by (intro exI [of _ ?ctx1] exI [of _ q]) (simp add: current_authority_def id_next_def)
qed

section \<open>A schedule under way\<close>

text \<open>The fence is not seen by a schedule that is already under way: when the connection of the
  worker that is about to win is lost after the candidates were filtered, the plan is added after
  the fence, under the new epoch and authority, so it is ready to be committed on the lost worker.\<close>

theorem drop_races_with_schedule:
  assumes "sched_ok st" "validate (demand r) = Inr ()"
    and "std_sort entry_less (entries_of r dep (Some (LiveVeto fenced)) st) = (rk, c) # es"
    and "omap_find (plans st) (StrongId (nextPlanId st)) = None"
    and "req_requestId r \<notin> set (cancelledRequests st)" "unat (id_value (epoch st)) + 1 < 2 ^ 64"
  shows "\<exists>S. sys_step\<^sup>*\<^sup>* (idle st lg) S \<and> jobs S = [] \<and>
     workerBootId c \<notin> set fenced \<and> workerBootId c \<in> set (fencedWorkers (sched S)) \<and>
     id_value (epoch (sched S)) = id_value (epoch st) + 1 \<and>
     (\<exists>p. committable (StrongId (nextPlanId st)) p (sched S) \<and> selectedCandidate p = candidateId c)"
proof -
  let ?b = "workerBootId c" and ?e = "StrongId (id_value (st_epoch st) + 1)"
  let ?rej = "rejected_entries r dep (Some (LiveVeto fenced)) (schedule_begin st)"
  let ?job = "ScheduleJob r dep ((rk, c) # es) ?rej"
  let ?f = "fence_worker ?b st" and ?k = "StrongId (nextPlanId st)"
  define g where "g = fence_plans (?f\<lparr>st_epoch := ?e, st_authority := id_next (st_authority st)\<rparr>)"
  have g: "omap_ok (plans g)" "omap_find (plans g) ?k = None" "nextPlanId g = nextPlanId st"
    "cancelledRequests g = cancelledRequests st" "fencedWorkers g = uset_insert ?b (fencedWorkers st)" "st_epoch g = ?e"
    using sched_ok_plans [OF assms(1)] assms(4) by (simp_all add: g_def fence_worker_def)
  let ?p = "fresh_plan r dep ?rej (rk, c) es g"
  have "(rk, c) \<in> set (entries_of r dep (Some (LiveVeto fenced)) st)"
    using assms(3) set_std_sort [of entry_less "entries_of r dep (Some (LiveVeto fenced)) st"] by auto
  then have c: "meets_hard_constraints r c dep (Some (LiveVeto fenced))" "rk = Ranker_evaluate r c (rankOptions st)"
    by (simp_all add: entries_iff)
  then have free: "?b \<notin> set fenced"
    by (auto simp: meets_hard_constraints_def policy_met_def LiveVeto_def)
  have "id_value (st_epoch st) < id_value (st_epoch st) + 1"
    using counter_succ [of "id_value (st_epoch st)"] assms(6) by (simp add: epoch_def word_less_nat_alt)
  then have moved: "apply_op (SetEpoch ?e) ?f = g"
    by (cases "st_epoch st") (auto simp: set_epoch_def fence_worker_def g_def)
  let ?done_st = "snd (schedule_finish r dep ((rk, c) # es) ?rej g)"
  have 1: "sys_step\<^sup>*\<^sup>* (idle st lg) (idle st lg\<lparr>jobs := [?job]\<rparr>)"
    using schedule_filtered [OF assms(2), of "idle st lg" dep "Some (LiveVeto fenced)"] assms(3) by simp
  have 2: "sys_step (idle st lg\<lparr>jobs := [?job]\<rparr>) (idle ?f lg\<lparr>jobs := [?job]\<rparr>)"
    using sys_step.mutex_method [of "FenceWorker ?b" "idle st lg\<lparr>jobs := [?job]\<rparr>"] by simp
  have 3: "sys_step (idle ?f lg\<lparr>jobs := [?job]\<rparr>) (idle g lg\<lparr>jobs := [?job]\<rparr>)"
    using sys_step.mutex_method [of "SetEpoch ?e" "idle ?f lg\<lparr>jobs := [?job]\<rparr>"] moved by simp
  have 4: "sys_step (idle g lg\<lparr>jobs := [?job]\<rparr>) (idle ?done_st lg)"
    using sys_step.schedule_end [of "idle g lg\<lparr>jobs := [?job]\<rparr>" "[]" r dep "(rk, c) # es" ?rej "[]"] by simp
  from 1 2 3 4 have run: "sys_step\<^sup>*\<^sup>* (idle st lg) (idle ?done_st lg)"
    by (meson rtranclp.rtrancl_into_rtrancl rtranclp.rtrancl_refl)
  have "omap_find (plans ?done_st) ?k = Some ?p"
    using g by (simp add: schedule_finish_Cons omap_find_emplace)
  moreover have "rc_candidateId rk = candidateId c" by (simp add: c(2))
  ultimately have "committable ?k ?p ?done_st" "selectedCandidate ?p = candidateId c"
    using assms(5) g by (simp_all add: committable_def schedule_finish_Cons)
  moreover have "?b \<in> set (fencedWorkers ?done_st)" "id_value (epoch ?done_st) = id_value (epoch st) + 1"
    using g by (simp_all add: schedule_finish_Cons epoch_def)
  ultimately show ?thesis using run free by (intro exI [of _ "idle ?done_st lg"]) auto
qed

theorem drop_races_with_schedule_witness:
  "\<exists>S p. sys_step\<^sup>*\<^sup>* (idle demo_st []) S \<and> workerBootId sampleA \<in> set (fencedWorkers (sched S)) \<and>
     committable (StrongId 1) p (sched S) \<and> selectedCandidate p = candidateId sampleA"
proof -
  let ?pol = "Some (LiveVeto [])"
  have "meets_hard_constraints req sampleA None ?pol"
    using demo_meets by (simp add: meets_hard_constraints_def policy_met_def LiveVeto_def)
  then have "std_sort entry_less (entries_of req None ?pol demo_st) =
      [(Ranker_evaluate req sampleA (rankOptions demo_st), sampleA)]"
    by (simp add: eligible_entries_def demo_st_eq schedule_begin_def eligible_def evaluate_eligible std_sort_def)
  from drop_races_with_schedule [OF demo_ok(1) demo_valid this, of "[]"] show ?thesis
    by (auto simp: epoch_def)
qed

section \<open>Registering twice\<close>

text \<open>A connection remembers one boot: one that registers a second boot and is lost leaves the first
  boot unfenced, and its candidates can still be placed.\<close>

lemma reregistered_boot_not_fenced:
  assumes "handle_register host payload con ctx w = (r, con1, ctx1, w1)" "con_boot con1 \<noteq> con_boot con"
    and "con_boot con \<notin> set (live_fenced ctx)"
  shows "con_boot con \<notin> set (live_fenced (fence_worker_and_bump (con_boot con1) ctx1))"
  using assms register_shutdown_effect(1) [OF assms(1)] by (simp add: fence_and_bump_fields turn_effect_def)

section \<open>Saved state\<close>

text \<open>Sending leaves a part of the world alone.\<close>

definition sends_keep :: "'w Host \<Rightarrow> ('w \<Rightarrow> 'a) \<Rightarrow> bool" where
  "sends_keep host f \<longleftrightarrow> (\<forall>bs w. f (snd (send_call (host_socket host) bs w)) = f w)"

lemma send_loop_keeps:
  "sends_keep host f \<Longrightarrow> f (snd (send_loop (host_socket host) bs w)) = f w"
proof (induction bs arbitrary: w rule: length_induct)
  case (1 bs)
  show ?case
  proof (cases "bs = []")
    case True
    then show ?thesis by (simp add: send_loop.simps)
  next
    case False
    obtain x w' where x: "send_call (host_socket host) bs w = (x, w')"
      by (cases "send_call (host_socket host) bs w")
    with "1.prems" have "f w' = f w" unfolding sends_keep_def by (metis snd_conv)
    moreover have "f (snd (send_loop (host_socket host) (drop k bs) w')) = f w'" if "0 < k" for k
      using 1 False that by simp
    ultimately show ?thesis
      using False x by (subst send_loop.simps) (simp split: option.split)
  qed
qed

lemma reply_keeps: "sends_keep host f \<Longrightarrow> f (snd (reply host con t payload w)) = f w"
  using send_loop_keeps by (auto simp: reply_def send_frame_def send_all_def split: sum.split)

lemma send_error_keeps: "sends_keep host f \<Longrightarrow> f (send_error host con code msg w) = f w"
  by (simp add: send_error_def reply_keeps)

text \<open>\<open>file_of f w\<close> is the content of file \<open>f\<close>: what was written last without an error.\<close>

definition stores_files :: "'w Host \<Rightarrow> (string \<Rightarrow> 'w \<Rightarrow> byte list) \<Rightarrow> bool" where
  "stores_files host file_of \<longleftrightarrow>
     (\<forall>f bs w w1. write_file host f bs w = (Written, w1) \<longrightarrow> file_of f w1 = bs) \<and>
     (\<forall>f. sends_keep host (file_of f))"

text \<open>C24: from the start of the coordinator, through fewer than 2^60 turns of any connections, SAVE
  with a file that takes the bytes and stores them leaves a state file that \<^verbatim>\<open>persist_load\<close> accepts
  and that gives back exactly the scheduler's snapshot, but for the topology generations its demands
  pin, which no file keeps. This holds if the snapshot is storable: its lists, strings and payload
  are within the bounds of the readers, its demands pass \<^verbatim>\<open>validate\<close>, and the ranking factors that
  its plans record have finite values (which a plan placed on NaN evidence does not). That the
  snapshot is consistent in itself, its plans' candidates recorded and its plan ids issued, needs no
  hypothesis.\<close>

theorem saved_state_loads:
  assumes "served hosts n (new_coordinator path) ctx" "n < 2 ^ 60" "stores_files host file_of"
    and "fst (write_file host (stateFile ctx) (persist_save (snapshot (ctx_sched ctx))) w) = Written"
    and "storable (snapshot (ctx_sched ctx))"
  shows "persist_load (file_of (stateFile ctx) (snd (handle_save host con ctx w))) =
     Inr (forget_topology (snapshot (ctx_sched ctx)), [])"
proof -
  let ?bs = "persist_save (snapshot (ctx_sched ctx))"
  obtain ops where ops: "ctx_sched ctx = fold apply_op ops (new_Scheduler coordinator_config)"
    "known_run (new_Scheduler coordinator_config) ops" "length ops \<le> 6 * n"
    using served_run [OF assms(1)] by blast
  have "length ops < 2 ^ 64 - 1" using ops(3) assms(2) by simp
  then have "unat (nextPlanId (new_Scheduler coordinator_config)) + length ops < 2 ^ 64"
    by (simp add: new_Scheduler_def)
  moreover have "durable (new_Scheduler coordinator_config)"
    by (simp add: durable_def new_Scheduler_def is_valid_def)
  ultimately have "snapshot_sound (snapshot (ctx_sched ctx))"
    unfolding ops(1) using durable_run [OF sched_ok_new _ ops(2)] by (simp add: durable_indexed)
  then have load: "persist_load ?bs = Inr (forget_topology (snapshot (ctx_sched ctx)), [])"
    using load_storable [OF assms(5), of "[]"] by simp
  obtain w1 where w1: "write_file host (stateFile ctx) ?bs w = (Written, w1)"
    using assms(4) by (cases "write_file host (stateFile ctx) ?bs w") simp
  with assms(3) have "file_of (stateFile ctx) w1 = ?bs" "sends_keep host (file_of (stateFile ctx))"
    unfolding stores_files_def by blast+
  with reply_keeps [of host "file_of (stateFile ctx)"] have
    "file_of (stateFile ctx) (snd (handle_save host con ctx w)) = ?bs"
    by (simp add: handle_save_def w1)
  with load show ?thesis by simp
qed

lemma demo_stores: "stores_files demo_host (\<lambda>_. state_file)"
  by (simp add: stores_files_def sends_keep_def demo_host_def)

lemma demo_new_fits: "snapshot_fits (snapshot (ctx_sched (new_coordinator f)))"
proof -
  have "length (save_payload (snapshot (ctx_sched (new_coordinator f)))) \<le> kMaxPayload"
    by (simp add: save_payload_def new_coordinator_def new_Scheduler_def snapshot_def kMaxPayload_def length_records)
  then show ?thesis
    by (simp add: snapshot_fits_def new_coordinator_def new_Scheduler_def snapshot_def list_ok_def kMaxRecords_def)
qed

theorem saved_state_loads_witness:
  "persist_load (state_file (snd (handle_save demo_host demo_connection (new_coordinator ''f'') (demo_world [])))) =
     Inr (snapshot (new_Scheduler coordinator_config), [])"
proof -
  have "fst (write_file demo_host f bs w) = Written" for f bs w by (simp add: demo_host_def)
  from saved_state_loads [OF served.none [where hosts = "{demo_host}" and ctx = "new_coordinator ''f''"] _ demo_stores
      this fits_storable(1) [OF demo_new_fits], of demo_connection]
  show ?thesis
    using fits_storable(2) [OF demo_new_fits] by (simp add: new_coordinator_def)
qed

section \<open>Malformed payloads\<close>

text \<open>What each message needs to read from its payload.\<close>

definition unit_reader :: "'a reader \<Rightarrow> unit reader" where
  "unit_reader rd = rd_bind rd (\<lambda>_. rd_return ())"

fun payload_reader :: "MessageType \<Rightarrow> unit reader" where
  "payload_reader REGISTER = unit_reader (rd_bind get_u64 (\<lambda>_. rd_bind get_u64 (\<lambda>_. get_string)))"
| "payload_reader PUBLISH_RESOURCE = unit_reader decode_candidate_record"
| "payload_reader PUBLISH_CAPACITY = unit_reader decode_candidate_record"
| "payload_reader PUBLISH_CONGESTION = unit_reader decode_candidate_record"
| "payload_reader PUBLISH_HEALTH = unit_reader decode_candidate_record"
| "payload_reader SUBMIT_WORKLOAD = unit_reader dec_request_r"
| "payload_reader COMMIT_REQUEST = unit_reader get_u64"
| "payload_reader EXECUTION_HANDOFF = unit_reader get_u64"
| "payload_reader REVALIDATE = unit_reader (rd_bind get_u64 (\<lambda>_. dec_fingerprint))"
| "payload_reader CANCEL = unit_reader get_u64"
| "payload_reader SUPERSEDE = unit_reader (rd_bind get_u64 (\<lambda>_. get_u64))"
| "payload_reader _ = rd_return ()"

lemma unit_reader_error: "rd_run (unit_reader rd) bs = Inl e \<longleftrightarrow> rd_run rd bs = Inl e"
  by (simp add: unit_reader_def rd_run_def rd_bind_def rd_return_def split: sum.split prod.split)

lemma bad_payload_unhandled:
  assumes "rd_run (payload_reader t) payload = Inl e"
  shows "handle_frame host t payload con ctx w = (Inl e, con, ctx, w)"
proof -
  note readers = rd_run_def rd_bind_def rd_return_def get_id_def unit_reader_def
  show ?thesis
  proof (cases t)
    case REGISTER
    with assms show ?thesis
      by (auto simp: handle_frame_def handle_register_def readers split: sum.splits prod.splits)
  next
    case COMMIT_REQUEST
    with assms show ?thesis
      by (auto simp: handle_frame_def handle_commit_def readers split: sum.splits prod.splits)
  next
    case EXECUTION_HANDOFF
    with assms show ?thesis
      by (auto simp: handle_frame_def handle_handoff_def readers split: sum.splits prod.splits)
  next
    case REVALIDATE
    with assms show ?thesis
      by (auto simp: handle_frame_def handle_revalidate_def readers split: sum.splits prod.splits)
  next
    case CANCEL
    with assms show ?thesis
      by (auto simp: handle_frame_def handle_cancel_def readers split: sum.splits prod.splits)
  next
    case SUPERSEDE
    with assms show ?thesis
      by (auto simp: handle_frame_def handle_supersede_def readers split: sum.splits prod.splits)
  qed (use assms in \<open>simp_all add: handle_frame_def handle_publish_def handle_submit_def unit_reader_error
      rd_run_def [of "rd_return ()"] rd_return_def\<close>)
qed

text \<open>C29: a frame whose payload cannot be read as its message type requires changes no state of the
  coordinator, whatever its bytes: the thread answers with the decoder's error and goes on with the
  next frame.\<close>

theorem bad_payload_reported:
  assumes "running ctx" "channel_valid (con_channel con)"
    and "recv_frame (host_socket host) (con_channel con) w = (Inr (t, payload), w1)"
    and "rd_run (payload_reader t) payload = Inl e"
  shows "serve_step host con ctx w = (Some con, ctx, send_error host con (fe_code e) (fe_what e) w1)"
proof -
  have "handle_frame host t payload con ctx w1 = (Inl e, con, ctx, w1)"
    using assms(4) by (rule bad_payload_unhandled)
  with assms show ?thesis by (simp add: serve_step_def)
qed

theorem bad_payload_reported_witness:
  "\<exists>bs w1 e. serve_step demo_host demo_connection (new_coordinator ''f'') (demo_world bs) =
     (Some demo_connection, new_coordinator ''f'', send_error demo_host demo_connection (fe_code e) (fe_what e) w1)"
proof -
  obtain bs where "encode_frame CANCEL [] 0 = Inr bs" by (simp add: encode_frame_def Let_def)
  from demo_receives [OF this] obtain w where
    w: "recv_frame (host_socket demo_host) demo_channel (demo_world bs) = (Inr (CANCEL, []), w)" by blast
  have "\<exists>e. rd_run (payload_reader CANCEL) [] = Inl e"
    by (simp add: rd_run_def unit_reader_def rd_bind_def get_u64_def get_le_def require_def)
  then obtain e where "rd_run (payload_reader CANCEL) [] = Inl e" by blast
  from bad_payload_reported [OF _ _ _ this, of "new_coordinator ''f''" demo_connection demo_host "demo_world bs" w] w
  show ?thesis by (auto simp: new_coordinator_def channel_valid_def)
qed

section \<open>The end of a connection\<close>

text \<open>Sending and saving leave what is still to be read alone.\<close>

definition quiet :: "'w Host \<Rightarrow> ('w \<Rightarrow> 'a) \<Rightarrow> bool" where
  "quiet host f \<longleftrightarrow> sends_keep host f \<and> (\<forall>path bs w. f (snd (write_file host path bs w)) = f w)"

lemma quiet_reply:
  assumes "quiet host f"
  shows "reply host con t payload w = (r, w1) \<Longrightarrow> f w1 = f w"
    and "write_file host path bs w = (x, w1) \<Longrightarrow> f w1 = f w"
    and "f (send_error host con code msg w) = f w"
  using assms reply_keeps [of host f con t payload w] send_error_keeps [of host f con code msg w]
  by (auto simp: quiet_def) (metis snd_conv)

lemma handle_frame_quiet:
  assumes "quiet host f" "handle_frame host t payload con ctx w = (r, con1, ctx1, w1)"
  shows "f w1 = f w"
proof -
  note keeps = quiet_reply [OF assms(1)]
  show ?thesis
  proof (cases t)
    case HELLO
    with assms(2) keeps show ?thesis by (auto simp: handle_frame_def handle_hello_def split: prod.splits)
  next
    case REGISTER
    with assms(2) keeps show ?thesis
      by (auto simp: handle_frame_def handle_register_def Let_def split: prod.splits sum.splits)
  next
    case SUBMIT_WORKLOAD
    with assms(2) keeps show ?thesis
      by (auto simp: handle_frame_def handle_submit_def Let_def split: prod.splits sum.splits)
  next
    case COMMIT_REQUEST
    with assms(2) keeps show ?thesis
      by (auto simp: handle_frame_def handle_commit_def Let_def split: prod.splits sum.splits)
  next
    case EXECUTION_HANDOFF
    with assms(2) keeps show ?thesis
      by (auto simp: handle_frame_def handle_handoff_def Let_def split: prod.splits sum.splits)
  next
    case REVALIDATE
    with assms(2) keeps show ?thesis
      by (auto simp: handle_frame_def handle_revalidate_def Let_def split: prod.splits sum.splits)
  next
    case CANCEL
    with assms(2) keeps show ?thesis
      by (auto simp: handle_frame_def handle_cancel_def Let_def split: prod.splits sum.splits)
  next
    case SUPERSEDE
    with assms(2) keeps show ?thesis
      by (auto simp: handle_frame_def handle_supersede_def Let_def split: prod.splits sum.splits)
  next
    case SAVE
    with assms(2) keeps show ?thesis
      by (auto simp: handle_frame_def handle_save_def split: prod.splits file_result.splits)
  next
    case SHUTDOWN
    with assms(2) keeps show ?thesis
      by (auto simp: handle_frame_def handle_shutdown_def split: prod.splits sum.splits)
  qed (use assms(2) keeps in \<open>auto simp: handle_frame_def handle_publish_def split: prod.splits sum.splits\<close>)
qed

text \<open>Every turn that keeps the thread going has read a whole frame, at least 20 bytes.\<close>

lemma decode_frame_consumes: "decode_frame bs = Inr (x, rest) \<Longrightarrow> length rest + 20 \<le> length bs"
  by (cases x) (auto dest!: decode_frame_shape)

lemma serve_step_consumes:
  assumes "delivers (host_socket host) pending" "quiet host pending" "socket (con_channel con) \<noteq> 0"
    and "serve_step host con ctx w = (Some con1, ctx1, w1)" "sched_ok (ctx_sched ctx)"
  shows "length (pending w1) + 20 \<le> length (pending w)" "con_channel con1 = con_channel con"
proof -
  have "length (pending w1) + 20 \<le> length (pending w) \<and> con_channel con1 = con_channel con"
  proof (cases rule: serve_step_cases [of ctx host con w])
    case (handled t payload w' r con' c w'' next_con w3)
    obtain rest where "decode_frame (pending w) = Inr ((t, payload), rest)" "pending w' = rest"
      using recv_frame_decodes [OF assms(1,3), of w] handled(2)
      by (cases "decode_frame (pending w)") auto
    then have "length (pending w') + 20 \<le> length (pending w)" using decode_frame_consumes by blast
    moreover have "pending w3 = pending w'"
      using handle_frame_quiet [OF assms(2) handled(3)] handled(6) quiet_reply(3) [OF assms(2)]
      by (auto split: sum.splits)
    moreover have "con1 = con'" "w1 = w3" using assms(4) handled(4,5) by (auto split: if_splits)
    ultimately show ?thesis using handle_frame_effect(2) [OF assms(5) handled(3)] by simp
  qed (use assms(4) in auto)
  then show "length (pending w1) + 20 \<le> length (pending w)" "con_channel con1 = con_channel con"
    by simp_all
qed

text \<open>The state after \<open>n\<close> turns of the loop, one after the other, if each of them goes on.\<close>

fun after_turns :: "'w Host \<Rightarrow> nat \<Rightarrow> Connection \<Rightarrow> Ctx \<Rightarrow> 'w \<Rightarrow> (Connection \<times> Ctx \<times> 'w) option" where
  "after_turns host 0 con ctx w = Some (con, ctx, w)"
| "after_turns host (Suc n) con ctx w =
     (case serve_step host con ctx w of
        (Some con1, ctx1, w1) \<Rightarrow> after_turns host n con1 ctx1 w1
      | (None, _, _) \<Rightarrow> None)"

lemma serve_loop_ends:
  assumes "delivers (host_socket host) pending" "quiet host pending" "socket (con_channel con) \<noteq> 0"
    and "sched_ok (ctx_sched ctx)"
  shows "\<exists>n con1 ctx1 w1 ctx' w'. after_turns host n con ctx w = Some (con1, ctx1, w1) \<and>
     serve_step host con1 ctx1 w1 = (None, ctx', w') \<and> serve_loop host con ctx w = Some (ctx', w') \<and>
     length (pending w1) + 20 * n \<le> length (pending w)"
  using assms(3,4)
proof (induction "length (pending w)" arbitrary: con ctx w rule: less_induct)
  case less
  obtain x ctx1 w1 where turn: "serve_step host con ctx w = (x, ctx1, w1)"
    by (cases "serve_step host con ctx w")
  show ?case
  proof (cases x)
    case None
    with turn have "serve_loop host con ctx w = Some (ctx1, w1)" by (simp add: serve_loop.simps)
    with turn None show ?thesis by (intro exI [of _ 0]) simp
  next
    case (Some con1)
    note used = serve_step_consumes [OF assms(1,2) less.prems(1) turn [unfolded Some] less.prems(2)]
    have "sched_ok (ctx_sched ctx1)"
      using calls_ok [OF serve_step_calls [OF less.prems(2) turn] less.prems(2)] by simp
    then obtain n con2 ctx2 w2 ctx' w' where rest: "after_turns host n con1 ctx1 w1 = Some (con2, ctx2, w2)"
      "serve_step host con2 ctx2 w2 = (None, ctx', w')" "serve_loop host con1 ctx1 w1 = Some (ctx', w')"
      "length (pending w2) + 20 * n \<le> length (pending w1)"
      using less.hyps [of w1 con1 ctx1] used less.prems(1) by auto
    have "serve_loop host con ctx w = Some (ctx', w')"
      by (subst serve_loop.simps) (simp add: turn Some rest(3))
    moreover have "after_turns host (Suc n) con ctx w = Some (con2, ctx2, w2)"
      by (simp add: turn Some rest(1))
    moreover have "length (pending w2) + 20 * Suc n \<le> length (pending w)" using rest(4) used(1) by simp
    ultimately show ?thesis using rest(2) by blast
  qed
qed

text \<open>C25: a connection thread always comes to an end when its peer's stream does. Over a connected
  socket that delivers a finite stream, whatever its bytes, of which sending and saving consume
  nothing, and from any well-formed state of the scheduler, \<^verbatim>\<open>serve_connection\<close> returns. It makes \<open>n\<close>
  turns that go on, each of which takes a frame of at least 20 bytes from the stream, and then the
  turn that ends it and gives its result; so \<open>n\<close> is at most the number of frames of 20 bytes that the
  stream has room for.\<close>

theorem connection_ends:
  assumes "delivers (host_socket host) pending" "quiet host pending" "socket ch \<noteq> 0"
    and "sched_ok (ctx_sched ctx)"
  shows "\<exists>n con1 ctx1 w1 ctx' w'.
     after_turns host n \<lparr>con_channel = ch, con_boot = StrongId 0, hasBoot = False\<rparr> ctx w = Some (con1, ctx1, w1) \<and>
     serve_step host con1 ctx1 w1 = (None, ctx', w') \<and>
     serve_connection host ch ctx w = Some (ctx', w') \<and>
     length (pending w1) + 20 * n \<le> length (pending w) \<and> n \<le> length (pending w) div 20"
proof -
  obtain n con1 ctx1 w1 ctx' w' where
    r: "after_turns host n \<lparr>con_channel = ch, con_boot = StrongId 0, hasBoot = False\<rparr> ctx w = Some (con1, ctx1, w1)"
    "serve_step host con1 ctx1 w1 = (None, ctx', w')" "serve_connection host ch ctx w = Some (ctx', w')"
    "length (pending w1) + 20 * n \<le> length (pending w)"
    using serve_loop_ends [OF assms(1,2) _ assms(4), of "\<lparr>con_channel = ch, con_boot = StrongId 0, hasBoot = False\<rparr>" w]
      assms(3) by (auto simp: serve_connection_def)
  have "n \<le> length (pending w) div 20" using r(4) by (simp add: less_eq_div_iff_mult_less_eq)
  with r show ?thesis by blast
qed

lemma demo_quiet: "quiet demo_host incoming"
  by (simp add: quiet_def sends_keep_def demo_host_def)

theorem connection_ends_witness:
  "\<exists>ctx' w'. serve_connection demo_host demo_channel (new_coordinator ''f'') (demo_world [1, 2, 3]) = Some (ctx', w')"
  using connection_ends [OF demo_delivers demo_quiet _ new_coordinator_ok(1), of demo_channel "''f''" "demo_world [1, 2, 3]"]
  by auto

end
