(* ===== verification/Listener.thy ===== *)
theory Listener
  imports Net
begin

text \<open>
  Opening sockets (\<^verbatim>\<open>net.cpp\<close>): \<^verbatim>\<open>TcpChannel::connect\<close> and \<^verbatim>\<open>TcpListener\<close> over the operating
  system's calls, which are parameters (\<open>SocketApi\<close>); a refused call is \<open>None\<close> or \<open>False\<close>.
  Addresses are the IPv4 words in host order; \<open>parse_ipv4\<close> is \<^verbatim>\<open>inet_pton\<close>, whose failure
  leaves the zeroed address.

  Shown: a call that fails closes the handle it opened, a call that succeeds holds exactly one
  more, which the destructor gives back unless it is 0, and a second \<^verbatim>\<open>listen\<close> forgets the first listening socket without closing it.
\<close>

type_synonym handle = "64 word"

record 'w SocketApi =
  open_socket :: "'w \<Rightarrow> handle option \<times> 'w"
  parse_ipv4 :: "string \<Rightarrow> 32 word option"
  connect_to :: "handle \<Rightarrow> 32 word \<Rightarrow> 16 word \<Rightarrow> 'w \<Rightarrow> bool \<times> 'w"
  set_reuse :: "handle \<Rightarrow> 'w \<Rightarrow> 'w"
  bind_to :: "handle \<Rightarrow> 32 word \<Rightarrow> 16 word \<Rightarrow> 'w \<Rightarrow> bool \<times> 'w"
  listen_on :: "handle \<Rightarrow> nat \<Rightarrow> 'w \<Rightarrow> bool \<times> 'w"
  bound_port :: "handle \<Rightarrow> 'w \<Rightarrow> 16 word"
  accept_from :: "handle \<Rightarrow> 'w \<Rightarrow> handle option \<times> 'w"
  close_socket :: "handle \<Rightarrow> 'w \<Rightarrow> 'w"

record TcpListener =
  listener :: handle

definition INADDR_LOOPBACK :: "32 word" where
  "INADDR_LOOPBACK = 0x7F000001"

definition channel_connect ::
  "'w SocketApi \<Rightarrow> string \<Rightarrow> 16 word \<Rightarrow> 'w \<Rightarrow> TcpChannel option \<times> 'w"
where
  "channel_connect api host port w =
     (case open_socket api w of
        (None, w1) \<Rightarrow> (None, w1)
      | (Some s, w1) \<Rightarrow>
          (let addr = (case parse_ipv4 api host of None \<Rightarrow> 0 | Some a \<Rightarrow> a) in
           case connect_to api s addr port w1 of
             (False, w2) \<Rightarrow> (None, close_socket api s w2)
           | (True, w2) \<Rightarrow> (Some \<lparr>socket = s\<rparr>, w2)))"

definition listener_listen ::
  "'w SocketApi \<Rightarrow> TcpListener \<Rightarrow> 16 word \<Rightarrow> 'w \<Rightarrow> 16 word res \<times> TcpListener \<times> 'w"
where
  "listener_listen api l port w =
     (case open_socket api w of
        (None, w1) \<Rightarrow> (throw ProtocolError ''socket() failed'', l, w1)
      | (Some s, w1) \<Rightarrow>
          (case bind_to api s INADDR_LOOPBACK port (set_reuse api s w1) of
             (False, w2) \<Rightarrow> (throw ProtocolError ''bind() failed'', l, close_socket api s w2)
           | (True, w2) \<Rightarrow>
               (case listen_on api s 16 w2 of
                  (False, w3) \<Rightarrow> (throw ProtocolError ''listen() failed'', l, close_socket api s w3)
                | (True, w3) \<Rightarrow>
                    (Inr (if port = 0 then bound_port api s w3 else port), l\<lparr>listener := s\<rparr>, w3))))"

definition listener_accept :: "'w SocketApi \<Rightarrow> TcpListener \<Rightarrow> 'w \<Rightarrow> TcpChannel option \<times> 'w" where
  "listener_accept api l w =
     (if listener l = 0 then (None, w)
      else case accept_from api (listener l) w of
        (None, w1) \<Rightarrow> (None, w1)
      | (Some c, w1) \<Rightarrow> (Some \<lparr>socket = c\<rparr>, w1))"

definition listener_done :: "'w SocketApi \<Rightarrow> TcpListener \<Rightarrow> 'w \<Rightarrow> TcpListener \<times> 'w" where
  "listener_done api l w =
     (if listener l \<noteq> 0 then (l\<lparr>listener := 0\<rparr>, close_socket api (listener l) w) else (l, w))"

text \<open>The destructor of a channel: \<^verbatim>\<open>close\<close> with its call of the system.\<close>

definition channel_done :: "'w SocketApi \<Rightarrow> TcpChannel \<Rightarrow> 'w \<Rightarrow> TcpChannel \<times> 'w" where
  "channel_done api ch w =
     (case channel_close ch of
        (Some s, ch1) \<Rightarrow> (ch1, close_socket api s w)
      | (None, ch1) \<Rightarrow> (ch1, w))"

section \<open>Handles\<close>

text \<open>
  The documented effect of the calls on the handles a process holds: \<^verbatim>\<open>socket\<close> and \<^verbatim>\<open>accept\<close> add a
  new handle when they succeed, \<^verbatim>\<open>closesocket\<close> gives one back, the others change nothing. Any handle
  may be handed out, 0 too: only \<^verbatim>\<open>INVALID_SOCKET\<close>, here \<open>None\<close>, is none.
\<close>

definition handles_documented :: "'w SocketApi \<Rightarrow> ('w \<Rightarrow> handle set) \<Rightarrow> bool" where
  "handles_documented api held \<longleftrightarrow>
     (\<forall>w w1. open_socket api w = (None, w1) \<longrightarrow> held w1 = held w) \<and>
     (\<forall>w s w1. open_socket api w = (Some s, w1) \<longrightarrow> s \<notin> held w \<and> held w1 = insert s (held w)) \<and>
     (\<forall>l w w1. accept_from api l w = (None, w1) \<longrightarrow> held w1 = held w) \<and>
     (\<forall>l w s w1. accept_from api l w = (Some s, w1) \<longrightarrow> s \<notin> held w \<and> held w1 = insert s (held w)) \<and>
     (\<forall>s a p w. held (snd (connect_to api s a p w)) = held w) \<and>
     (\<forall>s w. held (set_reuse api s w) = held w) \<and>
     (\<forall>s a p w. held (snd (bind_to api s a p w)) = held w) \<and>
     (\<forall>s n w. held (snd (listen_on api s n w)) = held w) \<and>
     (\<forall>s w. held (close_socket api s w) = held w - {s})"

lemma handlesD:
  assumes "handles_documented api held"
  shows "open_socket api w = (None, w1) \<Longrightarrow> held w1 = held w"
    and "open_socket api w = (Some s, w1) \<Longrightarrow> s \<notin> held w \<and> held w1 = insert s (held w)"
    and "accept_from api l w = (None, w1) \<Longrightarrow> held w1 = held w"
    and "accept_from api l w = (Some s, w1) \<Longrightarrow> s \<notin> held w \<and> held w1 = insert s (held w)"
    and "connect_to api s a p w = (ok, w1) \<Longrightarrow> held w1 = held w"
    and "held (set_reuse api s w) = held w"
    and "bind_to api s a p w = (ok, w1) \<Longrightarrow> held w1 = held w"
    and "listen_on api s n w = (ok, w1) \<Longrightarrow> held w1 = held w"
    and "held (close_socket api s w) = held w - {s}"
proof -
  note d = assms [unfolded handles_documented_def]
  show "open_socket api w = (None, w1) \<Longrightarrow> held w1 = held w" by (rule d [THEN conjunct1, rule_format])
  show "open_socket api w = (Some s, w1) \<Longrightarrow> s \<notin> held w \<and> held w1 = insert s (held w)"
    by (rule d [THEN conjunct2, THEN conjunct1, rule_format])
  show "accept_from api l w = (None, w1) \<Longrightarrow> held w1 = held w" by (rule d [THEN conjunct2, THEN conjunct2, THEN conjunct1, rule_format])
  show "accept_from api l w = (Some s, w1) \<Longrightarrow> s \<notin> held w \<and> held w1 = insert s (held w)"
    by (rule d [THEN conjunct2, THEN conjunct2, THEN conjunct2, THEN conjunct1, rule_format])
  have "held (snd (connect_to api s a p w)) = held w" "held (snd (bind_to api s a p w)) = held w"
    "held (snd (listen_on api s n w)) = held w" using d by simp_all
  then show "connect_to api s a p w = (ok, w1) \<Longrightarrow> held w1 = held w"
    "bind_to api s a p w = (ok, w1) \<Longrightarrow> held w1 = held w"
    "listen_on api s n w = (ok, w1) \<Longrightarrow> held w1 = held w" by simp_all
  show "held (set_reuse api s w) = held w" "held (close_socket api s w) = held w - {s}" using d by simp_all
qed

text \<open>C30: no handle is lost when a connection, a listening socket or an accepted connection cannot be
  had: a failed \<^verbatim>\<open>connect\<close>, \<^verbatim>\<open>listen\<close> or \<^verbatim>\<open>accept\<close> leaves the process with the handles it had, and
  a successful one with exactly one new handle, the one in the channel or the listener. The
  destructor of the channel or the listener then gives that handle back, so that the process holds
  what it held before; except that the code takes 0, a handle Winsock may hand out, for "no socket"
  and never closes it.\<close>

theorem no_handle_lost:
  assumes "handles_documented api held"
  shows "(case channel_connect api host port w of
       (None, w1) \<Rightarrow> held w1 = held w
     | (Some ch, w1) \<Rightarrow> socket ch \<notin> held w \<and> held w1 = insert (socket ch) (held w) \<and>
         held (snd (channel_done api ch w1)) = (if socket ch \<noteq> 0 then held w else insert 0 (held w))) \<and>
     (case listener_listen api l port w of
       (Inl e, l1, w1) \<Rightarrow> l1 = l \<and> held w1 = held w
     | (Inr p, l1, w1) \<Rightarrow> listener l1 \<notin> held w \<and> held w1 = insert (listener l1) (held w) \<and>
         (port \<noteq> 0 \<longrightarrow> p = port) \<and>
         held (snd (listener_done api l1 w1)) = (if listener l1 \<noteq> 0 then held w else insert 0 (held w))) \<and>
     (case listener_accept api l w of
       (None, w1) \<Rightarrow> held w1 = held w
     | (Some ch, w1) \<Rightarrow> socket ch \<notin> held w \<and> held w1 = insert (socket ch) (held w) \<and>
         held (snd (channel_done api ch w1)) = (if socket ch \<noteq> 0 then held w else insert 0 (held w)))"
proof (intro conjI)
  note documented = handlesD [OF assms]
  show "case channel_connect api host port w of
       (None, w1) \<Rightarrow> held w1 = held w
     | (Some ch, w1) \<Rightarrow> socket ch \<notin> held w \<and> held w1 = insert (socket ch) (held w) \<and>
         held (snd (channel_done api ch w1)) = (if socket ch \<noteq> 0 then held w else insert 0 (held w))"
    by (auto simp: channel_connect_def channel_done_def channel_close_def Let_def documented(9)
        dest!: documented(1,2,5) split: prod.splits option.splits bool.splits)
  show "case listener_listen api l port w of
       (Inl e, l1, w1) \<Rightarrow> l1 = l \<and> held w1 = held w
     | (Inr p, l1, w1) \<Rightarrow> listener l1 \<notin> held w \<and> held w1 = insert (listener l1) (held w) \<and>
         (port \<noteq> 0 \<longrightarrow> p = port) \<and>
         held (snd (listener_done api l1 w1)) = (if listener l1 \<noteq> 0 then held w else insert 0 (held w))"
    by (auto simp: listener_listen_def listener_done_def documented(6,9)
        dest!: documented(1,2,7,8) split: prod.splits option.splits bool.splits sum.splits)
  show "case listener_accept api l w of
       (None, w1) \<Rightarrow> held w1 = held w
     | (Some ch, w1) \<Rightarrow> socket ch \<notin> held w \<and> held w1 = insert (socket ch) (held w) \<and>
         held (snd (channel_done api ch w1)) = (if socket ch \<noteq> 0 then held w else insert 0 (held w))"
    by (auto simp: listener_accept_def channel_done_def channel_close_def documented(9)
        dest!: documented(3,4) split: prod.splits option.splits)
qed

text \<open>A second successful \<^verbatim>\<open>listen\<close> forgets the first socket: it stays held, and nothing closes it.\<close>

lemma second_listen_leaks:
  assumes "handles_documented api held"
    and "listener_listen api l port w = (Inr p, l1, w1)" "listener_listen api l1 port1 w1 = (Inr p1, l2, w2)"
    and "listener_done api l2 w2 = (l3, w3)"
  shows "listener l1 \<in> held w3 \<and> listener l3 = 0"
proof -
  note documented = handlesD [OF assms(1)]
  have one: "s \<notin> held v \<and> held v1 = insert s (held v)"
    if "listener_listen api k q v = (Inr x, k1, v1)" "s = listener k1" for k q v x k1 v1 s
    using that
    by (auto simp: listener_listen_def documented(6,9)
        dest!: documented(1,2,7,8) split: prod.splits option.splits bool.splits)
  from one [OF assms(2) refl] one [OF assms(3) refl] assms(4) show ?thesis
    by (auto simp: listener_done_def documented(9) split: if_splits)
qed

text \<open>An operating system that hands out the least unused handles, for examples.\<close>

definition counting_api :: "(handle set \<times> handle) SocketApi" where
  "counting_api =
     (let fresh = (\<lambda>(held, k). if k \<notin> held then (Some k, (insert k held, k + 1)) else (None, (held, k))) in
      \<lparr>open_socket = fresh, parse_ipv4 = (\<lambda>_. None), connect_to = (\<lambda>s a p w. (a \<noteq> 0, w)),
       set_reuse = (\<lambda>s w. w), bind_to = (\<lambda>s a p w. (True, w)), listen_on = (\<lambda>s n w. (True, w)),
       bound_port = (\<lambda>s w. 7000), accept_from = (\<lambda>l. fresh), close_socket = (\<lambda>s (held, k). (held - {s}, k))\<rparr>)"

lemma counting_documented: "handles_documented counting_api fst"
  by (auto simp: handles_documented_def counting_api_def Let_def split: if_splits)

theorem no_handle_lost_witness:
  "(\<exists>w1. channel_connect counting_api ''localhost'' 7000 ({4}, 5) = (None, w1) \<and> fst w1 = {4}) \<and>
   (\<exists>ch w1. listener_accept counting_api \<lparr>listener = 4\<rparr> ({4}, 5) = (Some ch, w1) \<and>
      fst (snd (channel_done counting_api ch w1)) = {4}) \<and>
   (\<exists>ch w1. listener_accept counting_api \<lparr>listener = 4\<rparr> ({4}, 0) = (Some ch, w1) \<and>
      fst (snd (channel_done counting_api ch w1)) = {0, 4})"
  using no_handle_lost [OF counting_documented, where host = "''localhost''" and port = 7000 and w = "({4}, 5)"
      and l = "\<lparr>listener = 4\<rparr>"]
    no_handle_lost [OF counting_documented, where host = "''localhost''" and port = 7000 and w = "({4}, 0)"
      and l = "\<lparr>listener = 4\<rparr>"]
  by (auto simp: channel_connect_def listener_accept_def counting_api_def Let_def)

end
