(* ===== verification/Worker.thy ===== *)
theory Worker
  imports Coordinator_Properties Listener
begin

text \<open>
  The worker process (\<^verbatim>\<open>worker_main.cpp\<close>) behind its command line: registration, one published
  candidate, and the loop that keeps the connection open until SHUTDOWN or an error; and its
  composition with a connection thread of the coordinator.

  What it prints is the number of ERROR frames it reports; its exit code tells a refused
  connection. The wait between registering and publishing has no effect on what is sent.
\<close>

definition worker_scenario :: "string \<Rightarrow> string \<Rightarrow> string" where
  "worker_scenario scenario mode =
     (let scenario1 = (if scenario = [] then mode else scenario) in
      if scenario1 = [] then ''A'' else scenario1)"

definition worker_register ::
  "'w SocketIo \<Rightarrow> TcpChannel \<Rightarrow> 64 word \<Rightarrow> string \<Rightarrow> 'w \<Rightarrow> unit res \<times> 'w"
where
  "worker_register io ch boot name w =
     send_frame io ch REGISTER (put_u64 boot @ put_u64 boot @ put_string name) 0 w"

definition worker_publish ::
  "'w SocketIo \<Rightarrow> TcpChannel \<Rightarrow> 64 word \<Rightarrow> string \<Rightarrow> 'w \<Rightarrow> unit res \<times> 'w"
where
  "worker_publish io ch boot scenario w =
     send_frame io ch PUBLISH_RESOURCE
       (encode_candidate_record (make_scenario_candidate boot scenario)) 0 w"

partial_function (option) worker_loop :: "'w SocketIo \<Rightarrow> TcpChannel \<Rightarrow> nat \<Rightarrow> 'w \<Rightarrow> (nat \<times> 'w) option" where
  "worker_loop io ch errors w =
     (case recv_frame io ch w of
        (Inl e, w1) \<Rightarrow> Some (errors, w1)
      | (Inr (t, payload), w1) \<Rightarrow>
          if t = SHUTDOWN then Some (errors, w1)
          else worker_loop io ch (if t = ERROR then errors + 1 else errors) w1)"

text \<open>
  \<^verbatim>\<open>main\<close> after the command line: the exit code and the number of reported errors. A failed send
  is not caught: the process ends with the exception (\<open>Inl\<close>).
\<close>

definition worker_main ::
  "'w SocketApi \<Rightarrow> 'w SocketIo \<Rightarrow> 16 word \<Rightarrow> string \<Rightarrow> 64 word \<Rightarrow> string \<Rightarrow> string \<Rightarrow> 'w
     \<Rightarrow> ((nat \<times> nat) res \<times> 'w) option"
where
  "worker_main api io port name boot mode scenario w =
     (case channel_connect api ''127.0.0.1'' port w of
        (None, w1) \<Rightarrow> Some (Inr (1, 0), w1)
      | (Some ch, w1) \<Rightarrow>
          (case worker_register io ch boot name w1 of
             (Inl e, w2) \<Rightarrow> Some (Inl e, w2)
           | (Inr _, w2) \<Rightarrow>
               (case worker_publish io ch boot (worker_scenario scenario mode) w2 of
                  (Inl e, w3) \<Rightarrow> Some (Inl e, w3)
                | (Inr _, w3) \<Rightarrow>
                    (case worker_loop io ch 0 w3 of
                       None \<Rightarrow> None
                     | Some (errors, w4) \<Rightarrow> Some (Inr (0, errors), w4)))))"

section \<open>What a worker sends\<close>

lemma length_digits_of: "n < 10 ^ Suc k \<Longrightarrow> length (digits_of n) \<le> Suc k"
proof (induction k arbitrary: n)
  case 0
  then show ?case by (subst digits_of.simps) simp
next
  case (Suc k)
  then have "n div 10 < 10 ^ Suc k" by (simp add: less_mult_imp_div_less)
  from Suc.IH [OF this] show ?case by (subst digits_of.simps) simp
qed

lemma length_show_u64: "length (show_u64 v) \<le> 20"
proof -
  have "unat v < 2 ^ 64" using unsigned_less [of v] by simp
  then have "unat v < 10 ^ Suc 19" by simp
  from length_digits_of [OF this] show ?thesis by (simp add: show_u64_def)
qed

lemma scenario_fits: "candidate_fits (make_scenario_candidate boot scenario)"
  using length_show_u64 [of boot]
  by (simp add: candidate_fits_def scenario_defs list_ok_def binding_fits_def string_ok_def
      kMaxString_def kMaxRecords_def)

lemma scenario_length: "length (encode_candidate_record (make_scenario_candidate boot scenario)) \<le> 2 ^ 24"
  using length_show_u64 [of boot]
  by (simp add: encode_candidate_record_def enc_binding_def length_put_list scenario_defs)

lemma scenario_checked:
  "boot \<noteq> 0 \<Longrightarrow> boot + 100000 \<noteq> 0 \<Longrightarrow> check_candidate (make_scenario_candidate boot scenario) = Inr ()"
  by (simp add: check_candidate_def is_valid_def make_scenario_candidate_def Let_def default_Candidate_def
      add.commute)

text \<open>The worker's loop ends with its stream.\<close>

lemma worker_loop_ends:
  assumes "delivers io pending" "socket ch \<noteq> 0"
  shows "\<exists>r. worker_loop io ch errors w = Some r"
proof (induction "length (pending w)" arbitrary: errors w rule: less_induct)
  case less
  obtain x w1 where x: "recv_frame io ch w = (x, w1)" by (cases "recv_frame io ch w")
  show ?case
  proof (cases x)
    case (Inl e)
    with x show ?thesis by (subst worker_loop.simps) simp
  next
    case (Inr y)
    obtain t payload where y: "y = (t, payload)" by (cases y)
    from recv_frame_decodes [OF assms, of w] x Inr y obtain rest where
      "decode_frame (pending w) = Inr ((t, payload), rest)" "pending w1 = rest"
      by (cases "decode_frame (pending w)") auto
    then have "length (pending w1) < length (pending w)" using decode_frame_consumes by fastforce
    from less [OF this] show ?thesis by (subst worker_loop.simps) (simp add: x Inr y)
  qed
qed

section \<open>Worker and coordinator together\<close>

text \<open>One turn on a stream that starts with a frame whose handler keeps the connection.\<close>

lemma turn_on_frame:
  assumes "delivers (host_socket host) pending" "quiet host pending" "channel_valid (con_channel con)" "running ctx"
    and "encode_frame t payload 0 = Inr bs" "pending w = bs @ rest"
    and "\<And>w1. \<exists>r w2. handle_frame host t payload con ctx w1 = (r, con1, ctx1, w2) \<and> r \<noteq> Inr True"
    and "con_channel con1 = con_channel con"
  shows "\<exists>w3. serve_step host con ctx w = (Some con1, ctx1, w3) \<and> pending w3 = rest"
proof -
  have "socket (con_channel con) \<noteq> 0" using assms(3) by (simp add: channel_valid_def)
  from recv_frame_decodes [OF assms(1) this, of w] decode_frame_round [OF assms(5), of rest] assms(6)
  obtain w1 where w1: "recv_frame (host_socket host) (con_channel con) w = (Inr (t, payload), w1)" "pending w1 = rest"
    by (cases "recv_frame (host_socket host) (con_channel con) w") simp
  obtain r w2 where h: "handle_frame host t payload con ctx w1 = (r, con1, ctx1, w2)" "r \<noteq> Inr True"
    using assms(7) by blast
  have "pending w2 = rest" using handle_frame_quiet [OF assms(2) h(1)] w1(2) by simp
  with w1 h assms(3,4,8) quiet_reply(3) [OF assms(2)] show ?thesis
    by (auto simp: serve_step_def split: sum.splits bool.splits)
qed

lemma register_handled:
  assumes "string_ok name"
  shows "\<exists>r w2. handle_frame host REGISTER (put_u64 boot @ put_u64 boot @ put_string name) con ctx w =
     (r, con\<lparr>con_boot := StrongId boot, hasBoot := True\<rparr>,
      ctx\<lparr>ctx_workers := (ctx_workers ctx)(name \<mapsto> StrongId boot)\<rparr>, w2) \<and> r \<noteq> Inr True"
proof -
  have "rd_run (rd_bind get_u64 (\<lambda>i. rd_bind get_u64 (\<lambda>b. rd_bind get_string (\<lambda>n. rd_return (b, n)))))
      (put_u64 boot @ put_u64 boot @ put_string name) = Inr (boot, name)"
    using assms by (simp add: rd_run_def codec_simps str.bind_enc [where rest = "[]", simplified])
  moreover obtain r w2 where
    "reply host (con\<lparr>con_boot := StrongId boot, hasBoot := True\<rparr>) REGISTER (put_u8 1) w = (r, w2)"
    by (cases "reply host (con\<lparr>con_boot := StrongId boot, hasBoot := True\<rparr>) REGISTER (put_u8 1) w")
  ultimately have "handle_frame host REGISTER (put_u64 boot @ put_u64 boot @ put_string name) con ctx w =
      (map_sum id (\<lambda>_. False) r, con\<lparr>con_boot := StrongId boot, hasBoot := True\<rparr>,
       ctx\<lparr>ctx_workers := (ctx_workers ctx)(name \<mapsto> StrongId boot)\<rparr>, w2)"
    by (simp add: handle_frame_def handle_register_def)
  then show ?thesis by (intro exI [of _ "map_sum id (\<lambda>_. False) r"] exI [of _ w2]) (cases r; simp)
qed

lemma publish_handled:
  assumes "candidate_fits c" "ingest_candidate c (ctx_sched ctx) = (Inr (), s1)"
  shows "\<exists>r w2. handle_frame host PUBLISH_RESOURCE (encode_candidate_record c) con ctx w =
     (r, con, ctx\<lparr>ctx_sched := s1\<rparr>, w2) \<and> r \<noteq> Inr True"
proof -
  have "rd_run decode_candidate_record (encode_candidate_record c) = Inr c"
    using candidate.dec_enc [OF assms(1), of "[]"] by (simp add: rd_run_def)
  with assms(2) show ?thesis
    by (auto simp: handle_frame_def handle_publish_def split: prod.split sum.split)
qed

lemma frame_sent:
  assumes "accepts out sent" "socket ch \<noteq> 0" "length payload \<le> 2 ^ 24"
  shows "\<exists>bs s1. encode_frame t payload 0 = Inr bs \<and> send_frame out ch t payload 0 s = (Inr (), s1) \<and>
     sent s1 = sent s @ bs"
proof -
  obtain bs where bs: "encode_frame t payload 0 = Inr bs" using assms(3) by (simp add: encode_frame_eq)
  obtain s1 where "send_loop out bs s = (Inr (), s1)" "sent s1 = sent s @ bs"
    using send_loop_accepts [OF assms(1)] by blast
  with bs assms(2) show ?thesis by (simp add: send_frame_def send_all_def)
qed

lemma ingest_scenario:
  assumes "sched_ok st" "boot \<noteq> 0" "boot + 100000 \<noteq> 0" "candidate_of (StrongId boot) st = None"
    and "StrongId boot \<notin> set (fencedWorkers st)" "StrongId (100000 + boot) \<notin> set (fencedSources st)"
  shows "\<exists>st1. ingest_candidate (make_scenario_candidate boot scenario) st = (Inr (), st1) \<and>
     candidate_of (StrongId boot) st1 = Some (make_scenario_candidate boot scenario)"
proof -
  let ?c = "make_scenario_candidate boot scenario"
  have "candidateId ?c = StrongId boot" "workerBootId ?c = StrongId boot" "sourceBootId ?c = StrongId (100000 + boot)"
    by (simp_all add: make_scenario_candidate_def Let_def)
  with assms scenario_checked [OF assms(2,3), of scenario] show ?thesis
    by (simp add: ingest_candidate_def candidate_of_def omap_find_emplace sched_ok_def)
qed

text \<open>The boot of a worker that is given none on its command line is 0, and no scheduler takes its
  candidate.\<close>

lemma boot_zero_refused: "ingest_candidate (make_scenario_candidate 0 scenario) st =
   (throw InvalidArgument ''candidate id missing'', st)"
  by (simp add: ingest_candidate_def check_candidate_def is_valid_def make_scenario_candidate_def Let_def)

text \<open>C20: what a worker publishes reaches the scheduler. Over a connected socket that takes some of the
  bytes at every call, a worker whose name has at most 2^20 bytes sends its REGISTER and
  PUBLISH_RESOURCE frames without an error. When they come next at a thread of a running coordinator in a well-formed state,
  on a connected socket that delivers its stream however cut (sending and saving consume nothing of
  it), that thread needs two turns to remember the worker's boot and to hold exactly the worker's
  candidate. The coordinator must not know a candidate of that id yet nor have fenced the boot or
  the source boot, and neither the boot nor the source boot \<open>boot + 100000\<close> may be 0 (a worker
  started without a boot number has boot 0).\<close>

theorem publication_arrives:
  assumes "accepts out sent" "socket ch \<noteq> 0" "string_ok name" "boot \<noteq> 0" "boot + 100000 \<noteq> 0"
    and "delivers (host_socket host) pending" "quiet host pending" "channel_valid (con_channel con)" "running ctx"
    and "sched_ok (ctx_sched ctx)" "candidate_of (StrongId boot) (ctx_sched ctx) = None"
    and "StrongId boot \<notin> set (fencedWorkers (ctx_sched ctx))"
    and "StrongId (100000 + boot) \<notin> set (fencedSources (ctx_sched ctx))"
  shows "\<exists>s1 s2 bs. worker_register out ch boot name s = (Inr (), s1) \<and>
     worker_publish out ch boot scenario s1 = (Inr (), s2) \<and> sent s2 = sent s @ bs \<and>
     (\<forall>w rest. pending w = bs @ rest \<longrightarrow>
        (\<exists>con2 ctx1 ctx2 w1 w2. serve_step host con ctx w = (Some con2, ctx1, w1) \<and>
           serve_step host con2 ctx1 w1 = (Some con2, ctx2, w2) \<and> pending w2 = rest \<and>
           hasBoot con2 \<and> con_boot con2 = StrongId boot \<and>
           candidate_of (StrongId boot) (ctx_sched ctx2) = Some (make_scenario_candidate boot scenario)))"
proof -
  let ?c = "make_scenario_candidate boot scenario"
  let ?con = "con\<lparr>con_boot := StrongId boot, hasBoot := True\<rparr>"
  let ?ctx = "ctx\<lparr>ctx_workers := (ctx_workers ctx)(name \<mapsto> StrongId boot)\<rparr>"
  have "length (put_u64 boot @ put_u64 boot @ put_string name) \<le> 2 ^ 24"
    using assms(3) by (simp add: string_ok_def kMaxString_def)
  from frame_sent [OF assms(1,2) this] obtain b1 s1 where
    r: "encode_frame REGISTER (put_u64 boot @ put_u64 boot @ put_string name) 0 = Inr b1"
    "worker_register out ch boot name s = (Inr (), s1)" "sent s1 = sent s @ b1"
    unfolding worker_register_def by blast
  from frame_sent [OF assms(1,2) scenario_length] obtain b2 s2 where
    p: "encode_frame PUBLISH_RESOURCE (encode_candidate_record ?c) 0 = Inr b2"
    "worker_publish out ch boot scenario s1 = (Inr (), s2)" "sent s2 = sent s1 @ b2"
    unfolding worker_publish_def by blast
  obtain st1 where st1: "ingest_candidate ?c (ctx_sched ?ctx) = (Inr (), st1)"
    "candidate_of (StrongId boot) st1 = Some ?c"
    using ingest_scenario [OF assms(10,4,5,11-13), of scenario] by auto
  have "\<exists>w1 w2. serve_step host con ctx w = (Some ?con, ?ctx, w1) \<and>
      serve_step host ?con ?ctx w1 = (Some ?con, ?ctx\<lparr>ctx_sched := st1\<rparr>, w2) \<and> pending w2 = rest"
    if w: "pending w = (b1 @ b2) @ rest" for w rest
  proof -
    have "pending w = b1 @ b2 @ rest" using w by simp
    from turn_on_frame [OF assms(6-9) r(1) this register_handled [OF assms(3)]] obtain w1 where
      w1: "serve_step host con ctx w = (Some ?con, ?ctx, w1)" "pending w1 = b2 @ rest" by auto
    moreover have "\<exists>w2. serve_step host ?con ?ctx w1 = (Some ?con, ?ctx\<lparr>ctx_sched := st1\<rparr>, w2) \<and> pending w2 = rest"
      using assms(8,9) by (intro turn_on_frame [OF assms(6,7) _ _ p(1) w1(2) publish_handled [OF scenario_fits st1(1)]]) simp_all
    ultimately show ?thesis by blast
  qed
  note turns = this
  show ?thesis
  proof (rule exI [of _ s1], rule exI [of _ s2], rule exI [of _ "b1 @ b2"], intro conjI allI impI)
    show "worker_register out ch boot name s = (Inr (), s1)" by (rule r(2))
    show "worker_publish out ch boot scenario s1 = (Inr (), s2)" by (rule p(2))
    show "sent s2 = sent s @ (b1 @ b2)" using r(3) p(3) by simp
    fix w rest assume "pending w = (b1 @ b2) @ rest"
    from turns [OF this] st1(2) show "\<exists>con2 ctx1 ctx2 w1 w2. serve_step host con ctx w = (Some con2, ctx1, w1) \<and>
           serve_step host con2 ctx1 w1 = (Some con2, ctx2, w2) \<and> pending w2 = rest \<and>
           hasBoot con2 \<and> con_boot con2 = StrongId boot \<and> candidate_of (StrongId boot) (ctx_sched ctx2) = Some ?c"
      by fastforce
  qed
qed

theorem publication_arrives_witness:
  "\<exists>s1 s2 con2 ctx1 ctx2 w1 w2. worker_register pipe demo_channel 1 ''w1'' ([], []) = (Inr (), s1) \<and>
     worker_publish pipe demo_channel 1 ''A'' s1 = (Inr (), s2) \<and>
     serve_step demo_host demo_connection (new_coordinator ''f'') (demo_world (fst s2)) = (Some con2, ctx1, w1) \<and>
     serve_step demo_host con2 ctx1 w1 = (Some con2, ctx2, w2) \<and>
     candidate_of (StrongId 1) (ctx_sched ctx2) = Some sampleA"
proof -
  let ?ctx = "new_coordinator ''f''"
  have known: "running ?ctx" "candidate_of (StrongId 1) (ctx_sched ?ctx) = None"
    "StrongId 1 \<notin> set (fencedWorkers (ctx_sched ?ctx))" "StrongId (100000 + 1) \<notin> set (fencedSources (ctx_sched ?ctx))"
    by (simp_all add: new_coordinator_def new_Scheduler_def candidate_of_def)
  have fits: "string_ok ''w1''" "channel_valid (con_channel demo_connection)" "socket demo_channel \<noteq> 0"
    "(1 :: 64 word) \<noteq> 0" "(1 :: 64 word) + 100000 \<noteq> 0"
    by (simp_all add: string_ok_def kMaxString_def channel_valid_def)
  obtain s1 s2 bs where bs: "worker_register pipe demo_channel 1 ''w1'' ([], []) = (Inr (), s1)"
    "worker_publish pipe demo_channel 1 ''A'' s1 = (Inr (), s2)" "fst s2 = fst ([] :: byte list, [] :: nat list) @ bs"
    and turns: "\<And>w rest. incoming w = bs @ rest \<Longrightarrow>
        \<exists>con2 ctx1 ctx2 w1 w2. serve_step demo_host demo_connection ?ctx w = (Some con2, ctx1, w1) \<and>
           serve_step demo_host con2 ctx1 w1 = (Some con2, ctx2, w2) \<and> incoming w2 = rest \<and>
           hasBoot con2 \<and> con_boot con2 = StrongId 1 \<and>
           candidate_of (StrongId 1) (ctx_sched ctx2) = Some (make_scenario_candidate 1 ''A'')"
    using publication_arrives [OF pipe_accepts fits(3,1,4,5) demo_delivers demo_quiet fits(2) known(1)
      new_coordinator_ok(1) known(2-4), of "([], [])" "''A''"] by blast
  have "incoming (demo_world (fst s2)) = bs @ []" using bs(3) by simp
  from turns [OF this] bs(1,2) show ?thesis by blast
qed

end
