(* ===== verification/Cuda_Worker.thy ===== *)
theory Cuda_Worker
  imports Worker
begin

text \<open>
  The worker process that owns a CUDA device (\<^verbatim>\<open>cuda/src/cuda_worker_main.cpp\<close>): the candidate it
  builds from what the device reports, its registration and publication with the coordinator, and
  the loop that executes directives from the control channel.

  The device is a parameter (\<open>FabricCuda\<close>, the four functions of \<^verbatim>\<open>fabric_cuda.h\<close>): nothing is
  assumed of what it returns. Its interface is one of C functions, which return; that the exception
  of the host's allocator can leave \<^verbatim>\<open>fs_cuda_exec\<close> is in \<open>Cuda_Device\<close>. A socket is reached through its channel. A \<^verbatim>\<open>FabricError\<close> that \<^verbatim>\<open>main\<close>
  does not catch ends the process (\<open>Inl\<close>).
\<close>

record CudaDeviceInfo =
  cu_name :: string
  cu_major :: "32 word"
  cu_minor :: "32 word"
  totalBytes :: "64 word"
  freeBytes :: "64 word"
  present :: bool

record 'w FabricCuda =
  cuda_count :: "'w \<Rightarrow> int \<times> 'w"
  cuda_probe :: "'w \<Rightarrow> int \<times> CudaDeviceInfo \<times> 'w"
  cuda_memfree :: "64 word \<Rightarrow> 'w \<Rightarrow> 64 word \<times> 'w"
  cuda_exec :: "64 word \<Rightarrow> double \<Rightarrow> 'w \<Rightarrow> int \<times> double \<times> 'w"

text \<open>\<open>cuda_memfree\<close> and \<open>cuda_exec\<close> are given the value their out-parameter has before the call.\<close>

definition cuda_candidate :: "CudaDeviceInfo \<Rightarrow> 64 word \<Rightarrow> string \<Rightarrow> Candidate" where
  "cuda_candidate info boot mode =
     (let isB = (mode = ''B''); eight = push_bit 30 8 in
      default_Candidate
       \<lparr>candidateId := StrongId boot, candidateGeneration := StrongId 1,
        workerId := StrongId boot, workerBootId := StrongId boot,
        sourceId := StrongId (boot + 7000), sourceBootId := StrongId (boot + 9000),
        cand_provenance := Prov_Measured,
        bindings := [default_DeviceBinding
          \<lparr>deviceId := StrongId 1, deviceGeneration := StrongId 1,
           bnd_resourceId := StrongId 1, bnd_resourceGeneration := StrongId 1,
           nodeId := StrongId 1, nodeGeneration := StrongId 1,
           memoryDomainId := StrongId 1, memoryDomainGeneration := StrongId 1,
           nicId := StrongId 1, nicGeneration := StrongId 1,
           storageId := StrongId 1, storageGeneration := StrongId 1,
           cpuDomainId := StrongId 1, cpuDomainGeneration := StrongId 1,
           bnd_capability := Acc_Cuda, cudaCompatibility := cu_major info * 10 + cu_minor info,
           capabilityCurrent := True, bnd_capabilityGeneration := StrongId 1\<rparr>],
        capacity := default_CapacityEvidence
          \<lparr>cap_generation := StrongId 1, vramTotal := totalBytes info,
           vramAvailable := (if isB then (if freeBytes info > eight then eight else freeBytes info)
             else freeBytes info),
           hostMemoryAvailable := GiB 32, pinnedMemoryAvailable := GiB 1, cpuAvailable := 16,
           storageAvailable := GiB 64, nicBandwidthAvailable := GiB 4, contiguousMemory := True,
           cap_provenance := Prov_Measured\<rparr>,
        health := default_HealthEvidence
          \<lparr>hea_generation := StrongId 1, hea_ready := True, healthScore := d_one,
           hea_provenance := Prov_Measured\<rparr>,
        reservation := default_ReservationEvidence
          \<lparr>rsv_generation := StrongId 1, rsv_provenance := Prov_Reported\<rparr>,
        congestion := default_CongestionEvidence
          \<lparr>cgs_generation := StrongId 1, cgs_congestion := d_zero, residualBandwidth := d_one,
           cgs_provenance := Prov_Measured\<rparr>,
        locality := default_LocalityEvidence
          \<lparr>topologyGeneration := StrongId 1, numaDistance := (if isB then 2 else 0),
           pcieHops := (if isB then 3 else 1), loc_provenance := Prov_Derived\<rparr>,
        communication := default_CommunicationEvidence
          \<lparr>com_planGeneration := StrongId 1, com_provenance := Prov_Derived\<rparr>,
        residency := default_ResidencyEvidence
          \<lparr>residencyGeneration := StrongId 1, stateLocal := \<not> isB, modelResident := True,
           moveBytes := (if isB then MiB 512 else 0), rsd_provenance := Prov_Reported\<rparr>,
        cand_policyGeneration := StrongId 1\<rparr>)"

section \<open>Execution directives\<close>

text \<open>The three numbers of an EXECUTE payload; its tail is not looked at.\<close>

definition get_directive :: "(64 word \<times> 64 word \<times> 64 word) reader" where
  "get_directive =
     rd_bind get_u64 (\<lambda>plan. rd_bind get_u64 (\<lambda>authority. rd_bind get_u64 (\<lambda>alloc.
       rd_return (plan, authority, alloc))))"

definition execute_directive ::
  "'w FabricCuda \<Rightarrow> 'w SocketIo \<Rightarrow> TcpChannel \<Rightarrow> byte list \<Rightarrow> 'w \<Rightarrow> unit res \<times> 'w"
where
  "execute_directive cuda io ch payload w =
     (case rd_run get_directive payload of
        Inl e \<Rightarrow> (Inl e, w)
      | Inr (plan, authority, alloc) \<Rightarrow>
          (let (before, w1) = cuda_memfree cuda 0 w;
               (er, parity, w2) = cuda_exec cuda alloc d_zero w1;
               (after, w3) = cuda_memfree cuda 0 w2 in
           send_frame io ch EXECUTION_RESULT
             (put_u64 plan @ put_u64 authority @ put_double parity @ put_u64 before @ put_u64 after @
              put_u8 (if er = 0 then 1 else 0)) 0 w3))"

partial_function (option) control_loop ::
  "'w FabricCuda \<Rightarrow> 'w SocketIo \<Rightarrow> TcpChannel \<Rightarrow> 'w \<Rightarrow> (unit res \<times> 'w) option"
where
  "control_loop cuda io ch w =
     (case recv_frame io ch w of
        (Inl e, w1) \<Rightarrow> Some (Inr (), w1)
      | (Inr (t, payload), w1) \<Rightarrow>
          if t = EXECUTE then
            (case execute_directive cuda io ch payload w1 of
               (Inl e, w2) \<Rightarrow> Some (Inl e, w2)
             | (Inr _, w2) \<Rightarrow> control_loop cuda io ch w2)
          else if t = SHUTDOWN then Some (Inr (), w1)
          else control_loop cuda io ch w1)"

section \<open>The process\<close>

text \<open>Sending a frame and waiting for the next one: the type of the answer.\<close>

definition exchange ::
  "'w SocketIo \<Rightarrow> TcpChannel \<Rightarrow> MessageType \<Rightarrow> byte list \<Rightarrow> 'w \<Rightarrow> MessageType res \<times> 'w"
where
  "exchange io ch t payload w =
     (case send_frame io ch t payload 0 w of
        (Inl e, w1) \<Rightarrow> (Inl e, w1)
      | (Inr _, w1) \<Rightarrow>
          (case recv_frame io ch w1 of
             (Inl e, w2) \<Rightarrow> (Inl e, w2)
           | (Inr (answer, _), w2) \<Rightarrow> (Inr answer, w2)))"

text \<open>The exit code after the control channel was or was not reached.\<close>

definition serve_control ::
  "'w SocketApi \<Rightarrow> (TcpChannel \<Rightarrow> 'w SocketIo) \<Rightarrow> 'w FabricCuda \<Rightarrow> 16 word \<Rightarrow> 64 word \<Rightarrow> string \<Rightarrow> 'w
     \<Rightarrow> (nat res \<times> 'w) option"
where
  "serve_control api io cuda ctrlPort boot name w =
     (case channel_connect api ''127.0.0.1'' ctrlPort w of
        (None, w1) \<Rightarrow> Some (Inr 7, w1)
      | (Some ctrl, w1) \<Rightarrow>
          (case send_frame (io ctrl) ctrl REGISTER (put_u64 boot @ put_string name) 0 w1 of
             (Inl e, w2) \<Rightarrow> Some (Inl e, w2)
           | (Inr _, w2) \<Rightarrow>
               map_option (\<lambda>(r, w3). (map_sum id (\<lambda>_. 0) r, w3)) (control_loop cuda (io ctrl) ctrl w2)))"

definition cuda_worker_main ::
  "'w SocketApi \<Rightarrow> (TcpChannel \<Rightarrow> 'w SocketIo) \<Rightarrow> 'w FabricCuda \<Rightarrow> 16 word \<Rightarrow> 16 word \<Rightarrow> 64 word
     \<Rightarrow> string \<Rightarrow> string \<Rightarrow> 'w \<Rightarrow> (nat res \<times> 'w) option"
where
  "cuda_worker_main api io cuda coordPort ctrlPort boot name mode w =
     (let (n, w1) = cuda_count cuda w in
      if n < 1 then Some (Inr 2, w1) else
      let (er, info, w2) = cuda_probe cuda w1 in
      if er \<noteq> 0 \<or> \<not> present info then Some (Inr 3, w2) else
      case channel_connect api ''127.0.0.1'' coordPort w2 of
        (None, w3) \<Rightarrow> Some (Inr 4, w3)
      | (Some coord, w3) \<Rightarrow>
          (case exchange (io coord) coord REGISTER (put_u64 boot @ put_u64 boot @ put_string name) w3 of
             (Inl e, w4) \<Rightarrow> Some (Inl e, w4)
           | (Inr answer, w4) \<Rightarrow>
               if answer \<noteq> REGISTER then Some (Inr 5, w4)
               else (case exchange (io coord) coord PUBLISH_RESOURCE
                        (encode_candidate_record (cuda_candidate info boot mode)) w4 of
                    (Inl e, w5) \<Rightarrow> Some (Inl e, w5)
                  | (Inr answer', w5) \<Rightarrow>
                      if answer' = ERROR then Some (Inr 6, w5)
                      else serve_control api io cuda ctrlPort boot name w5)))"

section \<open>What the coordinator receives\<close>

lemma cuda_candidate_fits: "candidate_fits (cuda_candidate info boot mode)"
  by (simp add: candidate_fits_def cuda_candidate_def list_ok_def binding_fits_def string_ok_def
      scenario_defs kMaxString_def kMaxRecords_def)

text \<open>The device's candidate passes the coordinator's codec and checks, whatever the device reports.\<close>

lemma cuda_candidate_accepted:
  assumes "boot \<noteq> 0" "boot + 9000 \<noteq> 0"
  shows "rd_run decode_candidate_record (encode_candidate_record (cuda_candidate info boot mode)) =
       Inr (cuda_candidate info boot mode)"
    and "check_candidate (cuda_candidate info boot mode) = Inr ()"
proof -
  show "rd_run decode_candidate_record (encode_candidate_record (cuda_candidate info boot mode)) =
      Inr (cuda_candidate info boot mode)"
    using candidate.dec_enc [OF cuda_candidate_fits, of info boot mode "[]"] by (simp add: rd_run_def)
  show "check_candidate (cuda_candidate info boot mode) = Inr ()"
    using assms by (simp add: check_candidate_def is_valid_def cuda_candidate_def Let_def default_Candidate_def)
qed

text \<open>A directive is answered by a frame that names its plan and its authority.\<close>

lemma directive_round:
  "rd_run get_directive (put_u64 plan @ put_u64 authority @ put_u64 alloc @ rest) = Inr (plan, authority, alloc)"
  by (simp add: rd_run_def get_directive_def codec_simps rd_return_def)

lemma directive_answered:
  assumes "accepts io sent" "socket ch \<noteq> 0"
    and "rd_run get_directive payload = Inr (plan, authority, alloc)"
    and "\<And>v w. sent (snd (cuda_memfree cuda v w)) = sent w"
    and "\<And>b d w. sent (snd (snd (cuda_exec cuda b d w))) = sent w"
  shows "\<exists>w1 bs tail. execute_directive cuda io ch payload w = (Inr (), w1) \<and> sent w1 = sent w @ bs \<and>
     encode_frame EXECUTION_RESULT (put_u64 plan @ put_u64 authority @ tail) 0 = Inr bs"
proof -
  obtain before w1 where 1: "cuda_memfree cuda 0 w = (before, w1)" by (cases "cuda_memfree cuda 0 w")
  obtain er parity w2 where 2: "cuda_exec cuda alloc d_zero w1 = (er, parity, w2)"
    by (cases "cuda_exec cuda alloc d_zero w1")
  obtain after w3 where 3: "cuda_memfree cuda 0 w2 = (after, w3)" by (cases "cuda_memfree cuda 0 w2")
  let ?tail = "put_double parity @ put_u64 before @ put_u64 after @ put_u8 (if er = 0 then 1 else 0)"
  have "sent w3 = sent w"
    using assms(4) [of 0 w] assms(5) [of alloc d_zero w1] assms(4) [of 0 w2] 1 2 3 by simp
  moreover have "length (put_u64 plan @ put_u64 authority @ ?tail) \<le> 2 ^ 24" by simp
  from frame_sent [OF assms(1,2) this, of EXECUTION_RESULT w3] obtain bs w4 where
    "encode_frame EXECUTION_RESULT (put_u64 plan @ put_u64 authority @ ?tail) 0 = Inr bs"
    "send_frame io ch EXECUTION_RESULT (put_u64 plan @ put_u64 authority @ ?tail) 0 w3 = (Inr (), w4)"
    "sent w4 = sent w3 @ bs" by blast
  ultimately show ?thesis using 1 2 3 assms(3) by (auto simp: execute_directive_def)
qed

text \<open>
  The decoding of a directive is outside the handler that guards the receiving: a short EXECUTE
  payload ends the process with the exception, where the coordinator would answer with an error.
\<close>

lemma short_directive_ends:
  assumes "recv_frame io ch w = (Inr (EXECUTE, payload), w1)" "rd_run get_directive payload = Inl e"
  shows "control_loop cuda io ch w = Some (Inl e, w1)"
  using assms by (subst control_loop.simps) (simp add: execute_directive_def)

end
