(* ===== verification/Coordinator_Threads.thy ===== *)
theory Coordinator_Threads
  imports Coordinator_Properties Listener
begin

text \<open>
  The coordinator process as its threads run it (\<^verbatim>\<open>coordinator_main.cpp\<close>): the accept loop of
  \<^verbatim>\<open>main\<close> and one thread per connection, over the shared state \<open>Ctx\<close>. A step runs one thread up to
  the end of the next section it executes under a mutex: the scheduler's, the broker's, the one of
  the veto's set. So a handler of SUBMIT_WORKLOAD, COMMIT_REQUEST or EXECUTION_HANDOFF takes several
  steps, the hard filter one per candidate, as each asks the veto, and the fencing of a lost worker
  four, and other threads run in between. Work of a thread on its own data, and its blocking reads
  and writes, belong to the step they precede or follow. HELLO reads its two counters in two steps,
  SAVE writes its file in one (\<open>Save_Race\<close> cuts it);
  the reason a veto gives is that of the moment it refused, as the set never shrinks.
\<close>

section \<open>Threads\<close>

text \<open>
  \<open>Filtering\<close> holds the candidates of the snapshot still to be filtered and those already filtered,
  each with the fenced set its veto saw.
\<close>

datatype thread =
    Checking Connection
  | Receiving Connection
  | Filtering Connection SchedulingRequest "Candidate list" "(Candidate \<times> WorkerBootId list) list"
  | Committing Connection PlacementPlanId "ResourceClaim list"
  | Committed Connection PlacementPlanId "ResourceClaim list" ResourceCommitResult
  | Authorizing Connection PlacementPlanId PlacementPlan
  | Authorized Connection PlacementPlanId ExecutionHandoff
  | Dropping WorkerBootId
  | Listing WorkerBootId
  | Asking
  | Bumping CoordinatorEpoch
  | Finished
  | Greeting Connection CoordinatorEpoch

text \<open>What the loop body does with an exception of its handler.\<close>

definition thread_fails :: "'w Host \<Rightarrow> Connection \<Rightarrow> FabricError \<Rightarrow> 'w \<Rightarrow> thread \<times> 'w" where
  "thread_fails host con e w =
     (if channel_valid (con_channel con) then
        (Checking con, send_error host con (fe_code e) (fe_what e) w)
      else if hasBoot con then (Dropping (con_boot con), w)
      else (Checking con, w))"

definition thread_replies ::
  "'w Host \<Rightarrow> Connection \<Rightarrow> MessageType \<Rightarrow> byte list \<Rightarrow> 'w \<Rightarrow> thread \<times> 'w"
where
  "thread_replies host con t payload w =
     (case reply host con t payload w of
        (Inl e, w1) \<Rightarrow> thread_fails host con e w1
      | (Inr _, w1) \<Rightarrow> (Checking con, w1))"

definition answer_commit :: "'w Host \<Rightarrow> Connection \<Rightarrow> ResourceCommitResult \<Rightarrow> 'w \<Rightarrow> thread \<times> 'w" where
  "answer_commit host con cr w =
     thread_replies host con COMMIT_RESULT
       (put_u8 (if succeeded cr then 1 else 0) @ put_id (rcr_resourceGeneration cr) @
        put_string (commitmentToken cr) @ put_string (failureReason cr)) w"

definition answer_handoff :: "'w Host \<Rightarrow> Connection \<Rightarrow> ExecutionHandoff \<Rightarrow> 'w \<Rightarrow> thread \<times> 'w" where
  "answer_handoff host con h w =
     thread_replies host con EXECUTION_RESULT
       (put_u8 (if authorized h then 1 else 0) @ put_id (hnd_authorityGeneration h)) w"

section \<open>A message\<close>

text \<open>The first section of each handler, after the frame was received.\<close>

definition begin_submit :: "'w Host \<Rightarrow> byte list \<Rightarrow> Connection \<Rightarrow> Ctx \<Rightarrow> 'w \<Rightarrow> thread \<times> Ctx \<times> 'w" where
  "begin_submit host payload con ctx w =
     (case rd_run dec_request_r payload of
        Inl e \<Rightarrow> (let (t, w1) = thread_fails host con e w in (t, ctx, w1))
      | Inr r \<Rightarrow>
          (case validate (demand r) of
             Inl e \<Rightarrow> (let (t, w1) = thread_fails host con e w in (t, ctx, w1))
           | Inr _ \<Rightarrow> (Filtering con r (schedule_begin (ctx_sched ctx)) [], ctx, w)))"

definition begin_commit :: "'w Host \<Rightarrow> byte list \<Rightarrow> Connection \<Rightarrow> Ctx \<Rightarrow> 'w \<Rightarrow> thread \<times> Ctx \<times> 'w" where
  "begin_commit host payload con ctx w =
     (case rd_run get_id payload of
        Inl e \<Rightarrow> (let (t, w1) = thread_fails host con e w in (t, ctx, w1))
      | Inr pid \<Rightarrow>
          (case commit_begin pid (ctx_sched ctx) of
             (Inl e, s1) \<Rightarrow> (let (t, w1) = thread_fails host con e w in (t, ctx\<lparr>ctx_sched := s1\<rparr>, w1))
           | (Inr (Return cr), s1) \<Rightarrow>
               (let (t, w1) = answer_commit host con cr w in (t, ctx\<lparr>ctx_sched := s1\<rparr>, w1))
           | (Inr (Proceed cs), s1) \<Rightarrow> (Committing con pid cs, ctx\<lparr>ctx_sched := s1\<rparr>, w)))"

definition begin_handoff :: "'w Host \<Rightarrow> byte list \<Rightarrow> Connection \<Rightarrow> Ctx \<Rightarrow> 'w \<Rightarrow> thread \<times> Ctx \<times> 'w" where
  "begin_handoff host payload con ctx w =
     (case rd_run get_id payload of
        Inl e \<Rightarrow> (let (t, w1) = thread_fails host con e w in (t, ctx, w1))
      | Inr pid \<Rightarrow>
          (case handoff_begin pid (ctx_sched ctx) of
             (Inl e, s1) \<Rightarrow> (let (t, w1) = thread_fails host con e w in (t, ctx\<lparr>ctx_sched := s1\<rparr>, w1))
           | (Inr (Return h), s1) \<Rightarrow>
               (let (t, w1) = answer_handoff host con h w in (t, ctx\<lparr>ctx_sched := s1\<rparr>, w1))
           | (Inr (Proceed p), s1) \<Rightarrow> (Authorizing con pid p, ctx\<lparr>ctx_sched := s1\<rparr>, w)))"

text \<open>The other handlers make at most one call of the scheduler and are run at once, but for HELLO,
  which reads the epoch here and the number of candidates in the next section.\<close>

definition begin_message ::
  "'w Host \<Rightarrow> MessageType \<Rightarrow> byte list \<Rightarrow> Connection \<Rightarrow> Ctx \<Rightarrow> 'w \<Rightarrow> thread \<times> Ctx \<times> 'w"
where
  "begin_message host t payload con ctx w =
     (if t = SUBMIT_WORKLOAD then begin_submit host payload con ctx w
      else if t = COMMIT_REQUEST then begin_commit host payload con ctx w
      else if t = EXECUTION_HANDOFF then begin_handoff host payload con ctx w
      else if t = HELLO then (Greeting con (epoch (ctx_sched ctx)), ctx, w)
      else case handle_frame host t payload con ctx w of
          (Inr True, con1, ctx1, w1) \<Rightarrow> (Finished, ctx1, w1)
        | (Inr False, con1, ctx1, w1) \<Rightarrow> (Checking con1, ctx1, w1)
        | (Inl e, con1, ctx1, w1) \<Rightarrow> (let (t1, w2) = thread_fails host con1 e w1 in (t1, ctx1, w2)))"

section \<open>One step of a thread\<close>

text \<open>The loop of \<^verbatim>\<open>schedule\<close>: what it has pushed for the candidates already filtered.\<close>

abbreviation live_verdict :: "SchedulingRequest \<Rightarrow> Candidate \<Rightarrow> WorkerBootId list \<Rightarrow> EligibilityResult" where
  "live_verdict r c fenced \<equiv> evaluate r c (Some AlwaysReadyDependency) (Some (LiveVeto fenced))"

definition seen_entries ::
  "SchedulingRequest \<Rightarrow> RankOptions \<Rightarrow> (Candidate \<times> WorkerBootId list) list \<Rightarrow> entry list"
where
  "seen_entries r opts seen =
     map (\<lambda>(c, f). (Ranker_evaluate r c opts, c)) (filter (\<lambda>(c, f). eligible (live_verdict r c f)) seen)"

definition seen_rejected ::
  "SchedulingRequest \<Rightarrow> (Candidate \<times> WorkerBootId list) list \<Rightarrow> RejectedAlternative list"
where
  "seen_rejected r seen =
     map (\<lambda>(c, f). let er = live_verdict r c f in
        \<lparr>rej_candidateId = candidateId c, rej_candidateGeneration = candidateGeneration c,
         rej_status = el_status er, rej_reason = el_reason er\<rparr>)
       (filter (\<lambda>(c, f). \<not> eligible (live_verdict r c f)) seen)"

definition end_submit ::
  "'w Host \<Rightarrow> Connection \<Rightarrow> SchedulingRequest \<Rightarrow> (Candidate \<times> WorkerBootId list) list \<Rightarrow> Ctx \<Rightarrow> 'w
     \<Rightarrow> thread \<times> Ctx \<times> 'w"
where
  "end_submit host con r seen ctx w =
     (let st = ctx_sched ctx in
      case schedule_finish r (Some AlwaysReadyDependency)
             (std_sort entry_less (seen_entries r (rankOptions st) seen)) (seen_rejected r seen) st of
        (Inl e, s1) \<Rightarrow> (let (t, w1) = thread_fails host con e w in (t, ctx\<lparr>ctx_sched := s1\<rparr>, w1))
      | (Inr d, s1) \<Rightarrow>
          (let (t, w1) = thread_replies host con PLACEMENT_PLAN
                 (put_u8 (if producedPlan d then 1 else 0) @ enc_plan (dec_plan d) @ put_string (summary d)) w in
           (t, ctx\<lparr>ctx_sched := s1\<rparr>, w1)))"

definition end_commit ::
  "'w Host \<Rightarrow> Connection \<Rightarrow> PlacementPlanId \<Rightarrow> ResourceClaim list \<Rightarrow> ResourceCommitResult \<Rightarrow> Ctx \<Rightarrow> 'w
     \<Rightarrow> thread \<times> Ctx \<times> 'w"
where
  "end_commit host con pid cs br ctx w =
     (case commit_finish pid cs br (ctx_sched ctx) of
        (Inl e, s1) \<Rightarrow> (let (t, w1) = thread_fails host con e w in (t, ctx\<lparr>ctx_sched := s1\<rparr>, w1))
      | (Inr (out, rel), s1) \<Rightarrow>
          (let b1 = (case rel of None \<Rightarrow> ctx_broker ctx | Some token \<Rightarrow> InMemoryBroker_release token (ctx_broker ctx));
               (t, w1) = answer_commit host con out w in
           (t, ctx\<lparr>ctx_sched := s1, ctx_broker := b1\<rparr>, w1)))"

definition end_handoff ::
  "'w Host \<Rightarrow> Connection \<Rightarrow> PlacementPlanId \<Rightarrow> ExecutionHandoff \<Rightarrow> Ctx \<Rightarrow> 'w \<Rightarrow> thread \<times> Ctx \<times> 'w"
where
  "end_handoff host con pid h ctx w =
     (case handoff_finish pid h (ctx_sched ctx) of
        (Inl e, s1) \<Rightarrow> (let (t, w1) = thread_fails host con e w in (t, ctx\<lparr>ctx_sched := s1\<rparr>, w1))
      | (Inr h1, s1) \<Rightarrow>
          (let (t, w1) = answer_handoff host con h1 w in (t, ctx\<lparr>ctx_sched := s1\<rparr>, w1)))"

definition end_hello :: "'w Host \<Rightarrow> Connection \<Rightarrow> CoordinatorEpoch \<Rightarrow> Ctx \<Rightarrow> 'w \<Rightarrow> thread \<times> Ctx \<times> 'w" where
  "end_hello host con ep ctx w =
     (let (t, w1) = thread_replies host con HELLO
            (put_u64 (id_value ep) @ put_u64 (word_of_nat (candidate_count (ctx_sched ctx)))) w in
      (t, ctx, w1))"

fun thread_step :: "(TcpChannel \<Rightarrow> 'w Host) \<Rightarrow> thread \<Rightarrow> Ctx \<Rightarrow> 'w \<Rightarrow> thread \<times> Ctx \<times> 'w" where
  "thread_step hosts (Checking con) ctx w = (if running ctx then Receiving con else Finished, ctx, w)"
| "thread_step hosts (Receiving con) ctx w =
     (let host = hosts (con_channel con) in
      case recv_frame (host_socket host) (con_channel con) w of
        (Inl e, w1) \<Rightarrow> (if hasBoot con then Dropping (con_boot con) else Finished, ctx, w1)
      | (Inr (t, payload), w1) \<Rightarrow> begin_message host t payload con ctx w1)"
| "thread_step hosts (Filtering con r (c # todo) seen) ctx w =
     (Filtering con r todo (seen @ [(c, live_fenced ctx)]), ctx, w)"
| "thread_step hosts (Filtering con r [] seen) ctx w = end_submit (hosts (con_channel con)) con r seen ctx w"
| "thread_step hosts (Committing con pid cs) ctx w =
     (let (br, b1) = InMemoryBroker_commit cs (ctx_broker ctx) in
      (Committed con pid cs br, ctx\<lparr>ctx_broker := b1\<rparr>, w))"
| "thread_step hosts (Committed con pid cs br) ctx w = end_commit (hosts (con_channel con)) con pid cs br ctx w"
| "thread_step hosts (Authorizing con pid p) ctx w =
     (Authorized con pid (fst (CurrentAuthorityExec_authorize p (current_authority (ctx_sched ctx)))), ctx, w)"
| "thread_step hosts (Authorized con pid h) ctx w = end_handoff (hosts (con_channel con)) con pid h ctx w"
| "thread_step hosts (Dropping boot) ctx w =
     (Listing boot, ctx\<lparr>ctx_sched := fence_worker boot (ctx_sched ctx)\<rparr>, w)"
| "thread_step hosts (Listing boot) ctx w = (Asking, ctx\<lparr>live_fenced := uset_insert boot (live_fenced ctx)\<rparr>, w)"
| "thread_step hosts Asking ctx w = (Bumping (epoch (ctx_sched ctx)), ctx, w)"
| "thread_step hosts (Bumping cur) ctx w =
     (Finished, ctx\<lparr>ctx_sched := snd (set_epoch (StrongId (id_value cur + 1)) (ctx_sched ctx))\<rparr>, w)"
| "thread_step hosts Finished ctx w = (Finished, ctx, w)"
| "thread_step hosts (Greeting con ep) ctx w = end_hello (hosts (con_channel con)) con ep ctx w"

section \<open>The process\<close>

text \<open>The main thread tests \<^verbatim>\<open>running\<close>, waits in \<^verbatim>\<open>accept\<close>, or has left the loop, which ends the process.\<close>

datatype main_state = TestRunning | InAccept | Left

record 'w process =
  shared :: Ctx
  listening :: TcpListener
  main_at :: main_state
  threads :: "thread list"
  world :: 'w

definition new_connection :: "TcpChannel \<Rightarrow> Connection" where
  "new_connection ch = \<lparr>con_channel = ch, con_boot = StrongId 0, hasBoot = False\<rparr>"

definition main_step :: "'w SocketApi \<Rightarrow> 'w process \<Rightarrow> 'w process" where
  "main_step api P =
     (case main_at P of
        TestRunning \<Rightarrow> P\<lparr>main_at := (if running (shared P) then InAccept else Left)\<rparr>
      | InAccept \<Rightarrow>
          (case listener_accept api (listening P) (world P) of
             (None, w1) \<Rightarrow> P\<lparr>main_at := (if running (shared P) then TestRunning else Left), world := w1\<rparr>
           | (Some ch, w1) \<Rightarrow> P\<lparr>main_at := TestRunning, world := w1,
                threads := threads P @ [Checking (new_connection ch)]\<rparr>)
      | Left \<Rightarrow> P)"

inductive proc_step :: "'w SocketApi \<Rightarrow> (TcpChannel \<Rightarrow> 'w Host) \<Rightarrow> 'w process \<Rightarrow> 'w process \<Rightarrow> bool" for api hosts
where
  main: "main_at P \<noteq> Left \<Longrightarrow> proc_step api hosts P (main_step api P)"
| thread: "main_at P \<noteq> Left \<Longrightarrow> i < length (threads P) \<Longrightarrow>
    thread_step hosts (threads P ! i) (shared P) (world P) = (t, ctx, w) \<Longrightarrow>
    proc_step api hosts P (P\<lparr>shared := ctx, threads := (threads P)[i := t], world := w\<rparr>)"

definition start_process :: "string \<Rightarrow> TcpListener \<Rightarrow> 'w \<Rightarrow> 'w process" where
  "start_process path l w =
     \<lparr>shared = new_coordinator path, listening = l, main_at = TestRunning, threads = [], world = w\<rparr>"

inductive_cases proc_stepE [elim!]: "proc_step api hosts P P'"

end
