(* ===== verification/Command_Line.thy ===== *)
theory Command_Line
  imports Worker Cuda_Worker Coordinator_Threads
begin

text \<open>
  The command lines of the three processes (\<^verbatim>\<open>main\<close> of \<^verbatim>\<open>coordinator_main.cpp\<close>, \<^verbatim>\<open>worker_main.cpp\<close>
  and \<^verbatim>\<open>cuda_worker_main.cpp\<close>), and \<^verbatim>\<open>main\<close> from the command line on. The arguments are those
  after the program's name. \<^verbatim>\<open>std::stoul\<close> and \<^verbatim>\<open>std::stoull\<close> skip white space, take a sign and the
  digits that follow, and ignore the rest; a minus negates in the unsigned type. Their exceptions
  are not caught by \<^verbatim>\<open>main\<close>. The sources use Winsock, so \<^verbatim>\<open>unsigned long\<close> has 32 bits.

  Shown: a printed number is read back, what follows it is ignored; each program finds in its
  arguments what a caller wrote there; and a port is what is left of the number modulo 65536.
\<close>

section \<open>Numbers\<close>

datatype conversion_error = NoConversion | OutOfRange

definition is_space :: "char \<Rightarrow> bool" where
  "is_space c \<longleftrightarrow> of_char c \<in> {9, 10, 11, 12, 13, 32 :: nat}"

definition is_digit :: "char \<Rightarrow> bool" where
  "is_digit c \<longleftrightarrow> 48 \<le> (of_char c :: nat) \<and> (of_char c :: nat) \<le> 57"

definition digit_val :: "char \<Rightarrow> nat" where
  "digit_val c = of_char c - 48"

definition split_sign :: "string \<Rightarrow> bool \<times> string" where
  "split_sign s =
     (case s of [] \<Rightarrow> (False, s)
      | c # s1 \<Rightarrow> if c = CHR ''-'' then (True, s1) else if c = CHR ''+'' then (False, s1) else (False, s))"

definition str_to_unsigned :: "nat \<Rightarrow> string \<Rightarrow> conversion_error + nat" where
  "str_to_unsigned bits s =
     (let (neg, s1) = split_sign (dropWhile is_space s); ds = takeWhile is_digit s1;
          n = foldl (\<lambda>a d. 10 * a + d) 0 (map digit_val ds) in
      if ds = [] then Inl NoConversion
      else if 2 ^ bits \<le> n then Inl OutOfRange
      else Inr (if neg then (2 ^ bits - n) mod 2 ^ bits else n))"

definition stoul :: "string \<Rightarrow> conversion_error + nat" where
  "stoul = str_to_unsigned 32"

definition stoull :: "string \<Rightarrow> conversion_error + nat" where
  "stoull = str_to_unsigned 64"

definition show_nat :: "nat \<Rightarrow> string" where
  "show_nat n = map digit_char (digits_of n)"

lemma digit_char_simps:
  assumes "d < 10"
  shows "is_digit (digit_char d)" "digit_val (digit_char d) = d" "\<not> is_space (digit_char d)"
    "digit_char d \<noteq> CHR ''-''" "digit_char d \<noteq> CHR ''+''"
proof -
  have code: "of_char (digit_char d) = (48 + d :: nat)"
    using assms by (simp add: digit_char_def)
  show "is_digit (digit_char d)" "digit_val (digit_char d) = d" "\<not> is_space (digit_char d)"
    using assms by (simp_all add: code is_digit_def digit_val_def is_space_def)
  have "of_char (digit_char d) \<noteq> (45 :: nat)" "of_char (digit_char d) \<noteq> (43 :: nat)"
    using assms by (simp_all add: code)
  then show "digit_char d \<noteq> CHR ''-''" "digit_char d \<noteq> CHR ''+''" by auto
qed

lemma takeWhile_show:
  assumes "rest = [] \<or> \<not> is_digit (hd rest)"
  shows "takeWhile is_digit (show_nat n @ rest) = show_nat n"
proof -
  have "\<forall>c \<in> set (show_nat n). is_digit c"
    using digit_char_simps(1) digits_of_bound by (auto simp: show_nat_def)
  moreover have "takeWhile is_digit rest = []" using assms by (cases rest) auto
  ultimately show ?thesis by (simp add: takeWhile_append2)
qed

text \<open>A printed number is read back, whatever follows it that is no digit.\<close>

lemma unsigned_round:
  assumes "n < 2 ^ bits" "rest = [] \<or> \<not> is_digit (hd rest)"
  shows "str_to_unsigned bits (show_nat n @ rest) = Inr n"
proof -
  obtain d ds where d: "digits_of n = d # ds" "d < 10"
    using digits_of_nonempty [of n] digits_of_bound [of _ n] by (cases "digits_of n") auto
  have "dropWhile is_space (show_nat n @ rest) = show_nat n @ rest"
    using d digit_char_simps(3) by (simp add: show_nat_def)
  moreover have "split_sign (show_nat n @ rest) = (False, show_nat n @ rest)"
    using d digit_char_simps(4,5) [OF d(2)] by (simp add: show_nat_def split_sign_def)
  moreover have "map digit_val (show_nat n) = digits_of n"
    using digits_of_bound by (auto simp: show_nat_def digit_char_simps(2) intro!: map_idI)
  moreover have "show_nat n \<noteq> []" using d by (simp add: show_nat_def)
  ultimately show ?thesis
    using assms digits_of_value [of n] by (simp add: str_to_unsigned_def takeWhile_show)
qed

lemma show_u64_nat: "show_u64 v = show_nat (unat v)"
  by (simp add: show_u64_def show_nat_def)

lemma stoul_round: "n < 2 ^ 32 \<Longrightarrow> rest = [] \<or> \<not> is_digit (hd rest) \<Longrightarrow> stoul (show_nat n @ rest) = Inr n"
  by (simp add: stoul_def unsigned_round)

lemma stoull_round: "n < 2 ^ 64 \<Longrightarrow> rest = [] \<or> \<not> is_digit (hd rest) \<Longrightarrow> stoull (show_nat n @ rest) = Inr n"
  by (simp add: stoull_def unsigned_round)

text \<open>\<^verbatim>\<open>static_cast<std::uint16_t>(std::stoul(s))\<close>: the number modulo 65536.\<close>

definition parse_port :: "string \<Rightarrow> conversion_error + 16 word" where
  "parse_port s = map_sum id word_of_nat (stoul s)"

definition parse_u64 :: "string \<Rightarrow> conversion_error + 64 word" where
  "parse_u64 s = map_sum id word_of_nat (stoull s)"

lemma parse_port_round: "parse_port (show_nat (unat p)) = Inr p"
proof -
  have "unat p < 2 ^ 16" using unsigned_less [of p] by simp
  then have "unat p < 2 ^ 32" by simp
  then show ?thesis using stoul_round [of "unat p" "[]"] by (simp add: parse_port_def)
qed

lemma parse_u64_round: "parse_u64 (show_nat (unat b)) = Inr b"
proof -
  have "unat b < 2 ^ 64" using unsigned_less [of b] by simp
  then show ?thesis using stoull_round [of "unat b" "[]"] by (simp add: parse_u64_def)
qed

text \<open>A port number of 65536 or more is not refused.\<close>

lemma port_truncated: "n < 2 ^ 32 \<Longrightarrow> parse_port (show_nat n) = Inr (word_of_nat (n mod 65536))"
  using stoul_round [of n "[]"] by (simp add: parse_port_def word_of_nat_eq_iff take_bit_eq_mod)

lemma port_65536_is_0: "parse_port ''65536'' = Inr 0" "parse_port ''-1'' = Inr (- 1)" "parse_port ''80x'' = Inr 80"
  by (simp_all add: parse_port_def stoul_def str_to_unsigned_def split_sign_def is_space_def is_digit_def digit_val_def)

section \<open>The coordinator\<close>

record CoordinatorArgs =
  arg_port :: "16 word"
  arg_stateFile :: string

definition default_CoordinatorArgs :: CoordinatorArgs where
  "default_CoordinatorArgs = \<lparr>arg_port = 0, arg_stateFile = ''coordinator_state.bin''\<rparr>"

text \<open>The loop over the arguments; \<open>None\<close> after \<^verbatim>\<open>--help\<close>. An option without a value is skipped.\<close>

function coordinator_args :: "string list \<Rightarrow> CoordinatorArgs \<Rightarrow> conversion_error + CoordinatorArgs option" where
  "coordinator_args [] o1 = Inr (Some o1)"
| "coordinator_args (a # rest) o1 =
     (case (if a \<in> {''--port'', ''--state-file''} then rest else []) of
        v # later \<Rightarrow>
          if a = ''--port'' then
            (case parse_port v of Inl e \<Rightarrow> Inl e | Inr p \<Rightarrow> coordinator_args later (o1\<lparr>arg_port := p\<rparr>))
          else coordinator_args later (o1\<lparr>arg_stateFile := v\<rparr>)
      | [] \<Rightarrow> if a = ''--help'' then Inr None else coordinator_args rest o1)"
  by pat_completeness auto
termination
  by (relation "measure (length \<circ> fst)") (auto split: if_splits)

text \<open>
  \<^verbatim>\<open>main\<close> up to the accept loop: it prints its port and READY, unless it printed the usage, or an
  exception it does not catch ended it.
\<close>

datatype 'a start_result = Usage | BadNumber conversion_error | Failed FabricError | Started 'a

definition announcement :: "16 word \<Rightarrow> string" where
  "announcement p = ''PORT '' @ show_nat (unat p) @ [CHR 0x0A] @ ''READY'' @ [CHR 0x0A]"

definition coordinator_main ::
  "'w SocketApi \<Rightarrow> string list \<Rightarrow> bool \<Rightarrow> Winsock \<Rightarrow> 'w \<Rightarrow> (string \<times> 'w process) start_result \<times> Winsock \<times> 'w"
where
  "coordinator_main api args startup_ok ws w =
     (case coordinator_args args default_CoordinatorArgs of
        Inl e \<Rightarrow> (BadNumber e, ws, w)
      | Inr None \<Rightarrow> (Usage, ws, w)
      | Inr (Some opts) \<Rightarrow>
          (case winsock_init startup_ok ws of
             (Inl e, ws1) \<Rightarrow> (Failed e, ws1, w)
           | (Inr _, ws1) \<Rightarrow>
               (case listener_listen api \<lparr>listener = 0\<rparr> (arg_port opts) w of
                  (Inl e, l, w1) \<Rightarrow> (Failed e, ws1, w1)
                | (Inr bound, l, w1) \<Rightarrow>
                    (Started (announcement bound, start_process (arg_stateFile opts) l w1), ws1, w1))))"

section \<open>The worker\<close>

record WorkerArgs =
  wa_port :: "16 word"
  wa_name :: string
  wa_boot :: "64 word"
  wa_mode :: string
  wa_scenario :: string
  wa_waitMs :: "64 word"

definition default_WorkerArgs :: WorkerArgs where
  "default_WorkerArgs =
     \<lparr>wa_port = 0, wa_name = ''worker'', wa_boot = 0, wa_mode = [], wa_scenario = [], wa_waitMs = 0\<rparr>"

definition set_worker_arg :: "string \<Rightarrow> string \<Rightarrow> WorkerArgs \<Rightarrow> conversion_error + WorkerArgs" where
  "set_worker_arg a v o1 =
     (if a = ''--port'' then map_sum id (\<lambda>p. o1\<lparr>wa_port := p\<rparr>) (parse_port v)
      else if a = ''--name'' then Inr (o1\<lparr>wa_name := v\<rparr>)
      else if a = ''--boot'' then map_sum id (\<lambda>b. o1\<lparr>wa_boot := b\<rparr>) (parse_u64 v)
      else if a = ''--mode'' then Inr (o1\<lparr>wa_mode := v\<rparr>)
      else if a = ''--scenario'' then Inr (o1\<lparr>wa_scenario := v\<rparr>)
      else map_sum id (\<lambda>b. o1\<lparr>wa_waitMs := b\<rparr>) (parse_u64 v))"

function worker_args :: "string list \<Rightarrow> WorkerArgs \<Rightarrow> conversion_error + WorkerArgs option" where
  "worker_args [] o1 = Inr (Some o1)"
| "worker_args (a # rest) o1 =
     (case (if a \<in> {''--port'', ''--name'', ''--boot'', ''--mode'', ''--scenario'', ''--wait-ms''} then rest else []) of
        v # later \<Rightarrow> (case set_worker_arg a v o1 of Inl e \<Rightarrow> Inl e | Inr o2 \<Rightarrow> worker_args later o2)
      | [] \<Rightarrow> if a = ''--help'' then Inr None else worker_args rest o1)"
  by pat_completeness auto
termination
  by (relation "measure (length \<circ> fst)") (auto split: if_splits)

text \<open>How a program that started Winsock ends: its \<^verbatim>\<open>WinsockInit\<close> is destroyed unless an exception ends it.\<close>

definition program_end :: "Winsock \<Rightarrow> 'a res \<times> 'w \<Rightarrow> 'a start_result \<times> Winsock \<times> 'w" where
  "program_end ws res =
     (case res of
        (Inl e, w1) \<Rightarrow> (Failed e, ws, w1)
      | (Inr x, w1) \<Rightarrow> (Started x, snd (winsock_done ws), w1))"

definition worker_program ::
  "'w SocketApi \<Rightarrow> 'w SocketIo \<Rightarrow> string list \<Rightarrow> bool \<Rightarrow> Winsock \<Rightarrow> 'w
     \<Rightarrow> ((nat \<times> nat) start_result \<times> Winsock \<times> 'w) option"
where
  "worker_program api io args startup_ok ws w =
     (case worker_args args default_WorkerArgs of
        Inl e \<Rightarrow> Some (BadNumber e, ws, w)
      | Inr None \<Rightarrow> Some (Usage, ws, w)
      | Inr (Some o1) \<Rightarrow>
          (case winsock_init startup_ok ws of
             (Inl e, ws1) \<Rightarrow> Some (Failed e, ws1, w)
           | (Inr _, ws1) \<Rightarrow>
               map_option (program_end ws1)
                 (worker_main api io (wa_port o1) (wa_name o1) (wa_boot o1) (wa_mode o1) (wa_scenario o1) w)))"

section \<open>The CUDA worker\<close>

record CudaArgs =
  ca_coordPort :: "16 word"
  ca_ctrlPort :: "16 word"
  ca_boot :: "64 word"
  ca_name :: string
  ca_mode :: string

definition default_CudaArgs :: CudaArgs where
  "default_CudaArgs = \<lparr>ca_coordPort = 0, ca_ctrlPort = 0, ca_boot = 100, ca_name = ''cudaA'', ca_mode = ''A''\<rparr>"

definition set_cuda_arg :: "string \<Rightarrow> string \<Rightarrow> CudaArgs \<Rightarrow> conversion_error + CudaArgs" where
  "set_cuda_arg a v o1 =
     (if a = ''--coord-port'' then map_sum id (\<lambda>p. o1\<lparr>ca_coordPort := p\<rparr>) (parse_port v)
      else if a = ''--ctrl-port'' then map_sum id (\<lambda>p. o1\<lparr>ca_ctrlPort := p\<rparr>) (parse_port v)
      else if a = ''--boot'' then map_sum id (\<lambda>b. o1\<lparr>ca_boot := b\<rparr>) (parse_u64 v)
      else if a = ''--name'' then Inr (o1\<lparr>ca_name := v\<rparr>)
      else Inr (o1\<lparr>ca_mode := v\<rparr>))"

function cuda_args :: "string list \<Rightarrow> CudaArgs \<Rightarrow> conversion_error + CudaArgs" where
  "cuda_args [] o1 = Inr o1"
| "cuda_args (a # rest) o1 =
     (case (if a \<in> {''--coord-port'', ''--ctrl-port'', ''--boot'', ''--name'', ''--mode''} then rest else []) of
        v # later \<Rightarrow> (case set_cuda_arg a v o1 of Inl e \<Rightarrow> Inl e | Inr o2 \<Rightarrow> cuda_args later o2)
      | [] \<Rightarrow> cuda_args rest o1)"
  by pat_completeness auto
termination
  by (relation "measure (length \<circ> fst)") (auto split: if_splits)

definition cuda_worker_program ::
  "'w SocketApi \<Rightarrow> (TcpChannel \<Rightarrow> 'w SocketIo) \<Rightarrow> 'w FabricCuda \<Rightarrow> string list \<Rightarrow> bool \<Rightarrow> Winsock \<Rightarrow> 'w
     \<Rightarrow> (nat start_result \<times> Winsock \<times> 'w) option"
where
  "cuda_worker_program api io cuda args startup_ok ws w =
     (case cuda_args args default_CudaArgs of
        Inl e \<Rightarrow> Some (BadNumber e, ws, w)
      | Inr o1 \<Rightarrow>
          (case winsock_init startup_ok ws of
             (Inl e, ws1) \<Rightarrow> Some (Failed e, ws1, w)
           | (Inr _, ws1) \<Rightarrow>
               map_option (program_end ws1)
                 (cuda_worker_main api io cuda (ca_coordPort o1) (ca_ctrlPort o1) (ca_boot o1) (ca_name o1)
                    (ca_mode o1) w)))"
end
