(* ===== verification/Win_Process.thy ===== *)
theory Win_Process
  imports Command_Line
begin

text \<open>
  The processes and files of the proof driver (\<^verbatim>\<open>cuda_worker_death_proof.cpp\<close>, before \<^verbatim>\<open>main\<close>): how it
  starts a child with its output in two files, waits for a text in such a file, ends a child and
  finds the programs. The calls of Windows are parameters (\<open>WinApi\<close>); a refused one is \<open>None\<close>.
  Paths and command lines are strings; the clock is in nanoseconds.

  Shown: a child that cannot be started leaves no handle behind, and one that is started adds its
  two; waiting ends when sleeping takes time; the program found exists.
\<close>

record Child =
  hProcess :: handle
  hThread :: handle
  childPid :: "32 word"
  outPath :: string
  errPath :: string

record 'w WinApi =
  delete_path :: "string \<Rightarrow> 'w \<Rightarrow> 'w"
  create_file :: "string \<Rightarrow> 'w \<Rightarrow> handle option \<times> 'w"
  create_process :: "string \<Rightarrow> string \<Rightarrow> handle \<Rightarrow> handle \<Rightarrow> handle \<Rightarrow> 'w \<Rightarrow> (handle \<times> handle) option \<times> 'w"
  process_id :: "handle \<Rightarrow> 'w \<Rightarrow> 32 word"
  close_handle :: "handle \<Rightarrow> 'w \<Rightarrow> 'w"
  terminate_and_wait :: "handle \<Rightarrow> 'w \<Rightarrow> 'w"
  read_file :: "string \<Rightarrow> 'w \<Rightarrow> string option"
  clock_now :: "'w \<Rightarrow> int \<times> 'w"
  sleep_ms :: "nat \<Rightarrow> 'w \<Rightarrow> 'w"
  is_file :: "string \<Rightarrow> bool"
  full_path :: "string \<Rightarrow> string"
  module_file :: string

abbreviation backslash :: string where
  "backslash \<equiv> [CHR 0x5C]"

section \<open>Starting a child\<close>

definition close_opened :: "'w WinApi \<Rightarrow> handle option \<Rightarrow> 'w \<Rightarrow> 'w" where
  "close_opened win h w = (case h of None \<Rightarrow> w | Some s \<Rightarrow> close_handle win s w)"

definition spawn ::
  "'w WinApi \<Rightarrow> string \<Rightarrow> string \<Rightarrow> string \<Rightarrow> string \<Rightarrow> 'w \<Rightarrow> Child option \<times> 'w"
where
  "spawn win exe args tempdir prefix w =
     (let outp = tempdir @ backslash @ prefix @ ''.out.log'';
          errp = tempdir @ backslash @ prefix @ ''.err.log'';
          w1 = delete_path win errp (delete_path win outp w);
          (hOut, w2) = create_file win outp w1;
          (hErr, w3) = create_file win errp w2;
          (hIn, w4) = create_file win ''NUL'' w3 in
      case (hOut, hErr, hIn) of
        (Some so, Some se, Some si) \<Rightarrow>
          (let (started, w5) = create_process win exe (CHR 0x22 # exe @ [CHR 0x22, CHR '' ''] @ args) si so se w4;
               w6 = close_handle win se (close_handle win so (close_handle win si w5)) in
           case started of
             None \<Rightarrow> (None, w6)
           | Some (p, t) \<Rightarrow>
               (Some \<lparr>hProcess = p, hThread = t, childPid = process_id win p w6, outPath = outp, errPath = errp\<rparr>, w6))
      | _ \<Rightarrow> (None, close_opened win hIn (close_opened win hErr (close_opened win hOut w4))))"

definition kill_child :: "'w WinApi \<Rightarrow> Child \<Rightarrow> 'w \<Rightarrow> 'w" where
  "kill_child win c w = (if hProcess c \<noteq> 0 then terminate_and_wait win (hProcess c) w else w)"

definition cleanup :: "'w WinApi \<Rightarrow> Child \<Rightarrow> 'w \<Rightarrow> 'w" where
  "cleanup win c w =
     (let w1 = kill_child win c w;
          w2 = (if hThread c \<noteq> 0 then close_handle win (hThread c) w1 else w1);
          w3 = (if hProcess c \<noteq> 0 then close_handle win (hProcess c) w2 else w2) in
      delete_path win (errPath c) (delete_path win (outPath c) w3))"

section \<open>Waiting for a text\<close>

fun find_str :: "string \<Rightarrow> string \<Rightarrow> nat option" where
  "find_str needle [] = (if needle = [] then Some 0 else None)"
| "find_str needle (c # s) =
     (if take (length needle) (c # s) = needle then Some 0 else map_option Suc (find_str needle s))"

definition file_contains :: "'w WinApi \<Rightarrow> string \<Rightarrow> string \<Rightarrow> 'w \<Rightarrow> bool" where
  "file_contains win path needle w =
     (case read_file win path w of None \<Rightarrow> False | Some content \<Rightarrow> find_str needle content \<noteq> None)"

text \<open>The milliseconds since \<open>t0\<close>, as \<^verbatim>\<open>duration_cast\<close> counts them.\<close>

definition elapsed_ms :: "int \<Rightarrow> int \<Rightarrow> int" where
  "elapsed_ms t0 t = sgn (t - t0) * (\<bar>t - t0\<bar> div 1000000)"

partial_function (option) wait_loop ::
  "'w WinApi \<Rightarrow> string \<Rightarrow> string \<Rightarrow> int \<Rightarrow> int \<Rightarrow> 'w \<Rightarrow> (bool \<times> 'w) option"
where
  "wait_loop win path needle maxMs t0 w =
     (let (t, w1) = clock_now win w in
      if \<not> elapsed_ms t0 t < maxMs then Some (file_contains win path needle w1, w1)
      else if file_contains win path needle w1 then Some (True, w1)
      else wait_loop win path needle maxMs t0 (sleep_ms win 5 w1))"

definition wait_for :: "'w WinApi \<Rightarrow> string \<Rightarrow> string \<Rightarrow> int \<Rightarrow> 'w \<Rightarrow> (bool \<times> 'w) option" where
  "wait_for win path needle maxMs w =
     (let (t0, w1) = clock_now win w in wait_loop win path needle maxMs t0 w1)"

section \<open>Finding the programs\<close>

definition is_separator :: "char \<Rightarrow> bool" where
  "is_separator c \<longleftrightarrow> c = CHR 0x5C \<or> c = CHR 0x2F"

text \<open>\<^verbatim>\<open>find_last_of\<close> with both separators.\<close>

definition last_separator :: "string \<Rightarrow> nat option" where
  "last_separator s =
     (let k = length (takeWhile (\<lambda>c. \<not> is_separator c) (rev s)) in
      if k = length s then None else Some (length s - Suc k))"

definition self_dir :: "'w WinApi \<Rightarrow> string" where
  "self_dir win =
     (let d = module_file win in case last_separator d of None \<Rightarrow> d | Some s \<Rightarrow> take s d)"

fun search_up :: "'w WinApi \<Rightarrow> nat \<Rightarrow> string \<Rightarrow> string \<Rightarrow> string \<Rightarrow> string \<Rightarrow> string" where
  "search_up win 0 dir sub name cfg = []"
| "search_up win (Suc i) dir sub name cfg =
     (let a = full_path win (dir @ backslash @ sub @ backslash @ name);
          b = full_path win (dir @ backslash @ sub @ backslash @ cfg @ backslash @ name) in
      if is_file win a then a
      else if is_file win b then b
      else case last_separator dir of
          None \<Rightarrow> []
        | Some s \<Rightarrow> if s < 3 then [] else search_up win i (take s dir) sub name cfg)"

definition search_up_exe :: "'w WinApi \<Rightarrow> string \<Rightarrow> string \<Rightarrow> string \<Rightarrow> string \<Rightarrow> string" where
  "search_up_exe win dir sub name cfg = search_up win 4 dir sub name cfg"

definition build_config :: "string \<Rightarrow> string" where
  "build_config d = (case last_separator d of None \<Rightarrow> ''Release'' | Some s \<Rightarrow> drop (s + 1) d)"

definition module_dir :: "'w WinApi \<Rightarrow> string" where
  "module_dir win = search_up_exe win (self_dir win) ''tools'' ''coordinator_main.exe'' (build_config (self_dir win))"

definition worker_path :: "'w WinApi \<Rightarrow> string" where
  "worker_path win = search_up_exe win (self_dir win) ''cuda'' ''cuda_worker.exe'' (build_config (self_dir win))"

section \<open>Handles\<close>

text \<open>The documented effect of the calls on the handles the driver holds.\<close>

definition win_handles_documented :: "'w WinApi \<Rightarrow> ('w \<Rightarrow> handle set) \<Rightarrow> bool" where
  "win_handles_documented win held \<longleftrightarrow>
     (\<forall>p w. held (delete_path win p w) = held w) \<and>
     (\<forall>p w w1. create_file win p w = (None, w1) \<longrightarrow> held w1 = held w) \<and>
     (\<forall>p w s w1. create_file win p w = (Some s, w1) \<longrightarrow> s \<notin> held w \<and> held w1 = insert s (held w)) \<and>
     (\<forall>e c i q r w w1. create_process win e c i q r w = (None, w1) \<longrightarrow> held w1 = held w) \<and>
     (\<forall>e c i q r w s t w1. create_process win e c i q r w = (Some (s, t), w1) \<longrightarrow>
        s \<noteq> t \<and> s \<notin> held w \<and> t \<notin> held w \<and> held w1 = held w \<union> {s, t}) \<and>
     (\<forall>h w. held (terminate_and_wait win h w) = held w) \<and>
     (\<forall>h w. held (close_handle win h w) = held w - {h})"

lemma win_handlesD:
  assumes "win_handles_documented win held"
  shows "held (delete_path win p w) = held w"
    and "create_file win p w = (None, w1) \<Longrightarrow> held w1 = held w"
    and "create_file win p w = (Some s, w1) \<Longrightarrow> s \<notin> held w \<and> held w1 = insert s (held w)"
    and "create_process win e c i q r w = (None, w1) \<Longrightarrow> held w1 = held w"
    and "create_process win e c i q r w = (Some (s, t), w1) \<Longrightarrow>
        s \<noteq> t \<and> s \<notin> held w \<and> t \<notin> held w \<and> held w1 = held w \<union> {s, t}"
    and "held (terminate_and_wait win h w) = held w"
    and "held (close_handle win h w) = held w - {h}"
proof -
  note d = assms [unfolded win_handles_documented_def]
  note r = d [THEN conjunct2] and rr = d [THEN conjunct2, THEN conjunct2]
    and r3 = d [THEN conjunct2, THEN conjunct2, THEN conjunct2]
  show "held (delete_path win p w) = held w" by (rule d [THEN conjunct1, rule_format])
  show "create_file win p w = (None, w1) \<Longrightarrow> held w1 = held w" by (rule r [THEN conjunct1, rule_format])
  show "create_file win p w = (Some s, w1) \<Longrightarrow> s \<notin> held w \<and> held w1 = insert s (held w)"
    by (rule rr [THEN conjunct1, rule_format])
  show "create_process win e c i q r w = (None, w1) \<Longrightarrow> held w1 = held w" by (rule r3 [THEN conjunct1, rule_format])
  show "create_process win e c i q r w = (Some (s, t), w1) \<Longrightarrow>
      s \<noteq> t \<and> s \<notin> held w \<and> t \<notin> held w \<and> held w1 = held w \<union> {s, t}"
    by (rule r3 [THEN conjunct2, THEN conjunct1, rule_format])
  show "held (terminate_and_wait win h w) = held w"
    by (rule r3 [THEN conjunct2, THEN conjunct2, THEN conjunct1, rule_format])
  show "held (close_handle win h w) = held w - {h}"
    by (rule r3 [THEN conjunct2, THEN conjunct2, THEN conjunct2, rule_format])
qed

lemma close_opened_held:
  "win_handles_documented win held \<Longrightarrow> held (close_opened win h w) = held w - set_option h"
  by (cases h) (simp_all add: close_opened_def win_handlesD(7))

text \<open>The three files of a child are opened one after the other.\<close>

lemma create_held:
  assumes "win_handles_documented win held" "create_file win p w = (h, w1)"
  shows "held w1 = held w \<union> set_option h" "set_option h \<inter> held w = {}"
proof -
  have "held w1 = held w \<union> set_option h \<and> set_option h \<inter> held w = {}"
  proof (cases h)
    case None
    with win_handlesD(2) [OF assms(1)] assms(2) show ?thesis by simp
  next
    case (Some s)
    with win_handlesD(3) [OF assms(1)] assms(2) show ?thesis by simp
  qed
  then show "held w1 = held w \<union> set_option h" "set_option h \<inter> held w = {}" by simp_all
qed

lemma three_gone:
  assumes "W1 = W \<union> A" "A \<inter> W = {}" "W2 = W1 \<union> B" "B \<inter> W1 = {}" "W3 = W2 \<union> C" "C \<inter> W2 = {}"
  shows "W3 - A - B - C = W" "D \<inter> W3 = {} \<Longrightarrow> (W3 \<union> D) - C - A - B = W \<union> D" "D \<inter> W3 = {} \<Longrightarrow> D \<inter> W = {}"
  using assms by blast+

lemma spawn_held:
  assumes "win_handles_documented win held"
  shows "case spawn win exe args tempdir prefix w of
      (None, w1) \<Rightarrow> held w1 = held w
    | (Some c, w1) \<Rightarrow> hProcess c \<noteq> hThread c \<and> {hProcess c, hThread c} \<inter> held w = {} \<and>
        held w1 = held w \<union> {hProcess c, hThread c}"
proof -
  let ?outp = "tempdir @ backslash @ prefix @ ''.out.log''" and ?errp = "tempdir @ backslash @ prefix @ ''.err.log''"
  let ?cmd = "CHR 0x22 # exe @ [CHR 0x22, CHR '' ''] @ args"
  define w1 where "w1 = delete_path win ?errp (delete_path win ?outp w)"
  obtain hOut w2 hErr w3 hIn w4 where files: "create_file win ?outp w1 = (hOut, w2)"
    "create_file win ?errp w2 = (hErr, w3)" "create_file win ''NUL'' w3 = (hIn, w4)"
    by (metis surj_pair)
  have same: "held w1 = held w" using win_handlesD(1) [OF assms] by (simp add: w1_def)
  note gone = three_gone [OF create_held [OF assms files(1)] create_held [OF assms files(2)]
    create_held [OF assms files(3)], unfolded same]
  have eq: "spawn win exe args tempdir prefix w = (case (hOut, hErr, hIn) of
      (Some so, Some se, Some si) \<Rightarrow>
        (let (started, w5) = create_process win exe ?cmd si so se w4;
             w6 = close_handle win se (close_handle win so (close_handle win si w5)) in
         case started of
           None \<Rightarrow> (None, w6)
         | Some (p, t) \<Rightarrow>
             (Some \<lparr>hProcess = p, hThread = t, childPid = process_id win p w6, outPath = ?outp, errPath = ?errp\<rparr>, w6))
    | _ \<Rightarrow> (None, close_opened win hIn (close_opened win hErr (close_opened win hOut w4))))"
    unfolding spawn_def Let_def w1_def [symmetric] files prod.case by (rule refl)
  show ?thesis
  proof (cases "hOut = None \<or> hErr = None \<or> hIn = None")
    case True
    then have "spawn win exe args tempdir prefix w =
        (None, close_opened win hIn (close_opened win hErr (close_opened win hOut w4)))"
      unfolding eq by (auto split: option.split)
    moreover have "held (close_opened win hIn (close_opened win hErr (close_opened win hOut w4))) = held w"
      unfolding close_opened_held [OF assms] by (rule gone(1))
    ultimately show ?thesis by simp
  next
    case False
    then obtain so se si where some: "hOut = Some so" "hErr = Some se" "hIn = Some si" by auto
    obtain started w5 where st: "create_process win exe ?cmd si so se w4 = (started, w5)" by fastforce
    define w6 where "w6 = close_handle win se (close_handle win so (close_handle win si w5))"
    have closed: "held w6 = held w5 - {si} - {so} - {se}"
      using win_handlesD(7) [OF assms] by (simp add: w6_def)
    show ?thesis
    proof (cases started)
      case None
      then have "spawn win exe args tempdir prefix w = (None, w6)" unfolding eq by (simp add: some st [simplified] w6_def)
      moreover have "held w5 = held w4" using st None by (intro win_handlesD(4) [OF assms]) simp
      then have "held w6 = held w" using gone(2) [of "{}"] unfolding closed some by simp
      ultimately show ?thesis by simp
    next
      case (Some pt)
      obtain p t where pt: "pt = (p, t)" by (cases pt)
      then have "spawn win exe args tempdir prefix w =
          (Some \<lparr>hProcess = p, hThread = t, childPid = process_id win p w6, outPath = ?outp, errPath = ?errp\<rparr>, w6)"
        unfolding eq by (simp add: some st [simplified] w6_def Some Let_def)
      moreover have new: "p \<noteq> t \<and> p \<notin> held w4 \<and> t \<notin> held w4 \<and> held w5 = held w4 \<union> {p, t}"
        using st Some pt by (intro win_handlesD(5) [OF assms]) simp
      then have "{p, t} \<inter> held w4 = {}" by simp
      from gone(2) [OF this] gone(3) [OF this] new
      have "p \<noteq> t \<and> {p, t} \<inter> held w = {} \<and> held w6 = held w \<union> {p, t}"
        unfolding closed some by simp
      ultimately show ?thesis by simp
    qed
  qed
qed

section \<open>Waiting ends\<close>

text \<open>The clock does not go back, and a sleep takes the time asked for.\<close>

definition clock_documented :: "'w WinApi \<Rightarrow> ('w \<Rightarrow> int) \<Rightarrow> bool" where
  "clock_documented win time_of \<longleftrightarrow>
     (\<forall>w. time_of w \<le> fst (clock_now win w) \<and> fst (clock_now win w) \<le> time_of (snd (clock_now win w))) \<and>
     (\<forall>n w. time_of w + int n * 1000000 \<le> time_of (sleep_ms win n w))"

lemma elapsed_bound:
  assumes "elapsed_ms t0 t < maxMs"
  shows "t - t0 < maxMs * 1000000"
proof -
  let ?d = "\<bar>t - t0\<bar> div 1000000"
  have d: "?d * 1000000 \<le> \<bar>t - t0\<bar>" "\<bar>t - t0\<bar> < (?d + 1) * 1000000" by simp_all
  have "elapsed_ms t0 t = (if t0 \<le> t then ?d else - ?d)"
    by (auto simp: elapsed_ms_def sgn_if)
  with assms d show ?thesis by (auto split: if_splits)
qed

lemma wait_loop_ends:
  assumes "clock_documented win time_of"
  shows "\<exists>found w1. wait_loop win path needle maxMs t0 w = Some (found, w1) \<and>
     file_contains win path needle w1 = found"
proof (induction "nat (t0 + maxMs * 1000000 - time_of w)" arbitrary: w rule: less_induct)
  case less
  obtain t w1 where t: "clock_now win w = (t, w1)" by fastforce
  have order: "time_of w \<le> t \<and> t \<le> time_of w1" "time_of w1 + 5000000 \<le> time_of (sleep_ms win 5 w1)"
    using assms [unfolded clock_documented_def, THEN conjunct1, rule_format, of w]
      assms [unfolded clock_documented_def, THEN conjunct2, rule_format, of w1 5] t by simp_all
  show ?case
  proof (cases "elapsed_ms t0 t < maxMs \<and> \<not> file_contains win path needle w1")
    case True
    then have "t - t0 < maxMs * 1000000" using elapsed_bound by blast
    then have "nat (t0 + maxMs * 1000000 - time_of (sleep_ms win 5 w1)) < nat (t0 + maxMs * 1000000 - time_of w)"
      using order by linarith
    from less [OF this] t True show ?thesis by (subst wait_loop.simps) simp
  next
    case False
    with t show ?thesis by (subst wait_loop.simps) auto
  qed
qed

section \<open>Strings and files\<close>

lemma find_str_at:
  "find_str needle (pre @ needle @ rest) = Some (length pre)"
  if "\<And>k. k < length pre \<Longrightarrow> take (length needle) (drop k (pre @ needle @ rest)) \<noteq> needle"
  using that
proof (induction pre)
  case Nil
  have "find_str needle s = Some 0" if "take (length needle) s = needle" for s
    using that by (cases s) auto
  then show ?case by simp
next
  case (Cons c pre)
  have "find_str needle (pre @ needle @ rest) = Some (length pre)"
  proof (rule Cons.IH)
    fix k
    assume "k < length pre"
    then show "take (length needle) (drop k (pre @ needle @ rest)) \<noteq> needle"
      using Cons.prems [of "Suc k"] by simp
  qed
  with Cons.prems [of 0] show ?case by simp
qed

lemma search_up_found: "search_up win i dir sub name cfg = p \<Longrightarrow> p \<noteq> [] \<Longrightarrow> is_file win p"
proof (induction i arbitrary: dir)
  case (Suc i)
  then show ?case by (auto simp: Let_def split: if_splits option.splits)
qed simp

section \<open>A system for examples\<close>

text \<open>The time, the handles held and the next handle; a file always says READY.\<close>

type_synonym desktop = "int \<times> handle set \<times> handle"

definition demo_desktop :: "desktop WinApi" where
  "demo_desktop = \<lparr>
     delete_path = (\<lambda>_ w. w),
     create_file = (\<lambda>_ (t, H, n). if n \<in> H then (None, t, H, n) else (Some n, t, insert n H, n + 1)),
     create_process = (\<lambda>_ _ _ _ _ (t, H, n).
       if n \<in> H \<or> n + 1 \<in> H then (None, t, H, n) else (Some (n, n + 1), t, H \<union> {n, n + 1}, n + 2)),
     process_id = (\<lambda>h _. ucast h),
     close_handle = (\<lambda>h (t, H, n). (t, H - {h}, n)),
     terminate_and_wait = (\<lambda>_ w. w),
     read_file = (\<lambda>_ _. Some ''READY''),
     clock_now = (\<lambda>(t, H, n). (t, t, H, n)),
     sleep_ms = (\<lambda>k (t, H, n). (t + int k * 1000000, H, n)),
     is_file = (\<lambda>_. True),
     full_path = (\<lambda>p. p),
     module_file = []\<rparr>"

lemma demo_desktop_documented:
  "win_handles_documented demo_desktop (\<lambda>(t, H, n). H)" "clock_documented demo_desktop fst"
  by (auto simp: win_handles_documented_def clock_documented_def demo_desktop_def split: if_splits)

section \<open>Properties\<close>

text \<open>C31: starting a child leaks no handle: whatever step fails, the driver holds the handles it held
  before; a child that was started adds exactly its process and its thread, and the three files
  given to it are closed again.\<close>

theorem spawn_leaks_nothing:
  assumes "win_handles_documented win held"
  shows "case spawn win exe args tempdir prefix w of
      (None, w1) \<Rightarrow> held w1 = held w
    | (Some c, w1) \<Rightarrow> hProcess c \<noteq> hThread c \<and> {hProcess c, hThread c} \<inter> held w = {} \<and>
        held w1 = held w \<union> {hProcess c, hThread c}"
  by (rule spawn_held [OF assms])

theorem spawn_leaks_nothing_witness:
  "\<exists>c w. spawn demo_desktop ''w.exe'' [] ''t'' ''A'' (0, {}, 1) = (Some c, w) \<and>
     (\<lambda>(t, H, n). H) w = {hProcess c, hThread c} \<and> hProcess c \<noteq> hThread c"
proof -
  obtain c w where r: "spawn demo_desktop ''w.exe'' [] ''t'' ''A'' (0, {}, 1) = (Some c, w)"
    by (simp add: spawn_def demo_desktop_def Let_def)
  from spawn_leaks_nothing [OF demo_desktop_documented(1), of "(0, {}, 1)" "''w.exe''" "[]" "''t''" "''A''", unfolded r]
  show ?thesis unfolding r by simp
qed

text \<open>Waiting for a text in a child's output always ends, found or not, when the clock does not
  go back and a sleep takes its time, and its answer is what the file holds at that moment.\<close>

theorem wait_for_returns:
  assumes "clock_documented win time_of"
  shows "\<exists>found w1. wait_for win path needle maxMs w = Some (found, w1) \<and> file_contains win path needle w1 = found"
  using wait_loop_ends [OF assms] by (cases "clock_now win w") (simp add: wait_for_def)

theorem wait_for_returns_witness:
  "\<exists>w1. wait_for demo_desktop ''wA.out.log'' ''READY'' 10000 (0, {}, 1) = Some (True, w1)"
proof -
  have "file_contains demo_desktop ''wA.out.log'' ''READY'' w1" for w1
    by (simp add: file_contains_def demo_desktop_def)
  with wait_for_returns [OF demo_desktop_documented(2), of "''wA.out.log''" "''READY''" 10000 "(0, {}, 1)"]
  show ?thesis by auto
qed

end
