(* ===== verification/Thread_Properties.thy ===== *)
theory Thread_Properties
  imports Coordinator_Threads
begin

text \<open>
  What the coordinator guarantees while its threads run side by side. Each step of the process is
  matched by steps of the thread model of the scheduler (\<open>Interleaving\<close>), in which what a thread
  still has to do is a job (\<open>models\<close>, \<open>process_refines\<close>); a worker whose connection was lost stays shut
  out under every interleaving (\<open>shut_out_step\<close>, \<open>added_plan_selects\<close>); a turn of \<open>serve_step\<close> is what
  a thread does when it is not interrupted (\<open>serve_step_run\<close>). \<open>shared_bump\<close> shows two losses that
  advance the epoch only once.
\<close>

section \<open>The scheduler's view\<close>

text \<open>What a thread still has to do for the scheduler.\<close>

fun pending :: "thread \<Rightarrow> job list" where
  "pending (Filtering con r todo seen) = [SnapshotJob r (Some AlwaysReadyDependency) (map fst seen @ todo)]"
| "pending (Committing con pid cs) = [CommitCall pid cs]"
| "pending (Committed con pid cs br) = [CommitAnswer pid cs br]"
| "pending (Authorizing con pid p) = [HandoffCall pid p]"
| "pending (Authorized con pid h) = [HandoffAnswer pid h]"
| "pending _ = []"

definition jobs_of :: "thread list \<Rightarrow> job multiset" where
  "jobs_of ts = mset (concat (map pending ts))"

fun thread_ok :: "thread \<Rightarrow> bool" where
  "thread_ok (Filtering con r todo seen) \<longleftrightarrow> distinct (map fst seen @ todo)"
| "thread_ok _ \<longleftrightarrow> True"

definition models :: "'w process \<Rightarrow> system \<Rightarrow> bool" where
  "models P S \<longleftrightarrow> sched S = ctx_sched (shared P) \<and> mset (jobs S) = jobs_of (threads P) \<and>
     list_all thread_ok (threads P)"

lemma jobs_of_focus:
  assumes "i < length ts"
  shows "\<exists>M. jobs_of ts = mset (pending (ts ! i)) + M \<and> (\<forall>t. jobs_of (ts[i := t]) = mset (pending t) + M)"
proof (intro exI conjI allI)
  let ?M = "mset (concat (map pending (take i ts))) + mset (concat (map pending (drop (Suc i) ts)))"
  show "jobs_of ts = mset (pending (ts ! i)) + ?M"
    by (subst id_take_nth_drop [OF assms]) (simp add: jobs_of_def)
  show "jobs_of (ts[i := t]) = mset (pending t) + ?M" for t
    using assms by (simp add: upd_conv_take_nth_drop jobs_of_def)
qed

text \<open>The veto a filtered snapshot has seen.\<close>

definition seen_veto :: "(Candidate \<times> WorkerBootId list) list \<Rightarrow> PolicyVeto" where
  "seen_veto seen = \<lparr>
     pv_allows = (\<lambda>c. case map_of seen c of None \<Rightarrow> True | Some f \<Rightarrow> pv_allows (LiveVeto f) c),
     pv_reason = (\<lambda>c. case map_of seen c of None \<Rightarrow> [] | Some f \<Rightarrow> pv_reason (LiveVeto f) c)\<rparr>"

lemma evaluate_same_veto:
  assumes "pv_allows p c = pv_allows q c" "pv_reason p c = pv_reason q c"
  shows "evaluate r c dep (Some p) = evaluate r c dep (Some q)"
proof -
  have "(case (case Some p of None \<Rightarrow> None | Some p \<Rightarrow> if pv_allows p c then None else Some p) of
      Some p \<Rightarrow> reject ES_REJECT_POLICY (''policy veto: '' @ pv_reason p c) RF_PolicyPreference RK_CpuCore
    | None \<Rightarrow> e) =
    (case (case Some q of None \<Rightarrow> None | Some p \<Rightarrow> if pv_allows p c then None else Some p) of
      Some p \<Rightarrow> reject ES_REJECT_POLICY (''policy veto: '' @ pv_reason p c) RF_PolicyPreference RK_CpuCore
    | None \<Rightarrow> e)" for e
    using assms by simp
  then show ?thesis unfolding evaluate_def by (simp only:)
qed

lemma seen_verdict:
  assumes "distinct (map fst seen)" "(c, f) \<in> set seen"
  shows "evaluate r c (Some AlwaysReadyDependency) (Some (seen_veto seen)) = live_verdict r c f"
  using assms by (intro evaluate_same_veto) (simp_all add: seen_veto_def)

lemma seen_filtered:
  assumes "distinct (map fst seen)"
  shows "seen_entries r opts seen = eligible_entries r (Some AlwaysReadyDependency) (Some (seen_veto seen)) opts (map fst seen)"
    and "seen_rejected r seen = rejected_entries r (Some AlwaysReadyDependency) (Some (seen_veto seen)) (map fst seen)"
  using seen_verdict [OF assms, of _ _ r]
  by (auto simp: seen_entries_def eligible_entries_def seen_rejected_def rejected_entries_def filter_map
      intro!: map_cong filter_cong)

section \<open>The process refines the thread model\<close>

text \<open>A message other than the three long ones makes at most one call, under the mutex throughout.\<close>

definition one_call :: "SchedulerState \<Rightarrow> SchedulerState \<Rightarrow> bool" where
  "one_call st st' \<longleftrightarrow> st' = st \<or> (\<exists>op. atomic op \<and> st' = apply_op op st)"

lemma one_callI: "one_call st st" "atomic op \<Longrightarrow> apply_op op st = st' \<Longrightarrow> one_call st st'"
  by (auto simp: one_call_def)

lemma section_one_call:
  "ingest_candidate c st = (ri, s1) \<Longrightarrow> one_call st s1"
  "revalidate pid fp st = (rv, s1) \<Longrightarrow> one_call st s1"
  "one_call st (cancel rid st)" "one_call st (supersede old new why st)"
  using one_callI(2) [of "Ingest c" st s1] one_callI(2) [of "Revalidate pid fp" st s1]
    one_callI(2) [of "Cancel rid" st] one_callI(2) [of "Supersede old new why" st] by auto

lemma handler_one_call:
  "handle_publish host t payload con ctx w = (r, ctx1, w1) \<Longrightarrow> one_call (ctx_sched ctx) (ctx_sched ctx1)"
  "handle_revalidate host payload con ctx w = (r, ctx1, w1) \<Longrightarrow> one_call (ctx_sched ctx) (ctx_sched ctx1)"
  "handle_cancel host payload con ctx w = (r, ctx1, w1) \<Longrightarrow> one_call (ctx_sched ctx) (ctx_sched ctx1)"
  "handle_supersede host payload con ctx w = (r, ctx1, w1) \<Longrightarrow> one_call (ctx_sched ctx) (ctx_sched ctx1)"
  by (auto simp: handle_publish_def handle_revalidate_def handle_cancel_def handle_supersede_def one_callI(1)
      Let_def section_one_call split: sum.splits prod.splits)

lemma handle_frame_atomic:
  assumes "handle_frame host t payload con ctx w = (r, con1, ctx1, w1)"
    and "t \<notin> {SUBMIT_WORKLOAD, COMMIT_REQUEST, EXECUTION_HANDOFF}"
  shows "one_call (ctx_sched ctx) (ctx_sched ctx1)"
proof (cases t)
  case PUBLISH_RESOURCE
  with assms(1) show ?thesis by (auto simp: handle_frame_def intro: handler_one_call split: prod.splits)
next
  case PUBLISH_CAPACITY
  with assms(1) show ?thesis by (auto simp: handle_frame_def intro: handler_one_call split: prod.splits)
next
  case PUBLISH_CONGESTION
  with assms(1) show ?thesis by (auto simp: handle_frame_def intro: handler_one_call split: prod.splits)
next
  case PUBLISH_HEALTH
  with assms(1) show ?thesis by (auto simp: handle_frame_def intro: handler_one_call split: prod.splits)
next
  case REVALIDATE
  with assms(1) show ?thesis by (auto simp: handle_frame_def intro: handler_one_call split: prod.splits)
next
  case CANCEL
  with assms(1) show ?thesis by (auto simp: handle_frame_def intro: handler_one_call split: prod.splits)
next
  case SUPERSEDE
  with assms(1) show ?thesis by (auto simp: handle_frame_def intro: handler_one_call split: prod.splits)
qed (use assms in \<open>auto simp: one_callI(1) handle_frame_def handle_register_def handle_shutdown_def Let_def split: prod.splits sum.splits\<close>)

lemma thread_fails_idle: "thread_fails host con e w = (t, w1) \<Longrightarrow> pending t = [] \<and> thread_ok t"
  by (auto simp: thread_fails_def split: if_splits)

lemma thread_replies_idle: "thread_replies host con m payload w = (t, w1) \<Longrightarrow> pending t = [] \<and> thread_ok t"
  by (auto simp: thread_replies_def dest: thread_fails_idle split: prod.splits sum.splits)

text \<open>What a step of one thread leaves the others with.\<close>

definition follows :: "system \<Rightarrow> job multiset \<Rightarrow> thread \<Rightarrow> Ctx \<Rightarrow> bool" where
  "follows S M t ctx \<longleftrightarrow> thread_ok t \<and>
     (\<exists>S'. sys_step\<^sup>*\<^sup>* S S' \<and> sched S' = ctx_sched ctx \<and> mset (jobs S') = mset (pending t) + M)"

lemma follows_idle:
  assumes "pending t = [] \<and> thread_ok t" "mset (jobs S) = M" "one_call (sched S) (ctx_sched ctx)"
  shows "follows S M t ctx"
proof -
  have "sys_step\<^sup>*\<^sup>* S (S\<lparr>sched := ctx_sched ctx\<rparr>)"
  proof (cases "ctx_sched ctx = sched S")
    case False
    with assms(3) obtain op where "atomic op" "ctx_sched ctx = apply_op op (sched S)"
      by (auto simp: one_call_def)
    then show ?thesis using sys_step.mutex_method [of op S] by simp
  qed simp
  then show ?thesis using assms by (auto simp: follows_def intro!: exI [of _ "S\<lparr>sched := ctx_sched ctx\<rparr>"])
qed

lemma followsI:
  assumes "sys_step S S'" "sched S' = ctx_sched ctx" "mset (jobs S') = mset (pending t) + M" "thread_ok t"
  shows "follows S M t ctx"
  using assms by (auto simp: follows_def)

lemma job_split:
  assumes "mset (jobs S) = add_mset j M"
  obtains xs ys where "jobs S = xs @ j # ys" "mset (xs @ ys) = M"
proof -
  have "j \<in> set (jobs S)" using assms by (metis set_mset_mset union_single_eq_member)
  then obtain xs ys where "jobs S = xs @ j # ys" by (meson split_list)
  with assms that show thesis by simp
qed

lemma snapshot_distinct:
  assumes "sched_ok st"
  shows "distinct (schedule_begin st)"
proof -
  have m: "omap_ok (candidates st)" using assms by (simp add: sched_ok_def)
  have "fst x = candidateId (snd x)" if "x \<in> set (candidates st)" for x
  proof -
    have "omap_find (candidates st) (fst x) = Some (snd x)"
      using that m by (simp add: omap_find_Some_iff)
    then show ?thesis using assms by (simp add: sched_ok_def)
  qed
  then have "map candidateId (schedule_begin st) = map fst (candidates st)"
    by (simp add: schedule_begin_def)
  moreover have "distinct (map fst (candidates st))"
    using m by (simp add: omap_ok_def strict_sorted_iff)
  ultimately show ?thesis by (metis distinct_map)
qed

lemma begin_submit_follows:
  assumes "begin_submit host payload con ctx w = (t, ctx1, w1)" "sched S = ctx_sched ctx" "mset (jobs S) = M"
    and "sched_ok (sched S)"
  shows "follows S M t ctx1"
proof (cases "rd_run dec_request_r payload")
  case (Inl e)
  with assms show ?thesis
    by (auto simp: begin_submit_def one_callI(1) intro!: follows_idle dest: thread_fails_idle split: prod.splits)
next
  case (Inr r)
  show ?thesis
  proof (cases "validate (demand r)")
    case (Inl e)
    with assms \<open>rd_run dec_request_r payload = Inr r\<close> show ?thesis
      by (auto simp: begin_submit_def one_callI(1) intro!: follows_idle dest: thread_fails_idle split: prod.splits)
  next
    case valid: (Inr u)
    then have start: "sys_step S (S\<lparr>jobs := SnapshotJob r (Some AlwaysReadyDependency) (schedule_begin (sched S)) # jobs S\<rparr>)"
      by (intro sys_step.schedule_start) simp
    from Inr valid assms show ?thesis
      by (intro followsI [OF start]) (auto simp: begin_submit_def snapshot_distinct)
  qed
qed

lemma begin_commit_follows:
  assumes "begin_commit host payload con ctx w = (t, ctx1, w1)" "sched S = ctx_sched ctx" "mset (jobs S) = M"
  shows "follows S M t ctx1"
proof (cases "rd_run get_id payload :: PlacementPlanId res")
  case (Inl e)
  with assms show ?thesis
    by (auto simp: begin_commit_def one_callI(1) intro!: follows_idle dest: thread_fails_idle split: prod.splits)
next
  case (Inr pid)
  show ?thesis
  proof (cases rule: commit_begin_cases [of pid "ctx_sched ctx"])
    case (1 p)
    then have "commit_begin pid (sched S) = (Inr (Proceed (claims p)), move_plan pid p AWAITING_RESOURCE_COMMIT (sched S))"
      using assms(2) by simp
    from sys_step.commit_start [OF this] show ?thesis
      by (rule followsI) (use assms Inr 1 in \<open>auto simp: begin_commit_def\<close>)
  next
    case (2 why)
    with assms Inr show ?thesis
      by (auto simp: begin_commit_def answer_commit_def one_callI(1) intro!: follows_idle dest: thread_replies_idle
          split: prod.splits)
  qed
qed

lemma begin_handoff_follows:
  assumes "begin_handoff host payload con ctx w = (t, ctx1, w1)" "sched S = ctx_sched ctx" "mset (jobs S) = M"
  shows "follows S M t ctx1"
proof (cases "rd_run get_id payload :: PlacementPlanId res")
  case (Inl e)
  with assms show ?thesis
    by (auto simp: begin_handoff_def one_callI(1) intro!: follows_idle dest: thread_fails_idle split: prod.splits)
next
  case (Inr pid)
  show ?thesis
  proof (cases rule: handoff_begin_cases [of pid "ctx_sched ctx"])
    case (1 p)
    then have "handoff_begin pid (sched S) = (Inr (Proceed p), move_plan pid p AWAITING_EXECUTION (sched S))"
      using assms(2) by simp
    from sys_step.handoff_start [OF this] show ?thesis
      by (rule followsI) (use assms Inr 1 in \<open>auto simp: begin_handoff_def\<close>)
  next
    case 2
    with assms Inr show ?thesis
      by (auto simp: begin_handoff_def answer_handoff_def one_callI(1) intro!: follows_idle dest: thread_replies_idle
          split: prod.splits)
  qed
qed

lemma begin_message_follows:
  assumes "begin_message host m payload con ctx w = (t, ctx1, w1)" "sched S = ctx_sched ctx" "mset (jobs S) = M"
    and "sched_ok (sched S)"
  shows "follows S M t ctx1"
proof (cases "m \<in> {SUBMIT_WORKLOAD, COMMIT_REQUEST, EXECUTION_HANDOFF}")
  case True
  with assms(1) consider "begin_submit host payload con ctx w = (t, ctx1, w1)"
    | "begin_commit host payload con ctx w = (t, ctx1, w1)" | "begin_handoff host payload con ctx w = (t, ctx1, w1)"
    by (auto simp: begin_message_def)
  then show ?thesis
    using begin_submit_follows [OF _ assms(2-4)] begin_commit_follows [OF _ assms(2-3)]
      begin_handoff_follows [OF _ assms(2-3)] by cases
next
  case False
  show ?thesis
  proof (cases "m = HELLO")
    case True
    with assms show ?thesis by (auto simp: begin_message_def one_callI(1) intro!: follows_idle)
  next
    case hello: False
    obtain r con1 ctx2 w2 where h: "handle_frame host m payload con ctx w = (r, con1, ctx2, w2)"
      by (metis prod_cases4)
    from handle_frame_atomic [OF h False] have "one_call (sched S) (ctx_sched ctx2)"
      using assms(2) by simp
    moreover from assms(1) False hello h have "ctx1 = ctx2 \<and> pending t = [] \<and> thread_ok t"
      by (auto simp: begin_message_def dest: thread_fails_idle split: sum.splits bool.splits prod.splits)
    ultimately show ?thesis using assms(3) by (intro follows_idle) simp_all
  qed
qed

text \<open>The last section of each long handler.\<close>

lemma follows_run:
  assumes "sys_step S S1" "sys_step S1 S'" "sched S' = ctx_sched ctx" "mset (jobs S') = M" "pending t = [] \<and> thread_ok t"
  shows "follows S M t ctx"
proof -
  have "sys_step\<^sup>*\<^sup>* S S'" using assms(1,2) by (meson rtranclp.rtrancl_refl rtranclp.rtrancl_into_rtrancl)
  with assms(3-5) show ?thesis by (auto simp: follows_def)
qed

lemma end_submit_follows:
  assumes "end_submit host con r seen ctx w = (t, ctx1, w1)" "sched S = ctx_sched ctx"
    and "mset (jobs S) = mset (pending (Filtering con r [] seen)) + M" "distinct (map fst seen)"
  shows "follows S M t ctx1"
proof -
  let ?dep = "Some AlwaysReadyDependency" and ?st = "sched S"
  let ?es = "std_sort entry_less (seen_entries r (rankOptions ?st) seen)"
  obtain xs ys where jobs: "jobs S = xs @ SnapshotJob r ?dep (map fst seen) # ys" "mset (xs @ ys) = M"
    using assms(3) by (auto elim: job_split)
  let ?S1 = "S\<lparr>jobs := xs @ ScheduleJob r ?dep ?es (seen_rejected r seen) # ys\<rparr>"
  let ?S2 = "S\<lparr>sched := snd (schedule_finish r ?dep ?es (seen_rejected r seen) ?st), jobs := xs @ ys\<rparr>"
  have 1: "sys_step S ?S1"
    using sys_step.schedule_filter [OF jobs(1), of "Some (seen_veto seen)"] by (simp add: seen_filtered [OF assms(4)])
  have 2: "sys_step ?S1 ?S2"
    using sys_step.schedule_end [of ?S1 xs r ?dep ?es "seen_rejected r seen" ys] by simp
  have "sched ?S2 = ctx_sched ctx1" "pending t = [] \<and> thread_ok t"
    using assms(1,2) by (auto simp: end_submit_def Let_def dest: thread_fails_idle thread_replies_idle
        split: prod.splits sum.splits)
  moreover have "mset (jobs ?S2) = M" using jobs(2) by simp
  ultimately show ?thesis by (intro follows_run [OF 1 2])
qed

lemma end_commit_follows:
  assumes "end_commit host con pid cs br ctx w = (t, ctx1, w1)" "sched S = ctx_sched ctx"
    and "mset (jobs S) = add_mset (CommitAnswer pid cs br) M"
  shows "follows S M t ctx1"
proof -
  obtain xs ys where jobs: "jobs S = xs @ CommitAnswer pid cs br # ys" "mset (xs @ ys) = M"
    using assms(3) by (auto elim: job_split)
  obtain out rel st where fin: "commit_finish pid cs br (sched S) = (Inr (out, rel), st)"
    by (cases rule: commit_finish_cases [of pid "sched S" br cs]) (metis prod.collapse)+
  from sys_step.commit_end [OF jobs(1) fin] show ?thesis
    by (rule followsI)
      (use assms fin jobs(2) in \<open>auto simp: end_commit_def answer_commit_def dest: thread_replies_idle split: prod.splits\<close>)
qed

lemma end_handoff_follows:
  assumes "end_handoff host con pid h ctx w = (t, ctx1, w1)" "sched S = ctx_sched ctx"
    and "mset (jobs S) = add_mset (HandoffAnswer pid h) M"
  shows "follows S M t ctx1"
proof -
  obtain xs ys where jobs: "jobs S = xs @ HandoffAnswer pid h # ys" "mset (xs @ ys) = M"
    using assms(3) by (auto elim: job_split)
  obtain r st where fin: "handoff_finish pid h (sched S) = (r, st)" by fastforce
  from sys_step.handoff_end [OF jobs(1) fin] show ?thesis
    by (rule followsI)
      (use assms fin jobs(2) in \<open>auto simp: end_handoff_def answer_handoff_def
         dest: thread_replies_idle thread_fails_idle split: prod.splits sum.splits\<close>)
qed

lemma thread_step_follows:
  assumes "thread_step hosts t ctx w = (t', ctx', w')" "sched S = ctx_sched ctx"
    and "mset (jobs S) = mset (pending t) + M" "thread_ok t" "sched_ok (sched S)"
  shows "follows S M t' ctx'"
proof (cases rule: thread_step.cases [of "(hosts, t, ctx, w)"])
  case (1 hosts con ctx w)
  with assms show ?thesis by (auto simp: one_callI(1) intro!: follows_idle)
next
  case (2 hosts con ctx w)
  let ?host = "hosts (con_channel con)"
  show ?thesis
  proof (cases "recv_frame (host_socket ?host) (con_channel con) w")
    case (Pair a w1)
    show ?thesis
    proof (cases a)
      case (Inl e)
      with 2 Pair assms show ?thesis by (auto simp: one_callI(1) intro!: follows_idle)
    next
      case (Inr b)
      with 2 Pair assms(1) have "begin_message ?host (fst b) (snd b) con ctx w1 = (t', ctx', w')"
        by (cases b) simp
      then show ?thesis by (rule begin_message_follows) (use 2 assms in simp_all)
    qed
  qed
next
  case (3 hosts con r c todo seen ctx w)
  with assms show ?thesis by (auto simp: follows_def intro!: exI [of _ S])
next
  case (4 hosts con r seen ctx w)
  with assms end_submit_follows show ?thesis by auto
next
  case (5 hosts con pid cs ctx w)
  obtain br b1 where b: "InMemoryBroker_commit cs (ctx_broker ctx) = (br, b1)" by fastforce
  obtain xs ys where jobs: "jobs S = xs @ CommitCall pid cs # ys" "mset (xs @ ys) = M"
    using 5 assms(3) by (auto elim: job_split)
  from sys_step.broker_answer [OF jobs(1), of br] show ?thesis
    by (rule followsI) (use 5 b assms jobs(2) in \<open>auto simp: Let_def\<close>)
next
  case (6 hosts con pid cs br ctx w)
  with assms end_commit_follows show ?thesis by auto
next
  case (7 hosts con pid p ctx w)
  let ?h = "fst (CurrentAuthorityExec_authorize p (current_authority (ctx_sched ctx)))"
  obtain xs ys where jobs: "jobs S = xs @ HandoffCall pid p # ys" "mset (xs @ ys) = M"
    using 7 assms(3) by (auto elim: job_split)
  from sys_step.exec_answer [OF jobs(1), of ?h] show ?thesis
    by (rule followsI) (use 7 assms jobs(2) in auto)
next
  case (8 hosts con pid h ctx w)
  with assms end_handoff_follows show ?thesis by auto
next
  case (9 hosts boot ctx w)
  with assms one_callI(2) [of "FenceWorker boot" "ctx_sched ctx"] show ?thesis
    by (auto intro!: follows_idle)
next
  case (12 hosts cur ctx w)
  with assms one_callI(2) [of "SetEpoch (StrongId (id_value cur + 1))" "ctx_sched ctx"] show ?thesis
    by (auto intro!: follows_idle)
next
  case (14 hosts con ep ctx w)
  with assms show ?thesis
    by (auto simp: end_hello_def one_callI(1) intro!: follows_idle dest: thread_replies_idle split: prod.splits)
qed (use assms in \<open>auto simp: one_callI(1) intro!: follows_idle\<close>)

lemma process_refines:
  assumes "proc_step api hosts P P'" "models P S" "sched_ok (sched S)"
  shows "\<exists>S'. sys_step\<^sup>*\<^sup>* S S' \<and> models P' S'"
  using assms(1)
proof cases
  case main
  have "jobs_of (threads (main_step api P)) = jobs_of (threads P)" "shared (main_step api P) = shared P"
    "list_all thread_ok (threads (main_step api P)) = list_all thread_ok (threads P)"
    by (auto simp: main_step_def jobs_of_def split: main_state.split prod.split option.split)
  with assms(2) main show ?thesis by (intro exI [of _ S]) (simp add: models_def)
next
  case (thread i t ctx w)
  obtain M where M: "jobs_of (threads P) = mset (pending (threads P ! i)) + M"
    "\<forall>t. jobs_of ((threads P)[i := t]) = mset (pending t) + M"
    using jobs_of_focus [OF thread(3)] by blast
  have ok: "\<forall>t \<in> set (threads P). thread_ok t" using assms(2) by (simp add: models_def list_all_iff)
  have "follows S M t ctx"
    by (rule thread_step_follows [OF thread(4)]) (use assms M ok thread(3) in \<open>auto simp: models_def\<close>)
  then obtain S' where S': "sys_step\<^sup>*\<^sup>* S S'" "sched S' = ctx_sched ctx" "mset (jobs S') = mset (pending t) + M"
    and "thread_ok t" unfolding follows_def by blast
  then have "\<forall>u \<in> set ((threads P)[i := t]). thread_ok u"
    using ok set_update_subset_insert [of "threads P" i t] by blast
  with S' M(2) thread(1) show ?thesis by (intro exI [of _ S']) (simp add: models_def list_all_iff)
qed

lemma start_models: "models (start_process path l w) (sys_init coordinator_config)"
  by (simp add: models_def start_process_def new_coordinator_def sys_init_def jobs_of_def)

lemma process_reachable:
  assumes "(proc_step api hosts)\<^sup>*\<^sup>* (start_process path l w) P"
  shows "\<exists>S. reachable coordinator_config S \<and> models P S"
  using assms
proof (induction rule: rtranclp_induct)
  case base
  show ?case by (intro exI [of _ "sys_init coordinator_config"] conjI reachable.start start_models)
next
  case (step P P')
  then obtain S where S: "reachable coordinator_config S" "models P S" by blast
  then obtain S' where "sys_step\<^sup>*\<^sup>* S S'" "models P' S'"
    using process_refines [OF step(2) S(2) conjunct1 [OF reachable_ok [OF S(1)]]] by (elim exE conjE)
  with steps_reachable [OF _ S(1)] show ?case by metis
qed

section \<open>A lost worker stays shut out\<close>

text \<open>A schedule under way that asked the veto about a candidate of the boot before it was fenced.\<close>

fun trusts :: "WorkerBootId \<Rightarrow> thread \<Rightarrow> bool" where
  "trusts b (Filtering con r todo seen) \<longleftrightarrow> (\<exists>(c, f) \<in> set seen. workerBootId c = b \<and> b \<notin> set f)"
| "trusts b _ \<longleftrightarrow> False"

definition shut_out :: "WorkerBootId \<Rightarrow> 'w process \<Rightarrow> bool" where
  "shut_out b P \<longleftrightarrow> b \<in> set (live_fenced (shared P)) \<and> (\<forall>t \<in> set (threads P). \<not> trusts b t)"

lemma handlers_live:
  "live_fenced (fst (snd (handle_publish host t payload con ctx w))) = live_fenced ctx"
  "live_fenced (fst (snd (handle_submit host payload con ctx w))) = live_fenced ctx"
  "live_fenced (fst (snd (handle_commit host payload con ctx w))) = live_fenced ctx"
  "live_fenced (fst (snd (handle_handoff host payload con ctx w))) = live_fenced ctx"
  "live_fenced (fst (snd (handle_revalidate host payload con ctx w))) = live_fenced ctx"
  "live_fenced (fst (snd (handle_cancel host payload con ctx w))) = live_fenced ctx"
  "live_fenced (fst (snd (handle_supersede host payload con ctx w))) = live_fenced ctx"
  by (auto simp: handle_publish_def handle_submit_def handle_commit_def handle_handoff_def
      handle_revalidate_def handle_cancel_def handle_supersede_def Let_def split: sum.split prod.split)

lemma thread_fails_trusts: "thread_fails host con e w = (t, w1) \<Longrightarrow> \<not> trusts b t"
  by (auto simp: thread_fails_def split: if_splits)

lemma thread_replies_trusts: "thread_replies host con m payload w = (t, w1) \<Longrightarrow> \<not> trusts b t"
  by (auto simp: thread_replies_def dest: thread_fails_trusts split: prod.splits sum.splits)

lemmas no_trust = thread_fails_trusts thread_replies_trusts

lemma begin_message_trusts:
  assumes "begin_message host m payload con ctx w = (t, ctx1, w1)" "sched_ok (ctx_sched ctx)"
  shows "\<not> trusts b t" "live_fenced ctx1 = live_fenced ctx"
proof -
  have "\<not> trusts b t \<and> live_fenced ctx1 = live_fenced ctx"
  proof (cases "m \<in> {SUBMIT_WORKLOAD, COMMIT_REQUEST, EXECUTION_HANDOFF}")
    case True
    then consider "begin_submit host payload con ctx w = (t, ctx1, w1)"
      | "begin_commit host payload con ctx w = (t, ctx1, w1)" | "begin_handoff host payload con ctx w = (t, ctx1, w1)"
      using assms(1) by (auto simp: begin_message_def)
    then show ?thesis
    proof cases
      case 1
      then show ?thesis by (auto simp: begin_submit_def dest: no_trust split: sum.splits prod.splits)
    next
      case 2
      then show ?thesis by (auto simp: begin_commit_def answer_commit_def dest: no_trust
          split: sum.splits prod.splits section_result.splits)
    next
      case 3
      then show ?thesis by (auto simp: begin_handoff_def answer_handoff_def dest: no_trust
          split: sum.splits prod.splits section_result.splits)
    qed
  next
    case False
    obtain r con1 ctx2 w2 where h: "handle_frame host m payload con ctx w = (r, con1, ctx2, w2)"
      by (metis prod_cases4)
    from assms(1) False h have "m = HELLO \<and> ctx1 = ctx \<and> \<not> trusts b t \<or> ctx1 = ctx2 \<and> \<not> trusts b t"
      by (auto simp: begin_message_def dest: no_trust split: sum.splits bool.splits prod.splits if_splits)
    with handle_frame_effect(1) [OF assms(2) h] show ?thesis by (auto simp: turn_effect_def)
  qed
  then show "\<not> trusts b t" "live_fenced ctx1 = live_fenced ctx" by simp_all
qed

lemma thread_step_trusts:
  assumes "thread_step hosts t ctx w = (t', ctx', w')" "sched_ok (ctx_sched ctx)"
  shows "trusts b t' \<Longrightarrow> trusts b t \<or> b \<notin> set (live_fenced ctx)"
    and "set (live_fenced ctx) \<subseteq> set (live_fenced ctx')"
proof -
  have "(trusts b t' \<longrightarrow> trusts b t \<or> b \<notin> set (live_fenced ctx)) \<and> set (live_fenced ctx) \<subseteq> set (live_fenced ctx')"
  proof (cases rule: thread_step.cases [of "(hosts, t, ctx, w)"])
    case (2 hosts con ctx w)
    with assms show ?thesis
      by (auto simp: Let_def begin_message_trusts(2) dest: begin_message_trusts(1) [of _ _ _ _ _ _ _ _ _ b]
          split: sum.splits prod.splits if_splits)
  next
    case (4 hosts con r seen ctx w)
    with assms show ?thesis
      by (auto simp: end_submit_def Let_def dest: no_trust split: sum.splits prod.splits)
  next
    case (6 hosts con pid cs br ctx w)
    with assms show ?thesis
      by (auto simp: end_commit_def answer_commit_def Let_def dest: no_trust split: sum.splits prod.splits)
  next
    case (8 hosts con pid h ctx w)
    with assms show ?thesis
      by (auto simp: end_handoff_def answer_handoff_def Let_def dest: no_trust split: sum.splits prod.splits)
  next
    case (14 hosts con ep ctx w)
    with assms show ?thesis by (auto simp: end_hello_def dest: no_trust split: prod.splits)
  qed (use assms in \<open>auto simp: Let_def split: if_splits prod.splits\<close>)
  then show "trusts b t' \<Longrightarrow> trusts b t \<or> b \<notin> set (live_fenced ctx)"
    and "set (live_fenced ctx) \<subseteq> set (live_fenced ctx')" by blast+
qed

text \<open>Only the end of a SUBMIT_WORKLOAD adds a plan.\<close>

definition no_new_plan :: "SchedulerState \<Rightarrow> SchedulerState \<Rightarrow> bool" where
  "no_new_plan st st' \<longleftrightarrow> (\<forall>k. omap_find (plans st) k = None \<longrightarrow> omap_find (plans st') k = None)"

lemma section_no_new_plan:
  assumes "sched_ok st" "\<And>r dep es rej. op \<noteq> ScheduleFinish r dep es rej"
  shows "no_new_plan st (apply_op op st)"
  using op_same_store [OF assms] by (simp add: same_store_def no_new_plan_def)

lemma one_call_no_new_plan: "one_call st st' \<Longrightarrow> sched_ok st \<Longrightarrow> no_new_plan st st'"
  by (auto simp: one_call_def no_new_plan_def [of st st] intro!: section_no_new_plan)

lemma thread_section_no_new_plan:
  assumes "sched_ok (ctx_sched ctx)"
  shows "begin_submit host payload con ctx w = (t, ctx1, w1) \<Longrightarrow> no_new_plan (ctx_sched ctx) (ctx_sched ctx1)"
    and "begin_commit host payload con ctx w = (t, ctx1, w1) \<Longrightarrow> no_new_plan (ctx_sched ctx) (ctx_sched ctx1)"
    and "begin_handoff host payload con ctx w = (t, ctx1, w1) \<Longrightarrow> no_new_plan (ctx_sched ctx) (ctx_sched ctx1)"
    and "end_commit host con pid cs br ctx w = (t, ctx1, w1) \<Longrightarrow> no_new_plan (ctx_sched ctx) (ctx_sched ctx1)"
    and "end_handoff host con pid h ctx w = (t, ctx1, w1) \<Longrightarrow> no_new_plan (ctx_sched ctx) (ctx_sched ctx1)"
proof -
  have same: "no_new_plan st st" for st by (simp add: no_new_plan_def)
  have 1: "commit_begin pid (ctx_sched ctx) = (r, st) \<Longrightarrow> no_new_plan (ctx_sched ctx) st" for pid r st
    using section_no_new_plan [OF assms, of "CommitBegin pid"] by simp
  have 2: "commit_finish pid cs br (ctx_sched ctx) = (r, st) \<Longrightarrow> no_new_plan (ctx_sched ctx) st" for r st
    using section_no_new_plan [OF assms, of "CommitFinish pid cs br"] by simp
  have 3: "handoff_begin pid (ctx_sched ctx) = (r, st) \<Longrightarrow> no_new_plan (ctx_sched ctx) st" for pid r st
    using section_no_new_plan [OF assms, of "HandoffBegin pid"] by simp
  have 4: "handoff_finish pid h (ctx_sched ctx) = (r, st) \<Longrightarrow> no_new_plan (ctx_sched ctx) st" for r st
    using section_no_new_plan [OF assms, of "HandoffFinish pid h"] by simp
  show "begin_submit host payload con ctx w = (t, ctx1, w1) \<Longrightarrow> no_new_plan (ctx_sched ctx) (ctx_sched ctx1)"
    by (auto simp: begin_submit_def same split: sum.splits prod.splits)
  show "begin_commit host payload con ctx w = (t, ctx1, w1) \<Longrightarrow> no_new_plan (ctx_sched ctx) (ctx_sched ctx1)"
    by (auto simp: begin_commit_def same 1 split: sum.splits prod.splits section_result.splits)
  show "begin_handoff host payload con ctx w = (t, ctx1, w1) \<Longrightarrow> no_new_plan (ctx_sched ctx) (ctx_sched ctx1)"
    by (auto simp: begin_handoff_def same 3 split: sum.splits prod.splits section_result.splits)
  show "end_commit host con pid cs br ctx w = (t, ctx1, w1) \<Longrightarrow> no_new_plan (ctx_sched ctx) (ctx_sched ctx1)"
    by (auto simp: end_commit_def Let_def 2 split: sum.splits prod.splits)
  show "end_handoff host con pid h ctx w = (t, ctx1, w1) \<Longrightarrow> no_new_plan (ctx_sched ctx) (ctx_sched ctx1)"
    by (auto simp: end_handoff_def 4 split: sum.splits prod.splits)
qed

lemma begin_message_no_new_plan:
  assumes "begin_message host m payload con ctx w = (t, ctx1, w1)" "sched_ok (ctx_sched ctx)"
  shows "no_new_plan (ctx_sched ctx) (ctx_sched ctx1)"
proof (cases "m \<in> {SUBMIT_WORKLOAD, COMMIT_REQUEST, EXECUTION_HANDOFF}")
  case True
  with assms(1) thread_section_no_new_plan [OF assms(2)] show ?thesis
    by (auto simp: begin_message_def)
next
  case False
  obtain r con1 ctx2 w2 where h: "handle_frame host m payload con ctx w = (r, con1, ctx2, w2)"
    by (metis prod_cases4)
  with assms(1) False have "ctx1 = ctx \<or> ctx1 = ctx2"
    by (auto simp: begin_message_def split: sum.splits bool.splits prod.splits if_splits)
  moreover have "no_new_plan (ctx_sched ctx) (ctx_sched ctx)" by (simp add: no_new_plan_def)
  ultimately show ?thesis using one_call_no_new_plan [OF handle_frame_atomic [OF h False] assms(2)] by auto
qed

lemma new_plan_from_submit:
  assumes "thread_step hosts t ctx w = (t', ctx', w')" "sched_ok (ctx_sched ctx)"
    and "\<not> no_new_plan (ctx_sched ctx) (ctx_sched ctx')"
  obtains con r seen where "t = Filtering con r [] seen"
    "ctx_sched ctx' = snd (schedule_finish r (Some AlwaysReadyDependency)
       (std_sort entry_less (seen_entries r (rankOptions (ctx_sched ctx)) seen)) (seen_rejected r seen) (ctx_sched ctx))"
proof (cases rule: thread_step.cases [of "(hosts, t, ctx, w)"])
  case (2 hosts con ctx w)
  with assms begin_message_no_new_plan show thesis
    by (fastforce simp: Let_def no_new_plan_def [of x x for x] split: sum.splits prod.splits if_splits)
next
  case (4 hosts con r seen ctx w)
  with assms show thesis
    by (intro that [of con r seen]) (auto simp: end_submit_def Let_def split: sum.splits prod.splits)
next
  case (6 hosts con pid cs br ctx w)
  with assms thread_section_no_new_plan(4) show thesis by (metis Pair_inject thread_step.simps(6))
next
  case (8 hosts con pid h ctx w)
  with assms thread_section_no_new_plan(5) show thesis by (metis Pair_inject thread_step.simps(8))
next
  case (9 hosts boot ctx w)
  with assms section_no_new_plan [of "ctx_sched ctx" "FenceWorker boot"] show thesis by auto
next
  case (12 hosts cur ctx w)
  with assms section_no_new_plan [of "ctx_sched ctx" "SetEpoch (StrongId (id_value cur + 1))"] show thesis by auto
next
  case (14 hosts con ep ctx w)
  with assms show thesis by (auto simp: no_new_plan_def end_hello_def split: prod.splits)
qed (use assms in \<open>auto simp: no_new_plan_def Let_def split: if_splits prod.splits\<close>)

lemma shut_out_step:
  assumes "proc_step api hosts P P'" "sched_ok (ctx_sched (shared P))" "shut_out b P"
  shows "shut_out b P'"
  using assms(1)
proof cases
  case main
  have "shared (main_step api P) = shared P" "\<forall>t \<in> set (threads (main_step api P)). trusts b t \<longrightarrow> t \<in> set (threads P)"
    by (auto simp: main_step_def split: main_state.split prod.split option.split)
  with assms(3) main show ?thesis by (auto simp: shut_out_def)
next
  case (thread i t ctx w)
  have "\<not> trusts b (threads P ! i)" "b \<in> set (live_fenced (shared P))"
    using assms(3) thread(3) by (auto simp: shut_out_def)
  then have "\<not> trusts b t" "b \<in> set (live_fenced ctx)"
    using thread_step_trusts [OF thread(4) assms(2)] by blast+
  with assms(3) thread(1) show ?thesis
    by (auto simp: shut_out_def dest!: set_update_subset_insert [THEN subsetD])
qed

lemma allowed_not_fenced: "eligible (live_verdict r c f) \<Longrightarrow> workerBootId c \<notin> set f"
  by (simp add: eligible_def evaluate_eligible meets_hard_constraints_def policy_met_def LiveVeto_def Let_def)

lemma added_plan_selects:
  assumes "thread_step hosts t ctx w = (t', ctx', w')" "sched_ok (ctx_sched ctx)"
    and "omap_find (plans (ctx_sched ctx)) k = None" "omap_find (plans (ctx_sched ctx')) k = Some p"
  obtains con r seen rk c f es where "t = Filtering con r [] seen" "(c, f) \<in> set seen" "workerBootId c \<notin> set f"
    "p = fresh_plan r (Some AlwaysReadyDependency) (seen_rejected r seen) (rk, c) es (ctx_sched ctx)"
    "selectedCandidate p = candidateId c"
proof -
  let ?st = "ctx_sched ctx"
  have "\<not> no_new_plan ?st (ctx_sched ctx')" using assms(3,4) by (auto simp: no_new_plan_def)
  then obtain con r seen where t: "t = Filtering con r [] seen"
    and st: "ctx_sched ctx' = snd (schedule_finish r (Some AlwaysReadyDependency)
       (std_sort entry_less (seen_entries r (rankOptions ?st) seen)) (seen_rejected r seen) ?st)"
    using new_plan_from_submit [OF assms(1,2)] by blast
  let ?es = "std_sort entry_less (seen_entries r (rankOptions ?st) seen)"
  obtain rk c es where es: "?es = (rk, c) # es"
    using assms(3,4) st by (cases ?es) (auto simp: schedule_finish_Nil)
  then have "(rk, c) \<in> set (seen_entries r (rankOptions ?st) seen)"
    by (metis list.set_intros(1) set_std_sort)
  then obtain f where f: "(c, f) \<in> set seen" "eligible (live_verdict r c f)" "rk = Ranker_evaluate r c (rankOptions ?st)"
    by (auto simp: seen_entries_def)
  have p: "p = fresh_plan r (Some AlwaysReadyDependency) (seen_rejected r seen) (rk, c) es ?st"
    using assms(3,4) sched_ok_plans [OF assms(2)] unfolding st es
    by (auto simp: schedule_finish_Cons omap_find_emplace split: if_splits option.splits)
  moreover have "selectedCandidate p = candidateId c"
    unfolding p by (simp add: f(3))
  ultimately show thesis using that t f(1) allowed_not_fenced [OF f(2)] by blast
qed

lemma run_shut_out:
  assumes "reachable cfg S" "models P S" "shut_out b P" "(proc_step api hosts)\<^sup>*\<^sup>* P Q"
  shows "shut_out b Q \<and> sched_ok (ctx_sched (shared Q))"
proof -
  have "shut_out b Q \<and> (\<exists>S'. reachable cfg S' \<and> models Q S')"
    using assms(4)
  proof (induction rule: rtranclp_induct)
    case base
    show ?case using assms(1-3) by metis
  next
    case (step Q R)
    then obtain S' where S': "reachable cfg S'" "models Q S'" by metis
    then have ok: "sched_ok (sched S')" using reachable_ok by metis
    with process_refines [OF step(2) S'(2)] obtain S2 where "sys_step\<^sup>*\<^sup>* S' S2" "models R S2" by metis
    moreover have "shut_out b R"
      using shut_out_step [OF step(2)] step(3) ok S'(2) by (simp add: models_def)
    ultimately show ?case using steps_reachable [OF _ S'(1)] by metis
  qed
  then show ?thesis using reachable_ok unfolding models_def by metis
qed

lemma no_plan_when_shut_out:
  assumes "proc_step api hosts Q R" "sched_ok (ctx_sched (shared Q))" "shut_out b Q"
    and "omap_find (plans (ctx_sched (shared Q))) k = None" "omap_find (plans (ctx_sched (shared R))) k = Some p"
  obtains con r seen rk c es where "Filtering con r [] seen \<in> set (threads Q)" "c \<in> fst ` set seen" "workerBootId c \<noteq> b"
    "p = fresh_plan r (Some AlwaysReadyDependency) (seen_rejected r seen) (rk, c) es (ctx_sched (shared Q))"
    "selectedCandidate p = candidateId c"
  using assms(1)
proof cases
  case main
  have "shared (main_step api Q) = shared Q"
    by (auto simp: main_step_def split: main_state.split prod.split option.split)
  with main assms(4,5) show thesis by simp
next
  case (thread i t ctx w)
  have k: "omap_find (plans (ctx_sched ctx)) k = Some p" using thread(1) assms(5) by simp
  obtain con r seen rk c f es where *: "threads Q ! i = Filtering con r [] seen" "(c, f) \<in> set seen" "workerBootId c \<notin> set f"
    "p = fresh_plan r (Some AlwaysReadyDependency) (seen_rejected r seen) (rk, c) es (ctx_sched (shared Q))"
    "selectedCandidate p = candidateId c"
    using added_plan_selects [OF thread(4) assms(2,4) k] by metis
  moreover have in_Q: "Filtering con r [] seen \<in> set (threads Q)"
    using *(1) thread(3) nth_mem by metis
  moreover have "\<not> trusts b (Filtering con r [] seen)" using assms(3) in_Q unfolding shut_out_def by blast
  then have "workerBootId c \<noteq> b" using *(2,3) by auto
  ultimately show thesis using that by force
qed

section \<open>A turn is an uninterrupted run\<close>

definition thread_run :: "(TcpChannel \<Rightarrow> 'w Host) \<Rightarrow> thread \<times> Ctx \<times> 'w \<Rightarrow> thread \<times> Ctx \<times> 'w \<Rightarrow> bool" where
  "thread_run hosts = (\<lambda>(t, ctx, w) y. thread_step hosts t ctx w = y)\<^sup>*\<^sup>*"

lemma run_refl [simp]: "thread_run hosts x x"
  by (simp add: thread_run_def)

lemma run_step: "thread_run hosts (thread_step hosts t ctx w) y \<Longrightarrow> thread_run hosts (t, ctx, w) y"
  unfolding thread_run_def by (rule converse_rtranclp_into_rtranclp) auto

lemma run_trans: "thread_run hosts x y \<Longrightarrow> thread_run hosts y z \<Longrightarrow> thread_run hosts x z"
  unfolding thread_run_def by (rule rtranclp_trans)

lemma dropping_run: "thread_run hosts (Dropping b, ctx, w) (Finished, fence_worker_and_bump b ctx, w)"
  by (intro run_step) (simp add: run_step fence_worker_and_bump_def Let_def split: prod.split)

text \<open>How a handler's result is dealt with.\<close>

definition settled :: "'w Host \<Rightarrow> bool res \<times> Connection \<times> Ctx \<times> 'w \<Rightarrow> thread \<times> Ctx \<times> 'w" where
  "settled host res =
     (case res of
        (Inr True, con1, ctx1, w1) \<Rightarrow> (Finished, ctx1, w1)
      | (Inr False, con1, ctx1, w1) \<Rightarrow> (Checking con1, ctx1, w1)
      | (Inl e, con1, ctx1, w1) \<Rightarrow> (let (t1, w2) = thread_fails host con1 e w1 in (t1, ctx1, w2)))"

abbreviation stays_on :: "Connection \<Rightarrow> unit res \<times> Ctx \<times> 'w \<Rightarrow> bool res \<times> Connection \<times> Ctx \<times> 'w" where
  "stays_on con \<equiv> \<lambda>(r, ctx1, w1). (map_sum id (\<lambda>_. False) r, con, ctx1, w1)"

lemma seen_at_once:
  "seen_entries r opts (map (\<lambda>c. (c, f)) cs) = eligible_entries r (Some AlwaysReadyDependency) (Some (LiveVeto f)) opts cs"
  "seen_rejected r (map (\<lambda>c. (c, f)) cs) = rejected_entries r (Some AlwaysReadyDependency) (Some (LiveVeto f)) cs"
  by (simp_all add: seen_entries_def seen_rejected_def eligible_entries_def rejected_entries_def filter_map o_def)

lemma filtering_run:
  "thread_run hosts (Filtering con r todo seen, ctx, w)
     (Filtering con r [] (seen @ map (\<lambda>c. (c, live_fenced ctx)) todo), ctx, w)"
proof (induction todo arbitrary: seen)
  case (Cons c todo)
  from Cons [of "seen @ [(c, live_fenced ctx)]"] show ?case by (intro run_step) simp
qed simp

lemma submit_run:
  assumes "hosts (con_channel con) = host"
  shows "thread_run hosts (begin_submit host payload con ctx w) (settled host (stays_on con (handle_submit host payload con ctx w)))"
proof (cases "rd_run dec_request_r payload")
  case (Inl e)
  then show ?thesis by (simp add: begin_submit_def handle_submit_def settled_def)
next
  case r: (Inr r)
  show ?thesis
  proof (cases "validate (demand r)")
    case (Inl e)
    with r show ?thesis by (simp add: begin_submit_def handle_submit_def settled_def schedule_def)
  next
    case (Inr u)
    let ?seen = "map (\<lambda>c. (c, live_fenced ctx)) (schedule_begin (ctx_sched ctx))"
    have "end_submit host con r ?seen ctx w = settled host (stays_on con (handle_submit host payload con ctx w))"
      using r Inr
      by (simp add: end_submit_def handle_submit_def schedule_def Let_def seen_at_once settled_def thread_replies_def
          split: prod.split sum.split split del: if_split)
    then have "thread_run hosts (Filtering con r [] ?seen, ctx, w) (settled host (stays_on con (handle_submit host payload con ctx w)))"
      using assms by (intro run_step) simp
    with filtering_run [of hosts con r "schedule_begin (ctx_sched ctx)" "[]" ctx w] r Inr show ?thesis
      by (simp add: begin_submit_def run_trans)
  qed
qed

lemma commit_run:
  assumes "hosts (con_channel con) = host"
  shows "thread_run hosts (begin_commit host payload con ctx w) (settled host (stays_on con (handle_commit host payload con ctx w)))"
proof (cases "rd_run get_id payload :: PlacementPlanId res")
  case (Inl e)
  then show ?thesis by (simp add: begin_commit_def handle_commit_def settled_def)
next
  case pid: (Inr pid)
  show ?thesis
  proof (cases rule: commit_begin_cases [of pid "ctx_sched ctx"])
    case (1 p)
    let ?s = "move_plan pid p AWAITING_RESOURCE_COMMIT (ctx_sched ctx)"
    obtain br b1 where b: "InMemoryBroker_commit (claims p) (ctx_broker ctx) = (br, b1)" by fastforce
    obtain out rel s2 where f: "commit_finish pid (claims p) br ?s = (Inr (out, rel), s2)"
      by (cases rule: commit_finish_cases [of pid ?s br "claims p"]) (metis prod.collapse)+
    have "thread_run hosts (Committing con pid (claims p), ctx\<lparr>ctx_sched := ?s\<rparr>, w)
        (settled host (stays_on con (handle_commit host payload con ctx w)))"
      using pid 1 b f assms
      by (intro run_step, simp, intro run_step, cases rel)
        (simp_all add: end_commit_def answer_commit_def handle_commit_def commit_def in_memory_broker_def settled_def
          thread_replies_def Let_def split: prod.split sum.split split del: if_split)
    with pid 1 show ?thesis by (simp add: begin_commit_def)
  next
    case (2 why)
    with pid show ?thesis
      by (simp add: begin_commit_def answer_commit_def handle_commit_def commit_def settled_def thread_replies_def Let_def
          split: prod.split sum.split split del: if_split)
  qed
qed

lemma handoff_run:
  assumes "hosts (con_channel con) = host"
  shows "thread_run hosts (begin_handoff host payload con ctx w) (settled host (stays_on con (handle_handoff host payload con ctx w)))"
proof (cases "rd_run get_id payload :: PlacementPlanId res")
  case (Inl e)
  then show ?thesis by (simp add: begin_handoff_def handle_handoff_def settled_def)
next
  case pid: (Inr pid)
  show ?thesis
  proof (cases rule: handoff_begin_cases [of pid "ctx_sched ctx"])
    case (1 p)
    let ?s = "move_plan pid p AWAITING_EXECUTION (ctx_sched ctx)"
    have "current_authority ?s = current_authority (ctx_sched ctx)" by (simp add: move_plan_def current_authority_def)
    then have "thread_run hosts (Authorizing con pid p, ctx\<lparr>ctx_sched := ?s\<rparr>, w)
        (settled host (stays_on con (handle_handoff host payload con ctx w)))"
      using pid 1 assms
      by (intro run_step, simp, intro run_step)
        (simp add: end_handoff_def answer_handoff_def handle_handoff_def handoff_def current_authority_exec_def settled_def
          thread_replies_def Let_def CurrentAuthorityExec_authorize_def split: prod.split sum.split split del: if_split)
    with pid 1 show ?thesis by (simp add: begin_handoff_def)
  next
    case 2
    with pid show ?thesis
      by (simp add: begin_handoff_def answer_handoff_def handle_handoff_def handoff_def settled_def thread_replies_def Let_def
          split: prod.split sum.split split del: if_split)
  qed
qed

lemma message_run:
  assumes "hosts (con_channel con) = host"
  shows "thread_run hosts (begin_message host m payload con ctx w) (settled host (handle_frame host m payload con ctx w))"
proof (cases "m \<in> {SUBMIT_WORKLOAD, COMMIT_REQUEST, EXECUTION_HANDOFF}")
  case True
  with submit_run [of hosts con host payload ctx w, OF assms] commit_run [of hosts con host payload ctx w, OF assms]
    handoff_run [of hosts con host payload ctx w, OF assms] show ?thesis
    by (auto simp: begin_message_def handle_frame_def)
next
  case False
  show ?thesis
  proof (cases "m = HELLO")
    case True
    then show ?thesis using assms
      by (simp add: begin_message_def, intro run_step)
        (simp add: end_hello_def handle_frame_def handle_hello_def settled_def thread_replies_def split: prod.split sum.split)
  next
    case hello: False
    with False have "begin_message host m payload con ctx w = settled host (handle_frame host m payload con ctx w)"
      by (simp add: begin_message_def settled_def)
    then show ?thesis by simp
  qed
qed

text \<open>A turn either ends the thread or returns to the test of the loop.\<close>

definition after_turn :: "Connection option \<Rightarrow> thread" where
  "after_turn con = (case con of None \<Rightarrow> Finished | Some con1 \<Rightarrow> Checking con1)"

lemma settled_run:
  assumes "hosts (con_channel con1) = host"
  shows "thread_run hosts (settled host (r, con1, ctx1, w1))
     (case r of
        Inr True \<Rightarrow> (Finished, ctx1, w1)
      | Inr False \<Rightarrow> (Checking con1, ctx1, w1)
      | Inl e \<Rightarrow>
          if channel_valid (con_channel con1) then (Checking con1, ctx1, send_error host con1 (fe_code e) (fe_what e) w1)
          else if hasBoot con1 then (Finished, fence_worker_and_bump (con_boot con1) ctx1, w1)
          else (Checking con1, ctx1, w1))"
  by (auto simp: settled_def thread_fails_def dropping_run split: sum.split bool.split)

lemma serve_step_run:
  assumes "serve_step (hosts (con_channel con)) con ctx w = (con', ctx', w')" "sched_ok (ctx_sched ctx)"
  shows "thread_run hosts (Checking con, ctx, w) (after_turn con', ctx', w')"
proof (cases "running ctx")
  case False
  with assms(1) show ?thesis
    by (auto simp: serve_step_def after_turn_def intro!: run_step)
next
  case True
  let ?host = "hosts (con_channel con)"
  obtain got w1 where got: "recv_frame (host_socket ?host) (con_channel con) w = (got, w1)" by fastforce
  have start: "thread_run hosts (Checking con, ctx, w) y" if "thread_run hosts (thread_step hosts (Receiving con) ctx w) y" for y
    using that True by (intro run_step, simp, intro run_step) simp
  show ?thesis
  proof (cases got)
    case (Inl e)
    with assms(1) True got dropping_run [of hosts "con_boot con" ctx w1] show ?thesis
      by (intro start) (auto simp: serve_step_def after_turn_def)
  next
    case (Inr b)
    obtain m payload where b: "b = (m, payload)" by (cases b)
    obtain r con1 ctx1 w2 where h: "handle_frame ?host m payload con ctx w1 = (r, con1, ctx1, w2)"
      by (metis prod_cases4)
    have "hosts (con_channel con1) = ?host" using handle_frame_effect(2) [OF assms(2) h] by simp
    from run_trans [OF message_run [OF refl, of hosts con m payload ctx w1, unfolded h] settled_run [of hosts con1 ?host r ctx1 w2, OF this]]
    have "thread_run hosts (thread_step hosts (Receiving con) ctx w) (after_turn con', ctx', w')"
      using assms(1) True got Inr b h
      by (auto simp: serve_step_def after_turn_def split: sum.splits bool.splits if_splits)
    then show ?thesis by (rule start)
  qed
qed

section \<open>Two losses at a time\<close>

text \<open>A second thread that read the epoch before the first advanced it advances nothing: the losses of
  two workers move the coordinator by one epoch, and what was placed in between stays current.\<close>

lemma shared_bump:
  assumes "epoch (ctx_sched ctx) = StrongId (id_value cur + 1)"
  shows "thread_step hosts (Bumping cur) ctx w = (Finished, ctx, w)"
  using assms by (simp add: epoch_def set_epoch_def)

section \<open>Properties\<close>

text \<open>C5: the coordinator's threads refine the thread model of the scheduler: whatever step the main
  thread or a connection thread takes, in any order, is matched by steps of that model, so its
  guarantees hold of the running coordinator; each call a thread still has to make is a job there.\<close>

theorem threads_refine_interleaving:
  assumes "reachable cfg S" "models P S" "proc_step api hosts P P'"
  shows "\<exists>S'. sys_step\<^sup>*\<^sup>* S S' \<and> reachable cfg S' \<and> models P' S'"
proof -
  obtain S' where "sys_step\<^sup>*\<^sup>* S S'" "models P' S'"
    using process_refines [OF assms(3,2)] reachable_ok [OF assms(1)] by auto
  with steps_reachable [OF _ assms(1)] show ?thesis by blast
qed

text \<open>A coordinator one of whose threads is about to end a schedule that has been told of the fenced
  boot 9 for its only candidate, of another boot.\<close>

definition demo_process :: "World process" where
  "demo_process = \<lparr>
     shared = (new_coordinator [])\<lparr>ctx_sched := demo_st, live_fenced := [StrongId 9]\<rparr>,
     listening = \<lparr>listener = 3\<rparr>, main_at = TestRunning,
     threads = [Filtering demo_connection req [] [(sampleA, [StrongId 9])]], world = demo_world []\<rparr>"

abbreviation demo_jobs :: system where
  "demo_jobs \<equiv> \<lparr>sched = demo_st, jobs = [SnapshotJob req (Some AlwaysReadyDependency) [sampleA]], log = []\<rparr>"

lemma demo_snapshot: "reachable default_SchedulerConfig demo_jobs" "models demo_process demo_jobs"
proof -
  let ?C = default_SchedulerConfig
  have "reachable ?C ((sys_init ?C)\<lparr>sched := apply_op (Ingest sampleA) (sched (sys_init ?C))\<rparr>)"
    by (rule reachable.step [OF reachable.start sys_step.mutex_method]) simp
  then have "reachable ?C \<lparr>sched = demo_st, jobs = [], log = []\<rparr>"
    by (simp add: sys_init_def demo_st_def)
  from reachable.step [OF this sys_step.schedule_start [OF demo_valid, of _ "Some AlwaysReadyDependency"]]
  show "reachable ?C demo_jobs" by (simp add: demo_st_eq schedule_begin_def)
  show "models demo_process demo_jobs" by (simp add: models_def demo_process_def jobs_of_def)
qed

lemma demo_shut_out: "shut_out (StrongId 9) demo_process"
  by (simp add: shut_out_def demo_process_def)

lemma demo_ends:
  "\<exists>R p. (\<forall>api. proc_step api (\<lambda>_. demo_host) demo_process R) \<and>
     omap_find (plans (ctx_sched (shared R))) (StrongId 1) = Some p"
proof -
  have boot: "workerBootId sampleA = StrongId 1" by (simp add: make_scenario_candidate_def Let_def)
  let ?h = "\<lambda>_. demo_host" and ?es = "[(Ranker_evaluate req sampleA (rankOptions demo_st), sampleA)]"
  obtain t ctx w where step: "thread_step ?h (threads demo_process ! 0) (shared demo_process) (world demo_process) = (t, ctx, w)"
    by (metis prod_cases3)
  have "meets_hard_constraints req sampleA (Some AlwaysReadyDependency) (Some (LiveVeto [StrongId 9]))"
    using demo_meets by (simp add: meets_hard_constraints_def policy_met_def dependency_met_def LiveVeto_def
        AlwaysReadyDependency_def Let_def boot)
  then have "eligible (live_verdict req sampleA [StrongId 9])"
    by (simp add: eligible_def evaluate_eligible)
  then have "std_sort entry_less (seen_entries req (rankOptions demo_st) [(sampleA, [StrongId 9])]) = ?es"
    by (simp add: seen_entries_def std_sort_def)
  with step have "plans (ctx_sched ctx) \<noteq> [] \<and> fst (hd (plans (ctx_sched ctx))) = StrongId 1"
    by (auto simp: demo_process_def end_submit_def Let_def schedule_finish_Cons omap_emplace_def
        split: prod.splits)
  then obtain p where "omap_find (plans (ctx_sched ctx)) (StrongId 1) = Some p"
    by (cases "plans (ctx_sched ctx)") (auto simp: omap_find_def)
  moreover have "proc_step api ?h demo_process
      (demo_process\<lparr>shared := ctx, threads := (threads demo_process)[0 := t], world := w\<rparr>)" for api
    by (rule proc_step.thread [OF _ _ step]) (simp_all add: demo_process_def)
  ultimately show ?thesis
    by (intro exI [of _ "demo_process\<lparr>shared := ctx, threads := (threads demo_process)[0 := t], world := w\<rparr>"] exI [of _ p]) simp
qed

theorem threads_refine_interleaving_witness:
  "\<exists>R S p. (\<forall>api. proc_step api (\<lambda>_. demo_host) demo_process R) \<and> models R S \<and>
     reachable default_SchedulerConfig S \<and> omap_find (plans (sched S)) (StrongId 1) = Some p"
proof -
  obtain R p where R: "\<forall>api. proc_step api (\<lambda>_. demo_host) demo_process R"
    "omap_find (plans (ctx_sched (shared R))) (StrongId 1) = Some p" using demo_ends by blast
  then have "proc_step api (\<lambda>_. demo_host) demo_process R" for api by blast
  from threads_refine_interleaving [OF demo_snapshot this] obtain S where
    "reachable default_SchedulerConfig S" "models R S" by blast
  moreover from this R(2) have "omap_find (plans (sched S)) (StrongId 1) = Some p" by (simp add: models_def)
  ultimately show ?thesis using R(1) by blast
qed

text \<open>C6: a worker whose connection was lost is shut out under every interleaving: once its boot is in
  the veto's set and no schedule under way has been told that a candidate of it is allowed, every
  plan that is ever added is built from a candidate that another boot published.\<close>

theorem lost_worker_shut_out:
  assumes "reachable cfg S" "models P S" "shut_out b P" "(proc_step api hosts)\<^sup>*\<^sup>* P Q" "proc_step api hosts Q R"
    and "omap_find (plans (ctx_sched (shared Q))) k = None" "omap_find (plans (ctx_sched (shared R))) k = Some p"
  shows "\<exists>con r seen rk c es. Filtering con r [] seen \<in> set (threads Q) \<and> c \<in> fst ` set seen \<and> workerBootId c \<noteq> b \<and>
     selectedCandidate p = candidateId c \<and>
     p = fresh_plan r (Some AlwaysReadyDependency) (seen_rejected r seen) (rk, c) es (ctx_sched (shared Q))"
proof -
  obtain con r seen rk c es where "Filtering con r [] seen \<in> set (threads Q)" "c \<in> fst ` set seen" "workerBootId c \<noteq> b"
    "p = fresh_plan r (Some AlwaysReadyDependency) (seen_rejected r seen) (rk, c) es (ctx_sched (shared Q))"
    "selectedCandidate p = candidateId c"
    using no_plan_when_shut_out [OF assms(5) _ _ assms(6,7)] run_shut_out [OF assms(1-4)] by metis
  then show ?thesis by blast
qed

theorem lost_worker_shut_out_witness:
  "\<exists>R p. (\<forall>api. proc_step api (\<lambda>_. demo_host) demo_process R) \<and>
     omap_find (plans (ctx_sched (shared R))) (StrongId 1) = Some p \<and>
     selectedCandidate p = candidateId sampleA \<and> workerBootId sampleA \<noteq> StrongId 9"
proof -
  obtain R p where R: "\<forall>api. proc_step api (\<lambda>_. demo_host) demo_process R"
    "omap_find (plans (ctx_sched (shared R))) (StrongId 1) = Some p" using demo_ends by blast
  then have "proc_step api (\<lambda>_. demo_host) demo_process R" for api by blast
  moreover have "omap_find (plans (ctx_sched (shared demo_process))) (StrongId 1) = None"
    by (simp add: demo_process_def)
  ultimately have "\<exists>c. c = sampleA \<and> workerBootId c \<noteq> StrongId 9 \<and> selectedCandidate p = candidateId c"
    using lost_worker_shut_out [OF demo_snapshot demo_shut_out rtranclp.rtrancl_refl _ _ R(2)]
    by (fastforce simp: demo_process_def)
  with R show ?thesis by blast
qed

text \<open>The atomic turns of the connection loop are what a thread does when no other thread runs in
  between: one turn of \<open>serve_step\<close> is a run of the thread's sections from the test of the loop
  back to it, or to the end of the thread.\<close>

theorem turn_is_thread_run:
  assumes "serve_step (hosts (con_channel con)) con ctx w = (con', ctx', w')" "sched_ok (ctx_sched ctx)"
  shows "thread_run hosts (Checking con, ctx, w) (after_turn con', ctx', w')"
  using serve_step_run [of hosts con ctx w con' ctx' w'] assms by blast

theorem turn_is_thread_run_witness:
  "thread_run (\<lambda>_. demo_host) (Checking demo_connection, new_coordinator [], demo_world [])
     (Finished, fence_worker_and_bump (StrongId 9) (new_coordinator []), demo_dropped)"
  using turn_is_thread_run [of "\<lambda>_. demo_host", OF demo_drop new_coordinator_ok(1)] by (simp add: after_turn_def)

end
