(* ===== verification/Cuda_Device.thy ===== *)
theory Cuda_Device
  imports Cuda_Worker
begin

text \<open>
  The CUDA adapter (\<^verbatim>\<open>cuda/src/fabric_cuda.cu\<close>): counting and probing devices, asking for free
  memory, and the verified saxpy run of \<^verbatim>\<open>fs_cuda_exec\<close> with its kernel.

  The CUDA runtime is a parameter (\<open>CudaRuntime\<close>): one field per call the adapter makes, over a
  world of its own; an error code is only ever compared with \<^verbatim>\<open>cudaSuccess\<close>, so a call returns a
  flag. The kernel is the adapter's code, so a launch is given the kernel as a function of the
  block and thread index. What is assumed of the runtime is its documentation:
  \<open>buffers_documented\<close> says which device buffers are allocated after each call, and
  \<open>device_documented\<close> what they hold.

  The host's three vectors come from the host's allocator (\<open>host_vector\<close>, which may throw).

  Shown: every result of \<^verbatim>\<open>fs_cuda_exec\<close> frees what it allocated, and its one exception, from the
  host's allocator, leaves the three device buffers allocated. On a device that works as documented
  a run that returns 0 reports parity 1.0, as the grid covers every element whatever the order of
  the threads and no thread leaves the buffers. The latter needs the number of elements to fit an
  \<^verbatim>\<open>int\<close>; \<open>oversized_run_skipped\<close> and \<open>oversized_run_faults\<close> show what happens beyond.

  The kernel multiplies and adds with two roundings, as the host does; contraction into one
  rounding by the device compiler is not modelled.
\<close>

section \<open>The C++ float\<close>

text \<open>
  Binary32 values as their patterns. A float operation is the operation on doubles rounded to a
  float: a double has more than twice the digits of a float and two, so rounding twice is
  rounding once. A NaN is one fixed quiet NaN.
\<close>

type_synonym single = "32 word"

definition f_sgnbit :: nat where "f_sgnbit = 2 ^ 31"
definition f_hid :: nat where "f_hid = 2 ^ 23"
definition f_inf :: nat where "f_inf = 255 * f_hid"
definition f_nan :: single where "f_nan = 0x7FC00000"

definition f_sign :: "single \<Rightarrow> bool" where
  "f_sign x \<longleftrightarrow> f_sgnbit \<le> unat x"

definition f_mag :: "single \<Rightarrow> nat" where
  "f_mag x = unat x mod f_sgnbit"

definition mk_single :: "bool \<Rightarrow> nat \<Rightarrow> single" where
  "mk_single s u = word_of_nat ((if s then f_sgnbit else 0) + u)"

text \<open>The units of a float are \<open>2 ^ 925\<close> units of a double.\<close>

definition f_unit :: nat where
  "f_unit = 2 ^ (1074 - 149)"

definition f_mag_val :: "nat \<Rightarrow> nat" where
  "f_mag_val u = (if u div f_hid = 0 then u mod f_hid
     else (f_hid + u mod f_hid) * 2 ^ (u div f_hid - 1))"

function f_shift_of :: "nat \<Rightarrow> nat" where
  "f_shift_of n = (if n < 2 * f_hid then 0 else Suc (f_shift_of (n div 2)))"
  by pat_completeness auto
termination
  by (relation "measure id") (auto simp: f_hid_def)

declare f_shift_of.simps [simp del]

definition f_round_mag :: "nat \<Rightarrow> nat" where
  "f_round_mag a = (let s = f_shift_of (a div f_unit) in min (s * f_hid + rne a (f_unit * 2 ^ s)) f_inf)"

definition double_of_single :: "single \<Rightarrow> double" where
  "double_of_single x =
     (if f_inf < f_mag x then qnan
      else if f_mag x = f_inf then mk_double (f_sign x) mag_inf
      else mk_double (f_sign x) (round_mag (f_mag_val (f_mag x) * f_unit) 1))"

definition single_of_double :: "double \<Rightarrow> single" where
  "single_of_double d =
     (if is_nan d then f_nan
      else if is_inf d then mk_single (dsign d) f_inf
      else mk_single (dsign d) (f_round_mag (mag_val (dmag d))))"

definition f_add :: "single \<Rightarrow> single \<Rightarrow> single" where
  "f_add x y = single_of_double (dadd (double_of_single x) (double_of_single y))"

definition f_sub :: "single \<Rightarrow> single \<Rightarrow> single" where
  "f_sub x y = single_of_double (dsub (double_of_single x) (double_of_single y))"

definition f_mul :: "single \<Rightarrow> single \<Rightarrow> single" where
  "f_mul x y = single_of_double (dmul (double_of_single x) (double_of_single y))"

definition f_abs :: "single \<Rightarrow> single" where
  "f_abs x = mk_single False (f_mag x)"

definition f_lt :: "single \<Rightarrow> single \<Rightarrow> bool" where
  "f_lt x y \<longleftrightarrow> dlt (double_of_single x) (double_of_single y)"

definition single_of_nat :: "nat \<Rightarrow> single" where
  "single_of_nat n = single_of_double (double_of_nat n)"

definition f_one :: single where "f_one = 0x3F800000"
definition f_three :: single where "f_three = 0x40400000"

text \<open>\<^verbatim>\<open>1e-3f\<close>.\<close>

definition f_tolerance :: single where "f_tolerance = 0x3A83126F"

section \<open>The runtime\<close>

type_synonym DevPtr = "64 word"

record CudaDeviceProp =
  prop_name :: string
  prop_major :: "32 word"
  prop_minor :: "32 word"

text \<open>
  \<open>host_vector n\<close> is the allocation of a \<^verbatim>\<open>std::vector<float>\<close> of \<open>n\<close> elements, \<open>False\<close> if it throws.
  The out-parameters of \<^verbatim>\<open>cudaMemGetInfo\<close> are given with the values they have before the call.
  A launch has no result of its own; its effect is there when \<^verbatim>\<open>cudaDeviceSynchronize\<close> succeeds.
\<close>

type_synonym kernel = "nat \<Rightarrow> nat \<Rightarrow> single list \<Rightarrow> single list \<Rightarrow> single list \<Rightarrow> single list option"

record 'w CudaRuntime =
  cudaGetDeviceCount :: "'w \<Rightarrow> bool \<times> 32 word \<times> 'w"
  cudaSetDevice :: "32 word \<Rightarrow> 'w \<Rightarrow> bool \<times> 'w"
  cudaGetDeviceProperties :: "32 word \<Rightarrow> 'w \<Rightarrow> bool \<times> CudaDeviceProp \<times> 'w"
  cudaMemGetInfo :: "64 word \<Rightarrow> 64 word \<Rightarrow> 'w \<Rightarrow> bool \<times> 64 word \<times> 64 word \<times> 'w"
  cudaMalloc :: "64 word \<Rightarrow> 'w \<Rightarrow> DevPtr option \<times> 'w"
  cudaFree :: "DevPtr \<Rightarrow> 'w \<Rightarrow> 'w"
  cudaMemcpyToDevice :: "DevPtr \<Rightarrow> single list \<Rightarrow> 'w \<Rightarrow> bool \<times> 'w"
  cudaLaunch :: "32 word \<Rightarrow> 32 word \<Rightarrow> kernel \<Rightarrow> DevPtr \<Rightarrow> DevPtr \<Rightarrow> DevPtr \<Rightarrow> 'w \<Rightarrow> 'w"
  cudaDeviceSynchronize :: "'w \<Rightarrow> bool \<times> 'w"
  cudaMemcpyToHost :: "DevPtr \<Rightarrow> nat \<Rightarrow> 'w \<Rightarrow> single list option \<times> 'w"
  host_vector :: "nat \<Rightarrow> 'w \<Rightarrow> bool \<times> 'w"

section \<open>Discovery\<close>

definition fs_cuda_count :: "'w CudaRuntime \<Rightarrow> 'w \<Rightarrow> int \<times> 'w" where
  "fs_cuda_count rt w =
     (let (ok, n, w1) = cudaGetDeviceCount rt w in (if ok then sint n else -1, w1))"

text \<open>The out-parameter is \<open>None\<close> for a null pointer.\<close>

definition zero_info :: CudaDeviceInfo where
  "zero_info = \<lparr>cu_name = [], cu_major = 0, cu_minor = 0, totalBytes = 0, freeBytes = 0, present = False\<rparr>"

definition fs_cuda_probe ::
  "'w CudaRuntime \<Rightarrow> 32 word \<Rightarrow> CudaDeviceInfo option \<Rightarrow> 'w \<Rightarrow> int \<times> CudaDeviceInfo option \<times> 'w"
where
  "fs_cuda_probe rt device out w =
     (if out = None then (1, out, w) else
      case cudaSetDevice rt device w of
        (False, w1) \<Rightarrow> (2, Some zero_info, w1)
      | (True, w1) \<Rightarrow>
          (case cudaGetDeviceProperties rt device w1 of
             (False, p, w2) \<Rightarrow> (3, Some zero_info, w2)
           | (True, p, w2) \<Rightarrow>
               (let (ok, freeB, totalB, w3) = cudaMemGetInfo rt 0 0 w2 in
                (0, Some \<lparr>cu_name = take 255 (prop_name p), cu_major = prop_major p,
                          cu_minor = prop_minor p, totalBytes = totalB, freeBytes = freeB,
                          present = True\<rparr>, w3))))"

definition fs_cuda_memfree :: "'w CudaRuntime \<Rightarrow> 32 word \<Rightarrow> 64 word \<Rightarrow> 'w \<Rightarrow> int \<times> 64 word \<times> 'w" where
  "fs_cuda_memfree rt device old w =
     (case cudaSetDevice rt device w of
        (False, w1) \<Rightarrow> (1, old, w1)
      | (True, w1) \<Rightarrow>
          (let (ok, freeB, totalB, w2) = cudaMemGetInfo rt 0 0 w1 in
           if ok then (0, freeB, w2) else (2, old, w2)))"

section \<open>The kernel\<close>

text \<open>
  One thread. The index is unsigned 32-bit arithmetic read as an \<^verbatim>\<open>int\<close>; an index outside the
  buffers is a fault of the device (\<open>None\<close>).
\<close>

definition fs_saxpy_kernel ::
  "single \<Rightarrow> 32 word \<Rightarrow> 32 word \<Rightarrow> 32 word \<Rightarrow> 32 word \<Rightarrow> single list \<Rightarrow> single list \<Rightarrow> single list
     \<Rightarrow> single list option"
where
  "fs_saxpy_kernel alpha n blockIdx blockDim threadIdx a b out =
     (let i = sint (blockIdx * blockDim + threadIdx) in
      if i < sint n then
        (if 0 \<le> i \<and> nat i < length a \<and> nat i < length b \<and> nat i < length out
         then Some (out[nat i := f_add (f_mul alpha (a ! nat i)) (b ! nat i)]) else None)
      else Some out)"

definition saxpy_launch :: "single \<Rightarrow> 32 word \<Rightarrow> 32 word \<Rightarrow> kernel" where
  "saxpy_launch alpha n blockDim blk thr =
     fs_saxpy_kernel alpha n (word_of_nat blk) blockDim (word_of_nat thr)"

section \<open>The verified run\<close>

definition run_input :: "nat \<Rightarrow> single list" where
  "run_input n = map (\<lambda>i. single_of_nat (i mod 251)) [0..<n]"

text \<open>\<^verbatim>\<open>static_cast<int>((n + threads - 1) / threads)\<close>, with 256 threads.\<close>

definition grid_blocks :: "nat \<Rightarrow> 32 word" where
  "grid_blocks n = word_of_nat ((n + 256 - 1) div 256)"

definition parity_mismatch :: "single \<Rightarrow> single \<Rightarrow> single \<Rightarrow> bool" where
  "parity_mismatch a b out = f_lt f_tolerance (f_abs (f_sub out (f_add (f_mul f_three a) b)))"

definition parity_of :: "single list \<Rightarrow> single list \<Rightarrow> single list \<Rightarrow> double" where
  "parity_of a b out =
     (if list_ex (\<lambda>(x, y, z). parity_mismatch x y z) (zip a (zip b out)) then d_zero else d_one)"

text \<open>What is done with the three buffers: the result read back, if every call succeeded.\<close>

definition saxpy_run ::
  "'w CudaRuntime \<Rightarrow> nat \<Rightarrow> DevPtr \<Rightarrow> DevPtr \<Rightarrow> DevPtr \<Rightarrow> 'w \<Rightarrow> single list option \<times> 'w"
where
  "saxpy_run rt n da db dout w =
     (case cudaMemcpyToDevice rt da (run_input n) w of
        (False, w1) \<Rightarrow> (None, w1)
      | (True, w1) \<Rightarrow>
          (case cudaMemcpyToDevice rt db (replicate n f_one) w1 of
             (False, w2) \<Rightarrow> (None, w2)
           | (True, w2) \<Rightarrow>
               (case cudaDeviceSynchronize rt (cudaLaunch rt (grid_blocks n) 256
                       (saxpy_launch f_three (word_of_nat n) 256) da db dout w2) of
                  (False, w3) \<Rightarrow> (None, w3)
                | (True, w3) \<Rightarrow> cudaMemcpyToHost rt dout n w3)))"

text \<open>The vectors \<^verbatim>\<open>a\<close>, \<^verbatim>\<open>b\<close> and \<^verbatim>\<open>out\<close> of the host, one allocated after the other.\<close>

definition host_vectors :: "'w CudaRuntime \<Rightarrow> nat \<Rightarrow> 'w \<Rightarrow> bool \<times> 'w" where
  "host_vectors rt n w =
     (case host_vector rt n w of
        (False, w1) \<Rightarrow> (False, w1)
      | (True, w1) \<Rightarrow>
          (case host_vector rt n w1 of
             (False, w2) \<Rightarrow> (False, w2)
           | (True, w2) \<Rightarrow> host_vector rt n w2))"

text \<open>
  The result is \<open>None\<close> when the exception of the host's allocator leaves the function, else its code.
  The parity out-parameter is \<open>None\<close> for a null pointer, else its value.
\<close>

definition fs_cuda_exec ::
  "'w CudaRuntime \<Rightarrow> 32 word \<Rightarrow> 64 word \<Rightarrow> double option \<Rightarrow> 'w \<Rightarrow> int option \<times> double option \<times> 'w"
where
  "fs_cuda_exec rt device bytes parity w =
     (case cudaSetDevice rt device w of
        (False, w1) \<Rightarrow> (Some 1, parity, w1)
      | (True, w1) \<Rightarrow>
          (let n = unat bytes div 4; size = word_of_nat (n * 4) in
           if n = 0 then (Some 2, parity, w1) else
           case cudaMalloc rt size w1 of
             (None, w2) \<Rightarrow> (Some 3, parity, w2)
           | (Some da, w2) \<Rightarrow>
               (case cudaMalloc rt size w2 of
                  (None, w3) \<Rightarrow> (Some 4, parity, cudaFree rt da w3)
                | (Some db, w3) \<Rightarrow>
                    (case cudaMalloc rt size w3 of
                       (None, w4) \<Rightarrow> (Some 5, parity, cudaFree rt db (cudaFree rt da w4))
                     | (Some dout, w4) \<Rightarrow>
                         (case host_vectors rt n w4 of
                            (False, w5) \<Rightarrow> (None, parity, w5)
                          | (True, w5) \<Rightarrow>
                              (let (result, w6) = saxpy_run rt n da db dout w5;
                                   ok = (case result of None \<Rightarrow> d_one
                                         | Some out \<Rightarrow> parity_of (run_input n) (replicate n f_one) out) in
                               (Some (if result = None then 6 else 0), map_option (\<lambda>_. ok) parity,
                                cudaFree rt dout (cudaFree rt db (cudaFree rt da w6)))))))))"

text \<open>
  The adapter behind its C interface, on device 0. The code is the result of a run that returns; of
  one that throws nothing is said here (the worker does not catch the exception and ends, the last
  handler of the placement proof makes it exit with 99).
\<close>

definition fabric_cuda :: "'w CudaRuntime \<Rightarrow> 'w FabricCuda" where
  "fabric_cuda rt =
     \<lparr>cuda_count = fs_cuda_count rt,
      cuda_probe = (\<lambda>w. let (r, info, w1) = fs_cuda_probe rt 0 (Some zero_info) w in (r, the info, w1)),
      cuda_memfree = (\<lambda>old w. snd (fs_cuda_memfree rt 0 old w)),
      cuda_exec = (\<lambda>bytes old w. let (r, parity, w1) = fs_cuda_exec rt 0 bytes (Some old) w in (the r, the parity, w1))\<rparr>"

section \<open>The parity check\<close>

lemma unat_mk_single: "u < f_sgnbit \<Longrightarrow> unat (mk_single s u) = (if s then f_sgnbit else 0) + u"
  by (auto simp: mk_single_def f_sgnbit_def unat_of_nat simp del: of_nat_add)

lemma f_mag_mk [simp]: "u < f_sgnbit \<Longrightarrow> f_mag (mk_single s u) = u"
  by (simp add: f_mag_def unat_mk_single)

lemma f_sign_mk [simp]: "u < f_sgnbit \<Longrightarrow> f_sign (mk_single s u) = s"
  by (simp add: f_sign_def unat_mk_single)

lemma f_mag_bound [simp]: "f_mag x < f_sgnbit"
  by (simp add: f_mag_def f_sgnbit_def)

lemma f_abs_fields [simp]: "f_mag (f_abs x) = f_mag x" "\<not> f_sign (f_abs x)"
  by (simp_all add: f_abs_def)

lemma f_mag_nan: "f_inf < f_mag f_nan"
  by (simp add: f_nan_def f_mag_def f_inf_def f_hid_def f_sgnbit_def)

lemma nan_never_greater: "f_inf < f_mag x \<Longrightarrow> \<not> f_lt t (f_abs x)"
  by (simp add: f_lt_def dlt_def double_of_single_def)

lemma zero_never_greater: "f_mag x = 0 \<Longrightarrow> \<not> f_sign t \<Longrightarrow> \<not> f_lt t (f_abs x)"
  by (auto simp: f_lt_def dlt_def double_of_single_def f_mag_val_def f_inf_def f_hid_def)

lemma dsub_self: "is_nan (dsub d d) \<or> dmag (dsub d d) = 0"
proof -
  have neg: "is_nan (dneg d) = is_nan d" "is_inf (dneg d) = is_inf d" "dsign (dneg d) = (\<not> dsign d)"
    "dval (dneg d) = - dval d"
    by (simp_all add: dneg_def dval_def is_nan_def is_inf_def)
  show ?thesis by (simp add: dsub_def dadd_def neg)
qed

lemma single_of_zero: "dmag d = 0 \<Longrightarrow> f_mag (single_of_double d) = 0"
  by (simp add: single_of_double_def is_nan_def is_inf_def f_round_mag_def f_shift_of.simps rne_def
      f_hid_def mag_inf_def hid_def f_sgnbit_def f_unit_def)

lemma f_sub_self: "f_inf < f_mag (f_sub x x) \<or> f_mag (f_sub x x) = 0"
proof (cases "is_nan (dsub (double_of_single x) (double_of_single x))")
  case True
  then show ?thesis using f_mag_nan by (simp add: f_sub_def single_of_double_def)
next
  case False
  then show ?thesis using dsub_self [of "double_of_single x"] single_of_zero by (simp add: f_sub_def)
qed

lemma equal_values_pass: "\<not> parity_mismatch a b (f_add (f_mul f_three a) b)"
proof -
  have "\<not> f_sign f_tolerance" by (simp add: f_sign_def f_tolerance_def f_sgnbit_def)
  then show ?thesis
    using f_sub_self nan_never_greater zero_never_greater unfolding parity_mismatch_def by blast
qed

text \<open>A NaN passes the check as well: it is not greater than the tolerance.\<close>

lemma nan_passes_parity: "\<not> parity_mismatch a b f_nan"
proof -
  have "is_nan (double_of_single f_nan)" using f_mag_nan by (simp add: double_of_single_def)
  then have "f_sub f_nan y = f_nan" for y
    by (simp add: f_sub_def dsub_def dadd_def single_of_double_def)
  then show ?thesis by (simp add: parity_mismatch_def nan_never_greater f_mag_nan)
qed

section \<open>The grid\<close>

text \<open>The threads of a launch, and their effect in some order.\<close>

definition grid :: "nat \<Rightarrow> nat \<Rightarrow> (nat \<times> nat) list" where
  "grid blocks threads = List.product [0..<blocks] [0..<threads]"

definition run_threads ::
  "kernel \<Rightarrow> (nat \<times> nat) list \<Rightarrow> single list \<Rightarrow> single list \<Rightarrow> single list \<Rightarrow> single list option"
where
  "run_threads k order a b out =
     fold (\<lambda>(blk, thr) r. Option.bind r (k blk thr a b)) order (Some out)"

definition saxpy :: "single \<Rightarrow> single list \<Rightarrow> single list \<Rightarrow> single list" where
  "saxpy alpha a b = map2 (\<lambda>x y. f_add (f_mul alpha x) y) a b"

lemma length_saxpy [simp]: "length (saxpy alpha a b) = min (length a) (length b)"
  by (simp add: saxpy_def)

lemma thread_index:
  assumes "blk * 256 + thr < 2 ^ 31"
  shows "sint (word_of_nat blk * 256 + word_of_nat thr :: 32 word) = int (blk * 256 + thr)"
proof -
  have "sint (word_of_nat (blk * 256 + thr) :: 32 word) = int (blk * 256 + thr)"
    using assms by (simp only: signed_of_nat) (simp add: signed_take_bit_int_eq_self)
  then show ?thesis by simp
qed

lemma thread_effect:
  assumes "n < 2 ^ 31" "blk * 256 + thr < 2 ^ 31" "length a = n" "length b = n" "length out = n"
  shows "saxpy_launch alpha (word_of_nat n) 256 blk thr a b out =
     Some (if blk * 256 + thr < n then out[blk * 256 + thr := saxpy alpha a b ! (blk * 256 + thr)] else out)"
proof -
  have "sint (word_of_nat n :: 32 word) = int n"
    using assms(1) thread_index [of 0 n] by simp
  moreover have "nat (int blk * 256 + int thr) = blk * 256 + thr" by linarith
  ultimately show ?thesis
    using assms by (auto simp: saxpy_launch_def fs_saxpy_kernel_def thread_index saxpy_def Let_def)
qed

lemma run_threads_Cons:
  "k blk thr a b out = Some out1 \<Longrightarrow> run_threads k ((blk, thr) # order) a b out = run_threads k order a b out1"
  by (simp add: run_threads_def)

lemma threads_effect:
  assumes "n < 2 ^ 31" "\<And>blk thr. (blk, thr) \<in> set order \<Longrightarrow> blk * 256 + thr < 2 ^ 31"
    and "length a = n" "length b = n" "length out = n"
  shows "\<exists>out'. run_threads (saxpy_launch alpha (word_of_nat n) 256) order a b out = Some out' \<and> length out' = n \<and>
     (\<forall>i<n. out' ! i = (if i \<in> (\<lambda>(blk, thr). blk * 256 + thr) ` set order then saxpy alpha a b ! i else out ! i))"
  using assms(2,5)
proof (induction order arbitrary: out)
  case Nil
  then show ?case by (simp add: run_threads_def)
next
  case (Cons t order)
  obtain blk thr where t: "t = (blk, thr)" by (cases t)
  let ?i = "blk * 256 + thr"
  let ?out = "if ?i < n then out[?i := saxpy alpha a b ! ?i] else out"
  have step: "saxpy_launch alpha (word_of_nat n) 256 blk thr a b out = Some ?out"
    using Cons.prems(2) Cons.prems(1) [of blk thr] t by (intro thread_effect assms(1,3,4)) simp_all
  have "length ?out = n" using Cons.prems(2) by simp
  moreover have "\<And>blk thr. (blk, thr) \<in> set order \<Longrightarrow> blk * 256 + thr < 2 ^ 31"
    using Cons.prems(1) by (meson list.set_intros(2))
  ultimately obtain out' where out':
    "run_threads (saxpy_launch alpha (word_of_nat n) 256) order a b ?out = Some out'" "length out' = n"
    "\<forall>i<n. out' ! i = (if i \<in> (\<lambda>(blk, thr). blk * 256 + thr) ` set order then saxpy alpha a b ! i else ?out ! i)"
    using Cons.IH [of ?out] by blast
  have "out' ! i = (if i \<in> (\<lambda>(blk, thr). blk * 256 + thr) ` set (t # order) then saxpy alpha a b ! i else out ! i)"
    if "i < n" for i
    using out'(3) [rule_format, OF that] Cons.prems(2) that by (cases "i = ?i") (simp_all add: t)
  then show ?case using out'(1,2) step by (auto simp: t run_threads_Cons)
qed

lemma grid_blocks_unat: "n < 2 ^ 31 \<Longrightarrow> unat (grid_blocks n) = (n + 255) div 256"
  by (simp add: grid_blocks_def unat_of_nat)

lemma grid_index:
  "n \<le> 2 ^ 31 \<Longrightarrow> (blk, thr) \<in> set (grid ((n + 255) div 256) 256) \<Longrightarrow> blk * 256 + thr < 2 ^ 31"
proof -
  assume "n \<le> 2 ^ 31" and "(blk, thr) \<in> set (grid ((n + 255) div 256) 256)"
  then have "blk < (n + 255) div 256" "thr < 256" "(n + 255) div 256 \<le> 2 ^ 23" by (auto simp: grid_def)
  then have "blk \<le> 2 ^ 23 - 1" "thr \<le> 255" by linarith+
  then have "blk * 256 + thr \<le> (2 ^ 23 - 1) * 256 + 255" by (intro add_mono mult_le_mono1)
  then show ?thesis by simp
qed

lemma grid_covers: "i < n \<Longrightarrow> i \<in> (\<lambda>(blk, thr). blk * 256 + thr) ` set (grid ((n + 255) div 256) 256)"
  by (rule rev_image_eqI [of "(i div 256, i mod 256)"]) (auto simp: grid_def)

text \<open>Every launched thread running once, in any order, computes the whole result and no thread faults.\<close>

lemma grid_computes_saxpy:
  assumes "n < 2 ^ 31" "length a = n" "length b = n" "length out = n"
    and "set order = set (grid (unat (grid_blocks n)) 256)"
  shows "run_threads (saxpy_launch alpha (word_of_nat n) 256) order a b out = Some (saxpy alpha a b)"
proof -
  have order: "set order = set (grid ((n + 255) div 256) 256)"
    using assms(1,5) by (simp add: grid_blocks_unat)
  have "blk * 256 + thr < 2 ^ 31" if "(blk, thr) \<in> set order" for blk thr
    using grid_index [of n blk thr] that order assms(1) by simp
  then obtain out' where out': "run_threads (saxpy_launch alpha (word_of_nat n) 256) order a b out = Some out'"
    "length out' = n" "\<forall>i<n. out' ! i = (if i \<in> (\<lambda>(blk, thr). blk * 256 + thr) ` set order
       then saxpy alpha a b ! i else out ! i)"
    using threads_effect [of n order a b out alpha] assms by blast
  then have "out' = saxpy alpha a b"
    using assms(2,3) grid_covers order by (intro nth_equalityI) auto
  then show ?thesis using out'(1) by simp
qed

text \<open>
  At \<open>2 ^ 31\<close> elements, 8 GiB, the count is negative as an \<^verbatim>\<open>int\<close>: no thread writes, and the output
  buffer keeps what the allocation left in it. Above, a thread is let through to a negative index.
\<close>

lemma negative_count: "sint (word_of_nat (2 ^ 31) :: 32 word) = - (2 ^ 31)"
  by simp

lemma oversized_run_skipped:
  assumes "set order \<subseteq> set (grid (2 ^ 23) 256)"
  shows "run_threads (saxpy_launch alpha (word_of_nat (2 ^ 31)) 256) order a b out = Some out"
  using assms
proof (induction order)
  case Nil
  then show ?case by (simp add: run_threads_def)
next
  case (Cons t order)
  obtain blk thr where t: "t = (blk, thr)" by (cases t)
  then have "blk * 256 + thr < 2 ^ 31" using Cons.prems by (auto simp: grid_def)
  then have "saxpy_launch alpha (word_of_nat (2 ^ 31)) 256 blk thr a b out = Some out"
    using thread_index [of blk thr] unfolding saxpy_launch_def fs_saxpy_kernel_def Let_def negative_count by simp
  then show ?case using Cons t by (simp add: run_threads_Cons)
qed

lemma oversized_run_faults:
  assumes "2 ^ 31 < n" "n < 2 ^ 32"
  shows "saxpy_launch alpha (word_of_nat n) 256 (2 ^ 23) 0 a b out = None"
proof -
  have "sint (word_of_nat n :: 32 word) = int n - 2 ^ 32"
  proof -
    have "word_of_nat n = (word_of_int (int n - 2 ^ 32) :: 32 word)" by simp
    then have "sint (word_of_nat n :: 32 word) = signed_take_bit 31 (int n - 2 ^ 32)"
      by (simp only: signed_of_int) simp
    then show ?thesis using assms by (simp add: signed_take_bit_int_eq_self)
  qed
  moreover have "sint (word_of_nat (2 ^ 23) * 256 + word_of_nat 0 :: 32 word) = - (2 ^ 31)" by simp
  ultimately show ?thesis using assms by (simp add: saxpy_launch_def fs_saxpy_kernel_def Let_def)
qed

section \<open>No device memory is lost\<close>

text \<open>
  The documented effect of the calls on the set of allocated buffers: \<^verbatim>\<open>cudaMalloc\<close> adds a new one
  when it succeeds, \<^verbatim>\<open>cudaFree\<close> gives one back, the others change nothing.
\<close>

definition buffers_documented :: "'w CudaRuntime \<Rightarrow> ('w \<Rightarrow> DevPtr set) \<Rightarrow> bool" where
  "buffers_documented rt live \<longleftrightarrow>
     (\<forall>n w w1. cudaMalloc rt n w = (None, w1) \<longrightarrow> live w1 = live w) \<and>
     (\<forall>n w p w1. cudaMalloc rt n w = (Some p, w1) \<longrightarrow> p \<notin> live w \<and> live w1 = insert p (live w)) \<and>
     (\<forall>p w. live (cudaFree rt p w) = live w - {p}) \<and>
     (\<forall>d w. live (snd (cudaSetDevice rt d w)) = live w) \<and>
     (\<forall>p xs w. live (snd (cudaMemcpyToDevice rt p xs w)) = live w) \<and>
     (\<forall>g b k p q r w. live (cudaLaunch rt g b k p q r w) = live w) \<and>
     (\<forall>w. live (snd (cudaDeviceSynchronize rt w)) = live w) \<and>
     (\<forall>p n w. live (snd (cudaMemcpyToHost rt p n w)) = live w) \<and>
     (\<forall>n w. live (snd (host_vector rt n w)) = live w)"

lemma buffersD:
  assumes "buffers_documented rt live"
  shows "cudaMalloc rt n w = (None, w1) \<Longrightarrow> live w1 = live w"
    and "cudaMalloc rt n w = (Some p, w1) \<Longrightarrow> p \<notin> live w \<and> live w1 = insert p (live w)"
    and "live (cudaFree rt p w) = live w - {p}"
    and "cudaSetDevice rt d w = (ok, w1) \<Longrightarrow> live w1 = live w"
    and "cudaMemcpyToDevice rt p xs w = (ok, w1) \<Longrightarrow> live w1 = live w"
    and "live (cudaLaunch rt g b k p q r w) = live w"
    and "cudaDeviceSynchronize rt w = (ok, w1) \<Longrightarrow> live w1 = live w"
    and "cudaMemcpyToHost rt p m w = (out, w1) \<Longrightarrow> live w1 = live w"
    and "host_vector rt m w = (ok, w1) \<Longrightarrow> live w1 = live w"
proof -
  note d = assms [unfolded buffers_documented_def]
  show "cudaMalloc rt n w = (None, w1) \<Longrightarrow> live w1 = live w" by (rule d [THEN conjunct1, rule_format])
  show "cudaMalloc rt n w = (Some p, w1) \<Longrightarrow> p \<notin> live w \<and> live w1 = insert p (live w)"
    by (rule d [THEN conjunct2, THEN conjunct1, rule_format])
  have same: "live (snd (cudaSetDevice rt d w)) = live w" "live (snd (cudaMemcpyToDevice rt p xs w)) = live w"
    "live (snd (cudaDeviceSynchronize rt w)) = live w" "live (snd (cudaMemcpyToHost rt p m w)) = live w"
    "live (snd (host_vector rt m w)) = live w"
    using d by simp_all
  show "live (cudaFree rt p w) = live w - {p}" "live (cudaLaunch rt g b k p q r w) = live w" using d by simp_all
  show "cudaSetDevice rt d w = (ok, w1) \<Longrightarrow> live w1 = live w"
    "cudaMemcpyToDevice rt p xs w = (ok, w1) \<Longrightarrow> live w1 = live w"
    "cudaDeviceSynchronize rt w = (ok, w1) \<Longrightarrow> live w1 = live w"
    "cudaMemcpyToHost rt p m w = (out, w1) \<Longrightarrow> live w1 = live w"
    "host_vector rt m w = (ok, w1) \<Longrightarrow> live w1 = live w" using same by simp_all
qed

lemma saxpy_run_cases:
  obtains (failed) w1 where "cudaMemcpyToDevice rt da (run_input n) w = (False, w1)"
      "saxpy_run rt n da db dout w = (None, w1)"
  | (failed2) w1 w2 where "cudaMemcpyToDevice rt da (run_input n) w = (True, w1)"
      "cudaMemcpyToDevice rt db (replicate n f_one) w1 = (False, w2)" "saxpy_run rt n da db dout w = (None, w2)"
  | (launched) w1 w2 ok w3 where "cudaMemcpyToDevice rt da (run_input n) w = (True, w1)"
      "cudaMemcpyToDevice rt db (replicate n f_one) w1 = (True, w2)"
      "cudaDeviceSynchronize rt (cudaLaunch rt (grid_blocks n) 256
         (saxpy_launch f_three (word_of_nat n) 256) da db dout w2) = (ok, w3)"
      "saxpy_run rt n da db dout w = (if ok then cudaMemcpyToHost rt dout n w3 else (None, w3))"
proof -
  obtain a w1 where w1: "cudaMemcpyToDevice rt da (run_input n) w = (a, w1)"
    by (cases "cudaMemcpyToDevice rt da (run_input n) w")
  obtain b w2 where w2: "cudaMemcpyToDevice rt db (replicate n f_one) w1 = (b, w2)"
    by (cases "cudaMemcpyToDevice rt db (replicate n f_one) w1")
  obtain ok w3 where w3: "cudaDeviceSynchronize rt (cudaLaunch rt (grid_blocks n) 256
      (saxpy_launch f_three (word_of_nat n) 256) da db dout w2) = (ok, w3)" by fastforce
  consider "\<not> a" | "a" "\<not> b" | "a" "b" by blast
  then show thesis
    using w1 w2 w3 failed [of w1] failed2 [of w1 w2] launched [of w1 w2 ok w3]
    by cases (simp_all add: saxpy_run_def split: bool.split)
qed

lemma saxpy_run_live:
  assumes "buffers_documented rt live"
  shows "live (snd (saxpy_run rt n da db dout w)) = live w"
proof (cases rule: saxpy_run_cases [of rt da n w db dout])
  case (launched w1 w2 ok w3)
  have "live w3 = live w"
    using buffersD(5) [OF assms launched(1)] buffersD(5) [OF assms launched(2)]
      buffersD(7) [OF assms launched(3)] buffersD(6) [OF assms] by simp
  moreover have "live (snd (cudaMemcpyToHost rt dout n w3)) = live w3"
    using buffersD(8) [OF assms, of dout n w3] by (metis prod.collapse)
  ultimately show ?thesis using launched(4) by simp
next
  case (failed2 w1 w2)
  then show ?thesis using buffersD(5) [OF assms failed2(1)] buffersD(5) [OF assms failed2(2)] by simp
next
  case (failed w1)
  then show ?thesis using buffersD(5) [OF assms failed(1)] by simp
qed

lemma host_vectors_live:
  assumes "buffers_documented rt live" "host_vectors rt n w = (ok, w1)"
  shows "live w1 = live w"
  using assms(2) by (auto simp: host_vectors_def buffersD(9) [OF assms(1)] split: prod.splits bool.splits)

abbreviation run_count :: "64 word \<Rightarrow> nat" where
  "run_count bytes \<equiv> unat bytes div 4"

abbreviation run_size :: "64 word \<Rightarrow> 64 word" where
  "run_size bytes \<equiv> word_of_nat (run_count bytes * 4)"

text \<open>The paths of \<^verbatim>\<open>fs_cuda_exec\<close>.\<close>

lemma fs_cuda_exec_cases:
  obtains
    (no_device) w1 where "cudaSetDevice rt device w = (False, w1)"
      "fs_cuda_exec rt device bytes parity w = (Some 1, parity, w1)"
  | (empty) w1 where "cudaSetDevice rt device w = (True, w1)"
      "fs_cuda_exec rt device bytes parity w = (Some 2, parity, w1)"
  | (first_refused) w1 w2 where "cudaSetDevice rt device w = (True, w1)"
      "cudaMalloc rt (run_size bytes) w1 = (None, w2)"
      "fs_cuda_exec rt device bytes parity w = (Some 3, parity, w2)"
  | (second_refused) w1 da w2 w3 where "cudaSetDevice rt device w = (True, w1)"
      "cudaMalloc rt (run_size bytes) w1 = (Some da, w2)" "cudaMalloc rt (run_size bytes) w2 = (None, w3)"
      "fs_cuda_exec rt device bytes parity w = (Some 4, parity, cudaFree rt da w3)"
  | (third_refused) w1 da w2 db w3 w4 where "cudaSetDevice rt device w = (True, w1)"
      "cudaMalloc rt (run_size bytes) w1 = (Some da, w2)" "cudaMalloc rt (run_size bytes) w2 = (Some db, w3)"
      "cudaMalloc rt (run_size bytes) w3 = (None, w4)"
      "fs_cuda_exec rt device bytes parity w = (Some 5, parity, cudaFree rt db (cudaFree rt da w4))"
  | (no_host_memory) w1 da w2 db w3 dout w4 w5 where "cudaSetDevice rt device w = (True, w1)"
      "cudaMalloc rt (run_size bytes) w1 = (Some da, w2)" "cudaMalloc rt (run_size bytes) w2 = (Some db, w3)"
      "cudaMalloc rt (run_size bytes) w3 = (Some dout, w4)" "host_vectors rt (run_count bytes) w4 = (False, w5)"
      "fs_cuda_exec rt device bytes parity w = (None, parity, w5)"
  | (run) w1 da w2 db w3 dout w4 w5 result w6 where "cudaSetDevice rt device w = (True, w1)"
      "cudaMalloc rt (run_size bytes) w1 = (Some da, w2)" "cudaMalloc rt (run_size bytes) w2 = (Some db, w3)"
      "cudaMalloc rt (run_size bytes) w3 = (Some dout, w4)" "host_vectors rt (run_count bytes) w4 = (True, w5)"
      "saxpy_run rt (run_count bytes) da db dout w5 = (result, w6)"
      "fs_cuda_exec rt device bytes parity w =
        (Some (if result = None then 6 else 0),
         map_option (\<lambda>_. case result of None \<Rightarrow> d_one
           | Some out \<Rightarrow> parity_of (run_input (run_count bytes)) (replicate (run_count bytes) f_one) out) parity,
         cudaFree rt dout (cudaFree rt db (cudaFree rt da w6)))"
proof -
  obtain ok w1 where w1: "cudaSetDevice rt device w = (ok, w1)" by (cases "cudaSetDevice rt device w")
  obtain a w2 where w2: "cudaMalloc rt (run_size bytes) w1 = (a, w2)" by (cases "cudaMalloc rt (run_size bytes) w1")
  obtain b w3 where w3: "cudaMalloc rt (run_size bytes) w2 = (b, w3)" by (cases "cudaMalloc rt (run_size bytes) w2")
  obtain c w4 where w4: "cudaMalloc rt (run_size bytes) w3 = (c, w4)" by (cases "cudaMalloc rt (run_size bytes) w3")
  obtain h w5 where w5: "host_vectors rt (run_count bytes) w4 = (h, w5)"
    by (cases "host_vectors rt (run_count bytes) w4")
  note path = fs_cuda_exec_def Let_def w1 w2 w3 w4 w5
  consider "\<not> ok" | "ok" "run_count bytes = 0" | "ok" "run_count bytes \<noteq> 0" "a = None"
    | p where "ok" "run_count bytes \<noteq> 0" "a = Some p" "b = None"
    | p q where "ok" "run_count bytes \<noteq> 0" "a = Some p" "b = Some q" "c = None"
    | p q r where "ok" "run_count bytes \<noteq> 0" "a = Some p" "b = Some q" "c = Some r" "\<not> h"
    | p q r where "ok" "run_count bytes \<noteq> 0" "a = Some p" "b = Some q" "c = Some r" "h" by blast
  then show thesis
  proof cases
    case 1
    then show ?thesis using w1 by (intro no_device [of w1]) (simp_all add: path)
  next
    case 2
    then show ?thesis using w1 by (intro empty [of w1]) (simp_all add: path)
  next
    case 3
    then show ?thesis using w1 w2 by (intro first_refused [of w1 w2]) (simp_all add: path)
  next
    case (4 p)
    then show ?thesis using w1 w2 w3 by (intro second_refused [of w1 p w2 w3]) (simp_all add: path)
  next
    case (5 p q)
    then show ?thesis using w1 w2 w3 w4
      by (intro third_refused [of w1 p w2 q w3 w4]) (simp_all add: path)
  next
    case (6 p q r)
    then show ?thesis using w1 w2 w3 w4 w5
      by (intro no_host_memory [of w1 p w2 q w3 r w4 w5]) (simp_all add: path)
  next
    case (7 p q r)
    obtain result w6 where "saxpy_run rt (run_count bytes) p q r w5 = (result, w6)"
      by (cases "saxpy_run rt (run_count bytes) p q r w5")
    with 7 show ?thesis using w1 w2 w3 w4 w5
      by (intro run [of w1 p w2 q w3 r w4 w5 result w6]) (simp_all add: path)
  qed
qed

text \<open>C17: over a runtime that allocates and frees as documented, when \<^verbatim>\<open>fs_cuda_exec\<close> returns, whichever
  of the runtime's calls failed, exactly the device buffers are allocated that were allocated before the call: each of its seven results frees what
  that path had allocated. The one path that does not return, the exception of a host that cannot
  have the three vectors, leaves exactly three more buffers allocated, which nobody knows of.\<close>

theorem exec_returns_memory:
  assumes "buffers_documented rt live"
  shows "case fs_cuda_exec rt device bytes parity w of
       (Some code, p, w1) \<Rightarrow> live w1 = live w \<and> code \<in> {0, 1, 2, 3, 4, 5, 6}
     | (None, p, w1) \<Rightarrow> \<exists>da db dout. live w1 = {da, db, dout} \<union> live w \<and>
         distinct [da, db, dout] \<and> {da, db, dout} \<inter> live w = {}"
proof (cases rule: fs_cuda_exec_cases [of rt device w bytes parity])
  case (run w1 da w2 db w3 dout w4 w5 result w6)
  then have "live w6 = live w4"
    using saxpy_run_live [OF assms, of "unat bytes div 4" da db dout w5] host_vectors_live [OF assms run(5)] by simp
  then show ?thesis using run(7) buffersD(4) [OF assms run(1)] buffersD(2) [OF assms run(2)]
      buffersD(2) [OF assms run(3)] buffersD(2) [OF assms run(4)]
    by (auto simp: buffersD(3) [OF assms])
next
  case (no_host_memory w1 da w2 db w3 dout w4 w5)
  then have "live w5 = {da, db, dout} \<union> live w \<and> distinct [da, db, dout] \<and> {da, db, dout} \<inter> live w = {}"
    using host_vectors_live [OF assms no_host_memory(5)] buffersD(4) [OF assms no_host_memory(1)]
      buffersD(2) [OF assms no_host_memory(2)] buffersD(2) [OF assms no_host_memory(3)]
      buffersD(2) [OF assms no_host_memory(4)] by auto
  then show ?thesis using no_host_memory(6) by (simp only: prod.case option.case) blast
next
  case (third_refused w1 da w2 db w3 w4)
  then show ?thesis using buffersD(4) [OF assms third_refused(1)] buffersD(2) [OF assms third_refused(2)]
      buffersD(2) [OF assms third_refused(3)] buffersD(1) [OF assms third_refused(4)]
    by (auto simp: buffersD(3) [OF assms])
next
  case (second_refused w1 da w2 w3)
  then show ?thesis using buffersD(4) [OF assms second_refused(1)] buffersD(2) [OF assms second_refused(2)]
      buffersD(1) [OF assms second_refused(3)]
    by (simp add: buffersD(3) [OF assms])
next
  case (first_refused w1 w2)
  then show ?thesis
    using buffersD(4) [OF assms first_refused(1)] buffersD(1) [OF assms first_refused(2)] by simp
qed (simp_all add: buffersD(4) [OF assms])

section \<open>A working device verifies\<close>

text \<open>
  What the buffers hold: a fresh buffer has the size asked for, a copy to the device fills it, a
  copy to the host reads the buffer, and a launch that is synchronised without an error has run
  every thread of its grid in some order, if none of them can leave the buffers: of a kernel that
  reads or writes beyond them nothing is assumed, not even that the device notices. (That the
  device starts the kernel at all is assumed: the adapter does not ask for the error of a launch.)
\<close>

definition device_documented :: "'w CudaRuntime \<Rightarrow> ('w \<Rightarrow> DevPtr \<Rightarrow> single list option) \<Rightarrow> bool" where
  "device_documented rt mem \<longleftrightarrow>
     (\<forall>n w p w1. cudaMalloc rt n w = (Some p, w1) \<longrightarrow>
        mem w p = None \<and> (\<exists>zs. length zs = unat n div 4 \<and> mem w1 = (mem w)(p \<mapsto> zs))) \<and>
     (\<forall>p xs ys w w1. cudaMemcpyToDevice rt p xs w = (True, w1) \<longrightarrow> mem w p = Some ys \<longrightarrow>
        length xs = length ys \<longrightarrow> mem w1 = (mem w)(p \<mapsto> xs)) \<and>
     (\<forall>g b k p q r w w1 xs ys zs. cudaDeviceSynchronize rt (cudaLaunch rt g b k p q r w) = (True, w1) \<longrightarrow>
        mem w p = Some xs \<longrightarrow> mem w q = Some ys \<longrightarrow> mem w r = Some zs \<longrightarrow> p \<noteq> r \<longrightarrow> q \<noteq> r \<longrightarrow>
        (\<forall>order. mset order = mset (grid (unat g) (unat b)) \<longrightarrow> run_threads k order xs ys zs \<noteq> None) \<longrightarrow>
        (\<exists>order out. mset order = mset (grid (unat g) (unat b)) \<and>
           run_threads k order xs ys zs = Some out \<and> mem w1 = (mem w)(r \<mapsto> out))) \<and>
     (\<forall>p n ys xs w w1. cudaMemcpyToHost rt p n w = (Some xs, w1) \<longrightarrow> mem w p = Some ys \<longrightarrow> xs = take n ys) \<and>
     (\<forall>n w. mem (snd (host_vector rt n w)) = mem w)"

lemma deviceD:
  assumes "device_documented rt mem"
  shows "cudaMalloc rt n w = (Some p, w1) \<Longrightarrow>
        mem w p = None \<and> (\<exists>zs. length zs = unat n div 4 \<and> mem w1 = (mem w)(p \<mapsto> zs))"
    and "cudaMemcpyToDevice rt p xs w = (True, w1) \<Longrightarrow> mem w p = Some ys \<Longrightarrow> length xs = length ys \<Longrightarrow>
        mem w1 = (mem w)(p \<mapsto> xs)"
    and "cudaDeviceSynchronize rt (cudaLaunch rt g b k p q r w) = (True, w1) \<Longrightarrow> mem w p = Some xs \<Longrightarrow>
        mem w q = Some ys \<Longrightarrow> mem w r = Some zs \<Longrightarrow> p \<noteq> r \<Longrightarrow> q \<noteq> r \<Longrightarrow>
        (\<forall>order. mset order = mset (grid (unat g) (unat b)) \<longrightarrow> run_threads k order xs ys zs \<noteq> None) \<Longrightarrow>
        \<exists>order out. mset order = mset (grid (unat g) (unat b)) \<and>
           run_threads k order xs ys zs = Some out \<and> mem w1 = (mem w)(r \<mapsto> out)"
    and "cudaMemcpyToHost rt p m w = (Some xs, w1) \<Longrightarrow> mem w p = Some ys \<Longrightarrow> xs = take m ys"
    and "host_vector rt m w = (ok, w1) \<Longrightarrow> mem w1 = mem w"
proof -
  note d = assms [unfolded device_documented_def]
  show "cudaMalloc rt n w = (Some p, w1) \<Longrightarrow>
        mem w p = None \<and> (\<exists>zs. length zs = unat n div 4 \<and> mem w1 = (mem w)(p \<mapsto> zs))"
    by (rule d [THEN conjunct1, rule_format])
  show "cudaMemcpyToDevice rt p xs w = (True, w1) \<Longrightarrow> mem w p = Some ys \<Longrightarrow> length xs = length ys \<Longrightarrow>
        mem w1 = (mem w)(p \<mapsto> xs)"
    by (rule d [THEN conjunct2, THEN conjunct1, rule_format])
  show "cudaDeviceSynchronize rt (cudaLaunch rt g b k p q r w) = (True, w1) \<Longrightarrow> mem w p = Some xs \<Longrightarrow>
        mem w q = Some ys \<Longrightarrow> mem w r = Some zs \<Longrightarrow> p \<noteq> r \<Longrightarrow> q \<noteq> r \<Longrightarrow>
        (\<forall>order. mset order = mset (grid (unat g) (unat b)) \<longrightarrow> run_threads k order xs ys zs \<noteq> None) \<Longrightarrow>
        \<exists>order out. mset order = mset (grid (unat g) (unat b)) \<and>
           run_threads k order xs ys zs = Some out \<and> mem w1 = (mem w)(r \<mapsto> out)"
    using d [THEN conjunct2, THEN conjunct2, THEN conjunct1] by blast
  show "cudaMemcpyToHost rt p m w = (Some xs, w1) \<Longrightarrow> mem w p = Some ys \<Longrightarrow> xs = take m ys"
    by (rule d [THEN conjunct2, THEN conjunct2, THEN conjunct2, THEN conjunct1, rule_format])
  have "mem (snd (host_vector rt m w)) = mem w" using d by blast
  then show "host_vector rt m w = (ok, w1) \<Longrightarrow> mem w1 = mem w" by simp
qed

lemma any_order:
  assumes "n < 2 ^ 31" "length zs = n" "mset order = mset (grid (unat (grid_blocks n)) 256)"
  shows "run_threads (saxpy_launch f_three (word_of_nat n) 256) order (run_input n) (replicate n f_one) zs =
     Some (saxpy f_three (run_input n) (replicate n f_one))"
  using mset_eq_setD [OF assms(3)] assms(1,2)
  by (intro grid_computes_saxpy) (simp_all add: run_input_def)

lemma saxpy_run_result:
  assumes "device_documented rt mem" "n < 2 ^ 31"
    and "mem w da = Some xs" "mem w db = Some ys" "mem w dout = Some zs"
    and "length xs = n" "length ys = n" "length zs = n" "da \<noteq> db" "da \<noteq> dout" "db \<noteq> dout"
    and "saxpy_run rt n da db dout w = (Some out, w')"
  shows "out = saxpy f_three (run_input n) (replicate n f_one)"
proof -
  note documented = deviceD [OF assms(1)]
  have len: "length (run_input n) = n" by (simp add: run_input_def)
  obtain w1 w2 w3 where
    w1: "cudaMemcpyToDevice rt da (run_input n) w = (True, w1)" and
    w2: "cudaMemcpyToDevice rt db (replicate n f_one) w1 = (True, w2)" and
    w3: "cudaDeviceSynchronize rt (cudaLaunch rt (grid_blocks n) 256
           (saxpy_launch f_three (word_of_nat n) 256) da db dout w2) = (True, w3)" and
    out: "cudaMemcpyToHost rt dout n w3 = (Some out, w')"
  proof (cases rule: saxpy_run_cases [of rt da n w db dout])
    case (launched w1 w2 ok w3)
    then show ?thesis using that [of w1 w2 w3] assms(12) by (cases ok) simp_all
  qed (use assms(12) in simp_all)
  have m1: "mem w1 = (mem w)(da \<mapsto> run_input n)" using documented(2) [OF w1 assms(3)] assms(6) len by simp
  have m2: "mem w2 = (mem w1)(db \<mapsto> replicate n f_one)"
    using documented(2) [OF w2, of ys] m1 assms(4,7,9) by simp
  have "mem w2 da = Some (run_input n)" "mem w2 db = Some (replicate n f_one)" "mem w2 dout = Some zs"
    using m1 m2 assms(5,9-11) by simp_all
  moreover have "run_threads (saxpy_launch f_three (word_of_nat n) 256) order (run_input n) (replicate n f_one) zs \<noteq> None"
    if "mset order = mset (grid (unat (grid_blocks n)) (unat (256 :: 32 word)))" for order
    using any_order [OF assms(2) assms(8), of order] that by simp
  ultimately obtain order res where
    o: "mset order = mset (grid (unat (grid_blocks n)) (unat (256 :: 32 word)))" and
    r: "run_threads (saxpy_launch f_three (word_of_nat n) 256) order (run_input n) (replicate n f_one) zs = Some res" and
    m3: "mem w3 = (mem w2)(dout \<mapsto> res)"
    using documented(3) [OF w3, of "run_input n" "replicate n f_one" zs] assms(10,11) by blast
  have "res = saxpy f_three (run_input n) (replicate n f_one)"
    using any_order [OF assms(2) assms(8), of order] o r by simp
  moreover have "out = take n res" using documented(4) [OF out, of res] m3 by simp
  ultimately show ?thesis using len by simp
qed

lemma saxpy_parity:
  assumes "length a = length b"
  shows "parity_of a b (saxpy f_three a b) = d_one"
proof -
  have "\<not> list_ex (\<lambda>(x, y, z). parity_mismatch x y z) (zip a (zip b (saxpy f_three a b)))"
    using assms by (auto simp: list_ex_iff set_zip saxpy_def equal_values_pass)
  then show ?thesis by (simp add: parity_of_def)
qed

lemma host_vectors_mem:
  assumes "device_documented rt mem" "host_vectors rt n w = (ok, w1)"
  shows "mem w1 = mem w"
  using assms(2) by (auto simp: host_vectors_def deviceD(5) [OF assms(1)] split: prod.splits bool.splits)

lemma exec_parity:
  assumes "device_documented rt mem" "unat bytes div 4 < 2 ^ 31"
    and "fs_cuda_exec rt device bytes (Some old) w = (Some 0, parity, w')"
  shows "parity = Some d_one"
proof -
  note documented = deviceD [OF assms(1)]
  let ?n = "unat bytes div 4" let ?size = "word_of_nat (?n * 4) :: 64 word"
  have "?n * 4 < 2 ^ LENGTH(64)" using assms(2) by simp
  then have "unat ?size = ?n * 4" by (simp only: unat_of_nat mod_less)
  then have size: "unat ?size div 4 = ?n" by simp
  obtain w1 da w2 db w3 dout w4 w5 out w6 where
    path: "cudaMalloc rt ?size w1 = (Some da, w2)" "cudaMalloc rt ?size w2 = (Some db, w3)"
      "cudaMalloc rt ?size w3 = (Some dout, w4)" "host_vectors rt ?n w4 = (True, w5)"
      "saxpy_run rt ?n da db dout w5 = (Some out, w6)" and
    parity: "parity = Some (parity_of (run_input ?n) (replicate ?n f_one) out)"
  proof (cases rule: fs_cuda_exec_cases [of rt device w bytes "Some old"])
    case (run w1 da w2 db w3 dout w4 w5 result w6)
    then obtain out where "result = Some out" using assms(3) by (cases result) simp_all
    then show ?thesis using that run assms(3) by simp
  qed (use assms(3) in simp_all)
  from documented(1) [OF path(1)] documented(1) [OF path(2)] documented(1) [OF path(3)] obtain xs ys zs where
    m: "mem w2 = (mem w1)(da \<mapsto> xs)" "mem w3 = (mem w2)(db \<mapsto> ys)" "mem w5 = (mem w3)(dout \<mapsto> zs)"
    and len: "length xs = ?n" "length ys = ?n" "length zs = ?n"
    and fresh: "mem w2 db = None" "mem w3 dout = None" unfolding size host_vectors_mem [OF assms(1) path(4)] by blast
  have "mem w2 da = Some xs" using m(1) by simp
  then have "da \<noteq> db" using fresh(1) by force
  moreover have "mem w3 da = Some xs" "mem w3 db = Some ys" using m(1,2) calculation by simp_all
  then have "da \<noteq> dout" "db \<noteq> dout" using fresh(2) by force+
  ultimately have "out = saxpy f_three (run_input ?n) (replicate ?n f_one)"
    using m len by (intro saxpy_run_result [OF assms(1,2) _ _ _ len _ _ _ path(5)]) simp_all
  then show ?thesis using parity by (simp add: saxpy_parity run_input_def)
qed

text \<open>C16: on a device that works as documented a run of fewer than \<open>2 ^ 31\<close> elements that returns 0
  reports parity 1.0. The hardware may run the threads in any order: in each, no thread of the grid
  of 256-thread blocks reads or writes outside the buffers (none faults), and whatever the output
  buffer held before, the result is \<open>3 * a[i] + b[i]\<close> at every element.\<close>

theorem exec_verifies:
  assumes "device_documented rt mem" "unat bytes div 4 < 2 ^ 31"
    and "fs_cuda_exec rt device bytes (Some old) w = (Some 0, parity, w')"
  shows "parity = Some d_one \<and>
     (let n = unat bytes div 4; a = run_input n; b = replicate n f_one in
      \<forall>order zs. mset order = mset (grid (unat (grid_blocks n)) 256) \<and> length zs = n \<longrightarrow>
        run_threads (saxpy_launch f_three (word_of_nat n) 256) order a b zs =
          Some (map (\<lambda>i. f_add (f_mul f_three (a ! i)) (b ! i)) [0..<n]))"
proof -
  have "saxpy f_three (run_input n) (replicate n f_one) =
      map (\<lambda>i. f_add (f_mul f_three (run_input n ! i)) (replicate n f_one ! i)) [0..<n]" for n
    by (intro nth_equalityI) (simp_all add: saxpy_def run_input_def)
  with any_order [OF assms(2)] exec_parity [OF assms] show ?thesis by (simp add: Let_def)
qed

section \<open>A device, for examples\<close>

text \<open>
  Its world: the buffers, the next pointer to hand out, whether a thread has faulted. It runs the
  threads in grid order.
\<close>

type_synonym device_world = "(DevPtr \<Rightarrow> single list option) \<times> DevPtr \<times> bool"

definition reference_device :: "device_world CudaRuntime" where
  "reference_device =
     \<lparr>cudaGetDeviceCount = (\<lambda>w. (True, 1, w)),
      cudaSetDevice = (\<lambda>d w. (True, w)),
      cudaGetDeviceProperties = (\<lambda>d w. (True, \<lparr>prop_name = ''reference'', prop_major = 12, prop_minor = 0\<rparr>, w)),
      cudaMemGetInfo = (\<lambda>f t w. (True, push_bit 34 1, push_bit 35 1, w)),
      cudaMalloc = (\<lambda>size (m, k, bad). if m k = None
        then (Some k, (m(k \<mapsto> replicate (unat size div 4) 0), k + 1, bad)) else (None, (m, k, bad))),
      cudaFree = (\<lambda>p (m, k, bad). (m(p := None), k, bad)),
      cudaMemcpyToDevice = (\<lambda>p xs (m, k, bad). (True, (if m p = None then m else m(p \<mapsto> xs), k, bad))),
      cudaLaunch = (\<lambda>g b kern p q r (m, k, bad).
        case (m p, m q, m r) of
          (Some xs, Some ys, Some zs) \<Rightarrow>
            (case run_threads kern (grid (unat g) (unat b)) xs ys zs of
               None \<Rightarrow> (m, k, True)
             | Some out \<Rightarrow> (m(r \<mapsto> out), k, bad))
        | _ \<Rightarrow> (m, k, True)),
      cudaDeviceSynchronize = (\<lambda>(m, k, bad). (\<not> bad, (m, k, bad))),
      cudaMemcpyToHost = (\<lambda>p n (m, k, bad). (map_option (take n) (m p), (m, k, bad))),
      host_vector = (\<lambda>n w. (n < 2 ^ 40, w))\<rparr>"

lemma reference_buffers: "buffers_documented reference_device (\<lambda>w. dom (fst w))"
  unfolding buffers_documented_def
  by (auto simp: reference_device_def split: if_splits prod.splits option.splits)

lemma reference_documented: "device_documented reference_device fst"
  unfolding device_documented_def
proof (intro conjI)
  show "\<forall>g b k p q r w w1 xs ys zs. cudaDeviceSynchronize reference_device
      (cudaLaunch reference_device g b k p q r w) = (True, w1) \<longrightarrow>
      fst w p = Some xs \<longrightarrow> fst w q = Some ys \<longrightarrow> fst w r = Some zs \<longrightarrow> p \<noteq> r \<longrightarrow> q \<noteq> r \<longrightarrow>
      (\<forall>order. mset order = mset (grid (unat g) (unat b)) \<longrightarrow> run_threads k order xs ys zs \<noteq> None) \<longrightarrow>
      (\<exists>order out. mset order = mset (grid (unat g) (unat b)) \<and>
         run_threads k order xs ys zs = Some out \<and> fst w1 = (fst w)(r \<mapsto> out))"
  proof (intro allI impI)
    fix g b k p q r and w w1 :: device_world and xs ys zs
    assume sync: "cudaDeviceSynchronize reference_device (cudaLaunch reference_device g b k p q r w) = (True, w1)"
      and buffers: "fst w p = Some xs" "fst w q = Some ys" "fst w r = Some zs"
    obtain m j bad where w: "w = (m, j, bad)" by (cases w)
    from sync buffers obtain out where "run_threads k (grid (unat g) (unat b)) xs ys zs = Some out"
      "fst w1 = (fst w)(r \<mapsto> out)"
      by (auto simp: reference_device_def w split: option.splits)
    then show "\<exists>order out. mset order = mset (grid (unat g) (unat b)) \<and>
         run_threads k order xs ys zs = Some out \<and> fst w1 = (fst w)(r \<mapsto> out)" by blast
  qed
  show "\<forall>n w p w1. cudaMalloc reference_device n w = (Some p, w1) \<longrightarrow> fst w p = None \<and>
      (\<exists>zs. length zs = unat n div 4 \<and> fst w1 = (fst w)(p \<mapsto> zs))"
  proof (intro allI impI)
    fix n p and w w1 :: device_world
    assume "cudaMalloc reference_device n w = (Some p, w1)"
    then have "fst w p = None" "fst w1 = (fst w)(p \<mapsto> replicate (unat n div 4) 0)"
      by (auto simp: reference_device_def split: if_splits prod.splits)
    then show "fst w p = None \<and> (\<exists>zs. length zs = unat n div 4 \<and> fst w1 = (fst w)(p \<mapsto> zs))"
      by (metis length_replicate)
  qed
qed (auto simp: reference_device_def)

text \<open>On it every run of \<open>2 ^ 31\<close> elements or fewer that finds memory succeeds.\<close>

lemma pointers_distinct: "(k :: DevPtr) \<noteq> k + 1" "k \<noteq> k + 2" "k + 1 \<noteq> k + 2"
  by simp_all

lemma reference_run:
  assumes "0 < n" "n < 2 ^ 31"
  shows "\<exists>out m. saxpy_run reference_device n k (k + 1) (k + 2)
     ([k \<mapsto> replicate n 0, k + 1 \<mapsto> replicate n 0, k + 2 \<mapsto> replicate n 0], j, False) =
       (Some out, (m, j, False)) \<and> dom m = {k, k + 1, k + 2}"
proof -
  have "length (run_input n) = n" by (simp add: run_input_def)
  from grid_computes_saxpy [OF assms(2) this _ _ refl, of "replicate n f_one" "replicate n 0" f_three]
  have "run_threads (saxpy_launch f_three (word_of_nat n) 256) (grid (unat (grid_blocks n)) 256)
      (run_input n) (replicate n f_one) (replicate n 0) = Some (saxpy f_three (run_input n) (replicate n f_one))"
    by simp
  then show ?thesis using pointers_distinct [of k] by (auto simp: saxpy_run_def reference_device_def)
qed

lemma reference_exec:
  assumes "4 \<le> unat bytes" "unat bytes div 4 < 2 ^ 31"
  shows "\<exists>p. fs_cuda_exec reference_device device bytes (Some d) (Map.empty, k, False) =
     (Some 0, Some p, (Map.empty, k + 3, False))"
proof -
  let ?n = "run_count bytes"
  have "?n * 4 < 2 ^ LENGTH(64)" using assms(2) by simp
  then have "unat (run_size bytes) = ?n * 4" by (simp only: unat_of_nat mod_less)
  then have size: "unat (run_size bytes) div 4 = ?n" by simp
  have n: "0 < ?n" using assms(1) by simp
  let ?m = "[k \<mapsto> replicate ?n 0, k + 1 \<mapsto> replicate ?n 0, k + 2 \<mapsto> replicate ?n 0] :: DevPtr \<Rightarrow> single list option"
  have malloc: "cudaMalloc reference_device (run_size bytes) (m, j, bad) =
      (if m j = None then (Some j, (m(j \<mapsto> replicate ?n 0), j + 1, bad)) else (None, (m, j, bad)))" for m j bad
    using size by (simp add: reference_device_def)
  have device: "cudaSetDevice reference_device device w = (True, w)" for w by (simp add: reference_device_def)
  have free: "cudaFree reference_device p (m, j, bad) = (m(p := None), j, bad)" for p m j bad
    by (simp add: reference_device_def)
  have vectors: "host_vectors reference_device ?n w = (True, w)" for w
    using assms(2) by (simp add: host_vectors_def reference_device_def)
  have step: "k + 1 + 1 = k + 2" "k + 2 + 1 = k + 3" by simp_all
  obtain out m where run: "saxpy_run reference_device ?n k (k + 1) (k + 2) (?m, k + 3, False) =
      (Some out, (m, k + 3, False))" and m: "dom m = {k, k + 1, k + 2}"
    using reference_run [OF n assms(2), of k "k + 3"] by blast
  have "m(k := None, k + 1 := None, k + 2 := None) = Map.empty"
    using m pointers_distinct [of k] by (intro ext) (auto simp: dom_def)
  then have "\<exists>p. fs_cuda_exec reference_device device bytes (Some d) (Map.empty, k, False) =
      (Some 0, Some p, (Map.empty, k + 3, False))"
    using n pointers_distinct [of k]
    by (simp add: fs_cuda_exec_def Let_def malloc device step run free vectors del: of_nat_mult)
  then show ?thesis by blast
qed

theorem exec_verifies_witness:
  "(\<exists>w1. fs_cuda_exec reference_device 0 1024 (Some d_zero) (Map.empty, 1, False) = (Some 0, Some d_one, w1)) \<and>
   run_threads (saxpy_launch f_three 256 256) (rev (grid (unat (grid_blocks 256)) 256)) (run_input 256)
     (replicate 256 f_one) (replicate 256 f_nan) \<noteq> None"
proof -
  obtain p w1 where run: "fs_cuda_exec reference_device 0 1024 (Some d_zero) (Map.empty, 1, False) = (Some 0, Some p, w1)"
    using reference_exec [of 1024 0 d_zero 1] by auto
  have "unat (1024 :: 64 word) div 4 < 2 ^ 31" by simp
  note v = exec_verifies [OF reference_documented this run]
  from v have "Some p = Some d_one" by blast
  with run have "fs_cuda_exec reference_device 0 1024 (Some d_zero) (Map.empty, 1, False) = (Some 0, Some d_one, w1)"
    by (simp only:)
  moreover from v have "run_threads (saxpy_launch f_three (word_of_nat 256) 256) (rev (grid (unat (grid_blocks 256)) 256))
      (run_input 256) (replicate 256 f_one) (replicate 256 f_nan) \<noteq> None"
    by (auto simp: Let_def)
  then have "run_threads (saxpy_launch f_three 256 256) (rev (grid (unat (grid_blocks 256)) 256)) (run_input 256)
     (replicate 256 f_one) (replicate 256 f_nan) \<noteq> None" by simp
  ultimately show ?thesis by blast
qed

theorem exec_returns_memory_witness:
  "\<exists>p w1. fs_cuda_exec reference_device 0 4096 (Some d_zero) (Map.empty, 1, False) = (Some 0, p, w1) \<and>
     dom (fst w1) = {}"
proof -
  obtain p where run: "fs_cuda_exec reference_device 0 4096 (Some d_zero) (Map.empty, 1, False) =
      (Some 0, Some p, (Map.empty, 1 + 3, False))"
    using reference_exec [of 4096 0 d_zero 1] by auto
  then show ?thesis
    using exec_returns_memory [OF reference_buffers, where device = 0 and bytes = 4096 and parity = "Some d_zero"
        and w = "(Map.empty, 1, False)"] by (simp only: run) auto
qed

section \<open>The adapter under the worker\<close>

text \<open>On a host that has the memory every run returns, and a directive executed on a working device is
  never answered with success and a wrong parity.\<close>

lemma exec_returns:
  assumes "\<And>n v. fst (host_vector rt n v)"
  shows "fst (fs_cuda_exec rt device bytes parity w) \<noteq> None"
proof (cases rule: fs_cuda_exec_cases [of rt device w bytes parity])
  case (no_host_memory w1 da w2 db w3 dout w4 w5)
  then show ?thesis
    using assms by (auto simp: host_vectors_def split: prod.splits bool.splits) (metis fst_conv)+
qed simp_all

lemma directive_truthful:
  assumes "device_documented rt mem" "unat alloc div 4 < 2 ^ 31"
    and "rd_run get_directive payload = Inr (plan, authority, alloc)" "\<And>n v. fst (host_vector rt n v)"
  shows "\<exists>parity before after er w1. execute_directive (fabric_cuda rt) io ch payload w =
     send_frame io ch EXECUTION_RESULT
       (put_u64 plan @ put_u64 authority @ put_double parity @ put_u64 before @ put_u64 after @
        put_u8 (if er = (0 :: int) then 1 else 0)) 0 w1 \<and> (er = 0 \<longrightarrow> parity = d_one)"
proof -
  obtain before w1 where 1: "cuda_memfree (fabric_cuda rt) 0 w = (before, w1)"
    by (cases "cuda_memfree (fabric_cuda rt) 0 w")
  obtain code p w2 where 2: "fs_cuda_exec rt 0 alloc (Some d_zero) w1 = (code, p, w2)"
    by (cases "fs_cuda_exec rt 0 alloc (Some d_zero) w1")
  let ?er = "the code"
  obtain after w3 where 3: "cuda_memfree (fabric_cuda rt) 0 w2 = (after, w3)"
    by (cases "cuda_memfree (fabric_cuda rt) 0 w2")
  have "cuda_exec (fabric_cuda rt) alloc d_zero w1 = (?er, the p, w2)" using 2 by (simp add: fabric_cuda_def)
  moreover have "?er = 0 \<longrightarrow> the p = d_one"
  proof
    assume "?er = 0"
    moreover have "code \<noteq> None" using exec_returns [OF assms(4), of 0 alloc "Some d_zero" w1] 2 by simp
    ultimately have "code = Some 0" by auto
    then show "the p = d_one" using exec_parity [OF assms(1,2), of 0 d_zero w1 p w2] 2 by simp
  qed
  ultimately show ?thesis using 1 3 assms(3)
    by (intro exI [of _ "the p"] exI [of _ before] exI [of _ after] exI [of _ ?er] exI [of _ w3])
       (simp add: execute_directive_def)
qed

text \<open>A run that fails after its buffers were allocated reports parity 1.0 all the same.\<close>

lemma failed_run_parity:
  assumes "fs_cuda_exec rt device bytes (Some old) w = (Some 6, parity, w1)"
  shows "parity = Some d_one"
proof (cases rule: fs_cuda_exec_cases [of rt device w bytes "Some old"])
  case (run w1 da w2 db w3 dout w4 w5 result w6)
  then show ?thesis using assms by (cases result) auto
qed (use assms in simp_all)

end
