(* ===== verification/Scheduler_Runs.thy ===== *)
theory Scheduler_Runs
  imports Scheduler_Properties
begin

text \<open>
  The good path of a plan, call by call, for the programs that drive a scheduler from one thread:
  what \<open>schedule\<close>, \<open>commit\<close>, \<open>handoff\<close> and \<open>revalidate\<close> return and leave behind when nothing
  stands in the way. A call that only works on plans changes the plan store and the event
  ordinal, nothing else (\<open>only_plans\<close>).
\<close>

definition only_plans :: "SchedulerState \<Rightarrow> SchedulerState \<Rightarrow> bool" where
  "only_plans st st' \<longleftrightarrow> (\<exists>ps n. st' = st\<lparr>plans := ps, nextEventOrdinal := n\<rparr> \<and>
     (\<forall>k. omap_find ps k = None \<longleftrightarrow> omap_find (plans st) k = None))"

lemma only_plans_assign:
  assumes "omap_ok (plans st)" "omap_find (plans st) pid = Some p"
  shows "only_plans st (st\<lparr>plans := omap_assign pid q (plans st), nextEventOrdinal := n\<rparr>)"
    and "only_plans st (st\<lparr>nextEventOrdinal := n, plans := omap_assign pid q (plans st)\<rparr>)"
proof -
  have "\<forall>k. omap_find (omap_assign pid q (plans st)) k = None \<longleftrightarrow> omap_find (plans st) k = None"
    using assms by simp
  then show *: "only_plans st (st\<lparr>plans := omap_assign pid q (plans st), nextEventOrdinal := n\<rparr>)"
    unfolding only_plans_def by blast
  have "st\<lparr>nextEventOrdinal := n, plans := ps\<rparr> = st\<lparr>plans := ps, nextEventOrdinal := n\<rparr>" for ps
    by (rule SchedulerState.equality) simp_all
  with * show "only_plans st (st\<lparr>nextEventOrdinal := n, plans := omap_assign pid q (plans st)\<rparr>)" by (simp only:)
qed

lemma only_plans_fields:
  assumes "only_plans st st'"
  shows "candidates st' = candidates st" "st_authority st' = st_authority st" "st_epoch st' = st_epoch st"
    "cancelledRequests st' = cancelledRequests st" "rankOptions st' = rankOptions st"
    "fencedWorkers st' = fencedWorkers st" "fencedSources st' = fencedSources st"
    "nextPlanId st' = nextPlanId st" "st_policy st' = st_policy st"
    "omap_find (plans st') k = None \<longleftrightarrow> omap_find (plans st) k = None"
  using assms by (auto simp: only_plans_def)

lemma move_plan_only:
  "omap_ok (plans st) \<Longrightarrow> omap_find (plans st) pid = Some p \<Longrightarrow> only_plans st (move_plan pid q t st)"
  unfolding move_plan_def by (rule only_plans_assign)

lemma only_plans_trans: "only_plans a b \<Longrightarrow> only_plans b c \<Longrightarrow> only_plans a c"
  unfolding only_plans_def by (elim exE conjE) (simp, blast)

section \<open>Each call\<close>

lemma lone_schedule:
  assumes "schedule_begin st = [c]" "validate (demand r) = Inr ()" "meets_hard_constraints r c dep pol"
  shows "schedule r dep pol st = schedule_finish r dep [(Ranker_evaluate r c (rankOptions st), c)] [] st"
  using assms
  by (simp add: schedule_eq eligible_entries_def rejected_entries_def eligible_def evaluate_eligible std_sort_def)

lemma no_schedule:
  assumes "\<And>c. c \<in> set (schedule_begin st) \<Longrightarrow> \<not> meets_hard_constraints r c dep pol"
    and "validate (demand r) = Inr ()"
  shows "\<exists>d. schedule r dep pol st = (Inr d, st\<lparr>requests := omap_assign (req_requestId r) r (requests st)\<rparr>) \<and>
     \<not> producedPlan d"
proof -
  have "entries_of r dep pol st = []"
    using assms(1) by (simp add: eligible_entries_def eligible_def evaluate_eligible filter_empty_conv)
  then show ?thesis using assms(2) by (simp add: schedule_eq std_sort_def schedule_finish_def Let_def)
qed

lemma schedule_places:
  assumes "schedule r dep pol st = schedule_finish r dep ((rk, c) # rest) rej st"
    and "sched_ok st" "omap_find (plans st) (StrongId (nextPlanId st)) = None"
    and "req_requestId r \<notin> set (cancelledRequests st)"
  obtains d st' where "schedule r dep pol st = (Inr d, st')" "producedPlan d"
    and "selectedCandidate (dec_plan d) = rc_candidateId rk" "planId (dec_plan d) = StrongId (nextPlanId st)"
    and "committable (planId (dec_plan d)) (dec_plan d) st'" "sched_ok st'"
    and "generations (dec_plan d) = make_fingerprint c r dep (st_epoch st)"
    and "candidates st' = candidates st" "fencedWorkers st' = fencedWorkers st" "fencedSources st' = fencedSources st"
    and "cancelledRequests st' = cancelledRequests st" "st_authority st' = st_authority st"
    and "nextPlanId st' = nextPlanId st + 1" "rankOptions st' = rankOptions st" "st_epoch st' = st_epoch st"
    and "plans st' = omap_emplace (StrongId (nextPlanId st)) (dec_plan d) (plans st)"
proof -
  obtain d st' where run: "schedule_finish r dep ((rk, c) # rest) rej st = (Inr d, st')"
    and d: "dec_plan d = fresh_plan r dep rej (rk, c) rest st" "producedPlan d"
    and s: "st' = st\<lparr>nextPlanId := nextPlanId st + 1, nextEventOrdinal := nextEventOrdinal st + 4,
         plans := omap_emplace (StrongId (nextPlanId st)) (fresh_plan r dep rej (rk, c) rest st) (plans st),
         latestPlanByRequest :=
           omap_assign (req_requestId r) (StrongId (nextPlanId st)) (latestPlanByRequest st)\<rparr>"
    by (simp add: schedule_finish_Cons)
  have "sched_ok st'"
    using schedule_keeps [OF assms(2), of r dep "(rk, c) # rest" rej] run by (simp add: keeps_def)
  moreover have "committable (planId (dec_plan d)) (dec_plan d) st'"
    using assms(3,4) sched_ok_plans [OF assms(2)] by (simp add: committable_def d(1) s omap_find_emplace)
  moreover have "generations (dec_plan d) = make_fingerprint c r dep (st_epoch st)"
    by (simp add: d(1) fresh_plan_def build_plan_def Let_def)
  ultimately show thesis using that [of d st'] run assms(1) d by (simp add: s)
qed

lemma commit_succeeds:
  assumes "sched_ok st" "committable pid p st" "broker_commit broker (claims p) b = (br, b1)" "succeeded br"
  obtains out st' q where "commit pid broker b st = (Inr out, b1, st')" "succeeded out"
    and "launchable pid q st'" "generations q = generations p" "sched_ok st'" "only_plans st st'"
proof -
  let ?st1 = "move_plan pid p AWAITING_RESOURCE_COMMIT st"
  let ?q = "record_state p AWAITING_RESOURCE_COMMIT (nextEventOrdinal st)"
  let ?st2 = "?st1\<lparr>nextEventOrdinal := nextEventOrdinal ?st1 + 1,
      plans := omap_assign pid (committed_plan ?q (claims p) (nextEventOrdinal ?st1)) (plans ?st1)\<rparr>"
  have ok: "omap_ok (plans st)" using assms(1) by (rule sched_ok_plans)
  have q: "awaiting pid ?q ?st1"
    using assms(2) ok by (simp add: awaiting_def commit_stale_def committable_def move_plan_def)
  obtain out where run: "commit pid broker b st = (Inr out, b1, ?st2)" and out: "succeeded out"
    by (simp add: commit_def commit_begin_proceed [OF assms(2)] assms(3) commit_finish_success [OF q assms(4)])
  have "sched_ok ?st1" using commit_begin_keeps [OF assms(1), of pid] by (simp add: commit_begin_proceed [OF assms(2)] keeps_def)
  then have "sched_ok ?st2"
    using commit_finish_keeps [of ?st1 pid "claims p" br] by (simp add: commit_finish_success [OF q assms(4)] keeps_def)
  moreover have "launchable pid (committed_plan ?q (claims p) (nextEventOrdinal ?st1)) ?st2"
    using assms(2) ok by (simp add: launchable_def committable_def move_plan_def committed_plan_def)
  moreover have "generations (committed_plan ?q (claims p) (nextEventOrdinal ?st1)) = generations p"
    by (simp add: committed_plan_def)
  moreover have "only_plans st ?st1" using assms(2) ok by (auto simp: committable_def intro: move_plan_only)
  moreover have "only_plans ?st1 ?st2"
    using q ok by (intro only_plans_assign(2) [where p = ?q]) (simp_all add: awaiting_def move_plan_def)
  ultimately show thesis using that run out only_plans_trans by blast
qed

lemma handoff_succeeds:
  assumes "sched_ok st" "launchable pid p st" "authorize exec p e = (h, e1)" "authorized h"
  obtains st' q where "handoff pid exec e st = (Inr h, e1, st')" "omap_find (plans st') pid = Some q"
    and "pl_state q = ACTIVE" "generations q = generations p" "sched_ok st'" "only_plans st st'"
proof -
  let ?st1 = "move_plan pid p AWAITING_EXECUTION st"
  let ?q = "record_state p AWAITING_EXECUTION (nextEventOrdinal st)"
  have ok: "omap_ok (plans st)" using assms(1) by (rule sched_ok_plans)
  have cur: "current_plan pid ?q ?st1"
    using assms(2) ok by (simp add: current_plan_def launchable_def move_plan_def)
  have fin: "handoff_finish pid h ?st1 = (Inr h, move_plan pid ?q ACTIVE ?st1)"
  proof (cases rule: handoff_finish_cases [of pid ?st1 h])
    case (active p')
    then show ?thesis using cur by (simp add: current_plan_def)
  next
    case stale
    then show ?thesis using cur by blast
  qed (use cur assms(4) in \<open>auto simp: current_plan_def\<close>)
  let ?st2 = "move_plan pid ?q ACTIVE ?st1"
  have "handoff pid exec e st = (Inr h, e1, ?st2)"
    by (simp add: handoff_def handoff_begin_proceed [OF assms(2)] assms(3) fin)
  moreover have "sched_ok ?st1"
    using handoff_begin_keeps [OF assms(1), of pid] by (simp add: handoff_begin_proceed [OF assms(2)] keeps_def)
  then have "sched_ok ?st2" using handoff_finish_keeps [of ?st1 pid h] fin by (simp add: keeps_def)
  moreover have "omap_find (plans ?st2) pid = Some (record_state ?q ACTIVE (nextEventOrdinal ?st1))"
    using ok by (simp add: move_plan_def)
  moreover have "only_plans st ?st1" using assms(2) ok by (auto simp: launchable_def intro: move_plan_only)
  moreover have "only_plans ?st1 ?st2"
    using cur ok by (intro move_plan_only [where p = ?q]) (simp_all add: current_plan_def move_plan_def)
  ultimately show thesis using only_plans_trans [of st ?st1 ?st2]
    by (intro that [of ?st2 "record_state ?q ACTIVE (nextEventOrdinal ?st1)"]) simp_all
qed

lemma revalidate_outdates:
  assumes "sched_ok st" "omap_find (plans st) pid = Some p" "generations p \<noteq> cur"
  obtains rr st' where "revalidate pid cur st = (Inr rr, st')" "\<not> current rr"
    and "plan_state pid st' = REVALIDATION_REQUIRED" "sched_ok st'" "only_plans st st'"
proof -
  let ?st' = "st\<lparr>plans := omap_assign pid (force_state p REVALIDATION_REQUIRED (nextEventOrdinal st)) (plans st),
      nextEventOrdinal := nextEventOrdinal st + 1\<rparr>"
  have run: "revalidate pid cur st = (Inr (revalidate_plan p cur), ?st')"
    using assms(2,3) by (simp add: revalidate_def Let_def current_iff_same)
  moreover have "plan_state pid ?st' = REVALIDATION_REQUIRED"
    using sched_ok_plans [OF assms(1)] by (simp add: plan_state_def)
  moreover have "sched_ok ?st'" using revalidate_keeps [OF assms(1), of pid cur] run by (simp add: keeps_def)
  moreover have "only_plans st ?st'" by (rule only_plans_assign(1) [OF sched_ok_plans [OF assms(1)] assms(2)])
  ultimately show thesis using that [of "revalidate_plan p cur" ?st'] assms(3) by (simp add: current_iff_same)
qed

text \<open>A plan that is not COMMITTED is refused before the execution fabric is asked.\<close>

lemma handoff_refused:
  assumes "plan_state pid st \<noteq> COMMITTED"
  shows "handoff pid exec e st = (Inr default_ExecutionHandoff, e, st)"
proof -
  have "\<not> launchable pid p st" for p using assms by (auto simp: launchable_def plan_state_def)
  then show ?thesis by (simp add: handoff_def handoff_begin_return)
qed

text \<open>A candidate that is new, or newer than the one known, is taken when nothing of it is fenced.\<close>

lemma ingest_succeeds:
  assumes "check_candidate c = Inr ()" "workerBootId c \<notin> set (fencedWorkers st)"
    and "sourceBootId c \<notin> set (fencedSources st)"
    and "\<And>old. omap_find (candidates st) (candidateId c) = Some old \<Longrightarrow>
      id_value (candidateGeneration old) < id_value (candidateGeneration c)"
  shows "ingest_candidate c st = (Inr (), st\<lparr>candidates := omap_assign (candidateId c) c (candidates st),
     ingestWatermark := ingestWatermark st + 1\<rparr>)"
  using assms
  by (auto simp: ingest_candidate_def omap_emplace_def not_le [symmetric] split: option.split)

section \<open>A whole placement\<close>

text \<open>A lone candidate that meets the request is placed, committed and handed off.\<close>

lemma placement_runs:
  assumes "sched_ok st" "schedule_begin st = [c]" "validate (demand r) = Inr ()"
    and "meets_hard_constraints r c dep pol" "omap_find (plans st) (StrongId (nextPlanId st)) = None"
    and "req_requestId r \<notin> set (cancelledRequests st)"
    and "\<And>cs. \<exists>br. broker_commit broker cs b = (br, b) \<and> succeeded br"
    and "\<And>p. \<exists>h. authorize exec p e = (h, e) \<and> authorized h"
  obtains d s2 out s3 h s4 q where "schedule r dep pol st = (Inr d, s2)" "producedPlan d"
    and "selectedCandidate (dec_plan d) = candidateId c" "planId (dec_plan d) = StrongId (nextPlanId st)"
    and "commit (planId (dec_plan d)) broker b s2 = (Inr out, b, s3)" "succeeded out"
    and "handoff (planId (dec_plan d)) exec e s3 = (Inr h, e, s4)" "authorized h"
    and "omap_find (plans s4) (planId (dec_plan d)) = Some q" "pl_state q = ACTIVE"
    and "generations q = make_fingerprint c r dep (st_epoch st)" "sched_ok s4"
    and "candidates s4 = candidates st" "fencedWorkers s4 = fencedWorkers st"
    and "fencedSources s4 = fencedSources st" "cancelledRequests s4 = cancelledRequests st"
    and "nextPlanId s4 = nextPlanId st + 1"
    and "\<And>k. k \<noteq> StrongId (nextPlanId st) \<Longrightarrow> omap_find (plans s4) k = None \<longleftrightarrow> omap_find (plans st) k = None"
proof -
  obtain d s2 where d: "schedule r dep pol st = (Inr d, s2)" "producedPlan d"
    "selectedCandidate (dec_plan d) = candidateId c" "planId (dec_plan d) = StrongId (nextPlanId st)"
    "committable (planId (dec_plan d)) (dec_plan d) s2" "sched_ok s2"
    "generations (dec_plan d) = make_fingerprint c r dep (st_epoch st)"
    "candidates s2 = candidates st" "fencedWorkers s2 = fencedWorkers st" "fencedSources s2 = fencedSources st"
    "cancelledRequests s2 = cancelledRequests st" "nextPlanId s2 = nextPlanId st + 1"
    "plans s2 = omap_emplace (StrongId (nextPlanId st)) (dec_plan d) (plans st)"
    by (rule schedule_places [OF lone_schedule [OF assms(2-4)] assms(1,5,6)]) (rule that, simp_all)
  obtain br where br: "broker_commit broker (claims (dec_plan d)) b = (br, b)" "succeeded br" using assms(7) by blast
  obtain out s3 p where c: "commit (planId (dec_plan d)) broker b s2 = (Inr out, b, s3)" "succeeded out"
    "launchable (planId (dec_plan d)) p s3" "generations p = generations (dec_plan d)" "sched_ok s3" "only_plans s2 s3"
    by (rule commit_succeeds [OF d(6,5) br])
  obtain h where h: "authorize exec p e = (h, e)" "authorized h" using assms(8) by blast
  obtain s4 q where f: "handoff (planId (dec_plan d)) exec e s3 = (Inr h, e, s4)"
    "omap_find (plans s4) (planId (dec_plan d)) = Some q" "pl_state q = ACTIVE" "generations q = generations p"
    "sched_ok s4" "only_plans s3 s4"
    by (rule handoff_succeeds [OF c(5,3) h])
  note same = only_plans_fields [OF only_plans_trans [OF c(6) f(6)]]
  have "omap_find (plans s2) k = None \<longleftrightarrow> omap_find (plans st) k = None" if "k \<noteq> StrongId (nextPlanId st)" for k
    using that sched_ok_plans [OF assms(1)] by (simp add: d(13) omap_find_emplace)
  then show thesis
    using d(7-12) c(4) f(4) same
    by (intro that [OF d(1-4) c(1,2) f(1) h(2) f(2,3) _ f(5)]) simp_all
qed

end
