(* ===== verification/Cuda_Proof.thy ===== *)
theory Cuda_Proof
  imports Cuda_Device Scheduler_Runs
begin

text \<open>
  The physical proof of the CUDA path (\<^verbatim>\<open>cuda/src/cuda_proof.cpp\<close>): one process that schedules onto
  the device it probed, runs verified work after the handoff, makes the placement stale and
  checks that it cannot be launched any more, then places and runs again under new generations.

  \<open>cuda_proof_main\<close> is \<^verbatim>\<open>main\<close> over the adapter's functions (\<open>FabricCuda\<close>), with its exit code.
  \<open>cuda_proof_verdict\<close>: on a device with enough free memory the exit code depends on what the
  device does and on nothing else, as every step of the scheduler goes the way the program
  expects; \<open>too_little_memory\<close>: with less, no plan is produced. Printed lines are not modelled.
\<close>

definition OkBroker_commit :: "ResourceClaim list \<Rightarrow> unit \<Rightarrow> ResourceCommitResult \<times> unit" where
  "OkBroker_commit cs b =
     (default_ResourceCommitResult
        \<lparr>succeeded := True, commitmentToken := ''prove'',
         rcr_resourceGeneration := (case cs of [] \<Rightarrow> StrongId 1 | c # _ \<Rightarrow> clm_resourceGeneration c)\<rparr>, ())"

definition ok_broker :: "unit ResourceBroker" where
  "ok_broker = \<lparr>broker_commit = OkBroker_commit, broker_release = (\<lambda>_ b. b)\<rparr>"

definition AcceptExec_authorize :: "PlacementPlan \<Rightarrow> unit \<Rightarrow> ExecutionHandoff \<times> unit" where
  "AcceptExec_authorize plan e =
     (\<lparr>executionId = StrongId 1, executionGeneration = StrongId 1, attemptId = StrongId 1,
       attemptGeneration = StrongId 1, hnd_authorityGeneration = pl_authorityGeneration plan,
       authorized = True\<rparr>, ())"

definition accept_exec :: "unit ExecutionFabric" where
  "accept_exec = \<lparr>authorize = AcceptExec_authorize\<rparr>"

definition make_real_candidate ::
  "DeviceId \<Rightarrow> CudaDeviceInfo \<Rightarrow> WorkerBootId \<Rightarrow> SourceBootId \<Rightarrow> CapacityGeneration \<Rightarrow> DeviceGeneration
     \<Rightarrow> CongestionGeneration \<Rightarrow> CandidateGeneration \<Rightarrow> Candidate"
where
  "make_real_candidate i info wb sb capGen devGen congGen candGen =
     default_Candidate
       \<lparr>candidateId := StrongId 100, candidateGeneration := candGen,
        workerId := StrongId (id_value i), workerBootId := wb,
        sourceId := StrongId (id_value i + 9000), sourceBootId := sb,
        cand_provenance := Prov_Measured,
        bindings := [default_DeviceBinding
          \<lparr>deviceId := i, deviceGeneration := devGen,
           bnd_resourceId := StrongId (id_value i), bnd_resourceGeneration := StrongId 1,
           nodeId := StrongId 1, nodeGeneration := StrongId 1,
           memoryDomainId := StrongId 1, memoryDomainGeneration := StrongId 1,
           nicId := StrongId 1, nicGeneration := StrongId 1,
           storageId := StrongId 1, storageGeneration := StrongId 1,
           cpuDomainId := StrongId 1, cpuDomainGeneration := StrongId 1,
           bnd_capability := Acc_Cuda, cudaCompatibility := cu_major info * 10 + cu_minor info,
           capabilityCurrent := True, bnd_capabilityGeneration := StrongId 1\<rparr>],
        capacity := default_CapacityEvidence
          \<lparr>cap_generation := capGen, vramTotal := totalBytes info, vramAvailable := freeBytes info,
           hostMemoryAvailable := GiB 32, pinnedMemoryAvailable := GiB 1, cpuAvailable := 16,
           storageAvailable := GiB 64, nicBandwidthAvailable := GiB 4, contiguousMemory := True,
           cap_provenance := Prov_Measured\<rparr>,
        health := default_HealthEvidence
          \<lparr>hea_generation := StrongId 1, hea_ready := True, healthScore := d_one,
           hea_provenance := Prov_Measured\<rparr>,
        reservation := default_ReservationEvidence
          \<lparr>rsv_generation := StrongId 1, rsv_provenance := Prov_Reported\<rparr>,
        congestion := default_CongestionEvidence
          \<lparr>cgs_generation := congGen, cgs_congestion := d_zero, residualBandwidth := d_one,
           cgs_provenance := Prov_Measured\<rparr>,
        locality := default_LocalityEvidence
          \<lparr>topologyGeneration := StrongId 1, numaDistance := 0, pcieHops := 1,
           loc_provenance := Prov_Derived\<rparr>,
        communication := default_CommunicationEvidence
          \<lparr>com_planGeneration := StrongId 1, com_provenance := Prov_Derived\<rparr>,
        residency := default_ResidencyEvidence
          \<lparr>residencyGeneration := StrongId 1, stateLocal := True, modelResident := True,
           rsd_provenance := Prov_Reported\<rparr>,
        cand_policyGeneration := StrongId 1\<rparr>"

definition proof_request :: "SchedulingRequestId \<Rightarrow> WorkloadDemandId \<Rightarrow> SchedulingRequest" where
  "proof_request rid did = default_SchedulingRequest
     \<lparr>req_requestId := rid, req_generation := StrongId 1, req_coordinatorEpoch := StrongId 1,
      req_sourceId := StrongId 3, req_sourceBootId := StrongId 30,
      demand := default_DemandProfile
        \<lparr>demandId := did, demandGeneration := StrongId 1, workloadId := StrongId 4,
         workloadGeneration := StrongId 1,
         accelerator := default_AcceleratorRequirement
           \<lparr>acc_capability := Acc_Cuda, minimumCount := 1, targetCount := 1, maximumCount := 1,
            vramPerDevice := MiB 512, acc_capabilityGeneration := StrongId 1\<rparr>,
         dem_memory := \<lparr>hostMemory = GiB 1, pinnedMemory = MiB 64\<rparr>,
         cpuRequired := 2, dem_storage := (dem_storage default_DemandProfile)\<lparr>sto_capacity := GiB 1\<rparr>,
         dem_policyGeneration := StrongId 1, requiredTopologyGeneration := StrongId 1,
         latencySensitivity := LS_High\<rparr>\<rparr>"

definition proof_config :: SchedulerConfig where
  "proof_config = default_SchedulerConfig
     \<lparr>cfg_policy := default_PolicyConfig\<lparr>pol_generation := StrongId 1\<rparr>,
      cfg_maxCandidatesPerRequest := 16\<rparr>"

definition allocBytes :: "64 word" where
  "allocBytes = 256 * 1024 * 1024"

section \<open>The program\<close>

text \<open>
  The part after the first run: the placement becomes stale, its handoff must be refused, and a
  fresh placement runs. An exception of the scheduler ends \<^verbatim>\<open>main\<close> with 99. The plan that was just
  handed off is there, so the empty optional \<^verbatim>\<open>plan\<close> is never dereferenced; that branch is 99 too.
\<close>

definition stale_phase ::
  "'w FabricCuda \<Rightarrow> CudaDeviceInfo \<Rightarrow> PlacementPlanId \<Rightarrow> SchedulerState \<Rightarrow> 'w \<Rightarrow> nat \<times> 'w"
where
  "stale_phase cuda info pid s w =
     (case plan_of pid s of None \<Rightarrow> (99, w) | Some plan \<Rightarrow>
      case revalidate pid ((generations plan)\<lparr>fp_capacity := StrongId 2\<rparr>) s of
        (Inl e, _) \<Rightarrow> (99, w)
      | (Inr _, s1) \<Rightarrow>
      if plan_state pid s1 \<noteq> REVALIDATION_REQUIRED then (11, w) else
      case handoff pid accept_exec () s1 of
        (Inl e, _, _) \<Rightarrow> (99, w)
      | (Inr h, _, s2) \<Rightarrow>
      if authorized h then (12, w) else
      case ingest_candidate (make_real_candidate (StrongId 1) info (StrongId 11) (StrongId 21)
             (StrongId 2) (StrongId 2) (StrongId 2) (StrongId 7)) s2 of
        (Inl e, _) \<Rightarrow> (99, w)
      | (Inr _, s3) \<Rightarrow>
      case schedule (proof_request (StrongId 2) (StrongId 2)) (Some AlwaysReadyDependency)
             (Some AllowAllPolicy) s3 of
        (Inl e, _) \<Rightarrow> (99, w)
      | (Inr d2, s4) \<Rightarrow>
      if \<not> producedPlan d2 then (13, w) else
      case commit (planId (dec_plan d2)) ok_broker () s4 of
        (Inl e, _, _) \<Rightarrow> (99, w)
      | (Inr _, _, s5) \<Rightarrow>
      case handoff (planId (dec_plan d2)) accept_exec () s5 of
        (Inl e, _, _) \<Rightarrow> (99, w)
      | (Inr h2, _, s6) \<Rightarrow>
      if \<not> authorized h2 then (14, w) else
      let (er, parity2, w1) = cuda_exec cuda allocBytes d_zero w in
      if er \<noteq> 0 \<or> \<not> deq parity2 d_one then (15, w1) else (0, w1))"

definition placed_phase ::
  "'w FabricCuda \<Rightarrow> CudaDeviceInfo \<Rightarrow> SchedulerState \<Rightarrow> 64 word \<Rightarrow> 'w \<Rightarrow> nat \<times> 'w"
where
  "placed_phase cuda info s baselineBefore w =
     (case ingest_candidate (make_real_candidate (StrongId 1) info (StrongId 10) (StrongId 20)
             (StrongId 1) (StrongId 1) (StrongId 1) (StrongId 6)) s of
        (Inl e, _) \<Rightarrow> (99, w)
      | (Inr _, s1) \<Rightarrow>
      case schedule (proof_request (StrongId 1) (StrongId 1)) (Some AlwaysReadyDependency)
             (Some AllowAllPolicy) s1 of
        (Inl e, _) \<Rightarrow> (99, w)
      | (Inr d, s2) \<Rightarrow>
      if \<not> producedPlan d then (4, w) else
      if selectedCandidate (dec_plan d) \<noteq> StrongId 100 then (5, w) else
      case commit (planId (dec_plan d)) ok_broker () s2 of
        (Inl e, _, _) \<Rightarrow> (99, w)
      | (Inr cr, _, s3) \<Rightarrow>
      if \<not> succeeded cr then (6, w) else
      case handoff (planId (dec_plan d)) accept_exec () s3 of
        (Inl e, _, _) \<Rightarrow> (99, w)
      | (Inr h, _, s4) \<Rightarrow>
      if \<not> authorized h then (7, w) else
      let (er, parity, w1) = cuda_exec cuda allocBytes d_zero w in
      if er \<noteq> 0 then (8, w1) else if \<not> deq parity d_one then (9, w1) else
      let (baselineAfter, w2) = cuda_memfree cuda 0 w1 in
      if baselineAfter + push_bit 20 4 < baselineBefore then (10, w2) else
      stale_phase cuda info (planId (dec_plan d)) s4 w2)"

definition cuda_proof_main :: "'w FabricCuda \<Rightarrow> 'w \<Rightarrow> nat \<times> 'w" where
  "cuda_proof_main cuda w =
     (let (n, w1) = cuda_count cuda w in
      if n < 1 then (2, w1) else
      let (pr, info, w2) = cuda_probe cuda w1 in
      if pr \<noteq> 0 \<or> \<not> present info then (3, w2) else
      let (baselineBefore, w3) = cuda_memfree cuda 0 w2 in
      placed_phase cuda info (new_Scheduler proof_config) baselineBefore w3)"

section \<open>The scheduler's part\<close>

lemma real_candidate_fields [simp]:
  "candidateId (make_real_candidate i info wb sb cg dg gg g) = StrongId 100"
  "candidateGeneration (make_real_candidate i info wb sb cg dg gg g) = g"
  "workerBootId (make_real_candidate i info wb sb cg dg gg g) = wb"
  "sourceBootId (make_real_candidate i info wb sb cg dg gg g) = sb"
  "cap_generation (capacity (make_real_candidate i info wb sb cg dg gg g)) = cg"
  by (simp_all add: make_real_candidate_def)

lemma real_candidate_checks:
  "is_valid wb \<Longrightarrow> is_valid sb \<Longrightarrow> is_valid g \<Longrightarrow>
     check_candidate (make_real_candidate i info wb sb cg dg gg g) = Inr ()"
  by (simp add: check_candidate_def) (simp add: make_real_candidate_def is_valid_def)

lemma proof_request_fields [simp]: "req_requestId (proof_request rid did) = rid"
  by (simp add: proof_request_def default_SchedulingRequest_def)

lemma proof_request_valid: "is_valid did \<Longrightarrow> validate (demand (proof_request rid did)) = Inr ()"
  by (simp add: demand_eval scenario_defs proof_request_def)

text \<open>The device meets the request exactly when it has 512 MiB free.\<close>

lemma real_candidate_meets:
  "meets_hard_constraints (proof_request rid did) (make_real_candidate i info wb sb cg dg gg g)
     (Some AlwaysReadyDependency) (Some AllowAllPolicy) \<longleftrightarrow> 2 ^ 29 \<le> unat (freeBytes info)"
  by (simp add: meets_hard_constraints_def scenario_defs constraint_defs vram_demand_def is_valid_def
      proof_request_def make_real_candidate_def AlwaysReadyDependency_def AllowAllPolicy_def)

lemma ok_broker_commits: "\<exists>br. broker_commit ok_broker cs () = (br, ()) \<and> succeeded br"
  by (simp add: ok_broker_def OkBroker_commit_def)

lemma accept_exec_accepts: "\<exists>h. authorize accept_exec p () = (h, ()) \<and> authorized h"
  by (simp add: accept_exec_def AcceptExec_authorize_def)

lemma fp_capacity_made: "fp_capacity (make_fingerprint c r dep e) = cap_generation (capacity c)"
  by (simp add: make_fingerprint_def)

text \<open>One placement of the device, from the scheduler it is ingested into to the handoff.\<close>

lemma device_placed:
  assumes "sched_ok st" "candidates st = [(StrongId 100, make_real_candidate i info wb sb cg dg gg g)]"
    and "2 ^ 29 \<le> unat (freeBytes info)" "is_valid did" "rid \<notin> set (cancelledRequests st)"
    and "omap_find (plans st) (StrongId (nextPlanId st)) = None"
  obtains d s2 out s3 h s4 q where
    "schedule (proof_request rid did) (Some AlwaysReadyDependency) (Some AllowAllPolicy) st = (Inr d, s2)"
    and "producedPlan d" "selectedCandidate (dec_plan d) = StrongId 100" "planId (dec_plan d) = StrongId (nextPlanId st)"
    and "commit (planId (dec_plan d)) ok_broker () s2 = (Inr out, (), s3)" "succeeded out"
    and "handoff (planId (dec_plan d)) accept_exec () s3 = (Inr h, (), s4)" "authorized h"
    and "omap_find (plans s4) (planId (dec_plan d)) = Some q" "fp_capacity (generations q) = cg" "sched_ok s4"
    and "candidates s4 = candidates st" "fencedWorkers s4 = fencedWorkers st"
    and "fencedSources s4 = fencedSources st" "cancelledRequests s4 = cancelledRequests st"
    and "nextPlanId s4 = nextPlanId st + 1"
    and "\<And>k. k \<noteq> StrongId (nextPlanId st) \<Longrightarrow> omap_find (plans s4) k = None \<longleftrightarrow> omap_find (plans st) k = None"
proof -
  let ?c = "make_real_candidate i info wb sb cg dg gg g"
  have one: "schedule_begin st = [?c]" using assms(2) by (simp add: schedule_begin_def)
  have meets: "meets_hard_constraints (proof_request rid did) ?c (Some AlwaysReadyDependency) (Some AllowAllPolicy)"
    using assms(3) by (simp only: real_candidate_meets)
  have new: "req_requestId (proof_request rid did) \<notin> set (cancelledRequests st)" using assms(5) by simp
  obtain d s2 out s3 h s4 q where run:
    "schedule (proof_request rid did) (Some AlwaysReadyDependency) (Some AllowAllPolicy) st = (Inr d, s2)"
    "producedPlan d" "selectedCandidate (dec_plan d) = candidateId ?c" "planId (dec_plan d) = StrongId (nextPlanId st)"
    "commit (planId (dec_plan d)) ok_broker () s2 = (Inr out, (), s3)" "succeeded out"
    "handoff (planId (dec_plan d)) accept_exec () s3 = (Inr h, (), s4)" "authorized h"
    "omap_find (plans s4) (planId (dec_plan d)) = Some q" and
    made: "generations q = make_fingerprint ?c (proof_request rid did) (Some AlwaysReadyDependency) (st_epoch st)" and
    after: "sched_ok s4" "candidates s4 = candidates st" "fencedWorkers s4 = fencedWorkers st"
    "fencedSources s4 = fencedSources st" "cancelledRequests s4 = cancelledRequests st"
    "nextPlanId s4 = nextPlanId st + 1"
    "\<And>k. k \<noteq> StrongId (nextPlanId st) \<Longrightarrow> omap_find (plans s4) k = None \<longleftrightarrow> omap_find (plans st) k = None"
    by (rule placement_runs [OF assms(1) one proof_request_valid [OF assms(4)] meets assms(6) new
          ok_broker_commits accept_exec_accepts]) blast
  have "fp_capacity (generations q) = cg" unfolding made fp_capacity_made by simp
  then show thesis by (rule that [OF run(1,2) run(3) [unfolded real_candidate_fields] run(4-9) _ after])
qed

text \<open>The stale placement is refused and the fresh one accepted, so only the second run decides.\<close>

lemma stale_phase_runs:
  assumes "sched_ok s" "omap_find (plans s) pid = Some q" "fp_capacity (generations q) = StrongId 1"
    and "candidates s = [(StrongId 100, make_real_candidate i info wb sb cg dg gg (StrongId 6))]"
    and "fencedWorkers s = []" "fencedSources s = []" "cancelledRequests s = []"
    and "omap_find (plans s) (StrongId (nextPlanId s)) = None" "2 ^ 29 \<le> unat (freeBytes info)"
  shows "stale_phase cuda info pid s w =
     (let (er, parity, w1) = cuda_exec cuda allocBytes d_zero w in
      if er \<noteq> 0 \<or> \<not> deq parity d_one then (15, w1) else (0, w1))"
proof -
  let ?cur = "(generations q)\<lparr>fp_capacity := StrongId 2\<rparr>"
  let ?c = "make_real_candidate (StrongId 1) info (StrongId 11) (StrongId 21) (StrongId 2) (StrongId 2)
     (StrongId 2) (StrongId 7)"
  have "generations q \<noteq> ?cur"
  proof
    assume "generations q = ?cur"
    then have "fp_capacity (generations q) = fp_capacity ?cur" by (rule arg_cong)
    then show False using assms(3) by simp
  qed
  from revalidate_outdates [OF assms(1,2) this] obtain rr s1 where
    r: "revalidate pid ?cur s = (Inr rr, s1)" "plan_state pid s1 = REVALIDATION_REQUIRED" "sched_ok s1"
      "only_plans s s1" by metis
  note same = only_plans_fields [OF r(4)]
  have h: "handoff pid accept_exec () s1 = (Inr default_ExecutionHandoff, (), s1)"
    using r(2) by (intro handoff_refused) simp
  let ?s3 = "s1\<lparr>candidates := omap_assign (StrongId 100) ?c (candidates s1), ingestWatermark := ingestWatermark s1 + 1\<rparr>"
  have i: "ingest_candidate ?c s1 = (Inr (), ?s3)"
    using ingest_succeeds [of ?c s1] assms(4-6) same
    by (simp add: real_candidate_checks is_valid_def omap_find_def)
  then have ok3: "sched_ok ?s3" using ingest_keeps [OF r(3), of ?c] by (simp add: keeps_def)
  obtain d2 s4 out s5 h2 s6 where
    "schedule (proof_request (StrongId 2) (StrongId 2)) (Some AlwaysReadyDependency) (Some AllowAllPolicy) ?s3 = (Inr d2, s4)"
    "producedPlan d2" "commit (planId (dec_plan d2)) ok_broker () s4 = (Inr out, (), s5)"
    "handoff (planId (dec_plan d2)) accept_exec () s5 = (Inr h2, (), s6)" "authorized h2"
    by (rule device_placed [OF ok3, of "StrongId 1" info "StrongId 11" "StrongId 21" "StrongId 2" "StrongId 2"
          "StrongId 2" "StrongId 7" "StrongId 2" "StrongId 2"])
       (use assms(4,7-9) same in \<open>simp_all add: omap_assign.simps is_valid_def\<close>)
  then show ?thesis
    by (simp add: stale_phase_def plan_of_def assms(2) r(1,2) h i default_ExecutionHandoff_def)
qed

lemma first_ingest:
  "ingest_candidate (make_real_candidate (StrongId 1) info (StrongId 10) (StrongId 20) (StrongId 1) (StrongId 1)
       (StrongId 1) (StrongId 6)) (new_Scheduler proof_config) =
     (Inr (), (new_Scheduler proof_config)
        \<lparr>candidates := [(StrongId 100, make_real_candidate (StrongId 1) info (StrongId 10) (StrongId 20)
           (StrongId 1) (StrongId 1) (StrongId 1) (StrongId 6))], ingestWatermark := 1\<rparr>)"
  by (subst ingest_succeeds) (simp_all add: real_candidate_checks is_valid_def new_Scheduler_def)

lemma placed_phase_runs:
  assumes "2 ^ 29 \<le> unat (freeBytes info)"
  shows "placed_phase cuda info (new_Scheduler proof_config) before w =
     (let (er, parity, w1) = cuda_exec cuda allocBytes d_zero w in
      if er \<noteq> 0 then (8, w1) else if \<not> deq parity d_one then (9, w1) else
      let (after, w2) = cuda_memfree cuda 0 w1 in
      if after + push_bit 20 4 < before then (10, w2) else
      let (er2, parity2, w3) = cuda_exec cuda allocBytes d_zero w2 in
      if er2 \<noteq> 0 \<or> \<not> deq parity2 d_one then (15, w3) else (0, w3))"
proof -
  let ?c = "make_real_candidate (StrongId 1) info (StrongId 10) (StrongId 20) (StrongId 1) (StrongId 1)
       (StrongId 1) (StrongId 6)"
  let ?s1 = "(new_Scheduler proof_config)\<lparr>candidates := [(StrongId 100, ?c)], ingestWatermark := 1\<rparr>"
  have fields: "plans ?s1 = []" "cancelledRequests ?s1 = []" "fencedWorkers ?s1 = []" "fencedSources ?s1 = []"
    "candidates ?s1 = [(StrongId 100, ?c)]" "nextPlanId ?s1 = 1"
    by (simp_all add: new_Scheduler_def)
  have ok: "sched_ok ?s1"
    using ingest_keeps [OF sched_ok_new, of proof_config ?c] by (simp add: first_ingest keeps_def)
  have new: "StrongId 1 \<notin> set (cancelledRequests ?s1)" "omap_find (plans ?s1) (StrongId (nextPlanId ?s1)) = None"
    unfolding fields by simp_all
  have did: "is_valid (StrongId 1)" by (simp add: is_valid_def)
  obtain d s2 out s3 h s4 q where run:
    "schedule (proof_request (StrongId 1) (StrongId 1)) (Some AlwaysReadyDependency) (Some AllowAllPolicy) ?s1 = (Inr d, s2)"
    "producedPlan d" "selectedCandidate (dec_plan d) = StrongId 100"
    "commit (planId (dec_plan d)) ok_broker () s2 = (Inr out, (), s3)" "succeeded out"
    "handoff (planId (dec_plan d)) accept_exec () s3 = (Inr h, (), s4)" "authorized h" and
    q: "omap_find (plans s4) (planId (dec_plan d)) = Some q" "fp_capacity (generations q) = StrongId 1" "sched_ok s4" and
    after: "candidates s4 = candidates ?s1" "fencedWorkers s4 = fencedWorkers ?s1"
    "fencedSources s4 = fencedSources ?s1" "cancelledRequests s4 = cancelledRequests ?s1"
    "nextPlanId s4 = nextPlanId ?s1 + 1"
    "\<And>k. k \<noteq> StrongId (nextPlanId ?s1) \<Longrightarrow> omap_find (plans s4) k = None \<longleftrightarrow> omap_find (plans ?s1) k = None"
    by (rule device_placed [OF ok fields(5) assms did new]) blast
  note after = after [unfolded fields]
  have two: "nextPlanId s4 = 2" using after(5) by simp
  have "omap_find (plans s4) (StrongId 2) = None" using after(6) [of "StrongId 2"] by simp
  then have free: "omap_find (plans s4) (StrongId (nextPlanId s4)) = None" unfolding two .
  note stale = stale_phase_runs [OF q(3,1,2) after(1,2,3,4) free assms, of cuda]
  have "placed_phase cuda info (new_Scheduler proof_config) before w =
     (let (er, parity, w1) = cuda_exec cuda allocBytes d_zero w in
      if er \<noteq> 0 then (8, w1) else if \<not> deq parity d_one then (9, w1) else
      let (after, w2) = cuda_memfree cuda 0 w1 in
      if after + push_bit 20 4 < before then (10, w2) else stale_phase cuda info (planId (dec_plan d)) s4 w2)"
    unfolding placed_phase_def first_ingest by (simp add: run)
  then show ?thesis unfolding stale .
qed

text \<open>C21: on a device that is found, probed and has 512 MiB free, the exit code of the physical proof
  is decided by the device alone: 8 or 9 when the first run fails or does not verify, 10 when it
  does not give its memory back, 15 when the second run fails, else 0. Every step of the
  scheduler in between goes as expected: the lone candidate is placed, committed and handed off;
  once its capacity generation moves the placement is revalidation-required and its second
  handoff is refused before any launch; the refreshed candidate is placed and handed off again.\<close>

theorem cuda_proof_verdict:
  assumes "cuda_count cuda w = (n, w1)" "1 \<le> n"
    and "cuda_probe cuda w1 = (0, info, w2)" "present info" "2 ^ 29 \<le> unat (freeBytes info)"
  shows "cuda_proof_main cuda w =
     (let (before, w3) = cuda_memfree cuda 0 w2;
          (er, parity, w4) = cuda_exec cuda allocBytes d_zero w3 in
      if er \<noteq> 0 then (8, w4) else if \<not> deq parity d_one then (9, w4) else
      let (after, w5) = cuda_memfree cuda 0 w4 in
      if after + push_bit 20 4 < before then (10, w5) else
      let (er2, parity2, w6) = cuda_exec cuda allocBytes d_zero w5 in
      if er2 \<noteq> 0 \<or> \<not> deq parity2 d_one then (15, w6) else (0, w6))"
proof -
  obtain before w3 where m: "cuda_memfree cuda 0 w2 = (before, w3)" by (cases "cuda_memfree cuda 0 w2")
  have "cuda_proof_main cuda w = placed_phase cuda info (new_Scheduler proof_config) before w3"
    using assms(1-4) by (simp add: cuda_proof_main_def m)
  then show ?thesis by (simp only: placed_phase_runs [OF assms(5)] m Let_def prod.case)
qed

text \<open>With less memory free the filter rejects the device and there is no plan.\<close>

lemma too_little_memory:
  assumes "cuda_count cuda w = (n, w1)" "1 \<le> n"
    and "cuda_probe cuda w1 = (0, info, w2)" "present info" "unat (freeBytes info) < 2 ^ 29"
  shows "cuda_proof_main cuda w = (4, snd (cuda_memfree cuda 0 w2))"
proof -
  obtain before w3 where m: "cuda_memfree cuda 0 w2 = (before, w3)" by (cases "cuda_memfree cuda 0 w2")
  let ?c = "make_real_candidate (StrongId 1) info (StrongId 10) (StrongId 20) (StrongId 1) (StrongId 1)
       (StrongId 1) (StrongId 6)"
  let ?s1 = "(new_Scheduler proof_config)\<lparr>candidates := [(StrongId 100, ?c)], ingestWatermark := 1\<rparr>"
  have "\<not> meets_hard_constraints (proof_request (StrongId 1) (StrongId 1)) c
      (Some AlwaysReadyDependency) (Some AllowAllPolicy)" if "c \<in> set (schedule_begin ?s1)" for c
    using that assms(5) by (auto simp: schedule_begin_def real_candidate_meets)
  moreover have "validate (demand (proof_request (StrongId 1) (StrongId 1))) = Inr ()"
    by (rule proof_request_valid) (simp add: is_valid_def)
  ultimately obtain d s where "schedule (proof_request (StrongId 1) (StrongId 1)) (Some AlwaysReadyDependency)
      (Some AllowAllPolicy) ?s1 = (Inr d, s)" "\<not> producedPlan d"
    using no_schedule [of ?s1 "proof_request (StrongId 1) (StrongId 1)"] by blast
  then show ?thesis using assms(1-4) m
    by (simp add: cuda_proof_main_def placed_phase_def first_ingest)
qed

section \<open>The whole program on a device that works\<close>

lemma deq_refl_one: "deq d_one d_one"
  by (simp add: deq_def)

lemma reference_fabric:
  "cuda_count (fabric_cuda reference_device) w = (1, w)"
  "cuda_probe (fabric_cuda reference_device) w = (0, \<lparr>cu_name = ''reference'', cu_major = 12, cu_minor = 0,
     totalBytes = push_bit 35 1, freeBytes = push_bit 34 1, present = True\<rparr>, w)"
  "cuda_memfree (fabric_cuda reference_device) v w = (push_bit 34 1, w)"
  by (simp_all add: fabric_cuda_def fs_cuda_count_def fs_cuda_probe_def fs_cuda_memfree_def reference_device_def)

lemma reference_fabric_exec:
  "cuda_exec (fabric_cuda reference_device) allocBytes d (Map.empty, k, False) = (0, d_one, (Map.empty, k + 3, False))"
proof -
  obtain p where "fs_cuda_exec reference_device 0 allocBytes (Some d) (Map.empty, k, False) =
      (Some 0, Some p, (Map.empty, k + 3, False))"
    using reference_exec [of allocBytes 0 d k] by (auto simp: allocBytes_def)
  moreover from this have "Some p = Some d_one"
    by (rule exec_parity [OF reference_documented, rotated]) (simp add: allocBytes_def)
  ultimately show ?thesis by (simp add: fabric_cuda_def)
qed

theorem cuda_proof_verdict_witness:
  "cuda_proof_main (fabric_cuda reference_device) (Map.empty, 1, False) = (0, (Map.empty, 7, False))"
  using cuda_proof_verdict [of "fabric_cuda reference_device" "(Map.empty, 1, False)", OF reference_fabric(1) _ reference_fabric(2)]
  by (simp add: reference_fabric(3) reference_fabric_exec deq_refl_one)

end
