(* ===== verification/Cuda_Death.thy ===== *)
theory Cuda_Death
  imports Win_Process Thread_Properties Cuda_Proof
begin

text \<open>
  The proof driver \<^verbatim>\<open>cuda_worker_death_proof.cpp\<close>: it starts a coordinator and two CUDA workers, has
  work placed on the first and run there, kills it, and checks that the second is placed instead,
  that the dead worker's evidence and its plan are refused, and that a third worker can take over.

  A piece of \<^verbatim>\<open>main\<close> either goes on with a value (\<open>Cont\<close>), returns an exit code (\<open>Exit\<close>) or ends
  the program with an exception (\<open>Thrown\<close>, or \<open>NotANumber\<close> of \<^verbatim>\<open>std::stoul\<close>), which nothing catches; \<open>None\<close> is a piece that does not
  return. The thread that accepts the workers' control channels is \<open>control_turn\<close>; what the main
  thread reads of its map is a function of the world, a parameter. A channel that is not in the map
  would be a null pointer that is dereferenced (\<open>None\<close>). The texts printed are not modelled.

  Shown: the driver reads the port the coordinator printed; the arguments it writes are the ones
  the worker reads; the coordinator answers its replay as it expects once the worker is fenced.
\<close>

section \<open>Pieces of the main function\<close>

datatype 'a run = Thrown FabricError | NotANumber conversion_error | Exit nat | Cont 'a

type_synonym ('a, 'w) piece = "'w \<Rightarrow> ('a run \<times> 'w) option"

definition go_on :: "'a \<Rightarrow> ('a, 'w) piece" where
  "go_on x w = Some (Cont x, w)"

definition and_then :: "('a, 'w) piece \<Rightarrow> ('a \<Rightarrow> ('b, 'w) piece) \<Rightarrow> ('b, 'w) piece" where
  "and_then m f w =
     (case m w of
        None \<Rightarrow> None
      | Some (Thrown e, w1) \<Rightarrow> Some (Thrown e, w1)
      | Some (NotANumber e, w1) \<Rightarrow> Some (NotANumber e, w1)
      | Some (Exit n, w1) \<Rightarrow> Some (Exit n, w1)
      | Some (Cont x, w1) \<Rightarrow> f x w1)"

definition need :: "bool \<Rightarrow> nat \<Rightarrow> (unit, 'w) piece" where
  "need b n w = Some (if b then Cont () else Exit n, w)"

definition attempt :: "('w \<Rightarrow> 'a res \<times> 'w) \<Rightarrow> ('a, 'w) piece" where
  "attempt f w = Some (case f w of (Inl e, w1) \<Rightarrow> (Thrown e, w1) | (Inr x, w1) \<Rightarrow> (Cont x, w1))"

definition effect :: "('w \<Rightarrow> 'w) \<Rightarrow> (unit, 'w) piece" where
  "effect f w = Some (Cont (), f w)"

definition from_some :: "'a option \<Rightarrow> ('a, 'w) piece" where
  "from_some r w = (case r of None \<Rightarrow> None | Some x \<Rightarrow> Some (Cont x, w))"

definition waited :: "('w \<Rightarrow> ('a \<times> 'w) option) \<Rightarrow> ('a, 'w) piece" where
  "waited f w = map_option (\<lambda>(x, w1). (Cont x, w1)) (f w)"

text \<open>Reading a payload; what follows is not looked at.\<close>

definition parse :: "'a reader \<Rightarrow> byte list \<Rightarrow> ('a, 'w) piece" where
  "parse rd payload = attempt (\<lambda>w. (rd_run rd payload, w))"

section \<open>The driver's requests\<close>

definition death_request :: "SchedulingRequestId \<Rightarrow> WorkloadDemandId \<Rightarrow> SchedulingRequest" where
  "death_request r d = default_SchedulingRequest
     \<lparr>req_requestId := r, req_generation := StrongId 1, req_coordinatorEpoch := StrongId 1,
      req_sourceId := StrongId 3, req_sourceBootId := StrongId 30,
      demand := default_DemandProfile
        \<lparr>demandId := d, demandGeneration := StrongId 1, workloadId := StrongId 4,
         workloadGeneration := StrongId 1,
         accelerator := default_AcceleratorRequirement
           \<lparr>acc_capability := Acc_Cuda, minimumCount := 1, targetCount := 1, maximumCount := 1,
            vramPerDevice := MiB 512, acc_capabilityGeneration := StrongId 1\<rparr>,
         dem_memory := \<lparr>hostMemory = GiB 1, pinnedMemory = MiB 64\<rparr>,
         cpuRequired := 2, dem_storage := (dem_storage default_DemandProfile)\<lparr>sto_capacity := GiB 1\<rparr>,
         dem_policyGeneration := StrongId 1, requiredTopologyGeneration := StrongId 1\<rparr>\<rparr>"

text \<open>The replayed evidence of the dead worker, boot 100.\<close>

definition stale_candidate :: Candidate where
  "stale_candidate = default_Candidate
     \<lparr>candidateId := StrongId 100, candidateGeneration := StrongId 2,
      workerId := StrongId 100, workerBootId := StrongId 100,
      sourceId := StrongId 77000, sourceBootId := StrongId 79000, cand_provenance := Prov_Measured,
      bindings := [default_DeviceBinding
        \<lparr>deviceId := StrongId 1, deviceGeneration := StrongId 1,
         bnd_resourceId := StrongId 1, bnd_resourceGeneration := StrongId 1,
         nodeId := StrongId 1, nodeGeneration := StrongId 1,
         memoryDomainId := StrongId 1, memoryDomainGeneration := StrongId 1,
         nicId := StrongId 1, nicGeneration := StrongId 1,
         storageId := StrongId 1, storageGeneration := StrongId 1,
         cpuDomainId := StrongId 1, cpuDomainGeneration := StrongId 1,
         bnd_capability := Acc_Cuda, cudaCompatibility := 120, capabilityCurrent := True,
         bnd_capabilityGeneration := StrongId 1\<rparr>],
      capacity := default_CapacityEvidence
        \<lparr>cap_generation := StrongId 1, vramAvailable := GiB 6, contiguousMemory := True,
         cap_provenance := Prov_Measured\<rparr>,
      health := default_HealthEvidence
        \<lparr>hea_generation := StrongId 1, hea_ready := True, hea_provenance := Prov_Measured\<rparr>,
      congestion := default_CongestionEvidence
        \<lparr>cgs_generation := StrongId 1, cgs_provenance := Prov_Measured\<rparr>,
      locality := default_LocalityEvidence
        \<lparr>topologyGeneration := StrongId 1, loc_provenance := Prov_Reported\<rparr>,
      communication := default_CommunicationEvidence
        \<lparr>com_planGeneration := StrongId 1, com_provenance := Prov_Derived\<rparr>,
      residency := default_ResidencyEvidence
        \<lparr>residencyGeneration := StrongId 1, rsd_provenance := Prov_Reported\<rparr>,
      cand_policyGeneration := StrongId 1\<rparr>"

definition call ::
  "'w SocketIo \<Rightarrow> TcpChannel \<Rightarrow> MessageType \<Rightarrow> byte list \<Rightarrow> 'w \<Rightarrow> (MessageType \<times> byte list) res \<times> 'w"
where
  "call io ch t payload w =
     (case send_frame io ch t payload 0 w of
        (Inl e, w1) \<Rightarrow> (Inl e, w1)
      | (Inr _, w1) \<Rightarrow> recv_frame io ch w1)"

section \<open>The control channels\<close>

text \<open>One turn of the thread that accepts them: the map from boots to channels.\<close>

definition control_turn ::
  "'w SocketApi \<Rightarrow> (TcpChannel \<Rightarrow> 'w SocketIo) \<Rightarrow> TcpListener \<Rightarrow> (64 word \<rightharpoonup> TcpChannel) \<Rightarrow> 'w
     \<Rightarrow> (64 word \<rightharpoonup> TcpChannel) \<times> 'w"
where
  "control_turn api io l m w =
     (case listener_accept api l w of
        (None, w1) \<Rightarrow> (m, w1)
      | (Some ch, w1) \<Rightarrow>
          (case recv_frame (io ch) ch w1 of
             (Inl e, w2) \<Rightarrow> (m, w2)
           | (Inr (t, payload), w2) \<Rightarrow>
               if t = REGISTER then
                 (case rd_run (rd_bind get_u64 (\<lambda>boot. rd_bind get_string (\<lambda>_. rd_return boot))) payload of
                    Inl e \<Rightarrow> (m, w2)
                  | Inr boot \<Rightarrow> (m(boot \<mapsto> ch), w2))
               else (m, w2)))"

partial_function (option) control_wait ::
  "'w WinApi \<Rightarrow> ('w \<Rightarrow> 64 word \<rightharpoonup> TcpChannel) \<Rightarrow> 64 word list \<Rightarrow> int \<Rightarrow> 'w \<Rightarrow> (bool \<times> 'w) option"
where
  "control_wait win channels boots t0 w =
     (let (t, w1) = clock_now win w in
      if \<not> elapsed_ms t0 t < 10000 then Some (False, w1)
      else if list_all (\<lambda>b. channels w1 b \<noteq> None) boots then Some (True, w1)
      else control_wait win channels boots t0 (sleep_ms win 5 w1))"

definition await_controls ::
  "'w WinApi \<Rightarrow> ('w \<Rightarrow> 64 word \<rightharpoonup> TcpChannel) \<Rightarrow> 64 word list \<Rightarrow> 'w \<Rightarrow> (bool \<times> 'w) option"
where
  "await_controls win channels boots w =
     (let (t0, w1) = clock_now win w in control_wait win channels boots t0 w1)"

section \<open>Starting the programs\<close>

text \<open>The port in the coordinator's output; 0 when there is none.\<close>

definition announced_port :: "string \<Rightarrow> conversion_error + 16 word" where
  "announced_port content =
     (case find_str ''PORT '' content of None \<Rightarrow> Inr 0 | Some p \<Rightarrow> parse_port (drop (p + 5) content))"

definition coordinator_command :: "string \<Rightarrow> string" where
  "coordinator_command file_name = ''--port 0 --state-file '' @ file_name"

definition worker_command :: "16 word \<Rightarrow> 16 word \<Rightarrow> string \<Rightarrow> string" where
  "worker_command coordPort ctrlPort rest =
     ''--coord-port '' @ show_nat (unat coordPort) @ '' --ctrl-port '' @ show_nat (unat ctrlPort) @ rest"

definition start_child ::
  "'w WinApi \<Rightarrow> string \<Rightarrow> string \<Rightarrow> string \<Rightarrow> string \<Rightarrow> nat \<Rightarrow> (Child, 'w) piece"
where
  "start_child win exe args tempdir prefix code w =
     Some (case spawn win exe args tempdir prefix w of
         (None, w1) \<Rightarrow> (Exit code, w1)
       | (Some c, w1) \<Rightarrow> (Cont c, w1))"

definition await_text :: "'w WinApi \<Rightarrow> string \<Rightarrow> string \<Rightarrow> nat \<Rightarrow> (unit, 'w) piece" where
  "await_text win path needle code =
     and_then (waited (wait_for win path needle 10000)) (\<lambda>found. need found code)"

text \<open>The port read from the coordinator's output, when it is there.\<close>

definition read_port :: "'w WinApi \<Rightarrow> string \<Rightarrow> (16 word, 'w) piece" where
  "read_port win path w =
     Some (case announced_port (case read_file win path w of None \<Rightarrow> [] | Some content \<Rightarrow> content) of
         Inl e \<Rightarrow> (NotANumber e, w)
       | Inr p \<Rightarrow> (if p = 0 then Exit 5 else Cont p, w))"

definition connect_controller :: "'w SocketApi \<Rightarrow> 16 word \<Rightarrow> (TcpChannel, 'w) piece" where
  "connect_controller api port w =
     Some (case channel_connect api ''127.0.0.1'' port w of
         (None, w1) \<Rightarrow> (Exit 6, w1)
       | (Some ch, w1) \<Rightarrow> (Cont ch, w1))"

definition start_coordinator ::
  "'w WinApi \<Rightarrow> 'w SocketApi \<Rightarrow> string \<Rightarrow> string \<Rightarrow> (Child \<times> 16 word \<times> TcpChannel, 'w) piece"
where
  "start_coordinator win api exe tempdir =
     and_then (start_child win exe (coordinator_command (tempdir @ backslash @ ''state.bin'')) tempdir ''coord'' 3)
       (\<lambda>c. and_then (await_text win (outPath c) ''READY'' 4)
       (\<lambda>_. and_then (read_port win (outPath c))
       (\<lambda>port. and_then (connect_controller api port)
       (\<lambda>ch. go_on (c, port, ch)))))"

definition start_workers ::
  "'w WinApi \<Rightarrow> ('w \<Rightarrow> 64 word \<rightharpoonup> TcpChannel) \<Rightarrow> string \<Rightarrow> string \<Rightarrow> 16 word \<Rightarrow> 16 word \<Rightarrow> (Child \<times> Child, 'w) piece"
where
  "start_workers win channels exe tempdir port ctrlPort =
     and_then (start_child win exe (worker_command port ctrlPort '' --boot 100 --name cudaA --mode A'') tempdir ''wA'' 7)
       (\<lambda>a. and_then (start_child win exe (worker_command port ctrlPort '' --boot 200 --name cudaB --mode B'') tempdir ''wB'' 8)
       (\<lambda>b. and_then (await_text win (outPath a) ''PUBLISHED cudaA'' 9)
       (\<lambda>_. and_then (await_text win (outPath b) ''PUBLISHED cudaB'' 10)
       (\<lambda>_. and_then (waited (await_controls win channels [100, 200]))
       (\<lambda>got. and_then (need got 11) (\<lambda>_. go_on (a, b)))))))"

section \<open>The dialogue with the coordinator\<close>

definition submit ::
  "'w SocketIo \<Rightarrow> TcpChannel \<Rightarrow> SchedulingRequestId \<Rightarrow> WorkloadDemandId \<Rightarrow> (MessageType \<times> byte list, 'w) piece"
where
  "submit io ch r d = attempt (call io ch SUBMIT_WORKLOAD (enc_request (death_request r d)))"

definition get_placement :: "PlacementPlan reader" where
  "get_placement = rd_bind get_u8 (\<lambda>_. dec_plan_r)"

text \<open>The type of the answer to a commit and to a handoff is not looked at.\<close>

definition commit_call :: "'w SocketIo \<Rightarrow> TcpChannel \<Rightarrow> PlacementPlan \<Rightarrow> nat \<Rightarrow> (unit, 'w) piece" where
  "commit_call io ch p code =
     and_then (attempt (call io ch COMMIT_REQUEST (put_u64 (id_value (planId p)))))
       (\<lambda>(t, payload). and_then (parse get_u8 payload) (\<lambda>ok. need (ok \<noteq> 0) code))"

definition handoff_call :: "'w SocketIo \<Rightarrow> TcpChannel \<Rightarrow> PlacementPlan \<Rightarrow> (MessageType \<times> byte list, 'w) piece" where
  "handoff_call io ch p = attempt (call io ch EXECUTION_HANDOFF (put_u64 (id_value (planId p))))"

definition get_run_report :: "(double \<times> 64 word \<times> 64 word \<times> 8 word) reader" where
  "get_run_report =
     rd_bind get_u64 (\<lambda>_. rd_bind get_u64 (\<lambda>_. rd_bind get_double (\<lambda>parity. rd_bind get_u64 (\<lambda>before.
       rd_bind get_u64 (\<lambda>after. rd_bind get_u8 (\<lambda>success. rd_return (parity, before, after, success)))))))"

definition run_on_worker ::
  "'w SocketIo \<Rightarrow> TcpChannel \<Rightarrow> PlacementPlan \<Rightarrow> 64 word \<Rightarrow> nat \<Rightarrow> nat \<Rightarrow> (unit, 'w) piece"
where
  "run_on_worker io ch p auth bad_parity bad_memory =
     and_then (attempt (call io ch EXECUTE (put_u64 (id_value (planId p)) @ put_u64 auth @ put_u64 (push_bit 20 256))))
       (\<lambda>(t, payload). and_then (parse get_run_report payload)
       (\<lambda>(parity, before, after, success). and_then (need (success = 1 \<and> deq parity d_one) bad_parity)
       (\<lambda>_. need (\<not> after + push_bit 20 4 < before) bad_memory)))"

definition phase1 ::
  "(TcpChannel \<Rightarrow> 'w SocketIo) \<Rightarrow> ('w \<Rightarrow> 64 word \<rightharpoonup> TcpChannel) \<Rightarrow> TcpChannel \<Rightarrow> (PlacementPlan, 'w) piece"
where
  "phase1 io channels ch =
     and_then (submit (io ch) ch (StrongId 1) (StrongId 1))
       (\<lambda>(t, payload). and_then (need (t = PLACEMENT_PLAN) 12)
       (\<lambda>_. and_then (parse get_placement payload)
       (\<lambda>p. and_then (need (selectedCandidate p = StrongId 100) 13)
       (\<lambda>_. and_then (commit_call (io ch) ch p 14)
       (\<lambda>_. and_then (handoff_call (io ch) ch p)
       (\<lambda>(t2, answer). and_then (parse get_u8 answer)
       (\<lambda>ok. and_then (need (ok \<noteq> 0) 15)
       (\<lambda>_. and_then (parse (rd_bind get_u8 (\<lambda>_. get_u64)) answer)
       (\<lambda>auth. and_then (\<lambda>w. from_some (channels w 100) w)
       (\<lambda>c. and_then (run_on_worker (io c) c p auth 16 17) (\<lambda>_. go_on p)))))))))))"

text \<open>After the death of the first worker: submit until the second is placed, for 15 seconds.\<close>

partial_function (option) phase2 ::
  "'w WinApi \<Rightarrow> (TcpChannel \<Rightarrow> 'w SocketIo) \<Rightarrow> TcpChannel \<Rightarrow> int \<Rightarrow> 'w \<Rightarrow> (unit run \<times> 'w) option"
where
  "phase2 win io ch t0 w =
     (let (t, w1) = clock_now win w in
      if \<not> elapsed_ms t0 t < 15000 then Some (Exit 18, w1)
      else case submit (io ch) ch (StrongId 2) (StrongId 2) w1 of
          Some (Cont (m, payload), w2) \<Rightarrow>
            if m = PLACEMENT_PLAN then
              (case rd_run get_placement payload of
                 Inl e \<Rightarrow> Some (Thrown e, w2)
               | Inr p \<Rightarrow>
                   if selectedCandidate p = StrongId 200 then Some (Cont (), w2)
                   else phase2 win io ch t0 (sleep_ms win 8 w2))
            else phase2 win io ch t0 (sleep_ms win 8 w2)
        | Some (Thrown e, w2) \<Rightarrow> Some (Thrown e, w2)
        | Some (NotANumber e, w2) \<Rightarrow> Some (NotANumber e, w2)
        | Some (Exit n, w2) \<Rightarrow> Some (Exit n, w2)
        | None \<Rightarrow> None)"

definition phase3_check :: "MessageType \<Rightarrow> byte list \<Rightarrow> (unit, 'w) piece" where
  "phase3_check t payload =
     and_then (need (t = ERROR) 19)
       (\<lambda>_. and_then (parse get_u16 payload) (\<lambda>code. need (code = 13) 20))"

definition phase3 :: "(TcpChannel \<Rightarrow> 'w SocketIo) \<Rightarrow> TcpChannel \<Rightarrow> (unit, 'w) piece" where
  "phase3 io ch =
     and_then (attempt (call (io ch) ch PUBLISH_RESOURCE (encode_candidate_record stale_candidate)))
       (\<lambda>(t, payload). phase3_check t payload)"

definition phase4 :: "(TcpChannel \<Rightarrow> 'w SocketIo) \<Rightarrow> TcpChannel \<Rightarrow> PlacementPlan \<Rightarrow> (unit, 'w) piece" where
  "phase4 io ch p1 =
     and_then (handoff_call (io ch) ch p1)
       (\<lambda>(t, payload). if t = EXECUTION_RESULT then and_then (parse get_u8 payload) (\<lambda>ok. need (ok = 0) 21)
         else go_on ())"

definition start_third ::
  "'w WinApi \<Rightarrow> ('w \<Rightarrow> 64 word \<rightharpoonup> TcpChannel) \<Rightarrow> string \<Rightarrow> string \<Rightarrow> 16 word \<Rightarrow> 16 word \<Rightarrow> (Child, 'w) piece"
where
  "start_third win channels exe tempdir port ctrlPort =
     and_then (start_child win exe (worker_command port ctrlPort '' --boot 300 --name cudaA2 --mode A'') tempdir ''wA2'' 22)
       (\<lambda>a. and_then (await_text win (outPath a) ''PUBLISHED cudaA2'' 23)
       (\<lambda>_. and_then (waited (await_controls win channels [300]))
       (\<lambda>got. and_then (need got 24) (\<lambda>_. go_on a))))"

definition phase5 ::
  "(TcpChannel \<Rightarrow> 'w SocketIo) \<Rightarrow> ('w \<Rightarrow> 64 word \<rightharpoonup> TcpChannel) \<Rightarrow> TcpChannel \<Rightarrow> (unit, 'w) piece"
where
  "phase5 io channels ch =
     and_then (submit (io ch) ch (StrongId 3) (StrongId 3))
       (\<lambda>(t, payload). and_then (need (t = PLACEMENT_PLAN) 25)
       (\<lambda>_. and_then (parse get_placement payload)
       (\<lambda>p. and_then (need (selectedCandidate p = StrongId 300) 26)
       (\<lambda>_. and_then (commit_call (io ch) ch p 27)
       (\<lambda>_. and_then (handoff_call (io ch) ch p)
       (\<lambda>(t2, answer). and_then (parse (rd_bind get_u8 (\<lambda>ok. rd_bind get_u64 (\<lambda>auth. rd_return (ok, auth)))) answer)
       (\<lambda>(ok, auth). and_then (need (ok \<noteq> 0) 28)
       (\<lambda>_. and_then (\<lambda>w. from_some (channels w 300) w)
       (\<lambda>c. run_on_worker (io c) c p auth 29 30)))))))))"

text \<open>The controller's channel is closed before the children are ended and their files removed.\<close>

definition clean_up ::
  "'w WinApi \<Rightarrow> 'w SocketApi \<Rightarrow> TcpChannel \<Rightarrow> Child list \<Rightarrow> string \<Rightarrow> 'w \<Rightarrow> 'w"
where
  "clean_up win api ch children tempdir w =
     (let w1 = (if socket ch \<noteq> 0 then close_socket api (socket ch) w else w);
          w2 = foldl (\<lambda>w c. cleanup win c w) w1 children in
      delete_path win (tempdir @ backslash @ ''state.bin'') w2)"

text \<open>
  \<^verbatim>\<open>main\<close> from the search of the programs on, with Winsock started and the directory \<open>tempdir\<close>
  created; the empty directory is removed at the end.
\<close>

definition cuda_death_main ::
  "'w WinApi \<Rightarrow> 'w SocketApi \<Rightarrow> (TcpChannel \<Rightarrow> 'w SocketIo) \<Rightarrow> ('w \<Rightarrow> 64 word \<rightharpoonup> TcpChannel) \<Rightarrow> string \<Rightarrow> (unit, 'w) piece"
where
  "cuda_death_main win api io channels tempdir =
     and_then (need (module_dir win \<noteq> [] \<and> worker_path win \<noteq> []) 2)
       (\<lambda>_. and_then (attempt (\<lambda>w. let (r, l, w1) = listener_listen api \<lparr>listener = 0\<rparr> 0 w in (r, w1)))
       (\<lambda>ctrlPort. and_then (start_coordinator win api (module_dir win) tempdir)
       (\<lambda>(coord, port, ch). and_then (start_workers win channels (worker_path win) tempdir port ctrlPort)
       (\<lambda>(a, b). and_then (phase1 io channels ch)
       (\<lambda>p1. and_then (effect (kill_child win a))
       (\<lambda>_. and_then (\<lambda>w. let (t0, w1) = clock_now win w in phase2 win io ch t0 w1)
       (\<lambda>_. and_then (phase3 io ch)
       (\<lambda>_. and_then (phase4 io ch p1)
       (\<lambda>_. and_then (start_third win channels (worker_path win) tempdir port ctrlPort)
       (\<lambda>a2. and_then (phase5 io channels ch)
       (\<lambda>_. and_then (effect (clean_up win api ch [a, b, a2, coord] tempdir))
       (\<lambda>_ w. Some (Exit 0, w)))))))))))))"

section \<open>What the programs say to one another\<close>

text \<open>The port is read back whatever follows it that is no digit, so also before a carriage return.\<close>

lemma port_read_back:
  assumes "c = [] \<or> \<not> is_digit (hd c)"
  shows "announced_port (''PORT '' @ show_nat (unat (p :: 16 word)) @ c) = Inr p"
proof -
  have "find_str ''PORT '' (''PORT '' @ show_nat (unat p) @ c) = Some 0" by simp
  moreover have "unat p < 2 ^ 16" using unsigned_less [of p] by simp
  then have "unat p < 2 ^ 32" by simp
  then have "parse_port (show_nat (unat p) @ c) = Inr p"
    using stoul_round [of "unat p" c, OF _ assms] by (simp add: parse_port_def)
  ultimately show ?thesis by (simp add: announced_port_def)
qed

text \<open>A command line without quotes is split at its blanks.\<close>

fun blank_words :: "string \<Rightarrow> string list" where
  "blank_words [] = [[]]"
| "blank_words (c # s) =
     (if c = CHR '' '' then [] # blank_words s
      else case blank_words s of [] \<Rightarrow> [[c]] | w # ws \<Rightarrow> (c # w) # ws)"

lemma blank_words_word: "CHR '' '' \<notin> set u \<Longrightarrow> blank_words (u @ CHR '' '' # s) = u # blank_words s"
  by (induction u) auto

lemma blank_words_last: "CHR '' '' \<notin> set u \<Longrightarrow> blank_words u = [u]"
  by (induction u) auto

lemma show_nat_no_blank: "CHR '' '' \<notin> set (show_nat n)"
proof
  assume "CHR '' '' \<in> set (show_nat n)"
  then obtain d where "d < 10" "CHR '' '' = digit_char d" using digits_of_bound by (auto simp: show_nat_def)
  moreover have "is_space (CHR '' '')" by (simp add: is_space_def)
  ultimately show False using digit_char_simps(3) by metis
qed

lemma worker_command_words:
  assumes "CHR '' '' \<notin> set boot" "CHR '' '' \<notin> set name" "CHR '' '' \<notin> set mode"
  shows "blank_words (worker_command p q ('' --boot '' @ boot @ '' --name '' @ name @ '' --mode '' @ mode)) =
     [''--coord-port'', show_nat (unat p), ''--ctrl-port'', show_nat (unat q), ''--boot'', boot, ''--name'', name,
      ''--mode'', mode]"
proof -
  have "worker_command p q ('' --boot '' @ boot @ '' --name '' @ name @ '' --mode '' @ mode) =
     ''--coord-port'' @ CHR '' '' # show_nat (unat p) @ CHR '' '' # ''--ctrl-port'' @ CHR '' '' # show_nat (unat q) @
     CHR '' '' # ''--boot'' @ CHR '' '' # boot @ CHR '' '' # ''--name'' @ CHR '' '' # name @ CHR '' '' # ''--mode'' @
     CHR '' '' # mode"
    by (simp add: worker_command_def)
  then show ?thesis
    by (simp only: blank_words_word blank_words_last assms show_nat_no_blank)
       (simp add: blank_words_word blank_words_last assms show_nat_no_blank)
qed

text \<open>A path with a blank is cut: the coordinator gets what is before it.\<close>

lemma blank_path_cut:
  "coordinator_args (blank_words (coordinator_command (''a b'' @ backslash @ ''state.bin''))) default_CoordinatorArgs =
     Inr (Some (default_CoordinatorArgs\<lparr>arg_stateFile := ''a''\<rparr>))"
  by (simp add: coordinator_command_def parse_port_def stoul_def str_to_unsigned_def split_sign_def is_space_def
      is_digit_def digit_val_def default_CoordinatorArgs_def)

lemma stale_candidate_fits: "candidate_fits stale_candidate"
  by (simp add: candidate_fits_def stale_candidate_def list_ok_def binding_fits_def string_ok_def
      scenario_defs kMaxString_def kMaxRecords_def)

lemma stale_candidate_fields [simp]:
  "candidateId stale_candidate = StrongId 100" "workerBootId stale_candidate = StrongId 100"
  by (simp_all add: stale_candidate_def)

lemma stale_candidate_checks: "check_candidate stale_candidate = Inr ()"
  by (simp add: check_candidate_def is_valid_def stale_candidate_def default_Candidate_def)

text \<open>The third check would pass as well when the plan was not stale: it was handed off before, and a plan
  is launched once.\<close>

lemma launched_once:
  assumes "omap_find (plans st) pid = Some p" "pl_state p \<noteq> COMMITTED"
  shows "handoff pid exec e st = (Inr default_ExecutionHandoff, e, st)"
proof -
  have "\<not> launchable pid q st" for q using assms by (auto simp: launchable_def)
  then show ?thesis by (cases rule: handoff_begin_cases [of pid st]) (simp_all add: handoff_def)
qed

text \<open>An error frame in answer to a commit counts as a success.\<close>

lemma error_taken_for_success:
  "parse get_u8 (error_payload StaleAuthority msg) w = Some (Cont 13, w)"
proof -
  have "put_u16 13 = put_u8 13 @ put_u8 0" by code_simp
  then show ?thesis
    by (simp add: parse_def attempt_def error_payload_def enum_code_def all_ErrorCode_def u8.dec_enc rd_run_def)
qed

text \<open>What a worker reports about its run is what the driver reads.\<close>

lemma run_report_round:
  "rd_run get_run_report (put_u64 plan @ put_u64 authority @ put_double parity @ put_u64 before @ put_u64 after @
     put_u8 success @ rest) = Inr (parity, before, after, success)"
  by (simp add: rd_run_def get_run_report_def codec_simps rd_return_def)

section \<open>Properties\<close>

text \<open>What the driver writes on a CUDA worker's command line is what the worker reads there: split at
  its blanks, it yields the two ports, the boot, the name and the mode, for every port and boot and
  every name and mode without a blank.\<close>

theorem worker_arguments_round:
  assumes "CHR '' '' \<notin> set name" "CHR '' '' \<notin> set mode"
  shows "cuda_args (blank_words (worker_command p q
       ('' --boot '' @ show_nat (unat b) @ '' --name '' @ name @ '' --mode '' @ mode))) default_CudaArgs =
     Inr \<lparr>ca_coordPort = p, ca_ctrlPort = q, ca_boot = b, ca_name = name, ca_mode = mode\<rparr>"
  unfolding worker_command_words [OF show_nat_no_blank assms]
  by (simp add: set_cuda_arg_def parse_port_round parse_u64_round default_CudaArgs_def)

theorem worker_arguments_round_witness:
  "cuda_args (blank_words (worker_command 7001 7002 '' --boot 100 --name cudaA --mode A'')) default_CudaArgs =
     Inr \<lparr>ca_coordPort = 7001, ca_ctrlPort = 7002, ca_boot = 100, ca_name = ''cudaA'', ca_mode = ''A''\<rparr>"
proof -
  have "show_nat (unat (100 :: 64 word)) = ''100''"
    by code_simp
  with worker_arguments_round [of "''cudaA''" "''A''" 7001 7002 100] show ?thesis by simp
qed

text \<open>C23: the driver connects to the coordinator it started: when the coordinator came up, the port read
  from what it printed is the one it listens on, whether the system chose it or the command line
  asked for it, and the process serves that listener with the state file of the command line.\<close>

theorem announced_port_is_listened_on:
  assumes "coordinator_main api args startup_ok ws w = (Started (out, P), ws1, w1)"
  shows "\<exists>opts p. coordinator_args args default_CoordinatorArgs = Inr (Some opts) \<and>
     listener_listen api \<lparr>listener = 0\<rparr> (arg_port opts) w = (Inr p, listening P, w1) \<and>
     announced_port out = Inr p \<and> stateFile (shared P) = arg_stateFile opts \<and> world P = w1"
proof -
  have "announced_port (announcement p) = Inr p" for p
    using port_read_back [of "[CHR 0x0A] @ ''READY'' @ [CHR 0x0A]" p]
    by (simp add: announcement_def is_digit_def)
  with assms show ?thesis
    by (auto simp: coordinator_main_def start_process_def new_coordinator_def split: sum.splits option.splits prod.splits)
qed

text \<open>C22: the replay of a dead worker's evidence is refused as the driver expects: once the boot is fenced,
  the coordinator keeps its state and answers PUBLISH_RESOURCE with an ERROR frame, and this frame
  passes the driver's check of its type and of the code 13.\<close>

theorem replay_refused:
  assumes "StrongId 100 \<in> set (fencedWorkers (ctx_sched ctx))"
  shows "\<exists>msg. handle_frame host PUBLISH_RESOURCE (encode_candidate_record stale_candidate) con ctx w =
       (Inr False, con, ctx, send_error host con StaleAuthority msg w) \<and>
     phase3_check ERROR (error_payload StaleAuthority msg) v = Some (Cont (), v)"
proof (intro exI conjI)
  let ?msg = "''candidate published by a fenced worker boot''"
  have "rd_run decode_candidate_record (encode_candidate_record stale_candidate) = Inr stale_candidate"
    using candidate.dec_enc [OF stale_candidate_fits, of "[]"] by (simp add: rd_run_def)
  moreover have "ingest_candidate stale_candidate (ctx_sched ctx) = (throw StaleAuthority ?msg, ctx_sched ctx)"
    using assms by (simp add: ingest_candidate_def stale_candidate_checks)
  ultimately show "handle_frame host PUBLISH_RESOURCE (encode_candidate_record stale_candidate) con ctx w =
       (Inr False, con, ctx, send_error host con StaleAuthority ?msg w)"
    by (simp add: handle_frame_def handle_publish_def)
  show "phase3_check ERROR (error_payload StaleAuthority ?msg) v = Some (Cont (), v)"
    by (simp add: phase3_check_def and_then_def need_def parse_def attempt_def error_payload_def enum_code_def
        all_ErrorCode_def u16.dec_enc rd_run_def)
qed

theorem announced_port_is_listened_on_witness:
  "\<exists>out P p. fst (coordinator_main counting_api [''--port'', ''7001''] True \<lparr>winsockStarted = False, winsockRefs = 0\<rparr>
       ({}, 1)) = Started (out, P) \<and> announced_port out = Inr p \<and> stateFile (shared P) = ''coordinator_state.bin''"
proof -
  let ?ws = "\<lparr>winsockStarted = False, winsockRefs = 0\<rparr>"
  have args: "coordinator_args [''--port'', ''7001''] default_CoordinatorArgs =
      Inr (Some (default_CoordinatorArgs\<lparr>arg_port := 7001\<rparr>))"
    by (simp add: parse_port_def stoul_def str_to_unsigned_def split_sign_def is_space_def is_digit_def digit_val_def)
  obtain out P ws1 w1 where run: "coordinator_main counting_api [''--port'', ''7001''] True ?ws ({}, 1) = (Started (out, P), ws1, w1)"
    unfolding coordinator_main_def args
    by (simp add: winsock_init_def listener_listen_def counting_api_def default_CoordinatorArgs_def Let_def)
  from announced_port_is_listened_on [OF run] args run show ?thesis
    by (auto simp: default_CoordinatorArgs_def)
qed

theorem replay_refused_witness:
  "\<exists>msg. handle_frame demo_host PUBLISH_RESOURCE (encode_candidate_record stale_candidate) demo_connection
       (fence_worker_and_bump (StrongId 100) (new_coordinator [])) (demo_world []) =
     (Inr False, demo_connection, fence_worker_and_bump (StrongId 100) (new_coordinator []),
      send_error demo_host demo_connection StaleAuthority msg (demo_world []))"
proof -
  let ?ctx = "fence_worker_and_bump (StrongId 100) (new_coordinator [])"
  have "StrongId 100 \<in> set (fencedWorkers (ctx_sched ?ctx))"
    by (simp add: fence_and_bump_fields new_coordinator_def fence_worker_def set_epoch_def)
  from replay_refused [OF this, of demo_host demo_connection "demo_world []", where v = "()"] show ?thesis by blast
qed

end
