(* ===== verification/Save_Race.thy ===== *)
theory Save_Race
  imports Thread_Properties
begin

text \<open>
  The state file under SAVE (\<^verbatim>\<open>coordinator_main.cpp\<close>) cut at the calls that touch it: opening the
  stream empties the file, \<^verbatim>\<open>snapshot\<close> locks the scheduler, and the bytes reach the file in pieces,
  each at the position of its own stream. No mutex covers the file, so the SAVEs of several
  connections interleave, with each other and with the sections of other threads. Streams that
  fail are in \<open>handle_save\<close>, which runs these calls in one step.

  Shown here: a SAVE that no other SAVE overlaps leaves the whole snapshot of one moment, as
  \<open>handle_save\<close> has it; two that overlap can both report success and leave a file that every load
  refuses.
\<close>

datatype saver = Opening | Opened | Writing "byte list" nat | Written_out

record saving =
  sv_file :: "byte list"
  sv_sched :: SchedulerState
  savers :: "saver list"

text \<open>A write at a position; what lies between the end of the file and the position becomes zero.\<close>

definition write_at :: "nat \<Rightarrow> byte list \<Rightarrow> byte list \<Rightarrow> byte list" where
  "write_at pos b f = take pos (f @ replicate (pos - length f) 0) @ b @ drop (pos + length b) f"

inductive save_step :: "saving \<Rightarrow> saving \<Rightarrow> bool" where
  opens: "i < length (savers W) \<Longrightarrow> savers W ! i = Opening \<Longrightarrow>
    save_step W (W\<lparr>sv_file := [], savers := (savers W)[i := Opened]\<rparr>)"
| snaps: "i < length (savers W) \<Longrightarrow> savers W ! i = Opened \<Longrightarrow>
    save_step W (W\<lparr>savers := (savers W)[i := Writing (persist_save (snapshot (sv_sched W))) 0]\<rparr>)"
| writes: "i < length (savers W) \<Longrightarrow> savers W ! i = Writing (b @ rest) pos \<Longrightarrow> b \<noteq> [] \<Longrightarrow>
    save_step W (W\<lparr>sv_file := write_at pos b (sv_file W), savers := (savers W)[i := Writing rest (pos + length b)]\<rparr>)"
| closes: "i < length (savers W) \<Longrightarrow> savers W ! i = Writing [] pos \<Longrightarrow>
    save_step W (W\<lparr>savers := (savers W)[i := Written_out]\<rparr>)"
| others: "save_step W (W\<lparr>sv_sched := apply_op op (sv_sched W)\<rparr>)"

section \<open>One SAVE at a time\<close>

definition later :: "SchedulerState \<Rightarrow> SchedulerState \<Rightarrow> bool" where
  "later st st' \<longleftrightarrow> (\<exists>ops. st' = fold apply_op ops st)"

lemma later_refl: "later st st"
  unfolding later_def by (rule exI [of _ "[]"]) simp

lemma later_op: "later st st' \<Longrightarrow> later st (apply_op op st')"
proof -
  assume "later st st'"
  then obtain ops where "st' = fold apply_op ops st" unfolding later_def by blast
  then have "apply_op op st' = fold apply_op (ops @ [op]) st" by simp
  then show "later st (apply_op op st')" unfolding later_def by blast
qed

fun saver_ok :: "SchedulerState \<Rightarrow> byte list \<Rightarrow> saver \<Rightarrow> bool" where
  "saver_ok st f Opening \<longleftrightarrow> True"
| "saver_ok st f Opened \<longleftrightarrow> f = []"
| "saver_ok st f (Writing rest pos) \<longleftrightarrow>
     pos = length f \<and> (\<exists>st'. later st st' \<and> f @ rest = persist_save (snapshot st'))"
| "saver_ok st f Written_out \<longleftrightarrow> (\<exists>st'. later st st' \<and> f = persist_save (snapshot st'))"

definition lone_save :: "SchedulerState \<Rightarrow> saving \<Rightarrow> bool" where
  "lone_save st W \<longleftrightarrow> later st (sv_sched W) \<and> (\<exists>s. savers W = [s] \<and> saver_ok st (sv_file W) s)"

lemma write_at_end: "write_at (length f) b f = f @ b"
  by (simp add: write_at_def)

lemma lone_save_step:
  assumes "save_step W W'" "lone_save st W"
  shows "lone_save st W'"
proof -
  obtain s where s: "savers W = [s]" "saver_ok st (sv_file W) s" "later st (sv_sched W)"
    using assms(2) unfolding lone_save_def by blast
  from assms(1) show ?thesis
  proof cases
    case (opens i)
    then show ?thesis using s by (simp add: lone_save_def)
  next
    case (snaps i)
    then show ?thesis using s by (auto simp: lone_save_def)
  next
    case (writes i b rest pos)
    then have "s = Writing (b @ rest) pos" using s(1) by simp
    with writes s show ?thesis by (auto simp: lone_save_def write_at_end)
  next
    case (closes i pos)
    then have "s = Writing [] pos" using s(1) by simp
    with closes s show ?thesis by (auto simp: lone_save_def)
  next
    case (others op)
    then show ?thesis using s by (simp add: lone_save_def later_op)
  qed
qed

text \<open>A SAVE that no other SAVE overlaps leaves a whole snapshot, of a moment while it ran.\<close>

theorem lone_save_whole:
  assumes "save_step\<^sup>*\<^sup>* \<lparr>sv_file = f, sv_sched = st, savers = [Opening]\<rparr> W" "savers W = [Written_out]"
  shows "\<exists>ops. sv_file W = persist_save (snapshot (fold apply_op ops st))"
proof -
  have "lone_save st \<lparr>sv_file = f, sv_sched = st, savers = [Opening]\<rparr>"
    by (simp add: lone_save_def later_refl)
  with assms(1) have "lone_save st W" by (induction rule: rtranclp_induct) (blast intro: lone_save_step)+
  then show ?thesis using assms(2) by (auto simp: lone_save_def later_def)
qed

section \<open>Two SAVEs at a time\<close>

lemma write_both:
  assumes "length a = length b" "k \<le> length a"
  shows "write_at k (drop k a) (write_at 0 b (take k a)) = take k b @ drop k a"
  using assms by (simp add: write_at_def)

text \<open>The first stream passes on \<open>k\<close> bytes, the second writes all of its own, the first the rest.\<close>

lemma save_mix:
  assumes "length (persist_save (snapshot st)) = length (persist_save (snapshot (apply_op op st)))"
    and "0 < k" "k < length (persist_save (snapshot st))"
  shows "save_step\<^sup>*\<^sup>* \<lparr>sv_file = f, sv_sched = st, savers = [Opening, Opening]\<rparr>
     \<lparr>sv_file = take k (persist_save (snapshot (apply_op op st))) @ drop k (persist_save (snapshot st)),
      sv_sched = apply_op op st, savers = [Written_out, Written_out]\<rparr>"
proof -
  define a where "a = persist_save (snapshot st)"
  define b where "b = persist_save (snapshot (apply_op op st))"
  have len: "length a = length b" "0 < k" "k < length a" using assms by (simp_all add: a_def b_def)
  then have nonempty: "a \<noteq> []" "b \<noteq> []" by auto
  let ?W = "\<lambda>g s ss. \<lparr>sv_file = g, sv_sched = s, savers = ss\<rparr>" and ?st = "apply_op op st"
  have 1: "save_step (?W f st [Opening, Opening]) (?W [] st [Opened, Opening])"
    using save_step.opens [of 0 "?W f st [Opening, Opening]"] by simp
  have 2: "save_step (?W [] st [Opened, Opening]) (?W [] st [Writing a 0, Opening])"
    using save_step.snaps [of 0 "?W [] st [Opened, Opening]"] by (simp add: a_def)
  have 3: "save_step (?W [] st [Writing a 0, Opening]) (?W [] ?st [Writing a 0, Opening])"
    using save_step.others [of "?W [] st [Writing a 0, Opening]" op] by simp
  have 4: "save_step (?W [] ?st [Writing a 0, Opening]) (?W [] ?st [Writing a 0, Opened])"
    using save_step.opens [of 1 "?W [] ?st [Writing a 0, Opening]"] by simp
  have 5: "save_step (?W [] ?st [Writing a 0, Opened]) (?W [] ?st [Writing a 0, Writing b 0])"
    using save_step.snaps [of 1 "?W [] ?st [Writing a 0, Opened]"] by (simp add: b_def)
  have 6: "save_step (?W [] ?st [Writing a 0, Writing b 0]) (?W (take k a) ?st [Writing (drop k a) k, Writing b 0])"
    using save_step.writes [of 0 "?W [] ?st [Writing a 0, Writing b 0]" "take k a" "drop k a" 0] len
    by (simp add: nonempty write_at_def min_def)
  have 7: "save_step (?W (take k a) ?st [Writing (drop k a) k, Writing b 0])
      (?W (write_at 0 b (take k a)) ?st [Writing (drop k a) k, Writing [] (length b)])"
    using save_step.writes [of 1 "?W (take k a) ?st [Writing (drop k a) k, Writing b 0]" b "[]" 0] by (simp add: nonempty)
  let ?g = "take k b @ drop k a"
  have 8: "save_step (?W (write_at 0 b (take k a)) ?st [Writing (drop k a) k, Writing [] (length b)])
      (?W ?g ?st [Writing [] (length a), Writing [] (length b)])"
    using save_step.writes [of 0 "?W (write_at 0 b (take k a)) ?st [Writing (drop k a) k, Writing [] (length b)]"
        "drop k a" "[]" k] len by (simp add: write_both)
  have 9: "save_step (?W ?g ?st [Writing [] (length a), Writing [] (length b)])
      (?W ?g ?st [Written_out, Writing [] (length b)])"
    using save_step.closes [of 0 "?W ?g ?st [Writing [] (length a), Writing [] (length b)]"] by simp
  have 10: "save_step (?W ?g ?st [Written_out, Writing [] (length b)]) (?W ?g ?st [Written_out, Written_out])"
    using save_step.closes [of 1 "?W ?g ?st [Written_out, Writing [] (length b)]"] by simp
  show ?thesis
    using 1 2 3 4 5 6 7 8 9 10 unfolding a_def [symmetric] b_def [symmetric]
    by (meson rtranclp.rtrancl_refl rtranclp.rtrancl_into_rtrancl)
qed

text \<open>
  Two clients save, and between their snapshots the coordinator's epoch advances: when the two
  snapshots have the same size, both SAVEs can be answered with success and leave a file with the
  epoch of one and the checksum of the other, which \<^verbatim>\<open>persist_load\<close> refuses.
\<close>

theorem racing_saves_corrupt:
  assumes "snapshot_fits (snapshot st)" "snapshot_sound (snapshot st)"
    and "length (save_payload (snapshot (apply_op op st))) = length (save_payload (snapshot st))"
    and "save_payload (snapshot (apply_op op st)) ! 0 \<noteq> save_payload (snapshot st) ! 0"
  shows "\<exists>W. save_step\<^sup>*\<^sup>* \<lparr>sv_file = f, sv_sched = st, savers = [Opening, Opening]\<rparr> W \<and>
     savers W = [Written_out, Written_out] \<and>
     persist_load (sv_file W) = throw ChecksumMismatch ''checksum mismatch''"
proof -
  let ?p = "snapshot st" and ?q = "snapshot (apply_op op st)"
  have head: "save_header ?q = save_header ?p" using assms(3) by (simp add: save_header_def snapshot_def)
  have len: "length (save_header ?p) = 17" "0 < length (save_payload ?p)"
    by (simp_all add: save_header_def save_payload_def)
  then obtain x xs where p: "save_payload ?p = x # xs" by (cases "save_payload ?p") simp_all
  with assms(3) obtain y ys where q: "save_payload ?q = y # ys" by (cases "save_payload ?q") simp_all
  have "take 18 (persist_save ?q) @ drop 18 (persist_save ?p) = (persist_save ?p)[17 + 0 := y] @ []"
    by (simp add: persist_save_def head len p q list_update_append)
  moreover have "persist_load ((persist_save ?p)[17 + 0 := y] @ []) = throw ChecksumMismatch ''checksum mismatch''"
    by (rule altered_payload [OF _ _ len(2)])
      (use assms(1,2,4) p q in \<open>simp_all add: snapshot_fits_def snapshot_sound_def snapshot_indexed_def\<close>)
  moreover have "length (persist_save ?p) = length (persist_save ?q)" "18 < length (persist_save ?p)"
    using assms(3) by (simp_all add: persist_save_def head len p)
  ultimately show ?thesis using save_mix [of st op 18 f] by fastforce
qed

theorem racing_saves_corrupt_witness:
  "\<exists>W. save_step\<^sup>*\<^sup>* \<lparr>sv_file = [], sv_sched = new_Scheduler coordinator_config, savers = [Opening, Opening]\<rparr> W \<and>
     savers W = [Written_out, Written_out] \<and>
     persist_load (sv_file W) = throw ChecksumMismatch ''checksum mismatch''"
proof -
  let ?st = "new_Scheduler coordinator_config" and ?op = "SetEpoch (StrongId 2)"
  have fits: "snapshot_fits (snapshot ?st)" using demo_new_fits [of "[]"] by (simp add: new_coordinator_def)
  have "durable ?st" by (simp add: durable_def new_Scheduler_def is_valid_def)
  then have sound: "snapshot_sound (snapshot ?st)"
    using sched_ok_new by (simp add: durable_indexed)
  have moved: "apply_op ?op ?st = fence_plans (?st\<lparr>st_epoch := StrongId 2, st_authority := id_next (st_authority ?st)\<rparr>)"
    by (simp add: set_epoch_def new_Scheduler_def word_le_nat_alt)
  have "length (save_payload (snapshot (apply_op ?op ?st))) = length (save_payload (snapshot ?st))"
    "save_payload (snapshot (apply_op ?op ?st)) ! 0 \<noteq> save_payload (snapshot ?st) ! 0"
    unfolding moved by (simp_all add: save_payload_def snapshot_def fence_plans_def new_Scheduler_def
        put_id_def put_u64_def put_u8_def upt_rec)
  from racing_saves_corrupt [OF fits sound this] show ?thesis .
qed

end
