(* ===== verification/Ranking_Monotone.thy ===== *)
theory Ranking_Monotone
  imports Scheduler_Properties
begin

text \<open>
  The ranking is monotone in finite evidence: a candidate that is no worse in every piece of evidence
  the ranker reads costs no more in any factor, hence in the total and in every key of the
  tie-break chain, in spite of rounding; so it is ranked first, and \<open>schedule\<close> never selects a
  candidate that another eligible one dominates.

  The first section shows that the double operations the ranker uses are monotone. Values are
  compared by \<open>dle\<close>, C++ \<^verbatim>\<open><=\<close> on doubles; infinities are included, NaN is not.
\<close>

section \<open>Monotone arithmetic\<close>

definition dle :: "double \<Rightarrow> double \<Rightarrow> bool" where
  "dle x y \<longleftrightarrow> \<not> is_nan x \<and> \<not> is_nan y \<and> dval x \<le> dval y"

lemma dle_refl: "\<not> is_nan x \<Longrightarrow> dle x x"
  by (simp add: dle_def)

abbreviation top_val :: int where
  "top_val \<equiv> int (mag_val mag_inf)"

lemma dval_not_nan: "\<not> is_nan x \<Longrightarrow> \<bar>dval x\<bar> \<le> top_val"
  by (simp add: abs_dval is_nan_def)

lemma inf_iff_top: "\<not> is_nan x \<Longrightarrow> is_inf x \<longleftrightarrow> \<bar>dval x\<bar> = top_val"
  by (simp add: abs_dval is_inf_def)

lemma finite_iff_not_inf: "\<not> is_nan x \<Longrightarrow> is_finite x \<longleftrightarrow> \<not> is_inf x"
  using double_classes [of x] finite_not_inf [of x] by blast

text \<open>Rounding a signed value.\<close>

definition sround :: "int \<Rightarrow> int" where
  "sround v = sgn v * int (mag_val (round_mag (nat \<bar>v\<bar>) 1))"

lemma sround_mono: "u \<le> v \<Longrightarrow> sround u \<le> sround v"
proof -
  assume uv: "u \<le> v"
  have up: "int (mag_val (round_mag (nat \<bar>u\<bar>) 1)) \<le> int (mag_val (round_mag (nat \<bar>v\<bar>) 1))" if "0 \<le> u"
    using that uv by (simp add: round_mag_mono nat_mono)
  have down: "int (mag_val (round_mag (nat \<bar>v\<bar>) 1)) \<le> int (mag_val (round_mag (nat \<bar>u\<bar>) 1))" if "v \<le> 0"
    using that uv by (simp add: round_mag_mono nat_mono)
  show ?thesis
  proof (cases "0 \<le> u")
    case True
    then show ?thesis using up uv by (auto simp: sround_def sgn_if)
  next
    case False
    then show ?thesis using down by (cases "v \<le> 0") (auto simp: sround_def sgn_if)
  qed
qed

lemma dadd_finite:
  assumes "is_finite x" "is_finite y"
  shows "dval (dadd x y) = sround (dval x + dval y)" "\<not> is_nan (dadd x y)"
  using assms dadd_not_nan [of x y]
  by (auto simp: dadd_def finite_not_nan finite_not_inf Let_def sround_def sgn_if)

lemma sround_bound: "\<bar>sround v\<bar> \<le> top_val"
  using round_mag_le_inf [of "nat \<bar>v\<bar>" 1] by (auto simp: sround_def sgn_if abs_mult)

lemma dadd_mono:
  assumes "dle x x'" "is_finite y" "is_finite y'" "dval y \<le> dval y'"
  shows "dle (dadd x y) (dadd x' y')"
proof -
  have nn: "\<not> is_nan x" "\<not> is_nan x'" "\<not> is_nan (dadd x y)" "\<not> is_nan (dadd x' y')"
    using assms dadd_not_nan by (auto simp: dle_def)
  have val: "dval (dadd z w) = (if is_inf z then dval z else sround (dval z + dval w))"
    if "\<not> is_nan z" "is_finite w" for z w
    using that dadd_finite [of z w]
    by (auto simp: finite_iff_not_inf dadd_def finite_not_nan finite_not_inf)
  have "dval (dadd x y) \<le> dval (dadd x' y')"
  proof (cases "is_inf x \<or> is_inf x'")
    case False
    then show ?thesis using assms(1,4) nn val [OF nn(1) assms(2)] val [OF nn(2) assms(3)]
      by (simp add: sround_mono dle_def)
  next
    case True
    have "dval x \<le> dval x'" using assms(1) by (simp add: dle_def)
    then show ?thesis
      using True nn(1,2) val [OF nn(1) assms(2)] val [OF nn(2) assms(3)] inf_iff_top [OF nn(1)] inf_iff_top [OF nn(2)]
        dval_not_nan [OF nn(1)] dval_not_nan [OF nn(2)] sround_bound [of "dval x + dval y"] sround_bound [of "dval x' + dval y'"]
      by (auto split: if_splits)
  qed
  with nn show ?thesis by (simp add: dle_def)
qed

lemma dval_dneg [simp]: "dval (dneg x) = - dval x"
  by (simp add: dneg_def dval_def)

lemma dsub_mono:
  assumes "is_finite x" "is_finite y" "is_finite y'" "dval y' \<le> dval y"
  shows "dle (dsub x y) (dsub x y')"
  using assms by (simp add: dsub_def dadd_mono dle_refl finite_not_nan)

lemma dval_dmul:
  assumes "is_finite x" "is_finite y"
  shows "\<bar>dval (dmul x y)\<bar> = int (mag_val (round_mag (mag_val (dmag x) * mag_val (dmag y)) unit_one))"
    and "dval (dmul x y) = (if dsign x \<noteq> dsign y then - 1 else 1) *
       int (mag_val (round_mag (mag_val (dmag x) * mag_val (dmag y)) unit_one))"
    and "\<not> is_nan (dmul x y)"
  using assms by (simp_all add: dmul_def Let_def finite_not_nan finite_not_inf)

text \<open>Scaling by a non-negative double.\<close>

lemma dmul_mono:
  assumes "nonneg w" "is_finite x" "is_finite y" "dval x \<le> dval y"
  shows "dle (dmul x w) (dmul y w)"
proof -
  have w: "is_finite w" using assms(1) by (simp add: nonneg_def)
  have W: "dmag w = 0" if "dsign w"
    using that assms(1) by (simp add: nonneg_def dval_def)
  let ?r = "\<lambda>z. round_mag (mag_val (dmag z) * mag_val (dmag w)) unit_one"
  have r: "dval (dmul z w) = (if dsign z then - 1 else 1) * int (mag_val (?r z))" if "is_finite z" for z
    using dval_dmul(2) [OF that w] W by auto
  have "?r a \<le> ?r b" if "mag_val (dmag a) \<le> mag_val (dmag b)" for a b
    using that by (intro round_mag_mono) (simp_all add: mult_right_mono)
  then have m: "?r a \<le> ?r b" if "dmag a \<le> dmag b" for a b using that by simp
  have z: "?r a = 0" if "dmag a = 0" for a using that by simp
  have "dmag x = 0 \<and> dmag y = 0" if "\<not> dsign x" "dsign y"
  proof -
    have "int (mag_val (dmag x)) \<le> - int (mag_val (dmag y))" using assms(4) that by (simp add: dval_def)
    then have "mag_val (dmag x) = 0" "mag_val (dmag y) = 0" by linarith+
    then show ?thesis by simp
  qed
  then have "dval (dmul x w) \<le> dval (dmul y w)"
    using assms(4) m [of x y] m [of y x] z [of x] z [of y] unfolding r [OF assms(2)] r [OF assms(3)]
    by (cases "dsign x"; cases "dsign y") (auto simp: dval_def)
  with dval_dmul(3) w assms(2,3) show ?thesis by (simp add: dle_def)
qed

lemma dmul_commute: "is_finite x \<Longrightarrow> is_finite y \<Longrightarrow> dval (dmul x y) = dval (dmul y x)"
  using dval_dmul(2) [of x y] dval_dmul(2) [of y x] by (simp add: mult.commute eq_commute)

lemma clamp01_mono: "dle x y \<Longrightarrow> dle (clamp01 x) (clamp01 y)"
  by (auto simp: dle_def clamp01_def dlt_def dval_d_one)

lemma dmax_mono: "dle x x' \<Longrightarrow> dle y y' \<Longrightarrow> dle (dmax x y) (dmax x' y')"
  by (auto simp: dle_def dmax_def dlt_def)

lemma u64_mono: "m \<le> n \<Longrightarrow> dval (double_of_u64 m) \<le> dval (double_of_u64 n)"
  by (simp add: double_of_u64_def double_of_nat_mono word_le_nat_alt)

lemma u32_mono: "m \<le> n \<Longrightarrow> dval (double_of_u32 m) \<le> dval (double_of_u32 n)"
  by (simp add: double_of_u32_def double_of_nat_mono word_le_nat_alt)

lemma clamped_quotient_mono:
  assumes "nonneg x" "nonneg x'" "nonneg y" "nonneg y'" "0 < dval y" "0 < dval y'"
    and "dval x \<le> dval x'" "dval y' \<le> dval y"
  shows "dle (clamp01 (ddiv x y)) (clamp01 (ddiv x' y'))"
  using ddiv_mono [OF assms] ddiv_val(1) assms by (intro clamp01_mono) (simp add: dle_def)

lemma ratio_mono:
  assumes "avail' \<le> avail"
  shows "dle (ratio_or_one need avail) (ratio_or_one need avail')"
proof (cases "avail' = 0")
  case True
  then show ?thesis using ratio_or_one_in_unit [of need avail] by (simp add: ratio_or_one_def in_unit_def dle_def)
next
  case False
  then have "avail \<noteq> 0" using assms by auto
  with False assms show ?thesis unfolding ratio_or_one_def
    by (auto intro!: clamped_quotient_mono double_of_u64_nonneg double_of_u64_pos u64_mono)
qed

lemma distance_mono:
  assumes "d \<le> d'" "nonneg m" "0 < dval m"
  shows "dle (distance_norm d m) (distance_norm d' m)"
  using assms unfolding distance_norm_def
  by (intro clamped_quotient_mono double_of_u32_nonneg u32_mono) simp_all

text \<open>The sum of two distances is exact, and comes back from the double as long as it has 32 bits.\<close>

lemma distance_sum:
  assumes "unat m + unat n < 2 ^ 32"
  shows "u32_of_double (dadd (double_of_u32 m) (double_of_u32 n)) = m + n"
proof -
  have small: "unat m < 2 * hid" "unat n < 2 * hid" "unat m + unat n < 2 * hid"
    using assms unsigned_less [of m, where 'a = nat] unsigned_less [of n, where 'a = nat]
    by (simp_all add: hid_def)
  have "dval (dadd (double_of_u32 m) (double_of_u32 n)) = int ((unat m + unat n) * unit_one)"
    using small double_of_nat_exact
    by (intro dadd_exact double_of_u32_nonneg representable_units)
      (simp_all add: double_of_u32_def add_mult_distrib)
  from u32_of_double_nat [OF this] show ?thesis by simp
qed

section \<open>No worse in any evidence\<close>

text \<open>
  What the ranker reads of a candidate, compared field by field. The distances of \<open>b\<close> must add up
  to a 32-bit number, as the cast of their sum is only then the sum.
\<close>

definition capacity_no_worse :: "CapacityEvidence \<Rightarrow> CapacityEvidence \<Rightarrow> bool" where
  "capacity_no_worse a b \<longleftrightarrow> vramAvailable b \<le> vramAvailable a \<and> cpuAvailable b \<le> cpuAvailable a \<and>
     hostMemoryAvailable b \<le> hostMemoryAvailable a \<and> pinnedMemoryAvailable b \<le> pinnedMemoryAvailable a \<and>
     vramTotal b \<le> vramTotal a"

definition locality_no_worse :: "LocalityEvidence \<Rightarrow> LocalityEvidence \<Rightarrow> bool" where
  "locality_no_worse a b \<longleftrightarrow> numaDistance a \<le> numaDistance b \<and> pcieHops a \<le> pcieHops b \<and>
     nicDistance a \<le> nicDistance b \<and> storageDistance a \<le> storageDistance b \<and>
     (loc_sharesPcieRoot a \<longrightarrow> loc_sharesPcieRoot b) \<and> unat (numaDistance b) + unat (pcieHops b) < 2 ^ 32"

definition communication_no_worse :: "CommunicationEvidence \<Rightarrow> CommunicationEvidence \<Rightarrow> bool" where
  "communication_no_worse a b \<longleftrightarrow> dval (estimatedCost a) \<le> dval (estimatedCost b) \<and>
     dval (derivedPathCost a) \<le> dval (derivedPathCost b) \<and> dval (collectiveCost a) \<le> dval (collectiveCost b)"

definition residency_no_worse :: "ResidencyEvidence \<Rightarrow> ResidencyEvidence \<Rightarrow> bool" where
  "residency_no_worse a b \<longleftrightarrow> (modelResident b \<longrightarrow> modelResident a) \<and> (adapterResident b \<longrightarrow> adapterResident a) \<and>
     (stateLocal b \<longrightarrow> stateLocal a) \<and> moveBytes a \<le> moveBytes b"

definition no_worse :: "Candidate \<Rightarrow> Candidate \<Rightarrow> bool" where
  "no_worse a b \<longleftrightarrow> capacity_no_worse (capacity a) (capacity b) \<and> locality_no_worse (locality a) (locality b) \<and>
     communication_no_worse (communication a) (communication b) \<and> residency_no_worse (residency a) (residency b) \<and>
     reservedBytes (reservation a) \<le> reservedBytes (reservation b) \<and>
     dval (healthScore (health b)) \<le> dval (healthScore (health a)) \<and>
     dval (cgs_congestion (congestion a)) \<le> dval (cgs_congestion (congestion b)) \<and>
     dval (residualBandwidth (congestion b)) \<le> dval (residualBandwidth (congestion a))"

text \<open>Wherever \<open>a\<close>'s evidence is of unknown origin, so is \<open>b\<close>'s.\<close>

definition known_as_well :: "Candidate \<Rightarrow> Candidate \<Rightarrow> bool" where
  "known_as_well a b \<longleftrightarrow>
     (\<forall>p \<in> {cap_provenance o capacity, loc_provenance o locality, com_provenance o communication,
         cgs_provenance o congestion, rsd_provenance o residency, rsv_provenance o reservation,
         hea_provenance o health}. p a = Prov_Unknown \<longrightarrow> p b = Prov_Unknown)"

section \<open>No worse in any factor\<close>

lemma unit_le: "in_unit x \<Longrightarrow> dle x d_one" "in_unit x \<Longrightarrow> dle d_zero x" "in_unit x \<Longrightarrow> dle x x"
  by (simp_all add: in_unit_def dle_def)

lemma half_nonneg: "nonneg d_half" "is_finite d_half" "is_finite d_quarter" "dle d_zero d_half" "dle d_half d_one"
  "dle d_zero d_quarter" "dle d_zero d_tenth"
  using in_unit_literals in_unit_nonneg unit_le by (simp_all add: in_unit_finite)

lemma topology_mono:
  assumes "locality_no_worse a b"
  shows "dle (distance_norm (u32_of_double (dadd (double_of_u32 (numaDistance a)) (double_of_u32 (pcieHops a)))) kMaxDistanceDivisor)
     (distance_norm (u32_of_double (dadd (double_of_u32 (numaDistance b)) (double_of_u32 (pcieHops b)))) kMaxDistanceDivisor)"
proof -
  have "unat (numaDistance a) + unat (pcieHops a) \<le> unat (numaDistance b) + unat (pcieHops b)"
    using assms by (intro add_mono) (simp_all add: locality_no_worse_def word_le_nat_alt)
  moreover have "unat (numaDistance b) + unat (pcieHops b) < 2 ^ 32" using assms by (simp add: locality_no_worse_def)
  ultimately have "numaDistance a + pcieHops a \<le> numaDistance b + pcieHops b"
    and "unat (numaDistance a) + unat (pcieHops a) < 2 ^ 32"
    by (simp_all add: word_le_nat_alt unat_word_ariths)
  then show ?thesis using assms half_unit_pos
    by (simp add: distance_sum locality_no_worse_def distance_mono divisors)
qed

lemma penalty_mono:
  "dle x y \<Longrightarrow> dle d_zero p \<Longrightarrow> is_finite p \<Longrightarrow> (P \<longrightarrow> Q) \<Longrightarrow>
     dle (clamp01 (dadd x (if P then p else d_zero))) (clamp01 (dadd y (if Q then p else d_zero)))"
  by (intro clamp01_mono dadd_mono) (auto simp: dle_def)

lemma ratio_cpu: "m \<le> n \<Longrightarrow> dle (ratio_or_one need (ucast n)) (ratio_or_one need (ucast m))" for m n :: "32 word"
  by (rule ratio_mono) (simp add: word_le_nat_alt unsigned_ucast_eq take_bit_nat_eq_self less_le_trans [OF unsigned_less])

lemma move_mono:
  assumes "m \<le> n" "(0 :: 64 word) < k" "k' \<le> k" "(0 :: 64 word) < k'"
  shows "dle (clamp01 (ddiv (double_of_u64 m) (double_of_u64 k))) (clamp01 (ddiv (double_of_u64 n) (double_of_u64 k')))"
  using assms
  by (intro clamped_quotient_mono double_of_u64_nonneg u64_mono double_of_u64_pos) auto

lemma congestion_mono:
  "finite_evidence a \<Longrightarrow> finite_evidence b \<Longrightarrow> no_worse a b \<Longrightarrow>
     dle (clamp01 (cgs_congestion (congestion a))) (clamp01 (cgs_congestion (congestion b)))"
  by (rule clamp01_mono) (simp add: dle_def finite_evidence_def finite_not_nan no_worse_def)

lemma factor_mono:
  assumes "finite_evidence a" "finite_evidence b" "no_worse a b"
  shows "dle (fst (compute_factor k r a)) (fst (compute_factor k r b))"
proof -
  note nw = assms(3) [unfolded no_worse_def]
  have cap: "capacity_no_worse (capacity a) (capacity b)" and loc: "locality_no_worse (locality a) (locality b)"
    and com: "communication_no_worse (communication a) (communication b)"
    and res: "residency_no_worse (residency a) (residency b)" using nw by blast+
  note fin = assms(1,2) [unfolded finite_evidence_def]
  have norm: "(0 :: 64 word) < kMoveNormalizer" by (simp add: kMoveNormalizer_def push_bit_eq_mult)
  show ?thesis
  proof (cases k)
    case RF_TopologyLocality
    then show ?thesis using topology_mono [OF loc] loc half_nonneg
      by (simp add: compute_factor_def Let_def penalty_mono locality_no_worse_def)
  next
    case RF_PcieLocality
    then show ?thesis using loc half_nonneg half_unit_pos
      by (simp add: compute_factor_def Let_def penalty_mono locality_no_worse_def distance_mono divisors)
  next
    case RF_CommunicationCost
    have "dle (estimatedCost (communication a)) (estimatedCost (communication b))"
      using com fin by (simp add: dle_def finite_not_nan communication_no_worse_def)
    then have "dle (dadd (dadd (estimatedCost (communication a)) (derivedPathCost (communication a))) (collectiveCost (communication a)))
       (dadd (dadd (estimatedCost (communication b)) (derivedPathCost (communication b))) (collectiveCost (communication b)))"
      using com fin by (intro dadd_mono) (simp_all add: communication_no_worse_def)
    with RF_CommunicationCost show ?thesis by (simp add: compute_factor_def Let_def clamp01_mono)
  next
    case RF_ReservationFit
    have "max 1 (vramTotal (capacity b)) \<le> max 1 (vramTotal (capacity a))"
      using cap unfolding capacity_no_worse_def by (intro max.mono) auto
    moreover have "(0 :: 64 word) < max 1 w" for w by (simp add: less_max_iff_disj)
    ultimately show ?thesis using RF_ReservationFit nw
      by (simp add: compute_factor_def Let_def move_mono)
  next
    case RF_EstimatedQueueing
    then show ?thesis using nw fin half_nonneg
      by (simp add: compute_factor_def Let_def clamp01_mono dmul_mono)
  next
    case RF_CongestionPenalty
    then show ?thesis using congestion_mono [OF assms] by (simp add: compute_factor_def Let_def)
  next
    case RF_ResidualBandwidth
    then show ?thesis using nw fin by (simp add: compute_factor_def Let_def clamp01_mono dsub_mono)
  next
    case RF_HealthMargin
    then show ?thesis using nw fin by (simp add: compute_factor_def Let_def clamp01_mono dsub_mono)
  next
    case RF_MigrationRecomputeCost
    show ?thesis
    proof (cases "moveBytes (residency a) = 0")
      case True
      then have "fst (compute_factor k r a) = d_zero" using RF_MigrationRecomputeCost by (simp add: compute_factor_def Let_def)
      then show ?thesis using unit_le(2) [OF compute_factor_in_unit [OF assms(2)]] by metis
    next
      case False
      then have "moveBytes (residency b) \<noteq> 0" using res by (auto simp: residency_no_worse_def)
      with False RF_MigrationRecomputeCost res norm show ?thesis
        by (simp add: compute_factor_def Let_def residency_no_worse_def move_mono word_neq_0_conv [symmetric])
    qed
  qed ((use cap in \<open>simp add: compute_factor_def Let_def capacity_no_worse_def ratio_mono ratio_cpu dmax_mono; fail\<close>)
    | (use loc half_unit_pos in
        \<open>simp add: compute_factor_def Let_def locality_no_worse_def distance_mono divisors; fail\<close>)
    | (use res norm half_nonneg in
        \<open>auto simp: compute_factor_def Let_def residency_no_worse_def move_mono unit_le dle_refl in_unit_not_nan; fail\<close>))+
qed

section \<open>No worse in the ranking\<close>

text \<open>A sum over the factors a key selects, in the order of the loop.\<close>

lemma fold_mono:
  assumes ev: "finite_evidence a" "finite_evidence b" "no_worse a b"
    and sel: "\<And>c k l. f (rank_step w r c k l) = (if P k then dadd (f l) (g c k) else f l)"
    and g: "\<And>c k. k \<in> set ks \<Longrightarrow> finite_evidence c \<Longrightarrow> is_finite (g c k)"
      "\<And>k. k \<in> set ks \<Longrightarrow> dval (g a k) \<le> dval (g b k)"
    and start: "dle (f l) (f l')"
  shows "dle (f (fold (rank_step w r a) ks l)) (f (fold (rank_step w r b) ks l'))"
  using g start
proof (induction ks arbitrary: l l')
  case Nil
  then show ?case by simp
next
  case (Cons k ks)
  have "dle (f (rank_step w r a k l)) (f (rank_step w r b k l'))"
    using Cons.prems ev by (simp add: sel dadd_mono)
  with Cons.IH Cons.prems(1,2) show ?case by simp
qed

lemma length_filter_mono: "(\<And>x. P x \<Longrightarrow> Q x) \<Longrightarrow> length (filter P xs) \<le> length (filter Q xs)"
  by (induction xs) (simp, force)

lemma unknown_mono:
  assumes "known_as_well a b"
  shows "unknownCount (Ranker_evaluate r a opts) \<le> unknownCount (Ranker_evaluate r b opts)"
proof -
  have "fst (snd (compute_factor k r a)) = Prov_Unknown \<Longrightarrow> fst (snd (compute_factor k r b)) = Prov_Unknown" for k
    using assms by (cases k) (simp_all add: compute_factor_def Let_def known_as_well_def)
  then have "length (unknown_factors r a) \<le> length (unknown_factors r b)"
    unfolding unknown_factors_def by (rule length_filter_mono)
  then show ?thesis by (simp add: word_le_nat_alt Ranker_unknownCount)
qed

lemma keys_mono:
  assumes ev: "finite_evidence a" "finite_evidence b" "no_worse a b" and w: "nonneg_weights (opt_weights opts)"
  shows "dle (score (Ranker_evaluate r a opts)) (score (Ranker_evaluate r b opts))"
    and "dle (movementCost (Ranker_evaluate r a opts)) (movementCost (Ranker_evaluate r b opts))"
    and "dle (headroomCost (Ranker_evaluate r a opts)) (headroomCost (Ranker_evaluate r b opts))"
proof -
  let ?w = "opt_weights opts"
  have unit: "in_unit (fst (compute_factor k r c))" if "finite_evidence c" for c k
    by (rule compute_factor_in_unit [OF that])
  then have fin: "is_finite (fst (compute_factor k r c))" if "finite_evidence c" for c k
    using that in_unit_finite by blast
  have val: "dval (fst (compute_factor k r a)) \<le> dval (fst (compute_factor k r b))" for k
    using factor_mono [OF ev] by (simp add: dle_def)
  have prod: "is_finite (dmul (weights_get ?w k) (fst (compute_factor k r c)))"
    if "nonneg (weights_get ?w k)" "finite_evidence c" for k c
    using dmul_unit(1) [OF that(1) unit [OF that(2)]] by (simp add: nonneg_def)
  have prod_val: "dval (dmul (weights_get ?w k) (fst (compute_factor k r a)))
      \<le> dval (dmul (weights_get ?w k) (fst (compute_factor k r b)))" if "nonneg (weights_get ?w k)" for k
    using dmul_mono [OF that fin [OF ev(1)] fin [OF ev(2)] val] that
    by (simp add: dle_def dmul_commute nonneg_def fin ev(1,2))
  have ws: "nonneg (weights_get ?w k)" if "k \<in> set kRankFactorOrder" for k
    using w that by (simp add: nonneg_weights_def list_all_iff)
  have start: "dle d_zero d_zero" by (simp add: dle_refl)
  show "dle (score (Ranker_evaluate r a opts)) (score (Ranker_evaluate r b opts))"
    unfolding Ranker_evaluate_def Let_def rank_loop_def RankedCandidate.simps
    by (rule fold_mono [OF ev, where f = total and P = "\<lambda>k. True" and g = "\<lambda>c k. dmul (weights_get ?w k) (fst (compute_factor k r c))"])
      (simp_all add: prod prod_val ws rank_init_def start)
  show "dle (movementCost (Ranker_evaluate r a opts)) (movementCost (Ranker_evaluate r b opts))"
    unfolding Ranker_evaluate_def Let_def rank_loop_def RankedCandidate.simps
    by (rule fold_mono [OF ev, where f = moveCost and g = "\<lambda>c k. fst (compute_factor k r c)", OF rank_step_simps(4)])
      (simp_all add: fin val rank_init_def start)
  show "dle (headroomCost (Ranker_evaluate r a opts)) (headroomCost (Ranker_evaluate r b opts))"
    unfolding Ranker_evaluate_def Let_def rank_loop_def RankedCandidate.simps
    by (rule fold_mono [OF ev, where f = headroom and g = "\<lambda>c k. fst (compute_factor k r c)", OF rank_step_simps(5)])
      (simp_all add: fin val rank_init_def start)
qed

text \<open>The last two links of the chain: more local resources, then the smaller identity.\<close>

definition wins_tie :: "Candidate \<Rightarrow> Candidate \<Rightarrow> bool" where
  "wins_tie a b \<longleftrightarrow> count_local b < count_local a \<or> count_local b = count_local a \<and> candidateId a < candidateId b"

definition dominates :: "Candidate \<Rightarrow> Candidate \<Rightarrow> bool" where
  "dominates a b \<longleftrightarrow> no_worse a b \<and> known_as_well a b \<and> wins_tie a b"

lemma dominates_key:
  assumes "finite_evidence a" "finite_evidence b" "nonneg_weights (opt_weights opts)" "dominates a b"
  shows "rank_key (Ranker_evaluate r a opts) < rank_key (Ranker_evaluate r b opts)"
proof -
  let ?a = "Ranker_evaluate r a opts" and ?b = "Ranker_evaluate r b opts"
  have d: "no_worse a b" "known_as_well a b" "wins_tie a b" using assms(4) by (simp_all add: dominates_def)
  note le = keys_mono [OF assms(1,2) d(1) assms(3), of r, unfolded dle_def] unknown_mono [OF d(2), of r opts]
  have strength: "evidenceStrength ?a = 0" "evidenceStrength ?b = 0"
    using ranking_never_deterministic by simp_all
  have cong: "dval (congestionCost ?a) \<le> dval (congestionCost ?b)"
    using congestion_mono [OF assms(1,2) d(1)] by (simp add: Ranker_evaluate_def Let_def dle_def)
  have "- uint (localResources ?a) < - uint (localResources ?b) \<or>
      - uint (localResources ?a) = - uint (localResources ?b) \<and> rc_candidateId ?a < rc_candidateId ?b"
    using d(3) by (auto simp: wins_tie_def Ranker_evaluate_def Let_def word_less_def)
  then show ?thesis using le cong strength unfolding rank_key_def chain_prod by (auto simp: le_less)
qed

text \<open>C34: the ranking is monotone on finite evidence. Take two candidates whose health, congestion and
  communication numbers are finite, and of which the worse one has a NUMA distance and a number of
  PCIe hops that add up to less than \<open>2 ^ 32\<close> (C++ leaves the conversion of a larger sum back to an
  integer undefined). If the first is no worse than the second in every piece of evidence the 27
  factors read, leaves nothing more unknown and wins the last tie-breaks (\<open>dominates\<close>), then it is
  ranked strictly before it, for every request and all non-negative finite weights, although every
  product and sum is rounded.\<close>

theorem dominating_ranks_first:
  assumes "finite_evidence a" "finite_evidence b" "nonneg_weights (opt_weights opts)" "dominates a b"
  shows "RankComparator (Ranker_evaluate r a opts) (Ranker_evaluate r b opts)"
  using dominates_key [OF assms] RankComparator_key Ranker_comparable assms(1-3) by blast

theorem dominating_ranks_first_witness:
  "RankComparator (Ranker_evaluate req sampleA default_RankOptions) (Ranker_evaluate req sampleB default_RankOptions)"
proof -
  have "finite_evidence sampleA" by (simp add: finite_evidence_def scenario_defs)
  moreover have lit: "is_finite d_point_3" "is_finite d_point_2" "0 \<le> dval d_point_3" "0 \<le> dval d_point_2"
    by (simp_all add: is_finite_def dval_def dsign_def dmag_def d_point_3_def d_point_2_def mag_inf_def hid_def sgnbit_def)
  then have "finite_evidence sampleB" by (simp add: finite_evidence_def scenario_defs)
  moreover have "dominates sampleA sampleB"
    using lit by (simp add: dominates_def no_worse_def capacity_no_worse_def locality_no_worse_def known_as_well_def
        communication_no_worse_def residency_no_worse_def wins_tie_def count_local_def is_valid_def scenario_defs)
  ultimately show ?thesis
    by (intro dominating_ranks_first) (simp_all add: default_RankOptions_def default_weights_nonneg)
qed

section \<open>Already in order\<close>

text \<open>A list of candidates each of which dominates the next ones is ranked as it stands.\<close>

lemma dominance_sorts:
  assumes "\<forall>c \<in> set cs. finite_evidence c" "nonneg_weights (opt_weights opts)" "sorted_wrt dominates cs"
  shows "std_sort entry_less (map (\<lambda>c. (Ranker_evaluate r c opts, c)) cs) = map (\<lambda>c. (Ranker_evaluate r c opts, c)) cs"
    (is "_ = map ?e cs")
proof -
  have ok: "\<forall>e \<in> set (map ?e cs). (comparable o fst) e" using assms(1,2) Ranker_comparable by fastforce
  have "sorted_wrt (\<lambda>a b. rank_key (fst (?e a)) \<le> rank_key (fst (?e b))) cs"
    by (rule sorted_wrt_mono_rel [OF _ assms(3)]) (simp add: dominates_key assms(1,2) less_imp_le)
  then have "sorted (map (rank_key o fst) (map ?e cs))" by (simp add: sorted_wrt_map o_def)
  then show ?thesis unfolding entry_order.std_sort_key [OF ok] by (rule sort_key_id_if_sorted)
qed

text \<open>A dominated candidate is never selected.\<close>

lemma dominated_not_selected:
  assumes "schedule r dep pol st = (Inr d, st')" "producedPlan d" "sched_ok st" "all_finite st"
    and "nonneg_weights (opt_weights (rankOptions st))" "dominates a b"
    and a: "omap_find (candidates st) (candidateId a) = Some a" "meets_hard_constraints r a dep pol"
    and b: "omap_find (candidates st) (candidateId b) = Some b"
  shows "selectedCandidate (dec_plan d) \<noteq> candidateId b"
proof
  assume sel: "selectedCandidate (dec_plan d) = candidateId b"
  note fin = schedule_Inr [OF assms(1)]
  have "std_sort entry_less (entries_of r dep pol st) \<noteq> []" using produced_iff [OF fin] assms(2) by simp
  then obtain e rest where "std_sort entry_less (entries_of r dep pol st) = e # rest"
    by (cases "std_sort entry_less (entries_of r dep pol st)") simp_all
  moreover obtain rk c where "e = (rk, c)" by (rule prod.exhaust)
  ultimately have es: "std_sort entry_less (entries_of r dep pol st) = (rk, c) # rest" by simp
  note w = winner [OF assms(3) all_eligible_finite [OF assms(4)] assms(5) es]
  have id: "candidateId c = candidateId b" using fin w(3) sel unfolding es schedule_finish_Cons by auto
  have "Some b = Some c" unfolding b [symmetric] by (rule w(1) [unfolded id])
  then have "c = b" by simp
  have "finite_evidence a" "finite_evidence b"
    using assms(4) a(1) b candidate_in_snapshot [OF assms(3)] by (simp_all add: all_finite_def)
  then have "RankComparator (Ranker_evaluate r a (rankOptions st)) (Ranker_evaluate r b (rankOptions st))"
    using dominates_key [OF _ _ assms(5,6)] RankComparator_key Ranker_comparable assms(5) by blast
  then show False using w(4) [OF a] w(3) \<open>c = b\<close> by simp
qed

end
