(* ===== verification/Explain.thy ===== *)
theory Explain
  imports Scheduler
begin

text \<open>
  \<^verbatim>\<open>Scheduler::explain\<close>: the text of a plan, and what it needs of the stream library: a double
  inserted into an \<^verbatim>\<open>ostringstream\<close> with the default format, six significant digits as
  \<^verbatim>\<open>printf("%g")\<close> prints them, exactly rounded with ties to even. What is printed for a NaN
  is left to the implementation by the standard; the model prints \<open>nan\<close>.
\<close>

section \<open>A double in the default format\<close>

text \<open>The decimal exponent of the positive ratio \<open>p / q\<close>: the power of ten of its leading digit.\<close>

definition decimal_exponent :: "nat \<Rightarrow> nat \<Rightarrow> int" where
  "decimal_exponent p q =
     (if q \<le> p then int (length (digits_of (p div q))) - 1
      else - int (length (digits_of ((q + p - 1) div p - 1))))"

text \<open>Six rounded digits and the exponent after rounding.\<close>

definition six_digits :: "nat \<Rightarrow> nat \<Rightarrow> nat \<times> int" where
  "six_digits p q =
     (let x = decimal_exponent p q;
          sig = (if x \<le> 5 then rne (p * 10 ^ nat (5 - x)) q else rne p (q * 10 ^ nat (x - 5))) in
      if sig = 10 ^ 6 then (10 ^ 5, x + 1) else (sig, x))"

definition strip_zeros :: "nat list \<Rightarrow> nat list" where
  "strip_zeros ds = rev (dropWhile (\<lambda>d. d = 0) (rev ds))"

definition with_fraction :: "nat list \<Rightarrow> nat list \<Rightarrow> string" where
  "with_fraction whole frac =
     map digit_char whole @
     (if strip_zeros frac = [] then [] else ''.'' @ map digit_char (strip_zeros frac))"

definition show_exponent :: "int \<Rightarrow> string" where
  "show_exponent x =
     (let ds = digits_of (nat \<bar>x\<bar>) in
      ''e'' @ (if x < 0 then ''-'' else ''+'') @ (if length ds < 2 then ''0'' else []) @ map digit_char ds)"

definition show_ratio :: "nat \<Rightarrow> nat \<Rightarrow> string" where
  "show_ratio p q =
     (let (sig, x) = six_digits p q; ds = digits_of sig in
      if x < - 4 \<or> 6 \<le> x then with_fraction (take 1 ds) (drop 1 ds) @ show_exponent x
      else if 0 \<le> x then with_fraction (take (nat x + 1) ds) (drop (nat x + 1) ds)
      else with_fraction [0] (replicate (nat (- x) - 1) 0 @ ds))"

definition show_double :: "double \<Rightarrow> string" where
  "show_double d =
     (if is_nan d then ''nan''
      else (if dsign d then ''-'' else []) @
        (if is_inf d then ''inf''
         else if dmag d = 0 then ''0'' else show_ratio (mag_val (dmag d)) unit_one))"

section \<open>The explanation of a plan\<close>

record PlacementExplanation =
  ex_planId :: PlacementPlanId
  winningCandidate :: string
  why :: string
  ex_factors :: "string list"
  ex_rejections :: "string list"
  deterministicNote :: string

definition explain_factor :: "RankFactor \<Rightarrow> string" where
  "explain_factor f =
     RankFactorKind_to_string (rf_kind f) @ ''='' @ show_double (rf_value f) @ '' w='' @
     show_double (rf_weight f) @ '' '' @ Provenance_to_string (rf_provenance f) @ '' :: '' @
     rf_description f"

definition explain_rejection :: "RejectedAlternative \<Rightarrow> string" where
  "explain_rejection r =
     ''candidate '' @ show_u64 (id_value (rej_candidateId r)) @ '': '' @
     EligibilityStatus_to_string (rej_status r) @ '' - '' @ rej_reason r"

definition explain :: "PlacementPlanId \<Rightarrow> SchedulerState \<Rightarrow> PlacementExplanation" where
  "explain pid st =
     (let ex = \<lparr>ex_planId = pid, winningCandidate = [], why = [], ex_factors = [],
                ex_rejections = [], deterministicNote = []\<rparr> in
      case omap_find (plans st) pid of
        None \<Rightarrow> ex\<lparr>why := ''unknown plan''\<rparr>
      | Some plan \<Rightarrow> ex
          \<lparr>winningCandidate := ''candidate '' @ show_u64 (id_value (selectedCandidate plan)),
           why := ''selected candidate '' @ show_u64 (id_value (selectedCandidate plan)) @
             '' (generation '' @ show_u64 (id_value (selectedCandidateGeneration plan)) @
             ''); state='' @ PlacementLifecycleState_to_string (pl_state plan),
           ex_factors := map explain_factor (selectedFactors plan),
           ex_rejections := map explain_rejection (rejectedAlternatives plan),
           deterministicNote := ''plan '' @ show_u64 (id_value (planId plan)) @ '' generation '' @
             show_u64 (id_value (planGeneration plan)) @ '' authority '' @
             show_u64 (id_value (pl_authorityGeneration plan)) @ '' epoch '' @
             show_u64 (id_value (pl_coordinatorEpoch plan))\<rparr>)"

text \<open>One line per factor and per rejection, in their order.\<close>

lemma explain_unknown: "omap_find (plans st) pid = None \<Longrightarrow> why (explain pid st) = ''unknown plan''"
  by (simp add: explain_def)

lemma explain_known:
  assumes "omap_find (plans st) pid = Some p"
  shows "length (ex_factors (explain pid st)) = length (selectedFactors p)"
    and "length (ex_rejections (explain pid st)) = length (rejectedAlternatives p)"
    and "winningCandidate (explain pid st) \<noteq> []"
  using assms by (simp_all add: explain_def Let_def)

end
