(* ===== verification/Examples.thy ===== *)
theory Examples
  imports Ranking_Monotone Scheduler_Runs Explain
begin

text \<open>
  The three programs that show the library at work: the downstream consumer
  (\<^verbatim>\<open>examples/consumer/main.cpp\<close>), the host evidence example (\<^verbatim>\<open>examples/example_host_evidence.cpp\<close>)
  and the inspection tool (\<^verbatim>\<open>tools/fabric_inspect.cpp\<close>).

  Each \<open>main\<close> returns its exit code and the lines it prints; an exception of the library, which
  none of them catches, is the left value. Each of them is shown to do what it announces: the
  ranking it demonstrates follows from dominance, so no arithmetic on doubles is evaluated, and for the host evidence it holds whatever time the
  loopback exchange takes (its measurement is in \<open>Loopback\<close>). The fixture file gives a size that is
  printed and nothing else; writing and removing it is not modelled.
\<close>

section \<open>The consumer\<close>

definition consumer_commit :: "ResourceClaim list \<Rightarrow> unit \<Rightarrow> ResourceCommitResult \<times> unit" where
  "consumer_commit cs b =
     (default_ResourceCommitResult\<lparr>succeeded := True, commitmentToken := ''consumer''\<rparr>, ())"

definition consumer_broker :: "unit ResourceBroker" where
  "consumer_broker = \<lparr>broker_commit = consumer_commit, broker_release = (\<lambda>_ b. b)\<rparr>"

definition make_candidate :: "CandidateId \<Rightarrow> 32 word \<Rightarrow> ByteCount \<Rightarrow> Candidate" where
  "make_candidate i numa vram =
     default_Candidate
       \<lparr>candidateId := i, candidateGeneration := StrongId 1,
        workerId := StrongId (id_value i + 1000), workerBootId := StrongId (id_value i + 500),
        sourceId := StrongId (id_value i + 7000), sourceBootId := StrongId (id_value i + 9000),
        cand_provenance := Prov_Reported,
        bindings := [default_DeviceBinding
          \<lparr>deviceId := StrongId (id_value i), deviceGeneration := StrongId 1,
           bnd_resourceId := StrongId (id_value i), bnd_resourceGeneration := StrongId 1,
           nodeId := StrongId 1, nodeGeneration := StrongId 1,
           memoryDomainId := StrongId (id_value i), memoryDomainGeneration := StrongId 1,
           nicId := StrongId 1, nicGeneration := StrongId 1,
           storageId := StrongId 1, storageGeneration := StrongId 1,
           cpuDomainId := StrongId 1, cpuDomainGeneration := StrongId 1,
           bnd_capability := Acc_Cuda, cudaCompatibility := 120, capabilityCurrent := True,
           bnd_capabilityGeneration := StrongId 1\<rparr>],
        capacity := default_CapacityEvidence
          \<lparr>cap_generation := StrongId 1, vramTotal := GiB 32, vramAvailable := vram,
           hostMemoryAvailable := GiB 32, pinnedMemoryAvailable := GiB 1, cpuAvailable := 16,
           storageAvailable := GiB 64, contiguousMemory := True, cap_provenance := Prov_Measured\<rparr>,
        health := default_HealthEvidence
          \<lparr>hea_generation := StrongId 1, hea_ready := True, healthScore := d_one,
           hea_provenance := Prov_Reported\<rparr>,
        congestion := default_CongestionEvidence
          \<lparr>cgs_generation := StrongId 1, cgs_provenance := Prov_Measured\<rparr>,
        locality := default_LocalityEvidence
          \<lparr>topologyGeneration := StrongId 1, numaDistance := numa,
           pcieHops := (if numa = 0 then 1 else 3), loc_provenance := Prov_Reported\<rparr>,
        communication := default_CommunicationEvidence
          \<lparr>com_planGeneration := StrongId 1, com_provenance := Prov_Derived\<rparr>,
        residency := default_ResidencyEvidence
          \<lparr>residencyGeneration := StrongId 1, stateLocal := (numa = 0), modelResident := True,
           rsd_provenance := Prov_Reported\<rparr>,
        cand_policyGeneration := StrongId 1\<rparr>"

definition make_request :: SchedulingRequest where
  "make_request = default_SchedulingRequest
     \<lparr>req_requestId := StrongId 1, req_generation := StrongId 1, req_coordinatorEpoch := StrongId 1,
      req_sourceId := StrongId 3, req_sourceBootId := StrongId 30,
      demand := default_DemandProfile
        \<lparr>demandId := StrongId 1, demandGeneration := StrongId 1, workloadId := StrongId 4,
         workloadGeneration := StrongId 1,
         accelerator := default_AcceleratorRequirement
           \<lparr>acc_capability := Acc_Cuda, minimumCount := 1, targetCount := 1, maximumCount := 1,
            vramPerDevice := GiB 4, acc_capabilityGeneration := StrongId 1\<rparr>,
         dem_memory := \<lparr>hostMemory = GiB 1, pinnedMemory = MiB 64\<rparr>,
         cpuRequired := 2, dem_storage := (dem_storage default_DemandProfile)\<lparr>sto_capacity := GiB 1\<rparr>,
         dem_policyGeneration := StrongId 1, requiredTopologyGeneration := StrongId 1\<rparr>\<rparr>"

definition consumer_config :: SchedulerConfig where
  "consumer_config = default_SchedulerConfig
     \<lparr>cfg_policy := default_PolicyConfig\<lparr>pol_generation := StrongId 1\<rparr>\<rparr>"

definition consumer_main :: "(nat \<times> string list) res" where
  "consumer_main =
     (case ingest_candidate (make_candidate (StrongId 1) 0 (GiB 16)) (new_Scheduler consumer_config) of
        (Inl e, _) \<Rightarrow> Inl e
      | (Inr _, s1) \<Rightarrow>
      case ingest_candidate (make_candidate (StrongId 2) 3 (GiB 8)) s1 of
        (Inl e, _) \<Rightarrow> Inl e
      | (Inr _, s2) \<Rightarrow>
      case schedule make_request (Some AlwaysReadyDependency) (Some AllowAllPolicy) s2 of
        (Inl e, _) \<Rightarrow> Inl e
      | (Inr d, s3) \<Rightarrow>
      if \<not> producedPlan d then Inr (2, [''consumer FAILED: no plan'']) else
      let ex = explain (planId (dec_plan d)) s3;
          out = [''consumer selected candidate '' @ show_u64 (id_value (selectedCandidate (dec_plan d))) @
                   '' (deterministic)'', why ex] in
      case commit (planId (dec_plan d)) consumer_broker () s3 of
        (Inl e, _, _) \<Rightarrow> Inl e
      | (Inr cr, _, s4) \<Rightarrow>
      if \<not> succeeded cr then Inr (3, out @ [''consumer FAILED: commit'']) else
      Inr (if selectedCandidate (dec_plan d) = StrongId 1 then 0 else 4,
        out @ [''consumer commit ok; state='' @
            PlacementLifecycleState_to_string (plan_state (planId (dec_plan d)) s4),
          ''consumer PASS'']))"

section \<open>The host evidence example\<close>

definition d_million :: double where "d_million = 0x412E848000000000"

definition host_mk :: "CandidateId \<Rightarrow> 32 word \<Rightarrow> ByteCount \<Rightarrow> double \<Rightarrow> bool \<Rightarrow> Candidate" where
  "host_mk i numa vram commCost loc =
     default_Candidate
       \<lparr>candidateId := i, candidateGeneration := StrongId 1,
        workerId := StrongId (id_value i), workerBootId := StrongId (id_value i + 100),
        sourceId := StrongId (id_value i + 200), sourceBootId := StrongId (id_value i + 300),
        cand_provenance := Prov_Reported,
        bindings := [default_DeviceBinding
          \<lparr>deviceId := StrongId (id_value i), bnd_resourceGeneration := StrongId 1,
           memoryDomainId := StrongId (id_value i), bnd_capability := Acc_Cuda,
           cudaCompatibility := 120, capabilityCurrent := True,
           bnd_capabilityGeneration := StrongId 1\<rparr>],
        capacity := default_CapacityEvidence
          \<lparr>cap_generation := StrongId 1, vramAvailable := vram, hostMemoryAvailable := GiB 16,
           pinnedMemoryAvailable := GiB 1, cpuAvailable := 16, storageAvailable := GiB 64,
           contiguousMemory := True, cap_provenance := Prov_Measured\<rparr>,
        health := default_HealthEvidence
          \<lparr>hea_generation := StrongId 1, hea_ready := True, healthScore := d_one,
           hea_provenance := Prov_Reported\<rparr>,
        congestion := default_CongestionEvidence
          \<lparr>cgs_generation := StrongId 1, cgs_provenance := Prov_Measured\<rparr>,
        locality := default_LocalityEvidence
          \<lparr>topologyGeneration := StrongId 1, numaDistance := numa, loc_provenance := Prov_Reported\<rparr>,
        communication := default_CommunicationEvidence
          \<lparr>com_planGeneration := StrongId 1, estimatedCost := commCost,
           derivedPathCost := dmul commCost d_half, com_provenance := Prov_Derived\<rparr>,
        residency := default_ResidencyEvidence
          \<lparr>residencyGeneration := StrongId 1, stateLocal := loc, modelResident := True,
           moveBytes := (if loc then 0 else MiB 512), rsd_provenance := Prov_Reported\<rparr>,
        cand_policyGeneration := StrongId 1\<rparr>"

definition host_rq :: SchedulingRequest where
  "host_rq = default_SchedulingRequest
     \<lparr>req_requestId := StrongId 1, req_generation := StrongId 1,
      demand := default_DemandProfile
        \<lparr>demandId := StrongId 1, demandGeneration := StrongId 1, workloadId := StrongId 4,
         workloadGeneration := StrongId 1,
         accelerator := default_AcceleratorRequirement
           \<lparr>acc_capability := Acc_Cuda, minimumCount := 1, targetCount := 1, maximumCount := 1,
            vramPerDevice := GiB 4, acc_capabilityGeneration := StrongId 1\<rparr>,
         dem_memory := \<lparr>hostMemory = GiB 1, pinnedMemory = MiB 64\<rparr>,
         cpuRequired := 2, dem_storage := (dem_storage default_DemandProfile)\<lparr>sto_capacity := GiB 1\<rparr>,
         dem_policyGeneration := StrongId 1, requiredTopologyGeneration := StrongId 1\<rparr>\<rparr>"

text \<open>\<^verbatim>\<open>%.kf\<close> of \<^verbatim>\<open>printf\<close>; what a NaN prints is left to the implementation.\<close>

definition show_fixed :: "nat \<Rightarrow> double \<Rightarrow> string" where
  "show_fixed k d =
     (if is_nan d then ''nan'' else (if dsign d then ''-'' else []) @
        (if is_inf d then ''inf''
         else (let n = rne (mag_val (dmag d) * 10 ^ k) unit_one; frac = digits_of (n mod 10 ^ k) in
           map digit_char (digits_of (n div 10 ^ k)) @
           (if k = 0 then [] else ''.'' @ map digit_char (replicate (k - length frac) 0 @ frac)))))"

text \<open>\<^verbatim>\<open>main\<close> with the size the fixture file reports and the time the measurement returned
  (\<open>Loopback\<close>), and the lines it prints.\<close>

definition normalized_comm :: "double \<Rightarrow> double" where
  "normalized_comm loopbackUs = (if dlt d_zero loopbackUs then ddiv loopbackUs d_million else d_zero)"

definition show_signed :: "int \<Rightarrow> string" where
  "show_signed i = (if i < 0 then ''-'' else []) @ map digit_char (digits_of (nat \<bar>i\<bar>))"

definition host_evidence_main :: "int \<Rightarrow> double \<Rightarrow> (nat \<times> string list) res" where
  "host_evidence_main stateBytes loopbackUs =
     (case ingest_candidate (host_mk (StrongId 11) 0 (GiB 16) d_zero True) (new_Scheduler consumer_config) of
        (Inl e, _) \<Rightarrow> Inl e
      | (Inr _, s1) \<Rightarrow>
      case ingest_candidate (host_mk (StrongId 22) 3 (GiB 16) (normalized_comm loopbackUs) False) s1 of
        (Inl e, _) \<Rightarrow> Inl e
      | (Inr _, s2) \<Rightarrow>
      case schedule host_rq (Some AlwaysReadyDependency) (Some AllowAllPolicy) s2 of
        (Inl e, _) \<Rightarrow> Inl e
      | (Inr d, _) \<Rightarrow>
      let pass = (selectedCandidate (dec_plan d) = StrongId 11) in
      Inr (if pass then 0 else 1,
        [''host state fixture: '' @ show_signed stateBytes @ '' bytes on local filesystem'',
         ''LOOPBACK TCP framed round-trip: '' @ show_fixed 1 loopbackUs @ '' us'',
         ''selected candidate: '' @ show_u64 (id_value (selectedCandidate (dec_plan d))) @
           '' (expect 11 = local state + local path)'',
         ''host evidence example '' @ (if pass then ''PASS'' else ''FAIL'')]))"

section \<open>The inspection tool\<close>

text \<open>\<^verbatim>\<open>%-ws\<close> of \<^verbatim>\<open>printf\<close>.\<close>

definition pad_right :: "nat \<Rightarrow> string \<Rightarrow> string" where
  "pad_right w s = s @ replicate (w - length s) (CHR 0x20)"

definition show_id :: "'a strong_id \<Rightarrow> string" where
  "show_id i = show_u64 (id_value i)"

definition show_ids :: "CandidateId list \<Rightarrow> string" where
  "show_ids is = concat (map (\<lambda>i. show_id i @ '' '') is)"

definition show_rejection :: "RejectedAlternative \<Rightarrow> string" where
  "show_rejection r = ''candidate '' @ show_id (rej_candidateId r) @ '': '' @
     EligibilityStatus_to_string (rej_status r) @ '' - '' @ rej_reason r"

definition show_factor :: "RankFactor \<Rightarrow> string" where
  "show_factor f = pad_right 34 (RankFactorKind_to_string (rf_kind f)) @ '' = '' @
     show_fixed 4 (rf_value f) @ '' w='' @ show_fixed 2 (rf_weight f) @ '' '' @
     Provenance_to_string (rf_provenance f)"

definition inspect_config :: SchedulerConfig where
  "inspect_config = consumer_config\<lparr>cfg_maxCandidatesPerRequest := 16\<rparr>"

definition inspected :: "Candidate list" where
  "inspected =
     [mk (StrongId 10) 0 (GiB 16) (GiB 16) False False d_zero,
      mk (StrongId 20) 3 (GiB 8) (GiB 8) False False d_zero,
      mk (StrongId 30) 0 (GiB 16) (GiB 16) True False d_zero,
      mk (StrongId 40) 0 (GiB 16) (GiB 16) False True d_zero,
      mk (StrongId 50) 4 (GiB 8) (GiB 8) False False d_point_95]"

fun ingest_all :: "Candidate list \<Rightarrow> SchedulerState \<Rightarrow> SchedulerState res" where
  "ingest_all [] s = Inr s"
| "ingest_all (c # cs) s =
     (case ingest_candidate c s of (Inl e, _) \<Rightarrow> Inl e | (Inr _, s1) \<Rightarrow> ingest_all cs s1)"

definition inspect_decision :: "(PlacementDecision \<times> SchedulerState) res" where
  "inspect_decision =
     (case ingest_all inspected (new_Scheduler inspect_config) of Inl e \<Rightarrow> Inl e | Inr s \<Rightarrow>
      case schedule req (Some AlwaysReadyDependency) (Some AllowAllPolicy) s of
        (Inl e, _) \<Rightarrow> Inl e | (Inr d, s1) \<Rightarrow> Inr (d, s1))"

text \<open>The lines of the report; each ends with a line feed.\<close>

definition inspect_plan_lines :: "PlacementPlan \<Rightarrow> SchedulerState \<Rightarrow> string list" where
  "inspect_plan_lines p s =
     [''selected candidate: '' @ show_id (selectedCandidate p) @ '' (generation '' @
        show_id (selectedCandidateGeneration p) @ ''), plan '' @ show_id (planId p) @ ''/state '' @
        PlacementLifecycleState_to_string (pl_state p),
      ''fallback order: '' @ show_ids (fallbackCandidates p),
      ''authority '' @ show_id (pl_authorityGeneration p) @ '', epoch '' @ show_id (pl_coordinatorEpoch p),
      [], ''--- winning candidate ranking factors ---''] @
     map show_factor (selectedFactors p) @
     [[], ''--- placement explanation ---'', why (explain (planId p) s)]"

definition inspect_lines :: "PlacementDecision \<Rightarrow> SchedulerState \<Rightarrow> string list" where
  "inspect_lines d s =
     [''=== Fabric Scheduler inspection ==='',
      ''produced plan: '' @ (if producedPlan d then ''yes'' else ''no''),
      ''eligible (ranked): '' @ show_ids (dec_eligible d), [], ''--- hard rejections ---''] @
     map show_rejection (rejections d) @ [[]] @
     (if producedPlan d then inspect_plan_lines (dec_plan d) s else []) @ [''inspection done'']"

definition inspect_main :: "(nat \<times> string list) res" where
  "inspect_main = (case inspect_decision of Inl e \<Rightarrow> Inl e | Inr (d, s) \<Rightarrow> Inr (0, inspect_lines d s))"

section \<open>Candidates already in order\<close>

text \<open>
  When the candidates that pass the filter come in the order of dominance, \<open>schedule\<close> ranks them
  as they come.
\<close>

lemma schedule_in_order:
  assumes "validate (demand r) = Inr ()"
    and "filter (\<lambda>c. meets_hard_constraints r c dep pol) (schedule_begin st) = cs"
    and "\<forall>c \<in> set cs. finite_evidence c" "nonneg_weights (opt_weights (rankOptions st))" "sorted_wrt dominates cs"
  shows "schedule r dep pol st =
     schedule_finish r dep (map (\<lambda>c. (Ranker_evaluate r c (rankOptions st), c)) cs)
       (rejected_entries r dep pol (schedule_begin st)) st"
  using assms(2) dominance_sorts [OF assms(3-5), of r]
  by (simp add: schedule_eq [OF assms(1)] eligible_entries_def eligible_def evaluate_eligible)

lemmas dominance_defs =
  dominates_def no_worse_def capacity_no_worse_def locality_no_worse_def known_as_well_def
  communication_no_worse_def residency_no_worse_def wins_tie_def count_local_def is_valid_def

lemmas filter_defs =
  meets_hard_constraints_def constraint_defs vram_demand_def AlwaysReadyDependency_def AllowAllPolicy_def

lemma fresh_state:
  "candidates (new_Scheduler c) = []" "plans (new_Scheduler c) = []" "cancelledRequests (new_Scheduler c) = []"
  "fencedWorkers (new_Scheduler c) = []" "fencedSources (new_Scheduler c) = []" "nextPlanId (new_Scheduler c) = 1"
  by (simp_all add: new_Scheduler_def)

text \<open>A candidate whose identity lies above those already known joins the map at its end.\<close>

lemma ingest_last:
  assumes "check_candidate c = Inr ()" "workerBootId c \<notin> set (fencedWorkers st)" "sourceBootId c \<notin> set (fencedSources st)"
    and "\<forall>(k, x) \<in> set (candidates st). k < candidateId c"
  shows "ingest_candidate c st = (Inr (), st\<lparr>candidates := candidates st @ [(candidateId c, c)],
     ingestWatermark := ingestWatermark st + 1\<rparr>)"
proof -
  have "omap_find m (candidateId c) = None \<and> omap_assign (candidateId c) c m = m @ [(candidateId c, c)]"
    if "\<forall>(k, x) \<in> set m. k < candidateId c" for m :: "(CandidateId, Candidate) omap"
    using that by (induction m) (auto simp: omap_find_def)
  with assms show ?thesis by (subst ingest_succeeds) simp_all
qed

lemma ingest_all_last:
  assumes "\<forall>c \<in> set cs. check_candidate c = Inr ()" "fencedWorkers st = []" "fencedSources st = []"
    and "sorted_wrt (\<lambda>a b. candidateId a < candidateId b) cs"
    and "\<forall>(k, x) \<in> set (candidates st). \<forall>c \<in> set cs. k < candidateId c"
  shows "ingest_all cs st = Inr (st\<lparr>candidates := candidates st @ map (\<lambda>c. (candidateId c, c)) cs,
     ingestWatermark := ingestWatermark st + of_nat (length cs)\<rparr>)"
  using assms
proof (induction cs arbitrary: st)
  case Nil
  then show ?case by simp
next
  case (Cons c cs)
  let ?st = "st\<lparr>candidates := candidates st @ [(candidateId c, c)], ingestWatermark := ingestWatermark st + 1\<rparr>"
  have "ingest_candidate c st = (Inr (), ?st)" using Cons.prems by (intro ingest_last) auto
  moreover have "ingest_all cs ?st = Inr (?st\<lparr>candidates := candidates ?st @ map (\<lambda>c. (candidateId c, c)) cs,
      ingestWatermark := ingestWatermark ?st + of_nat (length cs)\<rparr>)"
    using Cons.prems by (intro Cons.IH) auto
  ultimately show ?case by (simp add: algebra_simps)
qed

section \<open>The consumer places on the local candidate\<close>

abbreviation consumerA :: Candidate where "consumerA \<equiv> make_candidate (StrongId 1) 0 (GiB 16)"
abbreviation consumerB :: Candidate where "consumerB \<equiv> make_candidate (StrongId 2) 3 (GiB 8)"

lemma consumer_evidence:
  "finite_evidence consumerA" "finite_evidence consumerB" "dominates consumerA consumerB"
  "check_candidate consumerA = Inr ()" "check_candidate consumerB = Inr ()"
  by (simp_all add: finite_evidence_def dominance_defs check_candidate_def make_candidate_def scenario_defs)

lemma consumer_meets:
  "meets_hard_constraints make_request consumerA (Some AlwaysReadyDependency) (Some AllowAllPolicy)"
  "meets_hard_constraints make_request consumerB (Some AlwaysReadyDependency) (Some AllowAllPolicy)"
  by (simp_all add: filter_defs make_request_def make_candidate_def scenario_defs is_valid_def)

lemma fresh_weights: "nonneg_weights (opt_weights (rankOptions (new_Scheduler consumer_config)))"
  "nonneg_weights (opt_weights (rankOptions (new_Scheduler inspect_config)))"
  by (simp_all add: new_Scheduler_def inspect_config_def consumer_config_def default_SchedulerConfig_def default_RankOptions_def
      default_weights_nonneg)

lemma show_one: "show_u64 1 = ''1''"
  by code_simp

lemma keeps_ingest: "sched_ok st \<Longrightarrow> ingest_candidate c st = (Inr (), st') \<Longrightarrow> sched_ok st'"
  using ingest_keeps [of st c] by (simp add: keeps_def)

theorem consumer_passes:
  "consumer_main = Inr (0,
     [''consumer selected candidate 1 (deterministic)'', ''selected candidate 1 (generation 1); state=PLAN_READY'',
      ''consumer commit ok; state=COMMITTED'', ''consumer PASS''])"
proof -
  let ?s0 = "new_Scheduler consumer_config" and ?r = make_request
    and ?dep = "Some AlwaysReadyDependency" and ?pol = "Some AllowAllPolicy"
  let ?s1 = "?s0\<lparr>candidates := [(StrongId 1, consumerA)], ingestWatermark := ingestWatermark ?s0 + 1\<rparr>"
  let ?s2 = "?s1\<lparr>candidates := [(StrongId 1, consumerA), (StrongId 2, consumerB)],
      ingestWatermark := ingestWatermark ?s1 + 1\<rparr>"
  have ids: "candidateId consumerA = StrongId 1" "candidateId consumerB = StrongId 2"
    by (simp_all add: make_candidate_def default_Candidate_def)
  have i1: "ingest_candidate consumerA ?s0 = (Inr (), ?s1)"
    by (subst ingest_last) (simp_all add: consumer_evidence fresh_state ids)
  have i2: "ingest_candidate consumerB ?s1 = (Inr (), ?s2)"
    by (subst ingest_last) (simp_all add: consumer_evidence fresh_state ids)
  have ok: "sched_ok ?s2" by (rule keeps_ingest [OF keeps_ingest [OF sched_ok_new i1] i2])
  have val: "validate (demand ?r) = Inr ()" by (simp add: demand_eval scenario_defs make_request_def)
  have run: "schedule ?r ?dep ?pol ?s2 = schedule_finish ?r ?dep
      ((Ranker_evaluate ?r consumerA (rankOptions ?s2), consumerA) # [(Ranker_evaluate ?r consumerB (rankOptions ?s2), consumerB)])
      (rejected_entries ?r ?dep ?pol (schedule_begin ?s2)) ?s2"
    by (subst schedule_in_order [OF val, where cs = "[consumerA, consumerB]"])
      (simp_all add: schedule_begin_def consumer_meets consumer_evidence fresh_weights)
  obtain d s3 where d: "schedule ?r ?dep ?pol ?s2 = (Inr d, s3)" "producedPlan d"
    "selectedCandidate (dec_plan d) = StrongId 1" "planId (dec_plan d) = StrongId 1"
    "committable (planId (dec_plan d)) (dec_plan d) s3" "sched_ok s3"
    by (rule schedule_places [OF run ok])
      (rule fresh_state | rule that | simp add: fresh_state ids omap_find_def)+
  have "dec_plan d = fresh_plan ?r ?dep (rejected_entries ?r ?dep ?pol (schedule_begin ?s2))
      (Ranker_evaluate ?r consumerA (rankOptions ?s2), consumerA)
      [(Ranker_evaluate ?r consumerB (rankOptions ?s2), consumerB)] ?s2"
    using d(1) unfolding run schedule_finish_Cons by auto
  then have gen: "selectedCandidateGeneration (dec_plan d) = StrongId 1"
    by (simp add: fresh_plan_def build_plan_def Let_def make_candidate_def default_Candidate_def)
  have why: "why (explain (StrongId 1) s3) = ''selected candidate 1 (generation 1); state=PLAN_READY''"
    using d(4,5) by (simp add: explain_def Let_def committable_def d(3) gen show_one)
  obtain out s4 q where c: "commit (planId (dec_plan d)) consumer_broker () s3 = (Inr out, (), s4)" "succeeded out"
    "launchable (planId (dec_plan d)) q s4"
    by (rule commit_succeeds [OF d(6,5), of consumer_broker "()" "fst (consumer_commit (claims (dec_plan d)) ())" "()"])
      (simp_all add: consumer_broker_def consumer_commit_def)
  have "plan_state (StrongId 1) s4 = COMMITTED"
    using c(3) by (simp add: launchable_def plan_state_def d(4))
  then show ?thesis
    using c d(4) unfolding consumer_main_def i1 prod.case sum.case i2 d(1)
    by (simp add: d(2,3) why show_one Let_def)
qed

section \<open>The host evidence prefers local state\<close>

lemma quotient_nonneg:
  assumes "is_finite x" "\<not> is_nan y" "is_finite y" "0 < dval y" "0 \<le> dval x" "unit_one \<le> mag_val (dmag y)"
  shows "nonneg (ddiv x y)"
proof -
  have y: "0 < mag_val (dmag y)" using unit_one_pos assms(6) by (rule less_le_trans)
  then have "round_mag (mag_val (dmag x) * unit_one) (mag_val (dmag y)) \<le> dmag x"
    using assms(1,6) by (intro round_mag_le) (auto simp: is_finite_def)
  moreover have "dmag x < mag_inf" using assms(1) by (simp add: is_finite_def)
  ultimately have r: "round_mag (mag_val (dmag x) * unit_one) (mag_val (dmag y)) < mag_inf" by simp
  have n: "nonneg x" "nonneg y" using assms by (simp_all add: nonneg_def)
  have "dmag y \<noteq> 0" using y by (metis mag_val_0 less_irrefl)
  then have "dmag (ddiv x y) = round_mag (mag_val (dmag x) * unit_one) (mag_val (dmag y))"
    using n assms(4) by (auto simp: nonneg_def ddiv_def Let_def finite_not_nan finite_not_inf dval_def)
  then show ?thesis using ddiv_val [OF n assms(4)] r by (simp add: nonneg_def is_finite_def)
qed

lemma million: "is_finite d_million" "0 < dval d_million" "unit_one \<le> mag_val (dmag d_million)"
proof -
  have m: "1023 * hid \<le> dmag d_million" "dmag d_million < mag_inf" "\<not> dsign d_million"
    by (simp_all add: dmag_def d_million_def sgnbit_def mag_inf_def hid_def dsign_def)
  then show "is_finite d_million" "0 < dval d_million" "unit_one \<le> mag_val (dmag d_million)"
    using mag_val_le_iff [of "1023 * hid" "dmag d_million"] unit_one_pos
    by (simp_all add: is_finite_def dval_def del: mag_val_le_iff unit_one_pos)
qed

lemma normalized_nonneg: "\<not> is_inf us \<Longrightarrow> nonneg (normalized_comm us)"
  using million finite_iff_not_inf [of us] quotient_nonneg [of us d_million]
  by (auto simp: normalized_comm_def dlt_def finite_not_nan)

abbreviation hostA :: Candidate where "hostA \<equiv> host_mk (StrongId 11) 0 (GiB 16) d_zero True"
abbreviation hostB :: "double \<Rightarrow> Candidate" where
  "hostB us \<equiv> host_mk (StrongId 22) 3 (GiB 16) (normalized_comm us) False"

lemma half_product:
  "nonneg x \<Longrightarrow> nonneg (dmul x d_half)" "nonneg (dmul d_zero d_half)" "dval (dmul d_zero d_half) \<le> 0"
  using dmul_unit [OF _ in_unit_literals(1)] dmul_unit [OF nonneg_zero in_unit_literals(1)] by simp_all

lemma host_evidence_facts:
  assumes "\<not> is_inf us"
  shows "finite_evidence hostA" "finite_evidence (hostB us)" "dominates hostA (hostB us)"
    "check_candidate hostA = Inr ()" "check_candidate (hostB us) = Inr ()"
  using normalized_nonneg [OF assms] half_product(1) [OF normalized_nonneg [OF assms]] half_product(2,3)
  by (simp_all add: nonneg_def finite_evidence_def dominance_defs check_candidate_def host_mk_def scenario_defs)

lemma host_meets:
  "meets_hard_constraints host_rq hostA (Some AlwaysReadyDependency) (Some AllowAllPolicy)"
  "meets_hard_constraints host_rq (hostB us) (Some AlwaysReadyDependency) (Some AllowAllPolicy)"
  by (simp_all add: filter_defs host_rq_def host_mk_def scenario_defs is_valid_def)

lemma show_eleven: "show_u64 11 = ''11''"
  by code_simp

theorem host_evidence_passes:
  assumes "\<not> is_inf us"
  shows "host_evidence_main bytes us = Inr (0,
     [''host state fixture: '' @ show_signed bytes @ '' bytes on local filesystem'',
      ''LOOPBACK TCP framed round-trip: '' @ show_fixed 1 us @ '' us'',
      ''selected candidate: 11 (expect 11 = local state + local path)'', ''host evidence example PASS''])"
proof -
  let ?s0 = "new_Scheduler consumer_config" and ?r = host_rq
    and ?dep = "Some AlwaysReadyDependency" and ?pol = "Some AllowAllPolicy"
  let ?s1 = "?s0\<lparr>candidates := [(StrongId 11, hostA)], ingestWatermark := ingestWatermark ?s0 + 1\<rparr>"
  let ?s2 = "?s1\<lparr>candidates := [(StrongId 11, hostA), (StrongId 22, hostB us)],
      ingestWatermark := ingestWatermark ?s1 + 1\<rparr>"
  note ev = host_evidence_facts [OF assms]
  have ids: "candidateId hostA = StrongId 11" "candidateId (hostB us) = StrongId 22"
    by (simp_all add: host_mk_def default_Candidate_def)
  have i1: "ingest_candidate hostA ?s0 = (Inr (), ?s1)"
    by (subst ingest_last) (simp_all add: ev fresh_state ids)
  have i2: "ingest_candidate (hostB us) ?s1 = (Inr (), ?s2)"
    by (subst ingest_last) (simp_all add: ev fresh_state ids)
  have val: "validate (demand ?r) = Inr ()" by (simp add: demand_eval scenario_defs host_rq_def)
  have run: "schedule ?r ?dep ?pol ?s2 = schedule_finish ?r ?dep
      ((Ranker_evaluate ?r hostA (rankOptions ?s2), hostA) # [(Ranker_evaluate ?r (hostB us) (rankOptions ?s2), hostB us)])
      (rejected_entries ?r ?dep ?pol (schedule_begin ?s2)) ?s2"
    by (subst schedule_in_order [OF val, where cs = "[hostA, hostB us]"])
      (simp_all add: schedule_begin_def host_meets ev fresh_weights)
  show ?thesis
    unfolding host_evidence_main_def i1 prod.case sum.case i2 run schedule_finish_Cons
    by (simp add: ids show_eleven)
qed

theorem host_evidence_passes_witness: "\<exists>out. host_evidence_main 33554432 d_zero = Inr (0, out)"
  using host_evidence_passes [of d_zero 33554432] by (simp add: finite_not_inf)

section \<open>The inspection tool ranks and rejects as shown\<close>

abbreviation inspect10 :: Candidate where "inspect10 \<equiv> mk (StrongId 10) 0 (GiB 16) (GiB 16) False False d_zero"
abbreviation inspect20 :: Candidate where "inspect20 \<equiv> mk (StrongId 20) 3 (GiB 8) (GiB 8) False False d_zero"
abbreviation inspect30 :: Candidate where "inspect30 \<equiv> mk (StrongId 30) 0 (GiB 16) (GiB 16) True False d_zero"
abbreviation inspect40 :: Candidate where "inspect40 \<equiv> mk (StrongId 40) 0 (GiB 16) (GiB 16) False True d_zero"
abbreviation inspect50 :: Candidate where "inspect50 \<equiv> mk (StrongId 50) 4 (GiB 8) (GiB 8) False False d_point_95"

lemma unit_literals:
  "in_unit d_point_1" "in_unit d_point_8" "in_unit d_point_9" "in_unit d_point_95"
  by (rule in_unit_mag;
      simp add: dsign_def dmag_def d_point_1_def d_point_8_def d_point_9_def d_point_95_def sgnbit_def hid_def)+

lemma above_nine: "dlt d_point_9 d_point_95" "\<not> dlt d_point_9 d_zero"
proof -
  have "dmag d_point_9 < dmag d_point_95" "\<not> dsign d_point_9" "\<not> dsign d_point_95"
    by (simp_all add: dsign_def dmag_def d_point_9_def d_point_95_def sgnbit_def)
  then show "dlt d_point_9 d_point_95" using unit_literals by (simp add: dlt_def dval_def in_unit_def)
  show "\<not> dlt d_point_9 d_zero" using unit_literals(3) by (simp add: dlt_def in_unit_def)
qed

lemma one_less_nothing: "in_unit (dsub d_one d_zero)" "dval (dsub d_one d_zero) = dval d_one"
proof -
  have "nonneg (dneg d_zero)" by (simp add: nonneg_def)
  moreover have "representable unit_one" using representable_units [of 1] by (simp add: hid_def)
  ultimately have "dval (dsub d_one d_zero) = int unit_one"
    unfolding dsub_def by (intro dadd_exact) (simp_all add: in_unit_nonneg dval_d_one)
  then show "in_unit (dsub d_one d_zero)" "dval (dsub d_one d_zero) = dval d_one"
    by (simp_all add: in_unit_def dval_d_one dsub_not_nan)
qed

lemma inspected_finite: "c \<in> set inspected \<Longrightarrow> finite_evidence c"
  using unit_literals one_less_nothing in_unit_finite
  by (auto simp: inspected_def finite_evidence_def mk_def above_nine scenario_defs)

lemma inspected_dominates: "dominates inspect10 inspect20" "dominates inspect10 inspect50" "dominates inspect20 inspect50"
  using unit_literals one_less_nothing
  by (simp_all add: dominance_defs mk_def above_nine scenario_defs in_unit_def)

lemma inspected_meets:
  "meets_hard_constraints req inspect10 (Some AlwaysReadyDependency) (Some AllowAllPolicy)"
  "meets_hard_constraints req inspect20 (Some AlwaysReadyDependency) (Some AllowAllPolicy)"
  "\<not> meets_hard_constraints req inspect30 (Some AlwaysReadyDependency) (Some AllowAllPolicy)"
  "\<not> meets_hard_constraints req inspect40 (Some AlwaysReadyDependency) (Some AllowAllPolicy)"
  "meets_hard_constraints req inspect50 (Some AlwaysReadyDependency) (Some AllowAllPolicy)"
  by (simp_all add: filter_defs mk_def scenario_defs is_valid_def)

lemma inspected_verdicts:
  "evaluate req inspect30 dep pol =
     reject ES_REJECT_HEALTH ''candidate resource is not health-ready: ECC uncorrectable'' RF_HealthMargin RK_CpuCore"
  "evaluate req inspect40 dep pol =
     reject ES_REJECT_RESERVATION ''candidate resource is protected by a live reservation'' RF_ReservationFit RK_Accelerator"
  by (simp_all add: evaluate_def mk_def scenario_defs has_capability_def requiredVram_def saturating_mul_def)

lemma show_numbers: "show_u64 30 = ''30''" "show_u64 40 = ''40''"
  by code_simp+

text \<open>
  The tool's decision: a plan on candidate 10 with 20 and 50 to fall back on, in this order, and
  two rejections: 30 for its health and 40 for a live reservation.
\<close>

theorem inspection_shows:
  "\<exists>d s. inspect_decision = Inr (d, s) \<and> producedPlan d \<and>
     dec_eligible d = [StrongId 10, StrongId 20, StrongId 50] \<and>
     selectedCandidate (dec_plan d) = StrongId 10 \<and> pl_state (dec_plan d) = PLAN_READY \<and>
     map show_rejection (rejections d) =
       [''candidate 30: REJECT_HEALTH - candidate resource is not health-ready: ECC uncorrectable'',
        ''candidate 40: REJECT_RESERVATION - candidate resource is protected by a live reservation'']"
proof -
  let ?dep = "Some AlwaysReadyDependency" and ?pol = "Some AllowAllPolicy"
  let ?s0 = "new_Scheduler inspect_config"
  let ?w = "ingestWatermark ?s0"
  let ?st = "\<lambda>n cs. ?s0\<lparr>candidates := map (\<lambda>c. (candidateId c, c)) cs, ingestWatermark := n\<rparr>"
  have ids: "candidateId inspect10 = StrongId 10" "candidateId inspect20 = StrongId 20"
    "candidateId inspect30 = StrongId 30" "candidateId inspect40 = StrongId 40" "candidateId inspect50 = StrongId 50"
    by (simp_all add: mk_def default_Candidate_def)
  have chk: "check_candidate inspect10 = Inr ()" "check_candidate inspect20 = Inr ()"
    "check_candidate inspect30 = Inr ()" "check_candidate inspect40 = Inr ()" "check_candidate inspect50 = Inr ()"
    by (simp_all add: check_candidate_def mk_def scenario_defs is_valid_def)
  let ?full = "?st (5 + ?w) inspected"
  have i: "ingest_all inspected ?s0 = Inr ?full"
    by (subst ingest_all_last) (simp_all add: inspected_def chk fresh_state ids)
  have snap: "schedule_begin ?full = [inspect10, inspect20, inspect30, inspect40, inspect50]"
    by (simp add: schedule_begin_def inspected_def)
  have rej: "map show_rejection (rejected_entries req ?dep ?pol (schedule_begin ?full)) =
       [''candidate 30: REJECT_HEALTH - candidate resource is not health-ready: ECC uncorrectable'',
        ''candidate 40: REJECT_RESERVATION - candidate resource is protected by a live reservation'']"
    by (simp add: snap rejected_entries_def eligible_def evaluate_eligible inspected_meets)
      (simp add: inspected_verdicts show_rejection_def show_id_def show_numbers reject_def
        default_EligibilityResult_def ids Let_def)
  have run: "schedule req ?dep ?pol ?full = schedule_finish req ?dep
      (map (\<lambda>c. (Ranker_evaluate req c (rankOptions ?full), c)) [inspect10, inspect20, inspect50])
      (rejected_entries req ?dep ?pol (schedule_begin ?full)) ?full"
    using inspected_finite
    by (subst schedule_in_order [OF demo_valid, where cs = "[inspect10, inspect20, inspect50]"])
      (simp_all add: snap inspected_meets fresh_weights inspected_dominates, simp add: inspected_def)
  show ?thesis
    unfolding inspect_decision_def i sum.case run list.map schedule_finish_Cons prod.case
    by (simp add: rej ids)
qed

end
