(* ===== verification/Benchmark.thy ===== *)
theory Benchmark
  imports Examples
begin

text \<open>
  The benchmark (\<^verbatim>\<open>benchmarks/bench_candidate.cpp\<close>) without its clock: the seeded generator, the
  pool of candidates it draws, the request, and what a scenario reports of the decision.

  The program states of its scenarios that in the dense one all candidates are eligible and that
  in the heavy one every seventh is not; \<open>dense_scenario\<close> and \<open>heavy_scenario\<close> prove both for
  every scale, whatever the generator draws. The threads that repeat the schedule to measure
  throughput are in \<open>Benchmark_Threads\<close>; measured times and the printed tables are not modelled;
  explaining the plan and reading the candidates back change nothing.
\<close>

section \<open>The generator\<close>

definition kSeed :: "64 word" where "kSeed = 0x5EED0F00D"

text \<open>The value and the next state.\<close>

definition splitmix_next :: "64 word \<Rightarrow> 64 word \<times> 64 word" where
  "splitmix_next s =
     (let s1 = s + 0x9E3779B97F4A7C15; z = s1;
          z1 = xor z (drop_bit 30 z) * 0xBF58476D1CE4E5B9;
          z2 = xor z1 (drop_bit 27 z1) * 0x94D049BB133111EB in
      (xor z2 (drop_bit 31 z2), s1))"

definition in_range :: "64 word \<Rightarrow> 64 word \<Rightarrow> 64 word \<Rightarrow> 64 word \<times> 64 word" where
  "in_range lo hi s = (let (v, s1) = splitmix_next s in (lo + v mod (hi - lo + 1), s1))"

section \<open>The pool\<close>

record CandidateDims =
  bindingCount :: nat
  dim_vramTotal :: ByteCount
  vramLo :: ByteCount
  vramHi :: ByteCount
  dim_cpuAvailable :: CoreCount
  dim_storageAvailable :: ByteCount
  hostMemLo :: ByteCount
  hostMemHi :: ByteCount
  numaLo :: "32 word"
  numaHi :: "32 word"
  pcieLo :: "32 word"
  pcieHi :: "32 word"

definition kDims :: CandidateDims where
  "kDims = \<lparr>bindingCount = 1, dim_vramTotal = GiB 96, vramLo = GiB 16, vramHi = GiB 63,
     dim_cpuAvailable = 16, dim_storageAvailable = GiB 256, hostMemLo = GiB 16, hostMemHi = GiB 128,
     numaLo = 0, numaHi = 3, pcieLo = 0, pcieHi = 4\<rparr>"

text \<open>A candidate from its identity, its health and what was drawn for it.\<close>

definition bench_record ::
  "64 word \<Rightarrow> bool \<Rightarrow> 64 word \<Rightarrow> 64 word \<Rightarrow> 64 word \<Rightarrow> 64 word \<Rightarrow> 64 word \<Rightarrow> 64 word \<Rightarrow> 64 word \<Rightarrow> bool
     \<Rightarrow> Candidate"
where
  "bench_record idVal ready domain vram host numa hops nic storage loc =
     default_Candidate
       \<lparr>candidateId := StrongId idVal, candidateGeneration := StrongId 1,
        workerId := StrongId (idVal + 1000), workerBootId := StrongId (idVal + 100000),
        sourceId := StrongId (idVal + 5000), sourceBootId := StrongId (idVal + 200000),
        cand_provenance := Prov_Measured,
        bindings := [default_DeviceBinding
          \<lparr>deviceId := StrongId idVal, deviceGeneration := StrongId 1,
           bnd_resourceId := StrongId idVal, bnd_resourceGeneration := StrongId 1,
           nodeId := StrongId 1, nodeGeneration := StrongId 1,
           memoryDomainId := StrongId domain, memoryDomainGeneration := StrongId 1,
           nicId := StrongId (idVal + 100), nicGeneration := StrongId 1,
           storageId := StrongId 1, storageGeneration := StrongId 1,
           cpuDomainId := StrongId 1, cpuDomainGeneration := StrongId 1,
           bnd_capability := Acc_Cuda, cudaCompatibility := 120, capabilityCurrent := True,
           bnd_capabilityGeneration := StrongId 1, bnd_sharesPcieRoot := False\<rparr>],
        capacity := default_CapacityEvidence
          \<lparr>cap_generation := StrongId 1, vramTotal := dim_vramTotal kDims, vramAvailable := vram,
           hostMemoryAvailable := host, pinnedMemoryAvailable := GiB 8,
           cpuAvailable := dim_cpuAvailable kDims, storageAvailable := dim_storageAvailable kDims,
           nicBandwidthAvailable := GiB 400, contiguousMemory := True, cap_provenance := Prov_Measured\<rparr>,
        health := default_HealthEvidence
          \<lparr>hea_generation := StrongId 1, hea_ready := ready, healthScore := d_one,
           hea_provenance := Prov_Reported\<rparr>,
        reservation := default_ReservationEvidence
          \<lparr>rsv_generation := StrongId 1, reservedBytes := 0, rsv_provenance := Prov_Reported\<rparr>,
        congestion := default_CongestionEvidence
          \<lparr>cgs_generation := StrongId 1, cgs_congestion := d_zero, residualBandwidth := d_one,
           cgs_provenance := Prov_Measured\<rparr>,
        locality := default_LocalityEvidence
          \<lparr>topologyGeneration := StrongId 1, numaDistance := ucast numa, pcieHops := ucast hops,
           nicDistance := ucast nic, storageDistance := ucast storage,
           topologyGroup := ''group-1'', loc_provenance := Prov_Reported\<rparr>,
        communication := default_CommunicationEvidence
          \<lparr>com_planGeneration := StrongId 1, estimatedCost := d_zero, derivedPathCost := d_zero,
           collectiveCost := d_zero, pathFeasible := True, com_provenance := Prov_Derived\<rparr>,
        residency := default_ResidencyEvidence
          \<lparr>residencyGeneration := StrongId 1, modelResident := True, adapterResident := True,
           stateLocal := loc, moveBytes := (if loc then 0 else GiB 512), rsd_provenance := Prov_Reported\<rparr>,
        cand_policyGeneration := StrongId 1,
        memoryMovementCost := (if loc then d_zero else d_point_4)\<rparr>"

text \<open>One candidate and the generator after it; the draws come in the order of the code.\<close>

definition bench_candidate :: "nat \<Rightarrow> 64 word \<Rightarrow> bool \<Rightarrow> bool \<Rightarrow> Candidate \<times> 64 word" where
  "bench_candidate index rng heavyHealthReject forceEligible =
     (let (domain, r1) = in_range 1 4 rng;
          (vram, r2) = (if forceEligible then (vramHi kDims, r1) else in_range (vramLo kDims) (vramHi kDims) r1);
          (host, r3) = in_range (hostMemLo kDims) (hostMemHi kDims) r2;
          (numa, r4) = in_range (ucast (numaLo kDims)) (ucast (numaHi kDims)) r3;
          (hops, r5) = in_range (ucast (pcieLo kDims)) (ucast (pcieHi kDims)) r4;
          (nic, r6) = in_range 0 3 r5;
          (storage, r7) = in_range 0 3 r6;
          (coin, r8) = splitmix_next r7 in
      (bench_record (word_of_nat (index + 1)) (forceEligible \<or> \<not> (heavyHealthReject \<and> index mod 7 = 0))
         domain vram host numa hops nic storage (coin mod 2 = 0), r8))"

fun bench_pool :: "nat list \<Rightarrow> 64 word \<Rightarrow> bool \<Rightarrow> Candidate list" where
  "bench_pool [] rng heavy = []"
| "bench_pool (i # is) rng heavy =
     (let (c, rng1) = bench_candidate i rng heavy False in c # bench_pool is rng1 heavy)"

definition bench_request :: "SchedulingRequestId \<Rightarrow> ByteCount \<Rightarrow> SchedulingRequest" where
  "bench_request i vram = default_SchedulingRequest
     \<lparr>req_requestId := i, req_generation := StrongId 1, req_coordinatorEpoch := StrongId 1,
      req_sourceId := StrongId 3, req_sourceBootId := StrongId 30,
      demand := default_DemandProfile
        \<lparr>demandId := StrongId 1, demandGeneration := StrongId 1, workloadId := StrongId 4,
         workloadGeneration := StrongId 1,
         accelerator := default_AcceleratorRequirement
           \<lparr>acc_capability := Acc_Cuda, minimumCount := 1, targetCount := 1, maximumCount := 1,
            vramPerDevice := vram, aggregateVram := 0, acc_capabilityGeneration := StrongId 1\<rparr>,
         dem_memory := \<lparr>hostMemory = GiB 1, pinnedMemory = MiB 256\<rparr>,
         cpuRequired := 2, dem_storage := \<lparr>sto_capacity = GiB 4, requireLocal = False\<rparr>,
         dem_policyGeneration := StrongId 1, requiredTopologyGeneration := StrongId 1,
         latencySensitivity := LS_High\<rparr>\<rparr>"

section \<open>A scenario\<close>

record ScenarioReport =
  rep_n :: nat
  rep_eligible :: nat
  rep_disqualified :: nat
  rep_producedPlan :: bool
  rep_winner :: CandidateId

definition bench_config :: SchedulerConfig where
  "bench_config = default_SchedulerConfig
     \<lparr>cfg_policy := default_PolicyConfig\<lparr>pol_generation := StrongId 1\<rparr>,
      cfg_rankOptions := default_RankOptions\<lparr>opt_policyGeneration := StrongId 1\<rparr>,
      cfg_maxCandidatesPerRequest := 256\<rparr>"

text \<open>The report and the scheduler the scenario leaves behind.\<close>

definition scenario_pass :: "nat \<Rightarrow> bool \<Rightarrow> ByteCount \<Rightarrow> (ScenarioReport \<times> SchedulerState) res" where
  "scenario_pass n heavy gateVram =
     (case ingest_all (bench_pool [0..<n] (kSeed + (if heavy then 977 else 0)) heavy) (new_Scheduler bench_config) of
        Inl e \<Rightarrow> Inl e
      | Inr s \<Rightarrow>
      case schedule (bench_request (StrongId 1) gateVram) (Some AlwaysReadyDependency) (Some AllowAllPolicy) s of
        (Inl e, _) \<Rightarrow> Inl e
      | (Inr dec, s1) \<Rightarrow>
      let out = \<lparr>rep_n = n, rep_eligible = length (dec_eligible dec), rep_disqualified = length (disqualified dec),
            rep_producedPlan = producedPlan dec,
            rep_winner = (if producedPlan dec then selectedCandidate (dec_plan dec) else StrongId 0)\<rparr> in
      if \<not> producedPlan dec then Inr (out, s1) else
      case plan_of (planId (dec_plan dec)) s1 of None \<Rightarrow> Inr (out, s1)
      | Some plan \<Rightarrow>
        case revalidate (planId (dec_plan dec)) (generations plan) s1 of
          (Inl e, _) \<Rightarrow> Inl e
        | (Inr _, s2) \<Rightarrow> Inr (out, s2))"

definition run_scenario :: "nat \<Rightarrow> bool \<Rightarrow> ByteCount \<Rightarrow> ScenarioReport res" where
  "run_scenario n heavy gateVram =
     (case scenario_pass n heavy gateVram of Inl e \<Rightarrow> Inl e | Inr (out, _) \<Rightarrow> Inr out)"

text \<open>The three scenarios \<^verbatim>\<open>main\<close> runs; a scale that is not positive is replaced by 1000.\<close>

definition bench_main :: "int \<Rightarrow> ScenarioReport res list" where
  "bench_main scale =
     (let n = nat (if scale \<le> 0 then 1000 else scale) in
      [run_scenario n False (GiB 8), run_scenario n True (GiB 8), run_scenario n True (GiB 48)])"

section \<open>What the pool looks like\<close>

lemma in_range_bounds:
  assumes "lo \<le> hi" "1 + (hi - lo) \<noteq> 0"
  shows "lo \<le> fst (in_range lo hi s)" "fst (in_range lo hi s) \<le> hi"
proof -
  obtain v s1 where v: "splitmix_next s = (v, s1)" by (rule prod.exhaust)
  have one: "unat (hi - lo + 1) = unat hi - unat lo + 1"
    using unatSuc [OF assms(2)] unat_sub [OF assms(1)] by (simp add: add.commute)
  then have "unat (v mod (hi - lo + 1)) < unat hi - unat lo + 1" by (simp add: unat_mod)
  then have d: "unat lo + unat (v mod (hi - lo + 1)) \<le> unat hi"
    using assms(1) by (simp add: word_le_nat_alt)
  then have "unat (lo + v mod (hi - lo + 1)) = unat lo + unat (v mod (hi - lo + 1))"
    using unsigned_less [of hi, where 'a = nat] by (simp add: unat_word_ariths)
  with d show "lo \<le> fst (in_range lo hi s)" "fst (in_range lo hi s) \<le> hi"
    by (simp_all add: in_range_def v word_le_nat_alt)
qed

lemma kDims_fields:
  "dim_vramTotal kDims = GiB 96" "vramLo kDims = GiB 16" "vramHi kDims = GiB 63" "dim_cpuAvailable kDims = 16"
  "dim_storageAvailable kDims = GiB 256" "hostMemLo kDims = GiB 16" "hostMemHi kDims = GiB 128"
  by (simp_all add: kDims_def)

text \<open>The draws that the filter reads are the VRAM and the host memory.\<close>

lemma bench_candidate_drawn:
  obtains domain vram host numa hops nic storage loc where
    "fst (bench_candidate i rng heavy False) =
       bench_record (word_of_nat (i + 1)) (\<not> (heavy \<and> i mod 7 = 0)) domain vram host numa hops nic storage loc"
    "GiB 16 \<le> vram" "vram \<le> GiB 63" "GiB 16 \<le> host"
proof -
  have v: "GiB 16 \<le> fst (in_range (GiB 16) (GiB 63) r)" "fst (in_range (GiB 16) (GiB 63) r) \<le> GiB 63"
    "GiB 16 \<le> fst (in_range (GiB 16) (GiB 128) r)" for r
    by (rule in_range_bounds; simp add: GiB_def)+
  show thesis
    by (rule that) (auto simp: bench_candidate_def Let_def split_beta kDims_fields v)
qed

lemma bench_record_fields:
  "candidateId (bench_record i rdy d v h n p nic s l) = StrongId i"
  "check_candidate (bench_record i rdy d v h n p nic s l) = Inr () \<longleftrightarrow> i \<noteq> 0 \<and> i + 200000 \<noteq> 0 \<and> i + 100000 \<noteq> 0"
  by (simp_all add: bench_record_def check_candidate_def scenario_defs is_valid_def)

lemma bench_record_meets:
  assumes "GiB 16 \<le> h"
  shows "meets_hard_constraints (bench_request rid gate) (bench_record i rdy d v h n p nic s l)
     (Some AlwaysReadyDependency) (Some AllowAllPolicy) \<longleftrightarrow> rdy \<and> gate \<le> v"
proof -
  have "min (unat gate) 18446744073709551615 = unat gate"
    using unsigned_less [of gate, where 'a = nat] by simp
  then show ?thesis using assms
    by (simp add: filter_defs bench_request_def bench_record_def scenario_defs is_valid_def kDims_fields word_le_nat_alt conj_commute)
qed

lemma bench_request_valid: "unat gate \<le> 2 ^ 44 \<Longrightarrow> validate (demand (bench_request rid gate)) = Inr ()"
  by (simp add: demand_eval bench_request_def scenario_defs)

definition drawn :: "bool \<Rightarrow> nat \<Rightarrow> Candidate \<Rightarrow> bool" where
  "drawn heavy i c \<longleftrightarrow> (\<exists>d v h n p nic s l.
     c = bench_record (word_of_nat (i + 1)) (\<not> (heavy \<and> i mod 7 = 0)) d v h n p nic s l \<and>
     GiB 16 \<le> v \<and> v \<le> GiB 63 \<and> GiB 16 \<le> h)"

lemma pool_drawn: "list_all2 (drawn heavy) is (bench_pool is rng heavy)"
proof (induction "is" arbitrary: rng)
  case Nil
  then show ?case by simp
next
  case (Cons i "is")
  have "drawn heavy i (fst (bench_candidate i rng heavy False))"
    unfolding drawn_def by (rule bench_candidate_drawn [of i rng heavy]) blast
  with Cons.IH show ?case by (simp add: split_beta Let_def)
qed

lemma word_of_small:
  assumes "i < 2 ^ 63"
  shows "unat (word_of_nat (i + 1) :: 64 word) = i + 1"
proof -
  have "i + 1 < 2 ^ LENGTH(64)" using assms by simp
  then show ?thesis by (simp only: unat_of_nat mod_less)
qed

lemma drawn_fields:
  assumes "drawn heavy i c" "i < 2 ^ 63"
  shows "id_value (candidateId c) = word_of_nat (i + 1)" "check_candidate c = Inr ()"
    and "gate \<le> GiB 16 \<Longrightarrow> meets_hard_constraints (bench_request rid gate) c (Some AlwaysReadyDependency)
       (Some AllowAllPolicy) \<longleftrightarrow> \<not> (heavy \<and> i mod 7 = 0)"
proof -
  obtain d v h n p nic s l where c: "c = bench_record (word_of_nat (i + 1)) (\<not> (heavy \<and> i mod 7 = 0)) d v h n p nic s l"
    and b: "GiB 16 \<le> v" "GiB 16 \<le> h" using assms(1) unfolding drawn_def by blast
  have w: "unat (word_of_nat (i + 1) :: 64 word) = i + 1" using assms(2) by (rule word_of_small)
  have "(word_of_nat (i + 1) :: 64 word) + k \<noteq> 0" if "unat k < 2 ^ 62" for k :: "64 word"
    using that assms(2) w by (auto simp: unat_eq_0 [symmetric] unat_word_ariths simp del: of_nat_Suc)
  from this [of 0] this [of 100000] this [of 200000]
  show "id_value (candidateId c) = word_of_nat (i + 1)" "check_candidate c = Inr ()"
    by (simp_all add: c bench_record_fields)
  show "meets_hard_constraints (bench_request rid gate) c (Some AlwaysReadyDependency)
       (Some AllowAllPolicy) \<longleftrightarrow> \<not> (heavy \<and> i mod 7 = 0)" if "gate \<le> GiB 16"
    using that b(1) bench_record_meets [OF b(2)] by (auto simp: c intro: order_trans)
qed

lemma pool_ingested:
  assumes "n < 2 ^ 63"
  shows "ingest_all (bench_pool [0..<n] rng heavy) (new_Scheduler bench_config) = Inr ((new_Scheduler bench_config)
     \<lparr>candidates := map (\<lambda>c. (candidateId c, c)) (bench_pool [0..<n] rng heavy), ingestWatermark := word_of_nat n\<rparr>)"
proof -
  let ?pool = "bench_pool [0..<n] rng heavy"
  have dr: "length ?pool = n" "\<And>i. i < n \<Longrightarrow> drawn heavy i (?pool ! i)"
    using pool_drawn [of heavy "[0..<n]" rng] by (auto simp: list_all2_conv_all_nth)
  have "unat (id_value (candidateId (?pool ! i))) = i + 1" if "i < n" for i
  proof -
    have i: "i < 2 ^ 63" using that assms by simp
    show ?thesis unfolding drawn_fields(1) [OF dr(2) [OF that] i] by (rule word_of_small [OF i])
  qed
  then have "id_value (candidateId (?pool ! i)) < id_value (candidateId (?pool ! j))" if "i < j" "j < n" for i j
    using that by (simp add: word_less_nat_alt)
  then have "sorted_wrt (\<lambda>a b. candidateId a < candidateId b) ?pool"
    using dr(1) by (simp add: sorted_wrt_iff_nth_less less_strong_id_def)
  moreover have "\<forall>c \<in> set ?pool. check_candidate c = Inr ()"
    using dr assms drawn_fields(2) by (fastforce simp: in_set_conv_nth)
  ultimately show ?thesis by (subst ingest_all_last) (simp_all add: fresh_state dr(1) new_Scheduler_def)
qed

section \<open>What a scenario reports\<close>

lemma finish_lengths:
  "\<exists>d st'. schedule_finish r dep es rej st = (Inr d, st') \<and> length (dec_eligible d) = length es \<and>
     length (disqualified d) = length rej"
proof (cases es)
  case Nil
  then show ?thesis by (simp add: schedule_finish_def Let_def)
next
  case (Cons w rest)
  then show ?thesis by (simp add: schedule_finish_Cons)
qed

text \<open>Revalidation against the generations of the plan itself changes nothing.\<close>

lemma revalidate_unmoved:
  "omap_find (plans st) pid = Some p \<Longrightarrow> revalidate pid (generations p) st = (Inr (revalidate_plan p (generations p)), st)"
  by (simp add: revalidate_def Let_def current_iff_same)

abbreviation scenario_pool :: "nat \<Rightarrow> bool \<Rightarrow> Candidate list" where
  "scenario_pool n heavy \<equiv> bench_pool [0..<n] (kSeed + (if heavy then 977 else 0)) heavy"

abbreviation scenario_start :: "nat \<Rightarrow> bool \<Rightarrow> SchedulerState" where
  "scenario_start n heavy \<equiv> (new_Scheduler bench_config)
     \<lparr>candidates := map (\<lambda>c. (candidateId c, c)) (scenario_pool n heavy), ingestWatermark := word_of_nat n\<rparr>"

lemma scenario_pass_eq:
  assumes "n < 2 ^ 63" "gate \<le> 2 ^ 44"
  obtains d st' where
    "schedule (bench_request (StrongId 1) gate) (Some AlwaysReadyDependency) (Some AllowAllPolicy) (scenario_start n heavy) = (Inr d, st')"
    and "scenario_pass n heavy gate =
      Inr (\<lparr>rep_n = n, rep_eligible = length (dec_eligible d), rep_disqualified = length (disqualified d),
        rep_producedPlan = producedPlan d,
        rep_winner = (if producedPlan d then selectedCandidate (dec_plan d) else StrongId 0)\<rparr>, st')"
proof -
  let ?r = "bench_request (StrongId 1) gate" and ?dep = "Some AlwaysReadyDependency" and ?pol = "Some AllowAllPolicy"
  have val: "validate (demand ?r) = Inr ()"
    using assms(2) by (intro bench_request_valid) (simp add: word_le_nat_alt)
  obtain d st' where s: "schedule ?r ?dep ?pol (scenario_start n heavy) = (Inr d, st')"
    using finish_lengths unfolding schedule_eq [OF val] by meson
  show thesis
    by (rule that [OF s])
      (auto simp: scenario_pass_def pool_ingested [OF assms(1)] s Let_def plan_of_def revalidate_unmoved split: option.split)
qed

lemma scenario_report:
  fixes n :: nat and heavy :: bool and gate :: ByteCount
  assumes "n < 2 ^ 63" "gate \<le> 2 ^ 44"
  defines "ok \<equiv> \<lambda>c. meets_hard_constraints (bench_request (StrongId 1) gate) c (Some AlwaysReadyDependency) (Some AllowAllPolicy)"
  shows "\<exists>win. run_scenario n heavy gate = Inr \<lparr>rep_n = n, rep_eligible = length (filter ok (scenario_pool n heavy)),
     rep_disqualified = length (filter (\<lambda>c. \<not> ok c) (scenario_pool n heavy)),
     rep_producedPlan = (filter ok (scenario_pool n heavy) \<noteq> []), rep_winner = win\<rparr>"
proof -
  let ?r = "bench_request (StrongId 1) gate" and ?dep = "Some AlwaysReadyDependency" and ?pol = "Some AllowAllPolicy"
  let ?st = "scenario_start n heavy" and ?pool = "scenario_pool n heavy"
  have snap: "schedule_begin ?st = ?pool" by (simp add: schedule_begin_def o_def)
  let ?es = "std_sort entry_less (entries_of ?r ?dep ?pol ?st)" and ?rej = "rejected_entries ?r ?dep ?pol ?pool"
  have es: "length ?es = length (filter ok ?pool)" "?es = [] \<longleftrightarrow> filter ok ?pool = []"
    by (simp_all add: snap eligible_entries_def eligible_def evaluate_eligible ok_def)
  have rej: "length ?rej = length (filter (\<lambda>c. \<not> ok c) ?pool)"
    by (simp add: rejected_entries_def eligible_def evaluate_eligible ok_def)
  obtain d st' where s: "schedule ?r ?dep ?pol ?st = (Inr d, st')"
    and pass: "scenario_pass n heavy gate =
      Inr (\<lparr>rep_n = n, rep_eligible = length (dec_eligible d), rep_disqualified = length (disqualified d),
        rep_producedPlan = producedPlan d,
        rep_winner = (if producedPlan d then selectedCandidate (dec_plan d) else StrongId 0)\<rparr>, st')"
    by (rule scenario_pass_eq [OF assms(1,2)])
  have run: "schedule_finish ?r ?dep ?es ?rej ?st = (Inr d, st')" using schedule_Inr [OF s] unfolding snap .
  then have "length (dec_eligible d) = length ?es" "length (disqualified d) = length ?rej"
    using finish_lengths [of ?r ?dep ?es ?rej ?st] by auto
  then show ?thesis
    using es rej produced_iff [OF run] by (simp add: run_scenario_def pass)
qed

text \<open>Below the least VRAM the generator draws, the gate lets every healthy candidate pass.\<close>

lemma filter_matched:
  assumes "list_all2 (\<lambda>i c. ok c \<longleftrightarrow> \<not> sick i) is cs"
  shows "length (filter ok cs) = length (filter (\<lambda>i. \<not> sick i) is)"
    and "length (filter (\<lambda>c. \<not> ok c) cs) = length (filter sick is)"
  using assms by (induction rule: list_all2_induct) auto

lemma scenario_counts:
  fixes heavy :: bool
  assumes "n < 2 ^ 63" "gate \<le> GiB 16"
  defines "sick \<equiv> \<lambda>i. heavy \<and> i mod 7 = (0 :: nat)"
  shows "\<exists>win. run_scenario n heavy gate = Inr \<lparr>rep_n = n, rep_eligible = length (filter (\<lambda>i. \<not> sick i) [0..<n]),
     rep_disqualified = length (filter sick [0..<n]), rep_producedPlan = (length (filter (\<lambda>i. \<not> sick i) [0..<n]) \<noteq> 0),
     rep_winner = win\<rparr>"
proof -
  let ?ok = "\<lambda>c. meets_hard_constraints (bench_request (StrongId 1) gate) c (Some AlwaysReadyDependency) (Some AllowAllPolicy)"
  let ?pool = "bench_pool [0..<n] (kSeed + (if heavy then 977 else 0)) heavy"
  have "?ok c \<longleftrightarrow> \<not> sick i" if "drawn heavy i c" "i < n" for i c
    using drawn_fields(3) [OF that(1) _ assms(2)] that(2) assms(1) by (simp add: sick_def)
  then have "list_all2 (\<lambda>i c. ?ok c \<longleftrightarrow> \<not> sick i) [0..<n] ?pool"
    using pool_drawn [of heavy "[0..<n]" "kSeed + (if heavy then 977 else 0)"] by (simp add: list_all2_conv_all_nth)
  note len = filter_matched [OF this]
  have "gate \<le> 2 ^ 44" using assms(2) by (rule order_trans) (simp add: GiB_def)
  from scenario_report [OF assms(1) this, of heavy] show ?thesis
    unfolding length_0_conv [symmetric] len .
qed

text \<open>
  The dense scenario, at any scale below 2^63: every candidate is eligible, none is disqualified,
  and a plan is produced.
\<close>

theorem dense_scenario:
  assumes "0 < n" "n < 2 ^ 63"
  shows "\<exists>win. run_scenario n False (GiB 8) = Inr \<lparr>rep_n = n, rep_eligible = n, rep_disqualified = 0,
     rep_producedPlan = True, rep_winner = win\<rparr>"
proof -
  have "GiB 8 \<le> GiB 16" by (simp add: GiB_def)
  from scenario_counts [OF assms(2) this, of False] show ?thesis using assms(1) by simp
qed

text \<open>The heavy scenario: every seventh candidate, the first one included, is disqualified.\<close>

lemma every_seventh:
  "length (filter (\<lambda>i. i mod 7 = 0) [0..<n]) = (n + 6) div 7"
  "length (filter (\<lambda>i. i mod 7 \<noteq> 0) [0..<n]) = n - (n + 6) div 7"
proof -
  show s: "length (filter (\<lambda>i. i mod 7 = 0) [0..<n]) = (n + 6) div 7"
  proof (induction n)
    case 0
    then show ?case by simp
  next
    case (Suc n)
    have "Suc (n + 6) mod 7 = n mod 7" using mod_add_self2 [of n 7] by simp
    then have "Suc (n + 6) div 7 = (if n mod 7 = 0 then Suc ((n + 6) div 7) else (n + 6) div 7)"
      unfolding div_Suc by (rule arg_cong)
    then have "(Suc n + 6) div 7 = (if n mod 7 = 0 then Suc ((n + 6) div 7) else (n + 6) div 7)"
      unfolding add_Suc .
    with Suc show ?case by simp
  qed
  show "length (filter (\<lambda>i. i mod 7 \<noteq> 0) [0..<n]) = n - (n + 6) div 7"
    using sum_length_filter_compl [of "\<lambda>i. i mod 7 = 0" "[0..<n]"] s by simp
qed

theorem heavy_scenario:
  assumes "1 < n" "n < 2 ^ 63"
  shows "\<exists>win. run_scenario n True (GiB 8) = Inr \<lparr>rep_n = n, rep_eligible = n - (n + 6) div 7,
     rep_disqualified = (n + 6) div 7, rep_producedPlan = True, rep_winner = win\<rparr>"
proof -
  have "GiB 8 \<le> GiB 16" by (simp add: GiB_def)
  from scenario_counts [OF assms(2) this, of True] obtain win where "run_scenario n True (GiB 8) =
      Inr \<lparr>rep_n = n, rep_eligible = n - (n + 6) div 7, rep_disqualified = (n + 6) div 7,
        rep_producedPlan = (n - (n + 6) div 7 \<noteq> 0), rep_winner = win\<rparr>"
    unfolding simp_thms every_seventh by blast
  moreover have "(n + 6) div 7 < n" using assms(1) by (simp add: div_less_iff_less_mult)
  ultimately show ?thesis by simp
qed

theorem dense_scenario_witness:
  "\<exists>win. run_scenario 1000 False (GiB 8) = Inr \<lparr>rep_n = 1000, rep_eligible = 1000, rep_disqualified = 0,
     rep_producedPlan = True, rep_winner = win\<rparr>"
  using dense_scenario [of 1000] by simp

theorem heavy_scenario_witness:
  "\<exists>win. run_scenario 1000 True (GiB 8) = Inr \<lparr>rep_n = 1000, rep_eligible = 857, rep_disqualified = 143,
     rep_producedPlan = True, rep_winner = win\<rparr>"
  using heavy_scenario [of 1000] by simp

end
