(* ===== verification/Benchmark_Threads.thy ===== *)
theory Benchmark_Threads
  imports Benchmark
begin

text \<open>
  The throughput part of the benchmark (\<^verbatim>\<open>run_scenario\<close> of \<^verbatim>\<open>benchmarks/bench_candidate.cpp\<close>): several
  threads, each of which calls \<^verbatim>\<open>schedule\<close> a number of times with the same request on the same
  scheduler. A step runs one thread up to the end of its next critical section; filtering and
  sorting the snapshot happen in between, on the thread's own copy. The decisions are discarded,
  what remains are the plans.

  Shown here: every run ends, and at its end there is one new plan per call, each of them on the
  candidate a single call would have selected; no interleaving changes a placement. In the
  benchmark's own run the 800 calls confirm the winner of the scenario's report.
\<close>

text \<open>What a thread still has to do; an exception of a thread ends the process (\<open>Crashed\<close>).\<close>

datatype bench_thread = Looping nat | Snapped nat "Candidate list" | Joined | Crashed

record bench =
  bch_sched :: SchedulerState
  bch_threads :: "bench_thread list"

fun bench_thread_step :: "SchedulingRequest \<Rightarrow> bench_thread \<Rightarrow> SchedulerState \<Rightarrow> bench_thread \<times> SchedulerState" where
  "bench_thread_step r (Looping 0) st = (Joined, st)"
| "bench_thread_step r (Looping (Suc k)) st =
     (case validate (demand r) of
        Inl e \<Rightarrow> (Crashed, st)
      | Inr _ \<Rightarrow> (Snapped k (schedule_begin st), st))"
| "bench_thread_step r (Snapped k cs) st =
     (case schedule_finish r (Some AlwaysReadyDependency)
             (std_sort entry_less (eligible_entries r (Some AlwaysReadyDependency) (Some AllowAllPolicy) (rankOptions st) cs))
             (rejected_entries r (Some AlwaysReadyDependency) (Some AllowAllPolicy) cs) st of
        (Inl e, st1) \<Rightarrow> (Crashed, st1)
      | (Inr d, st1) \<Rightarrow> (Looping k, st1))"
| "bench_thread_step r Joined st = (Joined, st)"
| "bench_thread_step r Crashed st = (Crashed, st)"

inductive bench_step :: "SchedulingRequest \<Rightarrow> bench \<Rightarrow> bench \<Rightarrow> bool" for r where
  thread: "i < length (bch_threads B) \<Longrightarrow> bch_threads B ! i \<noteq> Joined \<Longrightarrow> Crashed \<notin> set (bch_threads B) \<Longrightarrow>
    bench_thread_step r (bch_threads B ! i) (bch_sched B) = (t, st) \<Longrightarrow>
    bench_step r B \<lparr>bch_sched = st, bch_threads = (bch_threads B)[i := t]\<rparr>"

inductive_cases bench_stepE: "bench_step r B B'"

text \<open>\<^verbatim>\<open>kThreads\<close> threads wait for the flag \<^verbatim>\<open>go\<close> and then loop \<^verbatim>\<open>kPerThread\<close> times.\<close>

definition bench_start :: "nat \<Rightarrow> nat \<Rightarrow> SchedulerState \<Rightarrow> bench" where
  "bench_start threads perThread st = \<lparr>bch_sched = st, bch_threads = replicate threads (Looping perThread)\<rparr>"

definition kThreads :: nat where "kThreads = 8"

definition kPerThread :: nat where "kPerThread = 100"

definition concurrent_request :: "nat \<Rightarrow> ByteCount \<Rightarrow> SchedulingRequest" where
  "concurrent_request n gateVram = bench_request (StrongId (word_of_nat n + 1)) gateVram"

definition concurrent_phase :: "SchedulerState \<Rightarrow> bench" where
  "concurrent_phase st = bench_start kThreads kPerThread st"

section \<open>Every run ends\<close>

fun steps_left :: "bench_thread \<Rightarrow> nat" where
  "steps_left (Looping k) = 2 * k + 1"
| "steps_left (Snapped k cs) = 2 * k + 2"
| "steps_left Joined = 0"
| "steps_left Crashed = 0"

abbreviation work_left :: "bench \<Rightarrow> nat" where
  "work_left B \<equiv> sum_list (map steps_left (bch_threads B))"

lemma sum_list_map_update:
  "i < length xs \<Longrightarrow> sum_list (map f (xs[i := x])) + f (xs ! i) = sum_list (map f xs) + (f x :: nat)"
proof (induction xs arbitrary: i)
  case (Cons y ys)
  then show ?case by (cases i) simp_all
qed simp

lemma thread_step_decreases:
  "bench_thread_step r t st = (t', st') \<Longrightarrow> t \<noteq> Joined \<Longrightarrow> t \<noteq> Crashed \<Longrightarrow> steps_left t' < steps_left t"
  by (cases "(r, t, st)" rule: bench_thread_step.cases) (auto split: sum.splits prod.splits)

lemma bench_step_decreases: "bench_step r B B' \<Longrightarrow> work_left B' < work_left B"
proof (erule bench_stepE)
  fix i t st
  assume i: "i < length (bch_threads B)" and t: "bch_threads B ! i \<noteq> Joined" "Crashed \<notin> set (bch_threads B)"
    "bench_thread_step r (bch_threads B ! i) (bch_sched B) = (t, st)"
    and B': "B' = \<lparr>bch_sched = st, bch_threads = (bch_threads B)[i := t]\<rparr>"
  have "bch_threads B ! i \<noteq> Crashed" using i t(2) nth_mem by metis
  from thread_step_decreases [OF t(3,1) this] sum_list_map_update [OF i, of steps_left t]
  show "work_left B' < work_left B" by (simp add: B')
qed

lemma bench_run_bounded: "(bench_step r ^^ n) B B' \<Longrightarrow> n + work_left B' \<le> work_left B"
proof (induction n arbitrary: B')
  case (Suc n)
  then obtain C where "(bench_step r ^^ n) B C" "bench_step r C B'" by auto
  with Suc.IH [of C] bench_step_decreases [of r C B'] show ?case by simp
qed simp

lemma bench_finishes: "\<exists>B'. (bench_step r)\<^sup>*\<^sup>* B B' \<and> (\<forall>C. \<not> bench_step r B' C)"
proof (induction "work_left B" arbitrary: B rule: less_induct)
  case less
  show ?case
  proof (cases "\<exists>C. bench_step r B C")
    case True
    then obtain C where C: "bench_step r B C" by blast
    from less [OF bench_step_decreases [OF C]] show ?thesis using C by (meson converse_rtranclp_into_rtranclp)
  qed blast
qed

section \<open>What the threads keep\<close>

fun calls_left :: "bench_thread \<Rightarrow> nat" where
  "calls_left (Looping k) = k"
| "calls_left (Snapped k cs) = k + 1"
| "calls_left Joined = 0"
| "calls_left Crashed = 0"

abbreviation calls_of :: "bench_thread list \<Rightarrow> nat" where
  "calls_of ts \<equiv> sum_list (map calls_left ts)"

definition planned :: "SchedulerState \<Rightarrow> CandidateId \<Rightarrow> PlacementPlanId \<Rightarrow> bool" where
  "planned st w pid \<longleftrightarrow> (\<exists>p. omap_find (plans st) pid = Some p \<and> pl_state p = PLAN_READY \<and> selectedCandidate p = w)"

text \<open>The identity of the plan of the \<open>j\<close>-th call that ends.\<close>

abbreviation nth_plan :: "SchedulerState \<Rightarrow> nat \<Rightarrow> PlacementPlanId" where
  "nth_plan st j \<equiv> StrongId (nextPlanId st + word_of_nat j)"

text \<open>Of \<open>N\<close> calls, those that have ended have made their plans, with the candidates unchanged.\<close>

definition on_track :: "SchedulerState \<Rightarrow> CandidateId \<Rightarrow> nat \<Rightarrow> bench \<Rightarrow> bool" where
  "on_track st w N B \<longleftrightarrow>
     (let S = bch_sched B; ts = bch_threads B; made = N - calls_of ts in
      calls_of ts \<le> N \<and> sched_ok S \<and> candidates S = candidates st \<and> rankOptions S = rankOptions st \<and>
      Crashed \<notin> set ts \<and> (\<forall>k cs. Snapped k cs \<in> set ts \<longrightarrow> cs = schedule_begin st) \<and>
      nextPlanId S = nextPlanId st + word_of_nat made \<and> (\<forall>j < made. planned S w (nth_plan st j)) \<and>
      (\<forall>j. made \<le> j \<and> j < N \<longrightarrow> omap_find (plans S) (nth_plan st j) = None))"

lemma nth_plan_inj:
  assumes "i < 2 ^ 64" "j < 2 ^ 64" "nth_plan st i = nth_plan st j"
  shows "i = j"
proof -
  have "(word_of_nat i :: 64 word) = word_of_nat j" using assms(3) by simp
  then have "unat (word_of_nat i :: 64 word) = unat (word_of_nat j :: 64 word)" by simp
  moreover have "i < 2 ^ LENGTH(64)" "j < 2 ^ LENGTH(64)" using assms(1,2) by simp_all
  ultimately show ?thesis by (simp only: unat_of_nat mod_less)
qed

text \<open>The end of a call: one more plan, on the winner of the snapshot.\<close>

lemma finish_tracks:
  assumes es: "std_sort entry_less (entries_of r (Some AlwaysReadyDependency) (Some AllowAllPolicy) st) = (rk, c) # rest"
    and "rc_candidateId rk = w" "N < 2 ^ 64"
    and B: "on_track st w N B" "i < length (bch_threads B)" "bch_threads B ! i = Snapped k cs"
    and step: "bench_thread_step r (Snapped k cs) (bch_sched B) = (t, S')"
  shows "on_track st w N \<lparr>bch_sched = S', bch_threads = (bch_threads B)[i := t]\<rparr>"
proof -
  let ?S = "bch_sched B" and ?ts = "bch_threads B" and ?dep = "Some AlwaysReadyDependency" and ?pol = "Some AllowAllPolicy"
  define made where "made = N - calls_of ?ts"
  note tr = B(1) [unfolded on_track_def Let_def, folded made_def]
  have "Snapped k cs \<in> set ?ts" using B(2,3) nth_mem by metis
  then have cs: "cs = schedule_begin st" using tr by blast
  have opts: "rankOptions ?S = rankOptions st" using tr by blast
  let ?rej = "rejected_entries r ?dep ?pol cs"
  let ?p = "fresh_plan r ?dep ?rej (rk, c) rest ?S"
  have fin: "schedule_finish r ?dep (std_sort entry_less (eligible_entries r ?dep ?pol (rankOptions ?S) cs)) ?rej ?S =
      schedule_finish r ?dep ((rk, c) # rest) ?rej ?S" unfolding opts cs es ..
  have t: "t = Looping k" and S': "S' = snd (schedule_finish r ?dep ((rk, c) # rest) ?rej ?S)"
    using step by (simp_all add: fin schedule_finish_Cons)
  have fields: "nextPlanId S' = nextPlanId ?S + 1" "candidates S' = candidates ?S" "rankOptions S' = rankOptions ?S"
    "plans S' = omap_emplace (StrongId (nextPlanId ?S)) ?p (plans ?S)"
    by (simp_all add: S' schedule_finish_Cons)
  have left: "calls_of (?ts[i := t]) + 1 = calls_of ?ts"
    using sum_list_map_update [OF B(2), of calls_left t] by (simp add: B(3) t)
  moreover have "calls_of ?ts \<le> N" using tr by blast
  ultimately have made': "N - calls_of (?ts[i := t]) = made + 1" "made < N" unfolding made_def by linarith+
  have key: "StrongId (nextPlanId ?S) = nth_plan st made" using tr by simp
  have free: "omap_find (plans ?S) (nth_plan st made) = None" using tr made'(2) by blast
  have ok: "omap_ok (plans ?S)" using tr sched_ok_plans by blast
  have find: "omap_find (plans S') pid = (if pid = nth_plan st made then Some ?p else omap_find (plans ?S) pid)" for pid
    using omap_find_emplace [OF ok] free by (simp add: fields(4) key)
  have other: "nth_plan st j \<noteq> nth_plan st made" if "j \<noteq> made" "j < N" for j
    using nth_plan_inj [of j made st] that made'(2) assms(3) by auto
  have "planned S' w (nth_plan st j)" if "j < made + 1" for j
  proof (cases "j = made")
    case True
    then show ?thesis unfolding planned_def find by (simp add: assms(2))
  next
    case False
    then have "planned ?S w (nth_plan st j)" "nth_plan st j \<noteq> nth_plan st made"
      using tr that other made'(2) by auto
    then show ?thesis unfolding planned_def find by simp
  qed
  moreover have "omap_find (plans S') (nth_plan st j) = None" if "made + 1 \<le> j" "j < N" for j
    unfolding find using that tr other [of j] by auto
  moreover have "sched_ok S'" using tr schedule_keeps [of ?S r ?dep "(rk, c) # rest" ?rej] by (simp add: S' keeps_def)
  moreover have "Crashed \<notin> set (?ts[i := t])" "\<forall>k cs. Snapped k cs \<in> set (?ts[i := t]) \<longrightarrow> cs = schedule_begin st"
    using tr set_update_subset_insert [of ?ts i t] by (auto simp: t)
  ultimately show ?thesis
    using tr left unfolding on_track_def Let_def bench.simps made'(1) by (simp add: fields(1-3))
qed

lemma step_tracks:
  assumes es: "std_sort entry_less (entries_of r (Some AlwaysReadyDependency) (Some AllowAllPolicy) st) = (rk, c) # rest"
    and "rc_candidateId rk = w" "N < 2 ^ 64" "validate (demand r) = Inr ()"
    and "on_track st w N B" "bench_step r B B'"
  shows "on_track st w N B'"
  using assms(6)
proof (rule bench_stepE)
  fix i t S'
  assume 1: "B' = \<lparr>bch_sched = S', bch_threads = (bch_threads B)[i := t]\<rparr>" "i < length (bch_threads B)"
    "bch_threads B ! i \<noteq> Joined" "Crashed \<notin> set (bch_threads B)"
    "bench_thread_step r (bch_threads B ! i) (bch_sched B) = (t, S')"
  let ?ts = "bch_threads B"
  note tr = assms(5) [unfolded on_track_def Let_def]
  have same: "on_track st w N \<lparr>bch_sched = bch_sched B, bch_threads = ?ts[i := t]\<rparr>"
    if "calls_left t = calls_left (?ts ! i)" "t \<noteq> Crashed" "\<forall>k cs. t = Snapped k cs \<longrightarrow> cs = schedule_begin st" for t
  proof -
    have "calls_of (?ts[i := t]) = calls_of ?ts"
      using sum_list_map_update [OF 1(2), of calls_left t] that(1) by simp
    moreover have "Crashed \<notin> set (?ts[i := t])" "\<forall>k cs. Snapped k cs \<in> set (?ts[i := t]) \<longrightarrow> cs = schedule_begin st"
      using tr that(2,3) set_update_subset_insert [of ?ts i t] by auto
    ultimately show ?thesis using tr by (simp add: on_track_def Let_def)
  qed
  show ?thesis
  proof (cases "?ts ! i")
    case (Looping k)
    have snap: "schedule_begin (bch_sched B) = schedule_begin st" using tr by (simp add: schedule_begin_def)
    show ?thesis
      using 1(5) Looping assms(4) snap same [of t] by (cases k) (auto simp: 1(1))
  next
    case (Snapped k cs)
    then show ?thesis using finish_tracks [OF es assms(2,3,5) 1(2)] 1(1,5) by metis
  next
    case Joined
    then show ?thesis using 1(3) by simp
  next
    case Crashed
    then show ?thesis using 1(2,4) nth_mem by metis
  qed
qed

lemma run_tracks:
  assumes es: "std_sort entry_less (entries_of r (Some AlwaysReadyDependency) (Some AllowAllPolicy) st) = (rk, c) # rest"
    and "rc_candidateId rk = w" "N < 2 ^ 64" "validate (demand r) = Inr ()"
    and "(bench_step r)\<^sup>*\<^sup>* B B'" "on_track st w N B"
  shows "on_track st w N B'"
  using assms(5,6) by (induction rule: rtranclp_induct) (blast intro: step_tracks [OF es assms(2-4)])+

lemma start_tracks:
  assumes "sched_ok st" "\<forall>j < threads * perThread. omap_find (plans st) (nth_plan st j) = None"
  shows "on_track st w (threads * perThread) (bench_start threads perThread st)"
  using assms by (simp add: on_track_def bench_start_def map_replicate_const sum_list_replicate)

text \<open>A run that cannot go on has joined all its threads, unless one crashed.\<close>

lemma stuck_joined:
  assumes "\<forall>C. \<not> bench_step r B C" "Crashed \<notin> set (bch_threads B)"
  shows "\<forall>t \<in> set (bch_threads B). t = Joined"
proof (rule ccontr)
  assume "\<not> ?thesis"
  then obtain i where i: "i < length (bch_threads B)" "bch_threads B ! i \<noteq> Joined" by (auto simp: in_set_conv_nth)
  obtain t S' where "bench_thread_step r (bch_threads B ! i) (bch_sched B) = (t, S')" by fastforce
  from bench_step.thread [OF i assms(2) this] assms(1) show False by blast
qed

lemma concurrent_agree:
  assumes "schedule r (Some AlwaysReadyDependency) (Some AllowAllPolicy) st = (Inr d, st')" "producedPlan d" "sched_ok st"
    and "threads * perThread < 2 ^ 64"
    and "\<forall>j < threads * perThread. omap_find (plans st) (StrongId (nextPlanId st + word_of_nat j)) = None"
    and "(bench_step r)\<^sup>*\<^sup>* (bench_start threads perThread st) B" "\<forall>C. \<not> bench_step r B C"
  shows "(\<forall>t \<in> set (bch_threads B). t = Joined) \<and>
     nextPlanId (bch_sched B) = nextPlanId st + word_of_nat (threads * perThread) \<and>
     (\<forall>j < threads * perThread. \<exists>p. omap_find (plans (bch_sched B)) (StrongId (nextPlanId st + word_of_nat j)) = Some p \<and>
        pl_state p = PLAN_READY \<and> selectedCandidate p = selectedCandidate (dec_plan d))"
proof -
  note fin = schedule_Inr [OF assms(1)]
  have "std_sort entry_less (entries_of r (Some AlwaysReadyDependency) (Some AllowAllPolicy) st) \<noteq> []"
    using produced_iff [OF fin] assms(2) by simp
  then obtain e rest where "std_sort entry_less (entries_of r (Some AlwaysReadyDependency) (Some AllowAllPolicy) st) = e # rest"
    by (cases "std_sort entry_less (entries_of r (Some AlwaysReadyDependency) (Some AllowAllPolicy) st)") simp_all
  moreover obtain rk c where "e = (rk, c)" by (rule prod.exhaust)
  ultimately have es: "std_sort entry_less (entries_of r (Some AlwaysReadyDependency) (Some AllowAllPolicy) st) = (rk, c) # rest"
    by simp
  have w: "rc_candidateId rk = selectedCandidate (dec_plan d)" using fin unfolding es schedule_finish_Cons by auto
  note tr = run_tracks [OF es w assms(4) schedule_valid [OF assms(1)] assms(6) start_tracks [OF assms(3,5)],
      unfolded on_track_def Let_def]
  have joined: "\<forall>t \<in> set (bch_threads B). t = Joined" using tr by (intro stuck_joined [OF assms(7)]) blast
  have "map calls_left (bch_threads B) = map (\<lambda>t. 0) (bch_threads B)"
    using joined by (intro map_cong) auto
  then have "calls_of (bch_threads B) = 0" by (simp only: map_replicate_const sum_list_replicate mult_0_right)
  with tr joined show ?thesis by (simp add: planned_def)
qed

text \<open>C11: concurrent calls of \<^verbatim>\<open>schedule\<close> with one request agree with a single call: any number of
  threads that repeat the call any number of times, interleaved in any way, end with every thread
  joined and exactly one new plan per call, under consecutive identities, each of them ready and
  on the candidate the single call selects.\<close>

theorem concurrent_schedules_agree:
  assumes "schedule r (Some AlwaysReadyDependency) (Some AllowAllPolicy) st = (Inr d, st')" "producedPlan d" "sched_ok st"
    and "threads * perThread < 2 ^ 64"
    and "\<forall>j < threads * perThread. omap_find (plans st) (StrongId (nextPlanId st + word_of_nat j)) = None"
    and "(bench_step r)\<^sup>*\<^sup>* (bench_start threads perThread st) B" "\<forall>C. \<not> bench_step r B C"
  shows "(\<forall>t \<in> set (bch_threads B). t = Joined) \<and>
     nextPlanId (bch_sched B) = nextPlanId st + word_of_nat (threads * perThread) \<and>
     (\<forall>j < threads * perThread. \<exists>p. omap_find (plans (bch_sched B)) (StrongId (nextPlanId st + word_of_nat j)) = Some p \<and>
        pl_state p = PLAN_READY \<and> selectedCandidate p = selectedCandidate (dec_plan d))"
  by (rule concurrent_agree [OF assms])

theorem concurrent_schedules_agree_witness:
  "\<exists>B. (bench_step req)\<^sup>*\<^sup>* (bench_start 8 100 demo_st) B \<and> (\<forall>t \<in> set (bch_threads B). t = Joined) \<and>
     nextPlanId (bch_sched B) = 801"
proof -
  let ?dep = "Some AlwaysReadyDependency" and ?pol = "Some AllowAllPolicy"
  have snap: "schedule_begin demo_st = [sampleA]" by (simp add: demo_st_eq schedule_begin_def)
  have meets: "meets_hard_constraints req sampleA ?dep ?pol"
    using demo_meets by (simp add: filter_defs)
  have "\<exists>d st'. schedule req ?dep ?pol demo_st = (Inr d, st') \<and> producedPlan d"
    by (subst schedule_in_order [OF demo_valid, where cs = "[sampleA]"])
      (simp_all add: snap meets sampleA_finite demo_finite(2) schedule_finish_Cons)
  then obtain d st' where d: "schedule req ?dep ?pol demo_st = (Inr d, st')" "producedPlan d" by blast
  obtain B where B: "(bench_step req)\<^sup>*\<^sup>* (bench_start 8 100 demo_st) B" "\<forall>C. \<not> bench_step req B C"
    using bench_finishes by blast
  from concurrent_schedules_agree [OF d demo_ok(1) _ _ B] B(1) show ?thesis
    by (auto simp: omap_find_def)
qed

section \<open>The run of the benchmark\<close>

text \<open>Filter and ranking read the demand of a request, not its identity.\<close>

lemma entries_by_demand:
  assumes "demand r = demand r'"
  shows "entries_of r dep pol st = entries_of r' dep pol st"
proof -
  have "compute_factor k r c = compute_factor k r' c" for k c
    unfolding compute_factor_def assms ..
  then have "rank_step w r c = rank_step w r' c" for w c by (intro ext) (simp add: rank_step_def)
  then have "Ranker_evaluate r c opts = Ranker_evaluate r' c opts" for c opts
    by (simp add: Ranker_evaluate_def rank_loop_def)
  moreover have "evaluate r c dep pol = evaluate r' c dep pol" for c
    by (simp add: evaluate_def assms)
  ultimately show ?thesis by (simp add: eligible_entries_def)
qed

lemma ingest_all_ok: "sched_ok st \<Longrightarrow> ingest_all cs st = Inr st' \<Longrightarrow> sched_ok st'"
proof (induction cs arbitrary: st)
  case (Cons c cs)
  then show ?case
    by (auto split: prod.splits sum.splits intro: keeps_ingest)
qed simp

lemma list_cases: "P \<longleftrightarrow> xs \<noteq> [] \<Longrightarrow> P \<Longrightarrow> \<exists>a b rest. xs = (a, b) # rest"
  by (cases xs) auto

text \<open>After the scenario a call with the concurrent request repeats the scenario's decision.\<close>

lemma scenario_decides_again:
  assumes "n < 2 ^ 63" "gate \<le> 2 ^ 44" "scenario_pass n heavy gate = Inr (out, st)" "rep_producedPlan out"
  obtains d st' where
    "schedule (concurrent_request n gate) (Some AlwaysReadyDependency) (Some AllowAllPolicy) st = (Inr d, st')"
    and "producedPlan d" "selectedCandidate (dec_plan d) = rep_winner out" "sched_ok st" "nextPlanId st = 2"
    and "\<forall>j < 800. omap_find (plans st) (nth_plan st j) = None"
proof -
  let ?r = "bench_request (StrongId 1) gate" and ?q = "concurrent_request n gate"
    and ?dep = "Some AlwaysReadyDependency" and ?pol = "Some AllowAllPolicy"
  let ?s0 = "scenario_start n heavy"
  obtain d where d: "schedule ?r ?dep ?pol ?s0 = (Inr d, st)" "producedPlan d" "rep_winner out = selectedCandidate (dec_plan d)"
    using assms(3,4) by (rule_tac scenario_pass_eq [OF assms(1,2), of heavy]) auto
  have ok0: "sched_ok ?s0" using ingest_all_ok [OF sched_ok_new pool_ingested [OF assms(1)]] .
  note run = schedule_Inr [OF d(1)]
  obtain rk c rest where es: "std_sort entry_less (entries_of ?r ?dep ?pol ?s0) = (rk, c) # rest"
    using produced_iff [OF run] d(2) list_cases by blast
  let ?rej = "rejected_entries ?r ?dep ?pol (schedule_begin ?s0)"
  have st: "st = snd (schedule_finish ?r ?dep ((rk, c) # rest) ?rej ?s0)" and w: "rep_winner out = rc_candidateId rk"
    using run d(3) unfolding es schedule_finish_Cons by auto
  have same: "candidates st = candidates ?s0" "rankOptions st = rankOptions ?s0" "nextPlanId st = 2"
    "plans st = [(StrongId 1, fresh_plan ?r ?dep ?rej (rk, c) rest ?s0)]"
    unfolding st schedule_finish_Cons by (simp_all add: fresh_state omap_emplace_def)
  have ok: "sched_ok st" using schedule_keeps [OF ok0, of ?r ?dep "(rk, c) # rest" ?rej] by (simp add: st keeps_def)
  have dem: "demand ?q = demand ?r" by (simp add: concurrent_request_def bench_request_def)
  have val: "validate (demand ?q) = Inr ()" unfolding dem using schedule_valid [OF d(1)] .
  have "entries_of ?q ?dep ?pol st = entries_of ?r ?dep ?pol ?s0"
    using entries_by_demand [OF dem, of ?dep ?pol st] by (simp only: same schedule_begin_def)
  then have again: "std_sort entry_less (entries_of ?q ?dep ?pol st) = (rk, c) # rest" by (simp only: es)
  have free: "omap_find (plans st) (nth_plan st j) = None" if "j < 800" for j
  proof -
    have "unat (2 + word_of_nat j :: 64 word) = 2 + j" using that by (simp add: unat_word_ariths unat_of_nat)
    then have "(2 + word_of_nat j :: 64 word) \<noteq> 1" by (metis unat_1 add_2_eq_Suc nat.inject Zero_not_Suc One_nat_def)
    then show ?thesis by (simp add: same omap_find_def)
  qed
  let ?rej' = "rejected_entries ?q ?dep ?pol (schedule_begin st)"
  obtain d' st' where d': "schedule_finish ?q ?dep ((rk, c) # rest) ?rej' st = (Inr d', st')" "producedPlan d'"
    "selectedCandidate (dec_plan d') = rc_candidateId rk"
    by (simp add: schedule_finish_Cons)
  then have "schedule ?q ?dep ?pol st = (Inr d', st')" unfolding schedule_eq [OF val] again by blast
  then show thesis using that d'(2,3) w ok same(3) free by simp
qed

text \<open>The concurrent phase of a benchmark scenario that produced a plan: whatever the
  interleaving of its 8 threads, it ends with all of them joined and 800 new plans, numbered from
  2 on, each ready and on the very candidate that the report of the scenario names as winner.\<close>

theorem concurrent_phase_confirms_winner:
  assumes "n < 2 ^ 63" "gate \<le> 2 ^ 44" "scenario_pass n heavy gate = Inr (out, st)" "rep_producedPlan out"
    and "(bench_step (concurrent_request n gate))\<^sup>*\<^sup>* (concurrent_phase st) B"
    and "\<forall>C. \<not> bench_step (concurrent_request n gate) B C"
  shows "(\<forall>t \<in> set (bch_threads B). t = Joined) \<and> nextPlanId (bch_sched B) = 802 \<and>
     (\<forall>j < 800. \<exists>p. omap_find (plans (bch_sched B)) (StrongId (2 + word_of_nat j)) = Some p \<and>
        pl_state p = PLAN_READY \<and> selectedCandidate p = rep_winner out)"
proof -
  let ?q = "concurrent_request n gate" and ?dep = "Some AlwaysReadyDependency" and ?pol = "Some AllowAllPolicy"
  obtain d st' where d: "schedule ?q ?dep ?pol st = (Inr d, st')" "producedPlan d"
    "selectedCandidate (dec_plan d) = rep_winner out" "sched_ok st" "nextPlanId st = 2"
    "\<forall>j < 800. omap_find (plans st) (nth_plan st j) = None"
    by (rule scenario_decides_again [OF assms(1-4)])
  have "(bench_step ?q)\<^sup>*\<^sup>* (bench_start 8 100 st) B"
    using assms(5) by (simp add: concurrent_phase_def kThreads_def kPerThread_def)
  from concurrent_agree [OF d(1,2,4) _ _ this assms(6)] show ?thesis by (simp add: d(3,5) d(6) [unfolded d(5)])
qed

theorem concurrent_phase_confirms_winner_witness:
  "\<exists>out st B. scenario_pass 1000 True (GiB 8) = Inr (out, st) \<and>
     (bench_step (concurrent_request 1000 (GiB 8)))\<^sup>*\<^sup>* (concurrent_phase st) B \<and>
     (\<forall>t \<in> set (bch_threads B). t = Joined) \<and> nextPlanId (bch_sched B) = 802"
proof -
  have gate: "GiB 8 \<le> 2 ^ 44" by (simp add: GiB_def)
  obtain win where "run_scenario 1000 True (GiB 8) = Inr \<lparr>rep_n = 1000, rep_eligible = 857, rep_disqualified = 143,
      rep_producedPlan = True, rep_winner = win\<rparr>"
    using heavy_scenario [of 1000] by auto
  then obtain out st where pass: "scenario_pass 1000 True (GiB 8) = Inr (out, st)" "rep_producedPlan out"
    by (auto simp: run_scenario_def split: sum.splits)
  obtain B where B: "(bench_step (concurrent_request 1000 (GiB 8)))\<^sup>*\<^sup>* (concurrent_phase st) B"
    "\<forall>C. \<not> bench_step (concurrent_request 1000 (GiB 8)) B C"
    using bench_finishes by blast
  from concurrent_phase_confirms_winner [OF _ gate pass B] pass(1) B(1) show ?thesis by auto
qed

end
