(* ===== verification/Decimal.thy ===== *)
theory Decimal
  imports Examples Complex_Main
begin

text \<open>
  The accuracy of the doubles \<^verbatim>\<open>explain\<close> prints: the text of a finite double, read as the decimal
  number it denotes (\<open>read_number\<close>), differs from the double by at most five millionths of it,
  half a unit in the sixth significant digit. \<open>show_double\<close> cuts trailing zeros and chooses
  between the plain and the exponent form; neither changes the number denoted. The inspection
  tool's fixed-point texts (\<open>show_fixed\<close>) are within half a unit of their last digit.
\<close>

section \<open>Digits and their value\<close>

definition digits_value :: "nat list \<Rightarrow> nat" where
  "digits_value ds = foldl (\<lambda>a d. 10 * a + d) 0 ds"

lemma digits_value_append: "digits_value (xs @ ys) = digits_value xs * 10 ^ length ys + digits_value ys"
proof -
  have "foldl (\<lambda>a d. 10 * a + d) n ys = n * 10 ^ length ys + foldl (\<lambda>a d. 10 * a + d) 0 ys" for n :: nat
  proof (induction ys rule: rev_induct)
    case Nil
    then show ?case by simp
  next
    case (snoc y ys)
    then show ?case by simp
  qed
  then show ?thesis unfolding digits_value_def foldl_append .
qed

lemma digits_value_of [simp]: "digits_value (digits_of n) = n"
  by (simp add: digits_value_def digits_of_value)

lemma digits_value_zeros [simp]: "digits_value (replicate k 0) = 0"
  by (induction k) (simp_all add: digits_value_def)

lemma digits_of_length: "n < 10 ^ length (digits_of n)" "0 < n \<Longrightarrow> 10 ^ (length (digits_of n) - 1) \<le> n"
proof (induction n rule: digits_of.induct)
  case (1 n)
  show "n < 10 ^ length (digits_of n)"
  proof (cases "n < 10")
    case False
    then have "n div 10 < 10 ^ length (digits_of (n div 10))" using 1 by blast
    then have "n < 10 * 10 ^ length (digits_of (n div 10))" by (simp add: div_less_iff_less_mult mult.commute)
    then show ?thesis using False by (subst digits_of.simps) simp
  qed (simp add: digits_of.simps [of n])
  show "10 ^ (length (digits_of n) - 1) \<le> n" if "0 < n"
  proof (cases "n < 10")
    case False
    then have "10 ^ (length (digits_of (n div 10)) - 1) \<le> n div 10" using 1(2) by simp
    then have "10 * 10 ^ (length (digits_of (n div 10)) - 1) \<le> n" by (simp add: less_eq_div_iff_mult_less_eq mult.commute)
    moreover have "length (digits_of (n div 10)) \<noteq> 0" by simp
    ultimately show ?thesis using False
      by (subst digits_of.simps) (simp add: power_eq_if del: digits_of_nonempty)
  qed (use that in \<open>simp add: digits_of.simps [of n]\<close>)
qed

lemma length_digits_unique:
  assumes "10 ^ k \<le> n" "n < 10 ^ Suc k"
  shows "length (digits_of n) = Suc k"
proof -
  have "0 < n" using assms(1) less_le_trans [of 0 "10 ^ k" n] by simp
  note l = digits_of_length(1) [of n] digits_of_length(2) [OF this]
  have "(10 :: nat) ^ k < 10 ^ length (digits_of n)" using assms(1) l(1) by linarith
  then have "k < length (digits_of n)" by (rule power_less_imp_less_exp [rotated]) simp
  moreover have "(10 :: nat) ^ (length (digits_of n) - 1) < 10 ^ Suc k" using assms(2) l(2) by linarith
  then have "length (digits_of n) - 1 < Suc k" by (rule power_less_imp_less_exp [rotated]) simp
  ultimately show ?thesis by linarith
qed

section \<open>Reading a decimal number\<close>

definition char_digit :: "char \<Rightarrow> nat" where
  "char_digit c = of_char c - 48"

definition read_digits :: "string \<Rightarrow> nat" where
  "read_digits s = digits_value (map char_digit s)"

definition read_exponent :: "string \<Rightarrow> int" where
  "read_exponent s =
     (case s of e # sg # ds \<Rightarrow> (if sg = CHR ''-'' then - int (read_digits ds) else int (read_digits ds))
      | _ \<Rightarrow> 0)"

definition read_unsigned :: "string \<Rightarrow> real" where
  "read_unsigned s =
     (let m = takeWhile (\<lambda>c. c \<noteq> CHR ''e'') s; e = dropWhile (\<lambda>c. c \<noteq> CHR ''e'') s;
          w = takeWhile (\<lambda>c. c \<noteq> CHR ''.'') m; f = drop 1 (dropWhile (\<lambda>c. c \<noteq> CHR ''.'') m) in
      real (read_digits (w @ f)) / 10 ^ length f * 10 powi (read_exponent e))"

definition read_number :: "string \<Rightarrow> real" where
  "read_number s = (if take 1 s = ''-'' then - read_unsigned (drop 1 s) else read_unsigned s)"

lemma digit_char_props:
  assumes "d < 10"
  shows "char_digit (digit_char d) = d" "digit_char d \<noteq> CHR ''.''" "digit_char d \<noteq> CHR ''e''"
    "digit_char d \<noteq> CHR ''-''"
proof -
  have code: "of_char (digit_char d) = (48 + d :: nat)" using assms by (simp add: digit_char_def)
  then show "char_digit (digit_char d) = d" by (simp add: char_digit_def)
  have "digit_char d \<noteq> c" if "of_char c \<noteq> (48 + d :: nat)" for c using code that by auto
  then show "digit_char d \<noteq> CHR ''.''" "digit_char d \<noteq> CHR ''e''" "digit_char d \<noteq> CHR ''-''"
    using assms by simp_all
qed

abbreviation digits_only :: "nat list \<Rightarrow> bool" where
  "digits_only ds \<equiv> \<forall>d \<in> set ds. d < 10"

lemma read_digit_chars: "digits_only ds \<Longrightarrow> read_digits (map digit_char ds) = digits_value ds"
proof -
  assume "digits_only ds"
  then have "map (char_digit o digit_char) ds = ds" by (intro map_idI) (simp add: digit_char_props)
  then show ?thesis by (simp add: read_digits_def)
qed

lemma no_marks:
  assumes "digits_only ds"
  shows "takeWhile (\<lambda>c. c \<noteq> CHR ''.'') (map digit_char ds @ t) = map digit_char ds @ takeWhile (\<lambda>c. c \<noteq> CHR ''.'') t"
    "dropWhile (\<lambda>c. c \<noteq> CHR ''.'') (map digit_char ds @ t) = dropWhile (\<lambda>c. c \<noteq> CHR ''.'') t"
    "takeWhile (\<lambda>c. c \<noteq> CHR ''e'') (map digit_char ds @ t) = map digit_char ds @ takeWhile (\<lambda>c. c \<noteq> CHR ''e'') t"
    "dropWhile (\<lambda>c. c \<noteq> CHR ''e'') (map digit_char ds @ t) = dropWhile (\<lambda>c. c \<noteq> CHR ''e'') t"
  using assms by (auto simp: digit_char_props takeWhile_append dropWhile_append)

lemma digits_only_strip: "digits_only ds \<Longrightarrow> digits_only (strip_zeros ds)"
  unfolding strip_zeros_def by (auto dest: set_dropWhileD)

text \<open>Trailing zeros do not change the value of a fraction.\<close>

lemma strip_zeros_value:
  "real (digits_value (w @ strip_zeros f)) / 10 ^ length (strip_zeros f) = real (digits_value (w @ f)) / 10 ^ length f"
proof (induction f rule: rev_induct)
  case Nil
  then show ?case by (simp add: strip_zeros_def)
next
  case (snoc d f)
  show ?case
  proof (cases "d = 0")
    case True
    have "digits_value (w @ f @ [0]) = digits_value (w @ f) * 10"
      using digits_value_append [of "w @ f" "[0]"] by (simp add: digits_value_def)
    with True snoc show ?thesis by (simp add: strip_zeros_def)
  qed (simp add: strip_zeros_def)
qed

text \<open>What a mantissa denotes, with whatever exponent follows it.\<close>

abbreviation mantissa :: "nat list \<Rightarrow> nat list \<Rightarrow> string" where
  "mantissa w f \<equiv> map digit_char w @ (if f = [] then [] else ''.'' @ map digit_char f)"

lemma read_mantissa:
  assumes "digits_only w" "digits_only f" "t = [] \<or> hd t = CHR ''e''"
  shows "read_unsigned (mantissa w f @ t) = real (digits_value (w @ f)) / 10 ^ length f * 10 powi (read_exponent t)"
proof -
  have t: "takeWhile (\<lambda>c. c \<noteq> CHR ''e'') t = []" "dropWhile (\<lambda>c. c \<noteq> CHR ''e'') t = t"
    using assms(3) by (cases t; auto)+
  have split: "takeWhile (\<lambda>c. c \<noteq> CHR ''e'') (mantissa w f @ t) = mantissa w f"
    "dropWhile (\<lambda>c. c \<noteq> CHR ''e'') (mantissa w f @ t) = t"
    using assms(1,2) t by (auto simp: no_marks no_marks [where t = "[]", simplified])
  have parts: "takeWhile (\<lambda>c. c \<noteq> CHR ''.'') (mantissa w f) = map digit_char w"
    "drop 1 (dropWhile (\<lambda>c. c \<noteq> CHR ''.'') (mantissa w f)) = map digit_char f"
    using assms(1) by (auto simp: no_marks no_marks [where t = "[]", simplified])
  have "read_digits (map digit_char w @ map digit_char f) = digits_value (w @ f)"
    using read_digit_chars [of "w @ f"] assms(1,2) by (simp add: ball_Un)
  then show ?thesis unfolding read_unsigned_def Let_def split parts by (simp only: length_map)
qed

lemma read_with_fraction:
  assumes "digits_only w" "digits_only f" "t = [] \<or> hd t = CHR ''e''"
  shows "read_unsigned (with_fraction w f @ t) = real (digits_value (w @ f)) / 10 ^ length f * 10 powi (read_exponent t)"
  using read_mantissa [OF assms(1) digits_only_strip [OF assms(2)] assms(3)]
  by (simp only: with_fraction_def strip_zeros_value)

lemma read_show_exponent: "read_exponent (show_exponent x) = x" "hd (show_exponent x) = CHR ''e''"
proof -
  have d: "digits_only (digits_of n)" "digits_only (0 # digits_of n)" for n using digits_of_bound by auto
  have read: "read_digits (map digit_char (digits_of n)) = n" for n
    unfolding read_digit_chars [OF d(1)] by simp
  have "read_digits (map digit_char (0 # digits_of n)) = n" for n
    unfolding read_digit_chars [OF d(2)] using digits_value_append [of "[0]" "digits_of n"]
    by (simp add: digits_value_def [of "[0]"])
  moreover have "digit_char 0 = CHR ''0''" by code_simp
  ultimately show "read_exponent (show_exponent x) = x" "hd (show_exponent x) = CHR ''e''"
    using read by (simp_all add: show_exponent_def read_exponent_def Let_def)
qed

section \<open>Six digits\<close>

lemma rne_error: "0 < b \<Longrightarrow> \<bar>real (rne a b) - real a / real b\<bar> \<le> 1 / 2"
proof -
  assume b: "0 < b"
  have a: "real a = real (a div b) * real b + real (a mod b)"
    by (metis div_mult_mod_eq of_nat_add of_nat_mult)
  have m: "real (a mod b) < real b" using b by simp
  have "2 * real (a mod b) \<le> real b" if "rne a b = a div b"
    using that by (auto simp: rne_def split: if_splits)
  moreover have "real b \<le> 2 * real (a mod b)" if "rne a b \<noteq> a div b"
    using that by (auto simp: rne_def split: if_splits)
  moreover have "real (rne a b) = real (a div b) \<or> real (rne a b) = real (a div b) + 1"
    by (simp add: rne_def)
  ultimately show ?thesis using b m
    by (cases "rne a b = a div b") (auto simp: a field_simps abs_le_iff)
qed

lemma decimal_exponent:
  assumes "0 < p" "0 < q"
  shows "10 powi decimal_exponent p q \<le> real p / real q \<and> real p / real q < 10 powi (decimal_exponent p q + 1)"
proof (cases "q \<le> p")
  case True
  define n where "n = p div q"
  have "0 < n" using True assms(2) by (simp add: n_def div_greater_zero_iff)
  note l = digits_of_length(1) [of n] digits_of_length(2) [OF this]
  obtain k where k: "length (digits_of n) = Suc k" by (cases "digits_of n") auto
  have x: "decimal_exponent p q = int k" using True by (simp add: decimal_exponent_def n_def [symmetric] k)
  have "10 ^ k \<le> n" "n < 10 ^ Suc k" using l unfolding k by simp_all
  then have "10 ^ k * q \<le> p" "p < 10 ^ Suc k * q"
    using assms(2) unfolding n_def by (simp_all add: less_eq_div_iff_mult_less_eq div_less_iff_less_mult del: power_Suc)
  then have "real (10 ^ k * q) \<le> real p" "real p < real (10 ^ Suc k * q)" by (simp_all only: of_nat_le_iff of_nat_less_iff)
  moreover have "(10 :: real) powi (int k + 1) = 10 ^ Suc k" using power_int_of_nat [of "10 :: real" "Suc k"] by (simp add: add.commute)
  ultimately show ?thesis unfolding x using assms(2)
    by (simp add: pos_le_divide_eq pos_divide_less_eq del: power_Suc)
next
  case False
  define c where "c = (q + p - 1) div p"
  have "c * p \<le> q + p - 1" "q + p - 1 < (c + 1) * p"
    using assms(1) by (simp_all add: c_def) (metis dividend_less_div_times add.commute)
  then have c: "q \<le> c * p" "(c - 1) * p < q" using assms by (auto simp: diff_mult_distrib)
  have m: "0 < c - 1" using c(1) False by (cases "c \<le> 1") (auto simp: le_Suc_eq)
  note l = digits_of_length(1) [of "c - 1"] digits_of_length(2) [OF m]
  obtain k where k: "length (digits_of (c - 1)) = Suc k" by (cases "digits_of (c - 1)") auto
  have x: "decimal_exponent p q = - int (Suc k)" unfolding decimal_exponent_def c_def [symmetric] k using False by simp
  have "c \<le> 10 ^ Suc k" "10 ^ k \<le> c - 1" using l unfolding k by simp_all
  then have "c * p \<le> 10 ^ Suc k * p" "10 ^ k * p \<le> (c - 1) * p" by (simp_all only: mult_le_mono1)
  then have "q \<le> 10 ^ Suc k * p" "10 ^ k * p < q" using c by linarith+
  then have "real q \<le> real (10 ^ Suc k * p)" "real (10 ^ k * p) < real q" by (simp_all only: of_nat_le_iff of_nat_less_iff)
  then have "1 / 10 ^ Suc k \<le> real p / real q" "real p / real q < 1 / 10 ^ k"
    using assms by (simp_all add: field_simps del: power_Suc)
  moreover have "(10 :: real) powi (- int (Suc k)) = 1 / 10 ^ Suc k" "(10 :: real) powi (- int (Suc k) + 1) = 1 / 10 ^ k"
    using power_int_minus [of "10 :: real" "int (Suc k)"] power_int_minus [of "10 :: real" "int k"]
    by (simp_all add: power_int_of_nat inverse_eq_divide del: of_nat_Suc power_Suc) simp
  ultimately show ?thesis unfolding x by (simp only: simp_thms)
qed

lemma shift_ratio:
  assumes "0 < q" "n = (if x \<le> 5 then rne (p * 10 ^ nat (5 - x)) q else rne p (q * 10 ^ nat (x - 5)))"
  shows "\<bar>real n - real p / real q * 10 powi (5 - x)\<bar> \<le> 1 / 2"
proof (cases "x \<le> 5")
  case True
  then have "real p / real q * 10 powi (5 - x) = real (p * 10 ^ nat (5 - x)) / real q"
    by (simp add: power_int_def)
  moreover have "n = rne (p * 10 ^ nat (5 - x)) q" using True assms(2) by simp
  ultimately show ?thesis using rne_error [OF assms(1)] by metis
next
  case False
  then have "real p / real q * 10 powi (5 - x) = real p / real (q * 10 ^ nat (x - 5))"
    by (simp add: power_int_def inverse_eq_divide power_one_over)
  moreover have "n = rne p (q * 10 ^ nat (x - 5))" using False assms(2) by simp
  moreover have "0 < q * 10 ^ nat (x - 5)" using assms(1) by simp
  ultimately show ?thesis using rne_error by metis
qed

text \<open>The decade of a positive number is unique.\<close>

lemma decade_unique:
  fixes v :: real and e y :: int
  assumes "10 powi e \<le> v" "v < 10 powi (e + 1)" "10 powi y \<le> v" "v < 10 powi (y + 1)"
  shows "e = y"
proof -
  have less: "a < b + 1" if "(10 :: real) powi a < 10 powi (b + 1)" for a b :: int
    using power_int_increasing [of "b + 1" a "10 :: real"] that by (cases "a < b + 1") auto
  from assms have "(10 :: real) powi e < 10 powi (y + 1)" "(10 :: real) powi y < 10 powi (e + 1)" by linarith+
  from less [OF this(1)] less [OF this(2)] show ?thesis by linarith
qed

text \<open>Six digits, and their distance from the ratio: half a unit of the sixth.\<close>

lemma six_digits:
  assumes "0 < p" "0 < q" "six_digits p q = (sig, x)"
  shows "10 ^ 5 \<le> sig" "sig < 10 ^ 6"
    and "10 powi e \<le> real p / real q \<Longrightarrow> real p / real q < 10 powi (e + 1) \<Longrightarrow>
       \<bar>real sig * 10 powi (x - 5) - real p / real q\<bar> \<le> 1 / 2 * 10 powi (e - 5)"
proof -
  define v where "v = real p / real q"
  define y where "y = decimal_exponent p q"
  define n where "n = (if y \<le> 5 then rne (p * 10 ^ nat (5 - y)) q else rne p (q * 10 ^ nat (y - 5)))"
  have v: "10 powi y \<le> v" "v < 10 powi (y + 1)" using decimal_exponent [OF assms(1,2)] by (simp_all add: y_def v_def)
  have err: "\<bar>real n - v * 10 powi (5 - y)\<bar> \<le> 1 / 2"
    unfolding v_def by (rule shift_ratio [OF assms(2) n_def])
  have scale: "(10 :: real) powi (5 - y) = 10 ^ 5 / 10 powi y" "(0 :: real) < 10 powi y"
    "(10 :: real) powi (y - 5) = 10 powi y / 10 ^ 5" "(10 :: real) powi (y + 1) = 10 powi y * 10"
    using power_int_diff [of "10 :: real"] power_int_add [of "10 :: real"] by simp_all
  have lo: "10 ^ 5 \<le> v * 10 powi (5 - y)" using v(1) scale(2) unfolding scale(1) by (simp add: field_simps)
  have hi: "v * 10 powi (5 - y) < 10 ^ 6" using v(2) scale(2) unfolding scale(1,4) by (simp add: field_simps)
  have n: "10 ^ 5 \<le> n" "n \<le> 10 ^ 6"
  proof -
    have "real n < 10 ^ 6 + 1" "10 ^ 5 - 1 < real n" using err lo hi unfolding abs_le_iff by linarith+
    then have "real n < real (10 ^ 6 + 1)" "real (10 ^ 5) < real (n + 1)" by simp_all
    then show "10 ^ 5 \<le> n" "n \<le> 10 ^ 6" unfolding of_nat_less_iff by linarith+
  qed
  have near: "\<bar>real n * 10 powi (y - 5) - v\<bar> \<le> 1 / 2 * 10 powi (y - 5)"
  proof -
    have "\<bar>real n * 10 powi (y - 5) - v\<bar> = \<bar>real n - v * 10 powi (5 - y)\<bar> * 10 powi (y - 5)"
      using scale(2) unfolding scale(1,3) by (simp add: abs_mult [symmetric] field_simps)
    also have "\<dots> \<le> 1 / 2 * 10 powi (y - 5)" using err scale(2) unfolding scale(3) by (intro mult_right_mono) simp_all
    finally show ?thesis .
  qed
  have "(if n = 10 ^ 6 then (10 ^ 5, y + 1) else (n, y)) = (sig, x)"
    using assms(3) unfolding six_digits_def Let_def y_def [symmetric] n_def [symmetric] .
  moreover have "real (10 ^ 6) * 10 powi (y - 5) = real (10 ^ 5) * 10 powi (y + 1 - 5)"
    using power_int_add [of "10 :: real" "y - 5" 1] by (simp add: algebra_simps)
  ultimately have "10 ^ 5 \<le> sig \<and> sig < 10 ^ 6 \<and> real sig * 10 powi (x - 5) = real n * 10 powi (y - 5)"
    using n by (cases "n = 10 ^ 6") auto
  then have sig: "10 ^ 5 \<le> sig" "sig < 10 ^ 6" and same: "real sig * 10 powi (x - 5) = real n * 10 powi (y - 5)"
    by blast+
  show "10 ^ 5 \<le> sig" "sig < 10 ^ 6" by (rule sig)+
  have bound: "\<bar>real sig * 10 powi (x - 5) - real p / real q\<bar> \<le> 1 / 2 * 10 powi (y - 5)"
    using near unfolding same v_def .
  assume "10 powi e \<le> real p / real q" "real p / real q < 10 powi (e + 1)"
  then have "e = y" using v by (intro decade_unique) (simp_all add: v_def)
  with bound show "\<bar>real sig * 10 powi (x - 5) - real p / real q\<bar> \<le> 1 / 2 * 10 powi (e - 5)" by simp
qed

section \<open>The text of a double\<close>

lemma read_show_ratio:
  assumes "0 < p" "0 < q" "six_digits p q = (sig, x)"
  shows "read_unsigned (show_ratio p q) = real sig * 10 powi (x - 5)" "take 1 (show_ratio p q) \<noteq> ''-''"
proof -
  define ds where "ds = digits_of sig"
  have len: "length ds = 6"
    using length_digits_unique [of 5 sig] six_digits(1,2) [OF assms] by (simp add: ds_def)
  then have ne: "ds \<noteq> []" by auto
  have dig: "digits_only ds" "digits_only (take n ds)" "digits_only (drop n ds)" for n
    using digits_of_bound [of _ sig] by (auto simp: ds_def dest: in_set_takeD in_set_dropD)
  have val: "digits_value ds = sig" by (simp add: ds_def)
  have first: "take 1 (with_fraction w f @ t) \<noteq> ''-''" if "digits_only w" "w \<noteq> []" for w f t
    using that by (cases w) (auto simp: with_fraction_def digit_char_props)
  have show_eq: "show_ratio p q =
     (if x < - 4 \<or> 6 \<le> x then with_fraction (take 1 ds) (drop 1 ds) @ show_exponent x
      else if 0 \<le> x then with_fraction (take (nat x + 1) ds) (drop (nat x + 1) ds) @ []
      else with_fraction [0] (replicate (nat (- x) - 1) 0 @ ds) @ [])"
    by (simp add: show_ratio_def assms(3) ds_def Let_def)
  have scale: "(10 :: real) powi (x - 5) = 10 powi x / 10 ^ 5" using power_int_diff [of "10 :: real" x 5] by simp
  have neg: "(10 :: real) powi (x - 5) = 1 / 10 ^ nat (5 - x)" if "x \<le> 5"
    using that by (simp add: power_int_def inverse_eq_divide power_one_over)
  consider (long) "x < - 4 \<or> 6 \<le> x" | (whole) "0 \<le> x" "x \<le> 5" | (small) "- 4 \<le> x" "x < 0" by linarith
  then have "read_unsigned (show_ratio p q) = real sig * 10 powi (x - 5) \<and> take 1 (show_ratio p q) \<noteq> ''-''"
  proof cases
    case long
    then show ?thesis unfolding show_eq
      using read_with_fraction [OF dig(2,3), of "show_exponent x" 1 1] first [OF dig(2), of 1]
      by (simp add: read_show_exponent val len scale ne)
  next
    case whole
    then show ?thesis unfolding show_eq
      using read_with_fraction [OF dig(2,3), of "[]" "nat x + 1" "nat x + 1"] first [OF dig(2), of "nat x + 1" _ "[]"]
      by (auto simp: read_exponent_def val len neg nat_diff_distrib ne)
  next
    case small
    have "digits_value ([0] @ replicate (nat (- x) - 1) 0 @ ds) = sig"
      using digits_value_append [of "0 # replicate (nat (- x) - 1) 0" ds] digits_value_zeros [of "Suc (nat (- x) - 1)"]
      by (simp add: val)
    moreover have "nat (- x) - 1 + 6 = nat (5 - x)" using small by simp
    moreover have "digits_only (replicate (nat (- x) - 1) 0 @ ds)" using dig(1) by (auto simp: ball_Un)
    ultimately show ?thesis unfolding show_eq
      using small read_with_fraction [of "[0]" "replicate (nat (- x) - 1) 0 @ ds" "[]"] dig(1) first [of "[0]" _ "[]"]
      by (auto simp: read_exponent_def len neg)
  qed
  then show "read_unsigned (show_ratio p q) = real sig * 10 powi (x - 5)" "take 1 (show_ratio p q) \<noteq> ''-''" by blast+
qed

text \<open>The real number a finite double stands for.\<close>

definition real_of_double :: "double \<Rightarrow> real" where
  "real_of_double d = real_of_int (dval d) / real unit_one"

text \<open>What is printed for a finite double denotes a number that differs from it by at most half a unit
  of its sixth significant digit: for a double in the decade from \<open>10 ^ e\<close> to \<open>10 ^ (e + 1)\<close> that is half
  of \<open>10 ^ (e - 5)\<close>. Zero is printed exactly.\<close>

definition rounded_to_six :: "real \<Rightarrow> real \<Rightarrow> bool" where
  "rounded_to_six v r \<longleftrightarrow> (v = 0 \<longrightarrow> r = 0) \<and>
     (\<forall>e :: int. 10 powi e \<le> \<bar>v\<bar> \<longrightarrow> \<bar>v\<bar> < 10 powi (e + 1) \<longrightarrow> \<bar>r - v\<bar> \<le> 1 / 2 * 10 powi (e - 5))"

lemma show_double_near:
  assumes "is_finite d"
  shows "rounded_to_six (real_of_double d) (read_number (show_double d))"
proof (cases "dmag d = 0")
  case True
  have "read_unsigned ''0'' = 0" by (simp add: read_unsigned_def read_digits_def char_digit_def digits_value_def)
  then have "read_number (show_double d) = 0" "real_of_double d = 0"
    using True assms by (auto simp: show_double_def finite_not_nan finite_not_inf read_number_def real_of_double_def dval_def)
  then show ?thesis by (simp add: rounded_to_six_def)
next
  case False
  then have pos: "0 < mag_val (dmag d)" using mag_val_eq_0 [of "dmag d"] by linarith
  obtain sig x where six: "six_digits (mag_val (dmag d)) unit_one = (sig, x)" by fastforce
  note near = six_digits(3) [OF pos unit_one_pos six]
  note read = read_show_ratio [OF pos unit_one_pos six]
  let ?v = "real (mag_val (dmag d)) / real unit_one"
  have v: "real_of_double d = (if dsign d then - 1 else 1) * ?v" "0 < ?v"
    using pos unit_one_pos by (simp_all add: real_of_double_def dval_def)
  have "read_number (show_double d) = (if dsign d then - 1 else 1) * (real sig * 10 powi (x - 5))"
    using assms False read by (simp add: show_double_def finite_not_nan finite_not_inf read_number_def)
  then have "\<bar>read_number (show_double d) - real_of_double d\<bar> = \<bar>real sig * 10 powi (x - 5) - ?v\<bar>"
    unfolding v(1) by (simp add: abs_minus_commute)
  moreover have abs: "\<bar>real_of_double d\<bar> = ?v" unfolding v(1) by simp
  moreover have "real_of_double d \<noteq> 0" using abs v(2) by linarith
  ultimately show ?thesis unfolding rounded_to_six_def using near by simp
qed

text \<open>C36: the numbers in a plan's explanation are correctly rounded: in the line that \<^verbatim>\<open>explain\<close> gives for
  a ranking factor with a finite value and weight, each of the two numerals denotes a real number that
  differs from what it stands for by at most half a unit of the sixth significant digit, whatever its
  size; so by half of \<open>10 ^ (e - 5)\<close> for a number of at least \<open>10 ^ e\<close> and less than \<open>10 ^ (e + 1)\<close>, and
  a zero is printed exactly.\<close>

theorem explained_factor_accurate:
  assumes "is_finite (rf_value f)" "is_finite (rf_weight f)"
  shows "\<exists>v w. explain_factor f = RankFactorKind_to_string (rf_kind f) @ ''='' @ v @ '' w='' @ w @ '' '' @
       Provenance_to_string (rf_provenance f) @ '' :: '' @ rf_description f \<and>
     rounded_to_six (real_of_double (rf_value f)) (read_number v) \<and>
     rounded_to_six (real_of_double (rf_weight f)) (read_number w)"
  using show_double_near [OF assms(1)] show_double_near [OF assms(2)]
  by (intro exI [of _ "show_double (rf_value f)"] exI [of _ "show_double (rf_weight f)"]) (simp add: explain_factor_def)

theorem explained_factor_accurate_witness:
  "\<exists>v w. explain_factor \<lparr>rf_kind = RF_HealthMargin, rf_value = d_zero, rf_weight = d_one,
       rf_provenance = Prov_Reported, rf_description = []\<rparr> =
       RankFactorKind_to_string RF_HealthMargin @ ''='' @ v @ '' w='' @ w @ '' '' @
       Provenance_to_string Prov_Reported @ '' :: '' @ [] \<and>
     read_number v = 0 \<and> \<bar>read_number w - 1\<bar> \<le> 5 / 10 ^ 6"
proof -
  have one: "real_of_double d_one = 1" "real_of_double d_zero = 0"
    using unit_one_pos by (simp_all add: real_of_double_def dval_d_one)
  have zero: "rounded_to_six 0 r \<longleftrightarrow> r = 0" for r
  proof -
    have "\<not> (10 :: real) powi e \<le> 0" for e using zero_less_power_int [of "10 :: real" e] by linarith
    then show ?thesis by (simp add: rounded_to_six_def)
  qed
  have unit: "rounded_to_six 1 r \<Longrightarrow> \<bar>r - 1\<bar> \<le> 5 / 10 ^ 6" for r
  proof -
    assume "rounded_to_six 1 r"
    then have "\<bar>r - 1\<bar> \<le> 1 / 2 * 10 powi (0 - 5)" unfolding rounded_to_six_def by (elim conjE allE [of _ 0]) simp
    moreover have "(10 :: real) powi (- 5) = 1 / 10 ^ 5" by (simp add: power_int_def inverse_eq_divide power_one_over)
    ultimately show ?thesis by simp
  qed
  show ?thesis
    using explained_factor_accurate [of "\<lparr>rf_kind = RF_HealthMargin, rf_value = d_zero, rf_weight = d_one,
        rf_provenance = Prov_Reported, rf_description = []\<rparr>"] unit by (auto simp: one zero)
qed

section \<open>Fixed-point text\<close>

lemma digits_length_le: "0 < k \<Longrightarrow> n < 10 ^ k \<Longrightarrow> length (digits_of n) \<le> k"
proof (cases "n = 0")
  case False
  assume "n < 10 ^ k"
  moreover have "10 ^ (length (digits_of n) - 1) \<le> n" using False by (intro digits_of_length) simp
  ultimately have "(10 :: nat) ^ (length (digits_of n) - 1) < 10 ^ k" by linarith
  then have "length (digits_of n) - 1 < k" by (rule power_less_imp_less_exp [rotated]) simp
  then show ?thesis by linarith
qed (simp add: digits_of.simps [of 0])

lemma read_fixed:
  fixes n k
  defines "low \<equiv> digits_of (n mod 10 ^ k)"
  defines "f \<equiv> (if k = 0 then [] else replicate (k - length low) 0 @ low)"
  shows "read_unsigned (mantissa (digits_of (n div 10 ^ k)) f) = real n / 10 ^ k"
proof -
  have d: "digits_only (digits_of (n div 10 ^ k))" "digits_only f"
    using digits_of_bound by (auto simp: f_def low_def split: if_splits)
  have len: "length f = k"
    using digits_length_le [of k "n mod 10 ^ k"] by (auto simp: f_def low_def)
  have "digits_value f = n mod 10 ^ k"
    by (auto simp: f_def low_def digits_value_append) (simp add: digits_value_def)
  then have "digits_value (digits_of (n div 10 ^ k) @ f) = n"
    using div_mult_mod_eq [of n "10 ^ k"] by (simp add: digits_value_append len)
  then show ?thesis using read_mantissa [OF d, of "[]"] by (simp add: read_exponent_def len)
qed

theorem show_fixed_accurate:
  assumes "is_finite d"
  shows "\<bar>read_number (show_fixed k d) - real_of_double d\<bar> \<le> 1 / 2 / 10 ^ k"
proof -
  let ?m = "mag_val (dmag d)"
  define n where "n = rne (?m * 10 ^ k) unit_one"
  define f where "f = (let low = digits_of (n mod 10 ^ k) in if k = 0 then [] else replicate (k - length low) 0 @ low)"
  let ?s = "mantissa (digits_of (n div 10 ^ k)) f"
  have "show_fixed k d = (if dsign d then ''-'' else []) @ ?s"
    using assms by (simp add: show_fixed_def finite_not_nan finite_not_inf n_def f_def Let_def)
  moreover have "take 1 ?s \<noteq> ''-''"
    using digits_of_bound [of _ "n div 10 ^ k"]
    by (cases "digits_of (n div 10 ^ k)") (auto simp: digit_char_props)
  ultimately have "read_number (show_fixed k d) = (if dsign d then - 1 else 1) * (real n / 10 ^ k)"
    using read_fixed [of n k] by (auto simp: read_number_def f_def Let_def)
  moreover have "real_of_double d = (if dsign d then - 1 else 1) * (real ?m / real unit_one)"
    by (simp add: real_of_double_def dval_def)
  moreover have "\<bar>real n / 10 ^ k - real ?m / real unit_one\<bar> \<le> 1 / 2 / 10 ^ k"
  proof -
    have err: "\<bar>real n - real ?m / real unit_one * 10 ^ k\<bar> \<le> 1 / 2"
      using rne_error [OF unit_one_pos, of "?m * 10 ^ k"] by (simp add: n_def)
    have "real n / 10 ^ k - real ?m / real unit_one = (real n - real ?m / real unit_one * 10 ^ k) / 10 ^ k"
      by (simp add: diff_divide_distrib)
    then have "\<bar>real n / 10 ^ k - real ?m / real unit_one\<bar> = \<bar>real n - real ?m / real unit_one * 10 ^ k\<bar> / 10 ^ k"
      by (simp only: abs_divide power_abs abs_numeral)
    then show ?thesis using divide_right_mono [OF err, of "10 ^ k"] by simp
  qed
  ultimately show ?thesis by (auto simp: abs_le_iff)
qed

theorem show_fixed_accurate_witness:
  "\<bar>read_number (show_fixed 4 d_half) - real_of_double d_half\<bar> \<le> 1 / 2 / 10 ^ 4"
  by (rule show_fixed_accurate) (rule half_nonneg(2))

end
