(* ===== verification/Loopback.thy ===== *)
theory Loopback
  imports Listener Examples
begin

text \<open>
  The loopback measurement of the host evidence example (\<^verbatim>\<open>measure_loopback_frame_rt\<close> of
  \<^verbatim>\<open>examples/example_host_evidence.cpp\<close>): a thread accepts one connection and receives one frame,
  the caller connects, sends it and joins the thread. A step runs one of the two up to its next
  call that may wait. What the operating system does is a parameter: the calls on sockets, the
  clock, and when \<^verbatim>\<open>accept\<close> and the reads of a frame have something to return (\<open>LoopbackOs\<close>).

  Shown here: every time that is returned leads the example to its expected end, and a connection
  that fails makes the caller wait for a thread that waits for a connection.
\<close>

record 'w LoopbackOs =
  lo_api :: "'w SocketApi"
  lo_io :: "handle \<Rightarrow> 'w SocketIo"
  lo_clock :: "'w \<Rightarrow> int \<times> 'w"
  accept_ready :: "handle \<Rightarrow> 'w \<Rightarrow> bool"
  frame_ready :: "handle \<Rightarrow> 'w \<Rightarrow> bool"

datatype server = Srv_accepting | Srv_receiving TcpChannel | Srv_done

text \<open>\<open>Terminated\<close>: an exception that leaves a thread, or passes the thread object while it is
  joinable, ends the process.\<close>

datatype caller = Connecting | Given_up | Joining TcpChannel int | Returned double | Terminated

record 'w loopback =
  lb_listener :: TcpListener
  lb_port :: "16 word"
  lb_server :: server
  lb_caller :: caller
  lb_world :: 'w

section \<open>The time\<close>

definition d_thousand :: double where "d_thousand = 0x408F400000000000"

definition double_of_int :: "int \<Rightarrow> double" where
  "double_of_int i = (if i < 0 then dneg (double_of_nat (nat (- i))) else double_of_nat (nat i))"

text \<open>\<^verbatim>\<open>duration<double, std::micro>\<close> of a number of nanoseconds.\<close>

definition microseconds :: "int \<Rightarrow> double" where
  "microseconds ns = ddiv (double_of_int ns) d_thousand"

section \<open>The two threads\<close>

definition loopback_start :: "'w LoopbackOs \<Rightarrow> 'w \<Rightarrow> 'w loopback res" where
  "loopback_start os w =
     (case listener_listen (lo_api os) \<lparr>listener = 0\<rparr> 0 w of
        (Inl e, l, w1) \<Rightarrow> Inl e
      | (Inr port, l, w1) \<Rightarrow>
          Inr \<lparr>lb_listener = l, lb_port = port, lb_server = Srv_accepting, lb_caller = Connecting, lb_world = w1\<rparr>)"

definition server_accepts :: "'w LoopbackOs \<Rightarrow> 'w loopback \<Rightarrow> 'w loopback" where
  "server_accepts os L =
     (case listener_accept (lo_api os) (lb_listener L) (lb_world L) of
        (None, w1) \<Rightarrow> L\<lparr>lb_server := Srv_done, lb_world := w1\<rparr>
      | (Some ch, w1) \<Rightarrow> L\<lparr>lb_server := Srv_receiving ch, lb_world := w1\<rparr>)"

definition server_receives :: "'w LoopbackOs \<Rightarrow> TcpChannel \<Rightarrow> 'w loopback \<Rightarrow> 'w loopback" where
  "server_receives os ch L =
     (case recv_frame (lo_io os (socket ch)) ch (lb_world L) of
        (Inl e, w1) \<Rightarrow> L\<lparr>lb_caller := Terminated, lb_world := w1\<rparr>
      | (Inr m, w1) \<Rightarrow> L\<lparr>lb_server := Srv_done, lb_world := close_socket (lo_api os) (socket ch) w1\<rparr>)"

definition caller_connects :: "'w LoopbackOs \<Rightarrow> 'w loopback \<Rightarrow> 'w loopback" where
  "caller_connects os L =
     (case channel_connect (lo_api os) ''127.0.0.1'' (lb_port L) (lb_world L) of
        (None, w1) \<Rightarrow> L\<lparr>lb_caller := Given_up, lb_world := w1\<rparr>
      | (Some ch, w1) \<Rightarrow>
          (let (t0, w2) = lo_clock os w1 in
           case send_frame (lo_io os (socket ch)) ch HELLO (replicate 1024 7) 0 w2 of
             (Inl e, w3) \<Rightarrow> L\<lparr>lb_caller := Terminated, lb_world := w3\<rparr>
           | (Inr _, w3) \<Rightarrow> L\<lparr>lb_caller := Joining ch t0, lb_world := w3\<rparr>))"

text \<open>After \<^verbatim>\<open>join\<close>; the channel and the listener are closed on the way out.\<close>

definition caller_joined :: "'w LoopbackOs \<Rightarrow> TcpChannel \<Rightarrow> int \<Rightarrow> 'w loopback \<Rightarrow> 'w loopback" where
  "caller_joined os ch t0 L =
     (let (t1, w1) = lo_clock os (lb_world L);
          (l, w2) = listener_done (lo_api os) (lb_listener L) (close_socket (lo_api os) (socket ch) w1) in
      L\<lparr>lb_listener := l, lb_caller := Returned (microseconds (t1 - t0)), lb_world := w2\<rparr>)"

definition caller_gives_up :: "'w LoopbackOs \<Rightarrow> 'w loopback \<Rightarrow> 'w loopback" where
  "caller_gives_up os L =
     (let (l, w1) = listener_done (lo_api os) (lb_listener L) (lb_world L) in
      L\<lparr>lb_listener := l, lb_caller := Returned (dneg d_one), lb_world := w1\<rparr>)"

inductive loopback_step :: "'w LoopbackOs \<Rightarrow> 'w loopback \<Rightarrow> 'w loopback \<Rightarrow> bool" for os where
  accepts: "lb_caller L \<noteq> Terminated \<Longrightarrow> lb_server L = Srv_accepting \<Longrightarrow>
    accept_ready os (listener (lb_listener L)) (lb_world L) \<Longrightarrow> loopback_step os L (server_accepts os L)"
| receives: "lb_caller L \<noteq> Terminated \<Longrightarrow> lb_server L = Srv_receiving ch \<Longrightarrow>
    frame_ready os (socket ch) (lb_world L) \<Longrightarrow> loopback_step os L (server_receives os ch L)"
| connects: "lb_caller L = Connecting \<Longrightarrow> loopback_step os L (caller_connects os L)"
| joins: "lb_caller L = Joining ch t0 \<Longrightarrow> lb_server L = Srv_done \<Longrightarrow> loopback_step os L (caller_joined os ch t0 L)"
| gives_up: "lb_caller L = Given_up \<Longrightarrow> lb_server L = Srv_done \<Longrightarrow> loopback_step os L (caller_gives_up os L)"

inductive_cases loopback_stepE: "loopback_step os L L'"

section \<open>The error path\<close>

text \<open>When the connection is refused and nobody else connects to the listener, the caller joins a
  thread that never ends: after the refusal no step is possible, and nothing was returned.\<close>

theorem refused_connection_hangs:
  assumes "loopback_start os w = Inr L" "channel_connect (lo_api os) ''127.0.0.1'' (lb_port L) (lb_world L) = (None, w1)"
    and "\<not> accept_ready os (listener (lb_listener L)) (lb_world L)" "\<not> accept_ready os (listener (lb_listener L)) w1"
    and "(loopback_step os)\<^sup>*\<^sup>* L M"
  shows "M = L \<or> M = L\<lparr>lb_caller := Given_up, lb_world := w1\<rparr> \<and> (\<forall>N. \<not> loopback_step os M N)"
proof -
  let ?G = "L\<lparr>lb_caller := Given_up, lb_world := w1\<rparr>"
  have L: "lb_server L = Srv_accepting" "lb_caller L = Connecting"
    using assms(1) by (auto simp: loopback_start_def split: prod.splits sum.splits)
  have stuck: "\<not> loopback_step os ?G N" for N
    using L(1) assms(4) by (auto elim!: loopback_stepE)
  have "caller_connects os L = ?G" by (simp add: caller_connects_def assms(2))
  then have first: "N = ?G" if "loopback_step os L N" for N
    using that L assms(3) by (auto elim!: loopback_stepE)
  from assms(5) have "M = L \<or> M = ?G"
    by (induction rule: rtranclp_induct) (use first stuck in blast)+
  then show ?thesis using stuck by blast
qed

section \<open>The measured time\<close>

lemma thousand: "is_finite d_thousand" "0 < dval d_thousand" "unit_one \<le> mag_val (dmag d_thousand)"
proof -
  have m: "1023 * hid \<le> dmag d_thousand" "dmag d_thousand < mag_inf" "\<not> dsign d_thousand"
    by (simp_all add: dmag_def d_thousand_def sgnbit_def mag_inf_def hid_def dsign_def)
  then show "is_finite d_thousand" "0 < dval d_thousand" "unit_one \<le> mag_val (dmag d_thousand)"
    using mag_val_le_iff [of "1023 * hid" "dmag d_thousand"] unit_one_pos
    by (simp_all add: is_finite_def dval_def del: mag_val_le_iff unit_one_pos)
qed

lemma quotient_finite:
  assumes "is_finite x" "is_finite y" "unit_one \<le> mag_val (dmag y)"
  shows "is_finite (ddiv x y)"
proof -
  have y: "0 < mag_val (dmag y)" using unit_one_pos assms(3) by (rule less_le_trans)
  then have "round_mag (mag_val (dmag x) * unit_one) (mag_val (dmag y)) \<le> dmag x"
    using assms(1,3) by (intro round_mag_le) (auto simp: is_finite_def)
  moreover have "dmag x < mag_inf" using assms(1) by (simp add: is_finite_def)
  ultimately have "round_mag (mag_val (dmag x) * unit_one) (mag_val (dmag y)) < mag_inf" by simp
  moreover have "dmag y \<noteq> 0" using y by (metis mag_val_0 less_irrefl)
  ultimately show ?thesis
    using assms(1,2) by (simp add: ddiv_def Let_def finite_not_nan finite_not_inf) (simp add: is_finite_def)
qed

lemma microseconds_finite:
  assumes "\<bar>ns\<bar> < 2 ^ 64"
  shows "is_finite (microseconds ns)"
proof -
  have "is_finite (double_of_int ns)"
    using double_of_nat_nonneg [of "nat ns"] double_of_nat_nonneg [of "nat (- ns)"] assms
    by (auto simp: double_of_int_def nonneg_def)
  with thousand quotient_finite show ?thesis by (simp add: microseconds_def)
qed

text \<open>The clock counts its ticks in 64 bits.\<close>

definition ticks_documented :: "'w LoopbackOs \<Rightarrow> bool" where
  "ticks_documented os \<longleftrightarrow> (\<forall>w. 0 \<le> fst (lo_clock os w) \<and> fst (lo_clock os w) < 2 ^ 63)"

definition times_ok :: "'w loopback \<Rightarrow> bool" where
  "times_ok L \<longleftrightarrow>
     (case lb_caller L of
        Joining ch t0 \<Rightarrow> 0 \<le> t0 \<and> t0 < 2 ^ 63
      | Returned us \<Rightarrow> is_finite us
      | _ \<Rightarrow> True)"

lemma times_ok_step:
  assumes "ticks_documented os" "times_ok L" "loopback_step os L M"
  shows "times_ok M"
  using assms(3)
proof (rule loopback_stepE)
  have tick: "0 \<le> t \<and> t < 2 ^ 63" if "lo_clock os w = (t, w1)" for w t w1
    using assms(1) that unfolding ticks_documented_def by (metis fst_conv)
  show "times_ok M" if "M = server_accepts os L"
    using assms(2) by (simp add: that server_accepts_def times_ok_def split: prod.split option.split)
  show "times_ok M" if "M = server_receives os ch L" for ch
    using assms(2) by (simp add: that server_receives_def times_ok_def split: prod.split sum.split)
  show "times_ok M" if "M = caller_connects os L"
    by (auto simp: that caller_connects_def times_ok_def Let_def dest: tick split: prod.split option.split sum.split)
  show "times_ok M" if "M = caller_joined os ch t0 L" "lb_caller L = Joining ch t0" for ch t0
  proof -
    obtain t1 w1 where t1: "lo_clock os (lb_world L) = (t1, w1)" by fastforce
    have "\<bar>t1 - t0\<bar> < 2 ^ 64" using tick [OF t1] assms(2) that(2) by (auto simp: times_ok_def)
    then show ?thesis
      using microseconds_finite by (simp add: that(1) caller_joined_def times_ok_def t1 split: prod.split)
  qed
  show "times_ok M" if "M = caller_gives_up os L"
    by (simp add: that caller_gives_up_def times_ok_def split: prod.split)
qed

text \<open>Whatever time the measurement returns, however its two threads interleave and whatever the
  sockets do, the example prints that it passed and exits with 0.\<close>

theorem measured_example_passes:
  assumes "ticks_documented os" "loopback_start os w = Inr L" "(loopback_step os)\<^sup>*\<^sup>* L M" "lb_caller M = Returned us"
  shows "\<exists>out. host_evidence_main bytes us = Inr (0, out)"
proof -
  have "times_ok L"
    using assms(2) by (auto simp: loopback_start_def times_ok_def split: prod.splits sum.splits)
  with assms(3) have "times_ok M" by (induction rule: rtranclp_induct) (blast intro: times_ok_step [OF assms(1)])+
  then have "is_finite us" using assms(4) by (simp add: times_ok_def)
  then show ?thesis using host_evidence_passes [of us bytes] finite_not_inf by simp
qed

section \<open>Two networks\<close>

text \<open>One that refuses every connection, and one that passes the bytes of its single stream on.\<close>

definition refusing_os :: "(handle set \<times> handle) LoopbackOs" where
  "refusing_os = \<lparr>lo_api = counting_api,
     lo_io = (\<lambda>_. \<lparr>recv_call = (\<lambda>_ w. (RecvError, w)), send_call = (\<lambda>_ w. (None, w))\<rparr>),
     lo_clock = (\<lambda>w. (0, w)), accept_ready = (\<lambda>_ _. False), frame_ready = (\<lambda>_ _. False)\<rparr>"

theorem refused_connection_hangs_witness:
  "\<exists>L M. loopback_start refusing_os ({}, 5) = Inr L \<and> (loopback_step refusing_os)\<^sup>*\<^sup>* L M \<and>
     lb_caller M = Given_up \<and> (\<forall>N. \<not> loopback_step refusing_os M N)"
proof -
  have refuses: "fst (channel_connect (lo_api refusing_os) h p w) = None" for h p w
    by (cases w) (auto simp: channel_connect_def refusing_os_def counting_api_def Let_def)
  obtain L where L: "loopback_start refusing_os ({}, 5) = Inr L"
    by (simp add: loopback_start_def listener_listen_def refusing_os_def counting_api_def Let_def)
  obtain w1 where w1: "channel_connect (lo_api refusing_os) ''127.0.0.1'' (lb_port L) (lb_world L) = (None, w1)"
    using refuses [of "''127.0.0.1''" "lb_port L" "lb_world L"] by (metis prod.collapse)
  let ?M = "L\<lparr>lb_caller := Given_up, lb_world := w1\<rparr>"
  have "lb_caller L = Connecting" using L by (auto simp: loopback_start_def split: prod.splits sum.splits)
  from loopback_step.connects [OF this, of refusing_os] have "loopback_step refusing_os L ?M"
    by (simp add: caller_connects_def w1)
  then have step: "(loopback_step refusing_os)\<^sup>*\<^sup>* L ?M" by simp
  have quiet: "\<not> accept_ready refusing_os h w" for h w by (simp add: refusing_os_def)
  have "?M \<noteq> L" using \<open>lb_caller L = Connecting\<close> by (metis caller.distinct(1) loopback.select_convs(4) loopback.surjective loopback.update_convs(4,5))
  with refused_connection_hangs [OF L w1 quiet quiet step] have "\<forall>N. \<not> loopback_step refusing_os ?M N" by blast
  with L step show ?thesis by (intro exI [of _ L] exI [of _ ?M]) simp
qed

text \<open>Handles, the bytes under way and the time in nanoseconds.\<close>

definition wire_os :: "(handle \<times> byte list \<times> int) LoopbackOs" where
  "wire_os =
     (let fresh = (\<lambda>(h, b, t). (Some h, (h + 1, b, t))) in
      \<lparr>lo_api = \<lparr>open_socket = fresh, parse_ipv4 = (\<lambda>_. Some INADDR_LOOPBACK),
         connect_to = (\<lambda>s a p w. (True, w)), set_reuse = (\<lambda>s w. w), bind_to = (\<lambda>s a p w. (True, w)),
         listen_on = (\<lambda>s n w. (True, w)), bound_port = (\<lambda>s w. 7000), accept_from = (\<lambda>l. fresh),
         close_socket = (\<lambda>s w. w)\<rparr>,
       lo_io = (\<lambda>_. \<lparr>
         recv_call = (\<lambda>n (h, b, t). (Received (take n b), (h, drop n b, t))),
         send_call = (\<lambda>bs (h, b, t). (Some (length bs), (h, b @ bs, t)))\<rparr>),
       lo_clock = (\<lambda>(h, b, t). (0 + min (2 ^ 62) \<bar>t\<bar>, (h, b, t + 1500))),
       accept_ready = (\<lambda>_ _. True), frame_ready = (\<lambda>_ (h, b, t). b \<noteq> [])\<rparr>)"

lemma wire_documented:
  "ticks_documented wire_os" "delivers (lo_io wire_os s) (\<lambda>(h, b, t). b)" "accepts (lo_io wire_os s) (\<lambda>(h, b, t). b)"
  by (auto simp: ticks_documented_def delivers_def accepts_def wire_os_def Let_def)

text \<open>A run in the order connect, accept, receive, join.\<close>

lemma wire_run:
  "\<exists>L M us. loopback_start wire_os (4, [], 0) = Inr L \<and> (loopback_step wire_os)\<^sup>*\<^sup>* L M \<and> lb_caller M = Returned us"
proof -
  let ?wire = "\<lambda>(h :: handle, b :: byte list, t :: int). b"
  define L where "L = \<lparr>lb_listener = \<lparr>listener = 4\<rparr>, lb_port = 7000, lb_server = Srv_accepting,
      lb_caller = Connecting, lb_world = (5 :: handle, [] :: byte list, 0 :: int)\<rparr>"
  have start: "loopback_start wire_os (4, [], 0) = Inr L"
    by (simp add: loopback_start_def listener_listen_def wire_os_def L_def Let_def)
  have conn: "channel_connect (lo_api wire_os) ''127.0.0.1'' 7000 (5, [], 0) = (Some \<lparr>socket = 5\<rparr>, (6, [], 0))"
    "lo_clock wire_os (6, [], 0) = (0, (6, [], 1500))"
    by (simp_all add: channel_connect_def wire_os_def Let_def)
  obtain bs where bs: "encode_frame HELLO (replicate 1024 7) 0 = Inr bs" by (simp add: encode_frame_def Let_def)
  then have "bs \<noteq> []" by (auto simp: encode_frame_def Let_def frame_header_def put_u32_def split: if_splits)
  have "send_loop (lo_io wire_os 5) bs (6, [], 1500) = (Inr (), (6, bs, 1500))"
    using \<open>bs \<noteq> []\<close> by (subst send_loop.simps) (simp add: wire_os_def Let_def send_loop.simps)
  then have send: "send_frame (lo_io wire_os 5) \<lparr>socket = 5\<rparr> HELLO (replicate 1024 7) 0 (6, [], 1500) = (Inr (), (6, bs, 1500))"
    by (simp add: send_frame_def bs send_all_def)
  define C where "C = L\<lparr>lb_caller := Joining \<lparr>socket = 5\<rparr> 0, lb_world := (6, bs, 1500)\<rparr>"
  have 1: "loopback_step wire_os L C"
    using loopback_step.connects [of L wire_os] by (simp add: L_def C_def caller_connects_def conn send)
  define A where "A = C\<lparr>lb_server := Srv_receiving \<lparr>socket = 6\<rparr>, lb_world := (7, bs, 1500)\<rparr>"
  have "server_accepts wire_os C = A"
    by (simp add: server_accepts_def listener_accept_def A_def C_def L_def wire_os_def Let_def)
  then have 2: "loopback_step wire_os C A"
    using loopback_step.accepts [of C wire_os] by (simp add: C_def L_def wire_os_def Let_def)
  have "fst (recv_frame (lo_io wire_os 6) \<lparr>socket = 6\<rparr> (7, bs, 1500)) = Inr (HELLO, replicate 1024 7)"
    using recv_frame_decodes [OF wire_documented(2), of "\<lparr>socket = 6\<rparr>" 6 "(7, bs, 1500)"]
      decode_frame_round [OF bs, of "[]"] by simp
  then obtain w where rec: "recv_frame (lo_io wire_os 6) \<lparr>socket = 6\<rparr> (7, bs, 1500) = (Inr (HELLO, replicate 1024 7), w)"
    by (metis prod.collapse)
  define R where "R = A\<lparr>lb_server := Srv_done, lb_world := w\<rparr>"
  have "server_receives wire_os \<lparr>socket = 6\<rparr> A = R"
    by (simp add: server_receives_def R_def A_def rec) (simp add: wire_os_def Let_def)
  then have 3: "loopback_step wire_os A R"
    using loopback_step.receives [of A "\<lparr>socket = 6\<rparr>" wire_os] \<open>bs \<noteq> []\<close>
    by (simp add: A_def C_def) (simp add: wire_os_def Let_def)
  have 4: "loopback_step wire_os R (caller_joined wire_os \<lparr>socket = 5\<rparr> 0 R)"
    by (rule loopback_step.joins) (simp_all add: R_def A_def C_def)
  have "\<exists>us. lb_caller (caller_joined wire_os \<lparr>socket = 5\<rparr> 0 R) = Returned us"
    by (simp add: caller_joined_def split: prod.split)
  then obtain us where "lb_caller (caller_joined wire_os \<lparr>socket = 5\<rparr> 0 R) = Returned us" by blast
  moreover have "(loopback_step wire_os)\<^sup>*\<^sup>* L (caller_joined wire_os \<lparr>socket = 5\<rparr> 0 R)"
    using 1 2 3 4 by (meson rtranclp.rtrancl_refl rtranclp.rtrancl_into_rtrancl)
  ultimately show ?thesis using start by blast
qed

theorem measured_example_passes_witness:
  "\<exists>L M us out. loopback_start wire_os (4, [], 0) = Inr L \<and> (loopback_step wire_os)\<^sup>*\<^sup>* L M \<and>
     lb_caller M = Returned us \<and> host_evidence_main 33554432 us = Inr (0, out)"
  using wire_run measured_example_passes [OF wire_documented(1)] by metis

end
