(* ===== verification/Result_Helper.thy ===== *)
theory Result_Helper
  imports Prelude
begin

text \<open>
  The \<^verbatim>\<open>Result\<close> template of \<^verbatim>\<open>core/result.hpp\<close>: a value, or a code and a message, and its
  specialisation for \<^verbatim>\<open>void\<close>. \<open>value\<close> throws a \<^verbatim>\<open>FabricError\<close> when there is none; \<open>error\<close> of a
  result that holds a value leaves the class with the library's \<^verbatim>\<open>bad_variant_access\<close>, and so do
  its \<^verbatim>\<open>noexcept\<close> halves, which then end the process (\<open>None\<close> here). The void
  specialisation keeps a code and an empty message when it holds no error.
\<close>

datatype 'a Result = Result_ok 'a | Result_err ErrorCode string

fun has_value :: "'a Result \<Rightarrow> bool" where
  "has_value (Result_ok _) = True"
| "has_value (Result_err _ _) = False"

fun is_err :: "'a Result \<Rightarrow> bool" where
  "is_err (Result_ok _) = False"
| "is_err (Result_err _ _) = True"

fun result_value :: "'a Result \<Rightarrow> 'a res" where
  "result_value (Result_ok v) = Inr v"
| "result_value (Result_err _ _) = throw Internal ''Result has no value''"

fun result_error :: "'a Result \<Rightarrow> (ErrorCode \<times> string) option" where
  "result_error (Result_ok _) = None"
| "result_error (Result_err c m) = Some (c, m)"

record VoidResult =
  has_error :: bool
  vr_code :: ErrorCode
  vr_message :: string

definition void_ok :: VoidResult where
  "void_ok = \<lparr>has_error = False, vr_code = Internal, vr_message = []\<rparr>"

definition void_err :: "ErrorCode \<Rightarrow> string \<Rightarrow> VoidResult" where
  "void_err c m = \<lparr>has_error = True, vr_code = c, vr_message = m\<rparr>"

definition void_error :: "VoidResult \<Rightarrow> ErrorCode \<times> string" where
  "void_error r = (vr_code r, vr_message r)"

text \<open>Exactly one of the accessors succeeds, and the two cover what was put in.\<close>

lemma result_access:
  "has_value r \<longleftrightarrow> \<not> is_err r" "has_value r \<longleftrightarrow> result_error r = None"
  "result_value r = Inr v \<longleftrightarrow> r = Result_ok v" "result_error r = Some (c, m) \<longleftrightarrow> r = Result_err c m"
  by (cases r; auto)+

lemma void_access:
  "void_error (void_err c m) = (c, m)" "has_error (void_err c m)" "\<not> has_error void_ok"
  by (simp_all add: void_error_def void_err_def void_ok_def)

end
