(* ===== verification/Spec2Isabelle.thy ===== *)
theory Spec2Isabelle
  imports Cuda_Death Save_Race Benchmark_Threads Decimal Loopback Result_Helper
begin

text \<open>
  Fabric Scheduler: a model of the scheduler library, of the coordinator and worker processes
  built on it and of the programs that prove and show it at work, with the theorems that make
  them correct.

  \<^bold>\<open>The program.\<close> A scheduler places workload requests on candidates: evidence that sources
  publish about devices (capacity, health, congestion, locality, ...). A request is validated,
  every known candidate goes through a hard filter, the eligible ones are ranked, and the best
  becomes a placement plan. A plan moves through a lifecycle: its claims are committed by a
  resource broker, its execution is authorised by an execution fabric, and it is revalidated,
  cancelled or superseded when the world moves. Generations and epochs fence plans and workers
  of the past. The coordinator process serves a framed TCP protocol over one scheduler, with one
  thread per connection, to worker processes; it fences a worker whose connection is lost and
  saves the scheduler's state to a file. A CUDA worker runs verified work on its device.

  \<^bold>\<open>Theories and sources\<close> (under \<^verbatim>\<open>src/\<close>, headers under \<^verbatim>\<open>include/fabric_scheduler/\<close>):

  \<^item> \<open>Prelude\<close> (error values, decimal printing, enum codes), \<open>Ordered_Map\<close> (\<^verbatim>\<open>std::map\<close>,
    \<^verbatim>\<open>std::unordered_set\<close>; locale \<open>key_store\<close>), \<open>Binary64\<close> (IEEE doubles as 64-bit words),
    \<open>Std_Sort\<close> (\<^verbatim>\<open>std::sort\<close>), \<open>Core_Types\<close> (\<^verbatim>\<open>core/\<close>), \<open>Result_Helper\<close> (\<^verbatim>\<open>core/result.hpp\<close>).
  \<^item> \<open>Request\<close>, \<open>Candidate\<close>, \<open>Policy\<close>, \<open>Eligibility\<close>, \<open>Ranking\<close>, \<open>Placement\<close>, \<open>Revalidation\<close>,
    \<open>Adapters\<close>: the files of the same names. \<open>Scenario\<close>: the factories of the tools.
  \<^item> \<open>Scheduler\<close>: \<^verbatim>\<open>scheduler.cpp\<close>; one function per method on the state the mutex protects, a
    method that drops the mutex split into \<open>_begin\<close> and \<open>_finish\<close>. \<open>Explain\<close>: \<^verbatim>\<open>Scheduler::explain\<close>
    with the numbers it prints; \<open>Decimal\<close>: a reader of decimal texts, to say how exact they are.
  \<^item> \<open>Scheduler_Invariants\<close> (what every critical section keeps), \<open>Interleaving\<close> (many threads over
    one scheduler as a step relation), \<open>Scheduler_Properties\<close> (the promises of each method),
    \<open>Scheduler_Runs\<close> (the good path of a plan, call by call), \<open>Ranking_Monotone\<close> (the ranking is
    monotone in the evidence).
  \<^item> \<open>Coding\<close> (\<^verbatim>\<open>coding.hpp\<close>; locale \<open>codec\<close>), \<open>Record_Codecs\<close> and \<open>Persistence\<close>
    (\<^verbatim>\<open>persistence.cpp\<close>), \<open>Persistence_Properties\<close>.
  \<^item> \<open>Protocol\<close> (\<^verbatim>\<open>protocol.cpp\<close>), \<open>Net\<close> and \<open>Listener\<close> (\<^verbatim>\<open>net.cpp\<close>).
  \<^item> \<open>Coordinator\<close> (\<^verbatim>\<open>tools/coordinator_main.cpp\<close>, one turn of a connection as one step) with
    \<open>Coordinator_Turns\<close> (what a turn may do) and \<open>Coordinator_Properties\<close>; \<open>Coordinator_Threads\<close>
    (the same handlers cut at every lock and unlock, the accept loop and the process as a step
    relation) with \<open>Thread_Properties\<close>; \<open>Save_Race\<close> (the state file under several SAVEs).
  \<^item> \<open>Worker\<close> (\<^verbatim>\<open>tools/worker_main.cpp\<close>), \<open>Cuda_Worker\<close> (\<^verbatim>\<open>cuda/src/cuda_worker_main.cpp\<close>),
    \<open>Command_Line\<close> (the command lines and \<^verbatim>\<open>main\<close> of the three processes), \<open>Cuda_Device\<close>
    (\<^verbatim>\<open>cuda/src/fabric_cuda.cu\<close>).
  \<^item> \<open>Cuda_Proof\<close> (\<^verbatim>\<open>cuda/src/cuda_proof.cpp\<close>), \<open>Win_Process\<close> and \<open>Cuda_Death\<close>
    (\<^verbatim>\<open>cuda/src/cuda_worker_death_proof.cpp\<close>: child processes, and the proof's five phases),
    \<open>Examples\<close> (\<^verbatim>\<open>examples/\<close>, \<^verbatim>\<open>tools/fabric_inspect.cpp\<close>), \<open>Loopback\<close> (the two threads that measure
    a round trip in \<^verbatim>\<open>examples/example_host_evidence.cpp\<close>), \<open>Benchmark\<close> and \<open>Benchmark_Threads\<close>
    (\<^verbatim>\<open>benchmarks/bench_candidate.cpp\<close> without its clock: a scenario, its throughput threads).

  \<^bold>\<open>Correspondence.\<close> Structs and classes are records, enums datatypes with their codes in a list,
  64-bit counters and ids words that wrap, doubles their bit patterns with rounding written out,
  strings and byte vectors lists. A thrown \<^verbatim>\<open>FabricError\<close> is the left value of a sum, and the state
  a throwing method leaves behind is returned beside it. A reader is a function from the unread
  bytes. Abstract base classes are records of functions over their owner's state.

  Code outside the repository is a parameter over one world: sockets and their calls, the state
  file (\<open>SocketIo\<close>, \<open>SocketApi\<close>, \<open>Host\<close>, \<open>LoopbackOs\<close>), the CUDA runtime (\<open>CudaRuntime\<close>), the calls of Windows on
  processes, pipes and files (\<open>WinApi\<close>). What is assumed of them is documented behaviour, as the
  predicates \<open>delivers\<close>, \<open>accepts\<close>, \<open>quiet\<close>, \<open>stores_files\<close>, \<open>handles_documented\<close>,
  \<open>buffers_documented\<close>, \<open>device_documented\<close>, \<open>win_handles_documented\<close>, \<open>clock_documented\<close> and
  \<open>ticks_documented\<close>, each shown to hold of a concrete instance.

  \<^bold>\<open>What is shown.\<close>
  \<^item> Under every interleaving of threads, with any answers of broker and execution fabric: a plan
    has commitment evidence only if the broker committed it, is ACTIVE only if it was authorised,
    the broker is asked at most once for a plan, no commitment is lost, and the scheduler's
    invariant holds (\<open>Scheduler_Properties\<close>).
  \<^item> The hard filter accepts exactly the candidates that meet the declared constraints; the
    comparator is a linear order on finite evidence, so that on such evidence the plan selects a best
    candidate, and among candidates with locality distances in range a dominated one is never
    selected; every method's outcome on every branch. Any number of threads that repeat a schedule
    agree with one call. The finite numbers \<open>explain\<close> prints read back within half a unit of their
    sixth digit.
  \<^item> The file and the wire: round trips (of a snapshot, up to the topology generations its demands
    pin, which no file keeps), canonical decoding, refusal of truncated and altered bytes, wholeness
    of every snapshot that loads.
  \<^item> The transport refines the specification \<open>decode_frame\<close> of receiving a frame, however the
    stream is cut; a frame that is sent arrives; no handle is lost on an error path.
  \<^item> The coordinator: the process with all its threads, cut at every lock, refines the thread
    model of \<open>Interleaving\<close>, so that the properties of the scheduler hold for it; a turn is the run
    of its thread that nothing interrupts; a worker whose connection is lost is placed by no
    filtering that reads the fenced set afterwards, under every interleaving, and what was planned
    before cannot be launched; a malformed payload changes nothing; the saved file loads if the
    readers accept its records; a connection thread ends with its stream; what a worker with a boot
    number publishes reaches the scheduler. A SAVE
    that no other overlaps leaves a whole snapshot; two that overlap can leave a file that no load
    accepts.
  \<^item> The processes: the arguments a launcher writes are the ones the worker reads, and the port the
    coordinator announces is the one it listens on; starting a child loses no handle on any path.
  \<^item> The device: a run that reports success has computed what it claims on a device that works as
    documented, whose threads stay within the buffers in any order, and every run that returns gives
    back its memory (one whose host memory is exhausted throws, and leaks it); the exit code of the placement proof is
    decided by the device alone; the death proof's replayed evidence of a dead worker is refused.
  \<^item> The examples print and return what they announce, whatever time a loopback exchange takes,
    but one of them waits for ever when its connection is refused; the benchmark's dense scenario
    rejects no candidate and its heavy one every seventh, at every scale below 2^63, and its 800
    concurrent calls confirm the winner under every interleaving.

  \<^bold>\<open>Termination and bounds.\<close> The loops that send and receive terminate by the bytes that remain,
  whatever the socket returns. The connection loop and the worker's loop run as long as their peer
  sends (\<open>partial_function\<close>); they are shown to return when the stream is finite, the former within
  one turn more than it has room for frames of 20 bytes. Waiting for a child's output ends by its deadline
  when the clock advances. A plan counter of 64 bits bounds the runs whose snapshot is shown to be
  whole: fewer than 2^64 - 1 critical sections, or 2^60 turns of the coordinator, of at most three
  facade calls each. No fuel is used.

  \<^bold>\<open>Not modelled, and why.\<close> Memory exhaustion, but for the host's vectors of a
  device run, and other exceptions of the library than \<^verbatim>\<open>FabricError\<close> (nothing in the code handles
  them, bar last handlers in the coordinator and the placement proof); \<^verbatim>\<open>Scheduler::restore\<close> as a step
  of the interleaving, as no process calls it while other threads run; what a conversion of a double
  to an integer gives when the value does not fit (undefined in C++; the model keeps the low half, as
  x86-64 does); the texts
  the processes and proofs print, other than the announcement that another process reads; the
  start of Winsock and the temporary directory of the death proof; the fixture file of the host
  evidence example (its size is a parameter) and when the operating system lets a blocked call
  return (a parameter too); fused multiply-add, which a compiler may use in the kernel; the clock
  of the benchmark and the tables printed from its readings; the tests, which drive the library
  and hold no logic of the program. What is left are prints, includes and declarations.
  The memory model is that of the mutex: a critical section is atomic. The coordinator's threads
  write the file of SAVE in one step; \<open>Save_Race\<close> shows what that leaves out.
\<close>

end
